(* ===== verification/Rapp_Prelude.thy ===== *)
theory Rapp_Prelude
  imports Main "HOL-Library.Monad_Syntax"
begin

text \<open>
  The prelude of the development: the named theorem collections the component theories
  feed, type names shared by all of them, and the generic interfaces for a component that
  is driven by a sequence of operations.  A component whose operations always return is a
  \<open>stepper\<close>; one whose operations may hit undefined behaviour or a failed \<open>assert\<close> (the
  value \<open>None\<close> throughout) is a \<open>partial_stepper\<close>.  Both lift facts about one operation
  to every sequence of operations, once and for all components.
\<close>

section \<open>Collections and type names\<close>

named_theorems mem_simps \<open>how the memory operations change the allocator state\<close>
named_theorems owned_simps \<open>how many heap blocks a value owns\<close>
named_theorems char_simps \<open>evaluation of the C character functions\<close>

type_synonym addr = nat
type_synonym bytes = "char list"

section \<open>Lists\<close>

lemma find_append:
  "find P (xs @ ys) = (case find P xs of None \<Rightarrow> find P ys | Some x \<Rightarrow> Some x)"
  by (induction xs) auto

lemma find_Some_in: "find P xs = Some x \<Longrightarrow> x \<in> set xs \<and> P x"
  by (induction xs) (auto split: if_splits)

lemma find_None_all: "find P xs = None \<Longrightarrow> x \<in> set xs \<Longrightarrow> \<not> P x"
  by (induction xs) (auto split: if_splits)

lemma take_drop_append: "take n xs @ take k (drop n xs) = take (n + k) xs"
  by (simp add: take_add)

lemma list_update_same_length_take:
  "k \<le> i \<Longrightarrow> take k (xs[i := x]) = take k xs"
  by (simp add: take_update_swap list_update_beyond)

lemma remdups_drop_repeated:
  "d \<in> set ys \<Longrightarrow> remdups (xs @ d # ys) = remdups (xs @ ys)"
  by (induction xs) auto

section \<open>Components driven by operations\<close>

locale stepper =
  fixes step :: "'e \<Rightarrow> 's \<Rightarrow> 's"
    and inv :: "'s \<Rightarrow> bool"
  assumes step_inv: "inv s \<Longrightarrow> inv (step e s)"
begin

lemma fold_inv: "inv s \<Longrightarrow> inv (fold step es s)"
  by (induction es arbitrary: s) (auto intro: step_inv)

end

text \<open>An accounted stepper also leaves a quantity of the state unchanged.\<close>

locale accounted_stepper = stepper step inv
  for step :: "'e \<Rightarrow> 's \<Rightarrow> 's" and inv :: "'s \<Rightarrow> bool" +
  fixes quantity :: "'s \<Rightarrow> int"
  assumes step_quantity: "inv s \<Longrightarrow> quantity (step e s) = quantity s"
begin

lemma fold_quantity: "inv s \<Longrightarrow> quantity (fold step es s) = quantity s"
  by (induction es arbitrary: s) (simp_all add: step_quantity step_inv)

end

text \<open>
  Operations with a precondition: along a sequence each one is applied where it fits.  The quantity is kept,
  and a relation that every fitting operation keeps to holds from the beginning to the end.
\<close>

fun steps_fit :: "('e \<Rightarrow> 's \<Rightarrow> bool) \<Rightarrow> ('e \<Rightarrow> 's \<Rightarrow> 's) \<Rightarrow> 'e list \<Rightarrow> 's \<Rightarrow> bool" where
  "steps_fit fits step [] s \<longleftrightarrow> True"
| "steps_fit fits step (e # es) s \<longleftrightarrow> fits e s \<and> steps_fit fits step es (step e s)"

locale guarded_stepper =
  fixes step :: "'e \<Rightarrow> 's \<Rightarrow> 's"
    and fits :: "'e \<Rightarrow> 's \<Rightarrow> bool"
    and inv :: "'s \<Rightarrow> bool"
    and rel :: "'s \<Rightarrow> 's \<Rightarrow> bool"
  assumes fit_inv: "inv s \<Longrightarrow> fits e s \<Longrightarrow> inv (step e s)"
    and fit_rel: "inv s \<Longrightarrow> fits e s \<Longrightarrow> rel s (step e s)"
    and rel_refl: "rel s s"
    and rel_trans: "rel s t \<Longrightarrow> rel t u \<Longrightarrow> rel s u"
begin

lemma fold_fit: "inv s \<Longrightarrow> steps_fit fits step es s \<Longrightarrow> inv (fold step es s) \<and> rel s (fold step es s)"
  by (induction es arbitrary: s) (auto intro: fit_inv fit_rel rel_refl rel_trans)

end

fun run_opt :: "('e \<Rightarrow> 's \<Rightarrow> 's option) \<Rightarrow> 'e list \<Rightarrow> 's \<Rightarrow> 's option" where
  "run_opt f [] s = Some s"
| "run_opt f (e # es) s = Option.bind (f e s) (run_opt f es)"

lemma run_opt_append:
  "run_opt f (es @ fs) s = Option.bind (run_opt f es s) (run_opt f fs)"
  by (induction es arbitrary: s) (auto split: Option.bind_splits)

locale partial_stepper =
  fixes pstep :: "'e \<Rightarrow> 's \<Rightarrow> 's option"
    and pinv :: "'s \<Rightarrow> bool"
  assumes pstep_inv: "pinv s \<Longrightarrow> pstep e s = Some t \<Longrightarrow> pinv t"
begin

lemma run_inv: "pinv s \<Longrightarrow> run_opt pstep es s = Some t \<Longrightarrow> pinv t"
  by (induction es arbitrary: s) (auto split: Option.bind_splits intro: pstep_inv)

end

text \<open>
  A simulation: every operation the client may ask for is defined, keeps the invariant, and is a
  step of the abstract specification.
\<close>

locale simulation =
  fixes cstep :: "'e \<Rightarrow> 's \<Rightarrow> 's option"
    and cinv :: "'s \<Rightarrow> bool"
    and enabled :: "'e \<Rightarrow> bool"
    and astep :: "'e \<Rightarrow> 'a \<Rightarrow> 'a"
    and abs :: "'s \<Rightarrow> 'a"
  assumes cstep_sim: "cinv s \<Longrightarrow> enabled e \<Longrightarrow>
      \<exists>t. cstep e s = Some t \<and> cinv t \<and> abs t = astep e (abs s)"
begin

lemma run_sim:
  "cinv s \<Longrightarrow> list_all enabled es \<Longrightarrow>
     \<exists>t. run_opt cstep es s = Some t \<and> cinv t \<and> abs t = fold astep es (abs s)"
proof (induction es arbitrary: s)
  case (Cons e es)
  then obtain u where u: "cstep e s = Some u" "cinv u" "abs u = astep e (abs s)"
    using cstep_sim[of s e] by auto
  from Cons.IH[OF u(2)] Cons.prems(2) u(1,3) show ?case by simp
qed simp

end

end
