(* ===== verification/Memory.thy ===== *)
theory Memory
  imports Rapp_Prelude
begin

text \<open>
  The allocator the whole program goes through (\<open>src/memory.c\<close>).  The allocator state keeps
  the answers it will give to the next requests (\<open>True\<close>: the request succeeds; when the
  list is used up every request succeeds), the next fresh address, the number of
  live blocks, the number of objects that the C library allocated for the program - compiled patterns,
  the entries of a directory - and the program has not released, and the content of memory that nobody
  has written yet.

  Objects are modelled by value, so a block is owned by the value that holds its pointer.
  The number of live blocks is what a leak or a double free changes: an operation on a
  value that owns \<open>n\<close> blocks before and \<open>n'\<close> after keeps \<open>blocks - owned\<close> unchanged
  exactly when it neither leaks nor frees twice.
\<close>

record mem =
  answers :: "bool list"
  fresh :: addr
  blocks :: int
  lib_blocks :: int
  junk :: "nat \<Rightarrow> char"

definition mem0 :: mem where
  "mem0 = \<lparr>answers = [], fresh = 1, blocks = 0, lib_blocks = 0, junk = (\<lambda>_. CHR 0x3F)\<rparr>"

definition take_answer :: "mem \<Rightarrow> bool \<times> mem" where
  "take_answer m = (case answers m of [] \<Rightarrow> (True, m) | b # bs \<Rightarrow> (b, m\<lparr>answers := bs\<rparr>))"

text \<open>The answer the request after the next \<open>i\<close> ones will get.\<close>

definition answer_at :: "nat \<Rightarrow> mem \<Rightarrow> bool" where
  "answer_at i m = (case drop i (answers m) of [] \<Rightarrow> True | b # bs \<Rightarrow> b)"

definition memory_create :: "mem \<Rightarrow> addr option \<times> mem" where
  "memory_create m =
     (let (ok, m) = take_answer m in
      if ok then (Some (fresh m), m\<lparr>fresh := Suc (fresh m), blocks := blocks m + 1\<rparr>)
      else (None, m))"

definition memory_strdup :: "string \<Rightarrow> mem \<Rightarrow> string option \<times> mem" where
  "memory_strdup s m =
     (let (p, m) = memory_create m in (case p of None \<Rightarrow> (None, m) | Some _ \<Rightarrow> (Some s, m)))"

text \<open>The formatted text is the argument; the result is its length, or -1.\<close>

definition memory_asprintf :: "string \<Rightarrow> mem \<Rightarrow> int \<times> string option \<times> mem" where
  "memory_asprintf s m =
     (let (p, m) = memory_create m in
      (case p of None \<Rightarrow> (-1, None, m) | Some _ \<Rightarrow> (int (length s), Some s, m)))"

text \<open>
  \<open>realloc\<close>: the old content is kept up to the smaller size and what is beyond is whatever
  memory held.  On failure the old block stays allocated.
\<close>

definition resized :: "(nat \<Rightarrow> char) \<Rightarrow> bytes \<Rightarrow> nat \<Rightarrow> bytes" where
  "resized jk b n = take n b @ map jk [length b..<n]"

definition memory_resize :: "bytes option \<Rightarrow> nat \<Rightarrow> mem \<Rightarrow> bytes option \<times> mem" where
  "memory_resize p n m =
     (let (ok, m) = take_answer m in
      if ok then
        (case p of
           None \<Rightarrow> (Some (resized (junk m) [] n), m\<lparr>fresh := Suc (fresh m), blocks := blocks m + 1\<rparr>)
         | Some b \<Rightarrow> (Some (resized (junk m) b n), m))
      else (None, m))"

definition memory_destroy :: "'a option \<Rightarrow> mem \<Rightarrow> mem" where
  "memory_destroy p m = (case p of None \<Rightarrow> m | Some _ \<Rightarrow> m\<lparr>blocks := blocks m - 1\<rparr>)"

section \<open>What the operations do to the allocator state\<close>

lemma mem0_simps [simp]: "answers mem0 = []" "blocks mem0 = 0" "lib_blocks mem0 = 0" "junk mem0 i = CHR 0x3F"
  by (simp_all add: mem0_def)

lemmas answers_mem0 = mem0_simps(1)

lemma take_answer_cases:
  obtains (yes) m' where "take_answer m = (True, m')" "blocks m' = blocks m"
    "fresh m' = fresh m" "junk m' = junk m"
  | (no) m' where "take_answer m = (False, m')" "blocks m' = blocks m"
    "fresh m' = fresh m" "junk m' = junk m"
  by (cases "answers m"; cases "hd (answers m)") (auto simp: take_answer_def)

lemma take_answer_empty [simp]: "answers m = [] \<Longrightarrow> take_answer m = (True, m)"
  by (simp add: take_answer_def)

lemma take_answer_Cons [simp]:
  "answers m = b # bs \<Longrightarrow> take_answer m = (b, m\<lparr>answers := bs\<rparr>)"
  by (simp add: take_answer_def)

lemma memory_create_Some [mem_simps]:
  "memory_create m = (Some a, m') \<Longrightarrow> blocks m' = blocks m + 1"
  by (cases m rule: take_answer_cases) (auto simp: memory_create_def)

lemma memory_create_None [mem_simps]:
  "memory_create m = (None, m') \<Longrightarrow> blocks m' = blocks m"
  by (cases m rule: take_answer_cases) (auto simp: memory_create_def)

lemma memory_create_fresh:
  "memory_create m = (Some a, m') \<Longrightarrow> a = fresh m \<and> fresh m' = Suc a"
  by (cases m rule: take_answer_cases) (auto simp: memory_create_def)

lemma memory_create_fresh_mono:
  "memory_create m = (r, m') \<Longrightarrow> fresh m \<le> fresh m'"
  by (cases m rule: take_answer_cases) (auto simp: memory_create_def)

lemma memory_resize_fresh_mono:
  "memory_resize p n m = (r, m') \<Longrightarrow> fresh m \<le> fresh m'"
  by (cases m rule: take_answer_cases) (auto simp: memory_resize_def split: option.splits)

lemma fresh_memory_destroy [simp]: "fresh (memory_destroy p m) = fresh m"
  by (simp add: memory_destroy_def split: option.splits)

lemma memory_create_ok [simp]:
  "answers m = [] \<Longrightarrow>
     memory_create m = (Some (fresh m), m\<lparr>fresh := Suc (fresh m), blocks := blocks m + 1\<rparr>)"
  by (simp add: memory_create_def)

lemma memory_strdup_Some [mem_simps]:
  "memory_strdup s m = (Some t, m') \<Longrightarrow> blocks m' = blocks m + 1"
  by (auto simp: memory_strdup_def mem_simps split: prod.splits option.splits)

lemma memory_strdup_value:
  "memory_strdup s m = (Some t, m') \<Longrightarrow> t = s"
  by (auto simp: memory_strdup_def split: prod.splits option.splits)

lemma memory_strdup_SomeD:
  "memory_strdup s m = (Some t, m') \<Longrightarrow> t = s \<and> blocks m' = blocks m + 1"
  by (simp add: memory_strdup_value mem_simps)

lemma memory_strdup_None [mem_simps]:
  "memory_strdup s m = (None, m') \<Longrightarrow> blocks m' = blocks m"
  by (auto simp: memory_strdup_def mem_simps split: prod.splits option.splits)

lemma memory_strdup_ok [simp]:
  "answers m = [] \<Longrightarrow>
     memory_strdup s m = (Some s, m\<lparr>fresh := Suc (fresh m), blocks := blocks m + 1\<rparr>)"
  by (simp add: memory_strdup_def)

lemma memory_create_answers:
  "memory_create m = (p, m') \<Longrightarrow> p \<noteq> None \<longleftrightarrow> answer_at 0 m"
  "memory_create m = (p, m') \<Longrightarrow> answer_at i m' = answer_at (Suc i) m"
  by (auto simp: memory_create_def take_answer_def answer_at_def split: list.splits if_splits)

lemma memory_strdup_answer: "fst (memory_strdup s m) = (if answer_at 0 m then Some s else None)"
  by (auto simp: memory_strdup_def dest: memory_create_answers(1) split: prod.split option.split)

lemma memory_asprintf_cases:
  assumes "memory_asprintf s m = (r, p, m')"
  shows "(r = -1 \<and> p = None \<and> blocks m' = blocks m) \<or>
         (r = int (length s) \<and> p = Some s \<and> blocks m' = blocks m + 1)"
  using assms by (auto simp: memory_asprintf_def mem_simps split: prod.splits option.splits)

lemma memory_asprintf_fresh_mono:
  "memory_asprintf s m = (r, p, m') \<Longrightarrow> fresh m \<le> fresh m'"
  using memory_create_fresh_mono by (auto simp: memory_asprintf_def split: prod.splits option.splits)

lemma memory_asprintf_ok [simp]:
  "answers m = [] \<Longrightarrow> memory_asprintf s m =
     (int (length s), Some s, m\<lparr>fresh := Suc (fresh m), blocks := blocks m + 1\<rparr>)"
  by (simp add: memory_asprintf_def)

lemma length_resized [simp]: "length (resized jk b n) = n"
  by (simp add: resized_def)

lemma resized_grow: "length b \<le> n \<Longrightarrow> take (length b) (resized jk b n) = b"
  by (simp add: resized_def)

lemma resized_shrink: "n \<le> length b \<Longrightarrow> resized jk b n = take n b"
  by (simp add: resized_def)

lemma memory_resize_None [mem_simps]:
  "memory_resize p n m = (None, m') \<Longrightarrow> blocks m' = blocks m"
  by (cases m rule: take_answer_cases) (auto simp: memory_resize_def split: option.splits)

lemma memory_resize_Some [mem_simps]:
  "memory_resize p n m = (Some b, m') \<Longrightarrow>
     blocks m' = blocks m + (if p = None then 1 else 0)"
  by (cases m rule: take_answer_cases) (auto simp: memory_resize_def split: option.splits)

lemma memory_resize_content:
  "memory_resize p n m = (Some b, m') \<Longrightarrow>
     b = resized (junk m) (case p of None \<Rightarrow> [] | Some c \<Rightarrow> c) n"
  by (cases m rule: take_answer_cases) (auto simp: memory_resize_def split: option.splits)

lemma memory_resize_ok:
  "answers m = [] \<Longrightarrow> \<exists>b m'. memory_resize p n m = (Some b, m') \<and> answers m' = []"
  by (auto simp: memory_resize_def split: option.splits)

lemma memory_destroy_None [simp]: "memory_destroy None m = m"
  by (simp add: memory_destroy_def)

lemma memory_destroy_Some [simp]: "memory_destroy (Some a) m = m\<lparr>blocks := blocks m - 1\<rparr>"
  by (simp add: memory_destroy_def)

lemma answers_memory_destroy [simp]: "answers (memory_destroy p m) = answers m"
  by (simp add: memory_destroy_def split: option.splits)

section \<open>What the C library allocates\<close>

text \<open>\<open>lib_alloc n\<close>: a function of the C library hands out \<open>n\<close> objects; \<open>lib_free n\<close>: the program gives \<open>n\<close> of them back.\<close>

definition lib_alloc :: "nat \<Rightarrow> mem \<Rightarrow> mem" where
  "lib_alloc n m = m\<lparr>lib_blocks := lib_blocks m + int n\<rparr>"

definition lib_free :: "nat \<Rightarrow> mem \<Rightarrow> mem" where
  "lib_free n m = m\<lparr>lib_blocks := lib_blocks m - int n\<rparr>"

lemma lib_simps [simp]:
  "answers (lib_alloc n m) = answers m" "answers (lib_free n m) = answers m"
  "fresh (lib_alloc n m) = fresh m" "fresh (lib_free n m) = fresh m"
  "blocks (lib_alloc n m) = blocks m" "blocks (lib_free n m) = blocks m"
  "lib_blocks (lib_alloc n m) = lib_blocks m + int n" "lib_blocks (lib_free n m) = lib_blocks m - int n"
  "lib_free n (lib_alloc n m) = m" "lib_free n (lib_free k m) = lib_free (n + k) m"
  "lib_free 0 m = m"
  by (simp_all add: lib_alloc_def lib_free_def)

text \<open>The allocator of the program leaves them alone.\<close>

lemma lib_blocks_memory_create: "memory_create m = (p, m') \<Longrightarrow> lib_blocks m' = lib_blocks m"
  by (auto simp: memory_create_def take_answer_def split: if_splits list.splits)

lemma lib_blocks_memory_strdup: "memory_strdup s m = (p, m') \<Longrightarrow> lib_blocks m' = lib_blocks m"
  by (auto simp: memory_strdup_def dest: lib_blocks_memory_create split: prod.splits option.splits)

lemma lib_blocks_memory_destroy [simp]: "lib_blocks (memory_destroy p m) = lib_blocks m"
  by (simp add: memory_destroy_def split: option.splits)

lemmas lib_kept = lib_blocks_memory_create lib_blocks_memory_strdup

section \<open>Growth\<close>

text \<open>
  What every operation does to the allocator besides counting blocks: fresh addresses stay fresh,
  and an allocator that refuses nothing goes on refusing nothing.
\<close>

definition grows :: "mem \<Rightarrow> mem \<Rightarrow> bool" where
  "grows m m' \<longleftrightarrow> fresh m \<le> fresh m' \<and> (answers m = [] \<longrightarrow> answers m' = [])"

lemma grows_refl [simp, intro!]: "grows m m"
  by (simp add: grows_def)

lemma grows_trans [trans]: "grows m m' \<Longrightarrow> grows m' m'' \<Longrightarrow> grows m m''"
  by (auto simp: grows_def)

lemma grows_destroy [simp]: "grows m (memory_destroy p m') = grows m m'"
  by (simp add: grows_def)

lemma grows_blocks [simp]: "grows m (m'\<lparr>blocks := b\<rparr>) = grows m m'"
  by (simp add: grows_def)

lemma grows_create: "memory_create m = (p, m') \<Longrightarrow> grows m m'"
  by (auto simp: grows_def memory_create_fresh_mono)

lemma grows_strdup: "memory_strdup s m = (p, m') \<Longrightarrow> grows m m'"
  by (auto simp: memory_strdup_def grows_create split: prod.splits option.splits)

lemma grows_asprintf: "memory_asprintf s m = (r, p, m') \<Longrightarrow> grows m m'"
  by (auto simp: memory_asprintf_def grows_create split: prod.splits option.splits)

lemma grows_resize: "memory_resize p n m = (b, m') \<Longrightarrow> grows m m'"
  by (auto simp: grows_def memory_resize_fresh_mono) (auto simp: memory_resize_def split: option.splits)

lemmas grows_intros = grows_create grows_strdup grows_asprintf grows_resize

end
