(* ===== verification/Collector.thy ===== *)
theory Collector
  imports Memory
begin

text \<open>
  The garbage collector of the event loop (\<open>src/collector.c\<close>): a list of objects to be
  freed later, each with the function that frees it.  The free functions are arbitrary
  (\<open>'f\<close>); \<open>run f d\<close> is what calling \<open>f(d)\<close> does to the rest of the program and to the
  allocator.  No free function of the program schedules another object while a collection runs.
\<close>

section \<open>State and operations\<close>

record 'f CollectEntry =
  ce_free_func :: 'f
  ce_data :: addr

record 'f Collector =
  collect_entries_list :: "'f CollectEntry list"

definition collector_new :: "mem \<Rightarrow> 'f Collector option \<times> mem" where
  "collector_new m =
     (let (p, m) = memory_create m in
      (case p of None \<Rightarrow> (None, m) | Some _ \<Rightarrow> (Some \<lparr>collect_entries_list = []\<rparr>, m)))"

definition collector_schedule_free ::
    "'f \<Rightarrow> addr \<Rightarrow> 'f Collector \<Rightarrow> mem \<Rightarrow> int \<times> 'f Collector \<times> mem" where
  "collector_schedule_free f d c m =
     (if list_ex (\<lambda>e. ce_data e = d) (collect_entries_list c) then (0, c, m)
      else
        (let (p, m) = memory_create m in
         (case p of
            None \<Rightarrow> (-1, c, m)
          | Some _ \<Rightarrow>
              (0, c\<lparr>collect_entries_list :=
                     \<lparr>ce_free_func = f, ce_data = d\<rparr> # collect_entries_list c\<rparr>, m))))"

fun collect_loop ::
    "('f \<Rightarrow> addr \<Rightarrow> 'w \<Rightarrow> mem \<Rightarrow> 'w \<times> mem) \<Rightarrow> 'f CollectEntry list \<Rightarrow> 'w \<Rightarrow> mem \<Rightarrow> 'w \<times> mem" where
  "collect_loop run [] w m = (w, m)"
| "collect_loop run (e # es) w m =
     (let (w, m) = run (ce_free_func e) (ce_data e) w m in
      collect_loop run es w (memory_destroy (Some e) m))"

definition collector_collect ::
    "('f \<Rightarrow> addr \<Rightarrow> 'w \<Rightarrow> mem \<Rightarrow> 'w \<times> mem) \<Rightarrow> 'f Collector \<Rightarrow> 'w \<Rightarrow> mem
      \<Rightarrow> 'f Collector \<times> 'w \<times> mem" where
  "collector_collect run c w m =
     (let (w, m) = collect_loop run (collect_entries_list c) w m in
      (c\<lparr>collect_entries_list := []\<rparr>, w, m))"

definition collector_destroy ::
    "('f \<Rightarrow> addr \<Rightarrow> 'w \<Rightarrow> mem \<Rightarrow> 'w \<times> mem) \<Rightarrow> 'f Collector \<Rightarrow> 'w \<Rightarrow> mem \<Rightarrow> 'w \<times> mem" where
  "collector_destroy run c w m =
     (let (c, w, m) = collector_collect run c w m in (w, memory_destroy (Some c) m))"

section \<open>The contract of deferred freeing\<close>

text \<open>
  What a client of deferred freeing (the event loop, and through it the HTTP server) relies on:
  scheduling makes an object pending and keeps the others, whatever was scheduled before, and
  no object is pending twice.
\<close>

locale deferred_free =
  fixes schedule :: "'d \<Rightarrow> 's \<Rightarrow> 's"
    and pending :: "'s \<Rightarrow> 'd list"
    and inv :: "'s \<Rightarrow> bool"
  assumes schedule_inv: "inv s \<Longrightarrow> inv (schedule d s)"
    and schedule_pending: "inv s \<Longrightarrow> pending (schedule d s) =
          (if d \<in> set (pending s) then pending s else d # pending s)"
    and pending_distinct: "inv s \<Longrightarrow> distinct (pending s)"
begin

lemma fold_schedule_inv: "inv s \<Longrightarrow> inv (fold schedule ds s)"
  by (induction ds arbitrary: s) (simp_all add: schedule_inv)

lemma fold_schedule:
  "inv s \<Longrightarrow> pending (fold schedule ds s) = remdups (rev ds @ pending s)"
proof (induction ds arbitrary: s)
  case Nil
  then show ?case by (simp add: pending_distinct distinct_remdups_id)
next
  case (Cons d ds)
  then show ?case by (simp add: schedule_inv schedule_pending remdups_drop_repeated)
qed

end

section \<open>Invariant and accounting\<close>

definition collector_pending :: "'f Collector \<Rightarrow> addr list" where
  "collector_pending c = map ce_data (collect_entries_list c)"

definition collector_inv :: "'f Collector \<Rightarrow> bool" where
  "collector_inv c \<longleftrightarrow> distinct (collector_pending c)"

definition collector_owned :: "'f Collector \<Rightarrow> int" where
  "collector_owned c = 1 + int (length (collect_entries_list c))"

lemmas collector_defs = collector_pending_def collector_inv_def collector_owned_def

lemma schedule_free_pending:
  "collector_schedule_free f d c m = (r, c', m') \<Longrightarrow>
     collector_pending c' =
       (if d \<in> set (collector_pending c) \<or> r \<noteq> 0 then collector_pending c
        else d # collector_pending c)"
  by (auto simp: collector_schedule_free_def collector_pending_def list_ex_iff
      split: prod.splits option.splits if_splits)

lemma schedule_free_result:
  "collector_schedule_free f d c m = (r, c', m') \<Longrightarrow> r = 0 \<or> (r = -1 \<and> c' = c)"
  by (auto simp: collector_schedule_free_def split: prod.splits option.splits if_splits)

lemma schedule_free_inv:
  "collector_inv c \<Longrightarrow> collector_schedule_free f d c m = (r, c', m') \<Longrightarrow> collector_inv c'"
  using schedule_free_pending[of f d c m r c' m'] by (auto simp: collector_inv_def)

lemma schedule_free_owned:
  "collector_schedule_free f d c m = (r, c', m') \<Longrightarrow>
     blocks m' - collector_owned c' = blocks m - collector_owned c"
  by (auto simp: collector_schedule_free_def collector_owned_def mem_simps
      split: prod.splits option.splits if_splits)

lemma schedule_free_ok:
  "answers m = [] \<Longrightarrow> collector_schedule_free f d c m = (r, c', m') \<Longrightarrow> r = 0 \<and> answers m' = []"
  by (auto simp: collector_schedule_free_def split: if_splits)

section \<open>The contract holds for the collector\<close>

definition schedule_step :: "'f \<times> addr \<Rightarrow> 'f Collector \<times> mem \<Rightarrow> 'f Collector \<times> mem" where
  "schedule_step fd cm = snd (collector_schedule_free (fst fd) (snd fd) (fst cm) (snd cm))"

definition schedule_all :: "('f \<times> addr) list \<Rightarrow> 'f Collector \<times> mem \<Rightarrow> 'f Collector \<times> mem" where
  "schedule_all fds cm = fold schedule_step fds cm"

interpretation collector_once:
  deferred_free "\<lambda>d. schedule_step (f, d)" "\<lambda>cm. collector_pending (fst cm)"
    "\<lambda>cm. collector_inv (fst cm) \<and> answers (snd cm) = []" for f :: 'f
proof unfold_locales
  fix s :: "'f Collector \<times> mem" and d
  assume inv: "collector_inv (fst s) \<and> answers (snd s) = []"
  obtain r c' m' where call: "collector_schedule_free f d (fst s) (snd s) = (r, c', m')"
    by (cases "collector_schedule_free f d (fst s) (snd s)")
  with inv have ok: "r = 0" "answers m' = []" by (auto dest: schedule_free_ok)
  show "collector_inv (fst (schedule_step (f, d) s)) \<and> answers (snd (schedule_step (f, d) s)) = []"
    using inv ok schedule_free_inv[OF _ call] by (simp add: schedule_step_def call)
  show "collector_pending (fst (schedule_step (f, d) s)) =
        (if d \<in> set (collector_pending (fst s)) then collector_pending (fst s)
         else d # collector_pending (fst s))"
    using ok schedule_free_pending[OF call] by (simp add: schedule_step_def call)
qed (simp add: collector_inv_def)

lemma schedule_step_call:
  "collector_schedule_free (fst fd) (snd fd) (fst cm) (snd cm) =
     (fst (collector_schedule_free (fst fd) (snd fd) (fst cm) (snd cm)),
      fst (schedule_step fd cm), snd (schedule_step fd cm))"
  by (simp add: schedule_step_def)

interpretation collector_steps:
  accounted_stepper schedule_step "\<lambda>cm. collector_inv (fst cm)"
    "\<lambda>cm. blocks (snd cm) - collector_owned (fst cm)"
  by unfold_locales
    (rule schedule_free_inv[OF _ schedule_step_call] schedule_free_owned[OF schedule_step_call],
      assumption?)+

section \<open>Collecting\<close>

text \<open>The free functions of the program release what they are given; \<open>recorded\<close> is the
  one that only notes which object it was called on.\<close>

definition recorded :: "'f \<Rightarrow> addr \<Rightarrow> addr list \<Rightarrow> mem \<Rightarrow> addr list \<times> mem" where
  "recorded f d w m = (w @ [d], m)"

lemma collect_loop_recorded:
  "collect_loop recorded es w m = (w @ map ce_data es, m\<lparr>blocks := blocks m - int (length es)\<rparr>)"
  by (induction es arbitrary: w m) (simp_all add: recorded_def)

lemma collector_collect_recorded:
  "collector_collect recorded c w m =
     (c\<lparr>collect_entries_list := []\<rparr>, w @ collector_pending c,
      m\<lparr>blocks := blocks m - int (length (collect_entries_list c))\<rparr>)"
  by (simp add: collector_collect_def collect_loop_recorded collector_pending_def)

text \<open>
  C27: Objects are handed to \<open>collector_schedule_free\<close> in any order and with any repetitions.
  The next collection calls the free function exactly once on every object scheduled or already
  pending, the most recently added first, and on nothing else; the list is empty afterwards.
\<close>

theorem collector_frees_once:
  assumes "collector_inv c" "answers m = []"
    and "schedule_all (map (\<lambda>d. (f, d)) ds) (c, m) = (c', m')"
    and "collector_collect recorded c' [] m' = (c'', freed, m'')"
  shows "freed = remdups (rev ds @ collector_pending c) \<and> collect_entries_list c'' = []"
proof -
  have "fold (\<lambda>d. schedule_step (f, d)) ds (c, m) = (c', m')"
    using assms(3) by (simp add: schedule_all_def fold_map comp_def)
  then have "collector_pending c' = remdups (rev ds @ collector_pending c)"
    using collector_once.fold_schedule[of "(c, m)" f ds] assms(1,2) by simp
  with assms(4) show ?thesis by (auto simp: collector_collect_recorded)
qed

theorem collector_frees_once_witness:
  "\<exists>c' m' c'' m''. schedule_all (map (\<lambda>d. ((), d)) [7, 9, 7]) (\<lparr>collect_entries_list = []\<rparr>, mem0) = (c', m')
     \<and> collector_collect recorded c' [] m' = (c'', [9, 7], m'')"
proof -
  obtain c' m' where s: "schedule_all (map (\<lambda>d. ((), d)) [7, 9, 7])
      (\<lparr>collect_entries_list = []\<rparr>, mem0) = (c', m')" by fastforce
  obtain c'' freed m'' where c: "collector_collect recorded c' [] m' = (c'', freed, m'')"
    by (cases "collector_collect recorded c' [] m'")
  have "freed = [9, 7]"
    using collector_frees_once[OF _ _ s c] by (simp add: collector_defs mem0_def)
  with s c show ?thesis by blast
qed

text \<open>
  From \<open>collector_new\<close> through any sequence of \<open>collector_schedule_free\<close> calls to
  \<open>collector_destroy\<close>, every block the collector allocated is released again exactly once, even
  when some of the allocations in between fail.
\<close>

theorem collector_lifecycle_balanced:
  assumes "collector_new m = (Some c, m1)"
    and "schedule_all fds (c, m1) = (c', m2)"
    and "collector_destroy recorded c' w m2 = (w', m3)"
  shows "blocks m3 = blocks m"
proof -
  have c: "collector_inv c" "blocks m1 - collector_owned c = blocks m"
    using assms(1) by (auto simp: collector_new_def collector_defs mem_simps
        split: prod.splits option.splits)
  have "blocks m2 - collector_owned c' = blocks m1 - collector_owned c"
    using collector_steps.fold_quantity[of "(c, m1)" fds] assms(2) c(1)
    by (simp add: schedule_all_def)
  moreover have "blocks m3 = blocks m2 - collector_owned c'"
    using assms(3) by (auto simp: collector_destroy_def collector_collect_recorded collector_owned_def)
  ultimately show ?thesis using c(2) by simp
qed

theorem collector_lifecycle_balanced_witness:
  "\<exists>(c :: bool Collector) m1 c' m2 w' m3.
     collector_new (mem0\<lparr>answers := [True, True, False]\<rparr>) = (Some c, m1) \<and>
     schedule_all [(True, 4), (False, 5), (True, 4)] (c, m1) = (c', m2) \<and>
     collector_destroy recorded c' [] m2 = (w', m3) \<and> blocks m3 = 0"
proof -
  let ?m = "mem0\<lparr>answers := [True, True, False]\<rparr>"
  obtain c :: "bool Collector" and m1 where n: "collector_new ?m = (Some c, m1)"
    by (auto simp: collector_new_def mem0_def memory_create_def take_answer_def)
  obtain c' m2 where s: "schedule_all [(True, 4), (False, 5), (True, 4)] (c, m1) = (c', m2)"
    by fastforce
  obtain w' m3 where d: "collector_destroy recorded c' [] m2 = (w', m3)" by fastforce
  have "blocks m3 = 0" using collector_lifecycle_balanced[OF n s d] by (simp add: mem0_def)
  with n s d show ?thesis by blast
qed

end
