(* ===== verification/C_Strings.thy ===== *)
theory C_Strings
  imports Rapp_Prelude "HOL-Library.Sublist"
begin

text \<open>
  The parts of the C library the sources use on text.  A C string is a \<open>string\<close> without the
  terminating NUL; a buffer that may hold NULs is turned into a C string by \<open>c_str\<close>.
  Characters are bytes in the C locale.
\<close>

definition NUL :: char where "NUL = CHR 0x00"

definition c_str :: "bytes \<Rightarrow> string" where
  "c_str bs = takeWhile (\<lambda>c. c \<noteq> NUL) bs"

definition is_cstr :: "string \<Rightarrow> bool" where
  "is_cstr s \<longleftrightarrow> NUL \<notin> set s"

definition char_code :: "char \<Rightarrow> nat" where "char_code c = of_char c"

definition isdigit :: "char \<Rightarrow> bool" where
  "isdigit c \<longleftrightarrow> 48 \<le> char_code c \<and> char_code c \<le> 57"

definition islower :: "char \<Rightarrow> bool" where
  "islower c \<longleftrightarrow> 97 \<le> char_code c \<and> char_code c \<le> 122"

definition isupper :: "char \<Rightarrow> bool" where
  "isupper c \<longleftrightarrow> 65 \<le> char_code c \<and> char_code c \<le> 90"

definition isspace :: "char \<Rightarrow> bool" where
  "isspace c \<longleftrightarrow> char_code c = 32 \<or> (9 \<le> char_code c \<and> char_code c \<le> 13)"

definition toupper :: "char \<Rightarrow> char" where
  "toupper c = (if islower c then char_of (char_code c - 32) else c)"

definition tolower :: "char \<Rightarrow> char" where
  "tolower c = (if isupper c then char_of (char_code c + 32) else c)"

text \<open>\<open>strcasecmp(a, b) == 0\<close>.\<close>

definition strcaseeq :: "string \<Rightarrow> string \<Rightarrow> bool" where
  "strcaseeq a b \<longleftrightarrow> map tolower a = map tolower b"

text \<open>\<open>snprintf\<close> writes at most \<open>size - 1\<close> characters of the formatted text.\<close>

definition snprintf :: "nat \<Rightarrow> string \<Rightarrow> string" where
  "snprintf n s = take (n - 1) s"

text \<open>A format with \<open>%s\<close> directives only, applied to its arguments.\<close>

fun sprintf_s :: "string \<Rightarrow> string list \<Rightarrow> string" where
  "sprintf_s [] as = []"
| "sprintf_s [c] as = [c]"
| "sprintf_s (c # d # cs) as =
     (if c = CHR 0x25 \<and> d = CHR ''s'' then
        (case as of [] \<Rightarrow> c # d # sprintf_s cs [] | a # as' \<Rightarrow> a @ sprintf_s cs as')
      else c # sprintf_s (d # cs) as)"

text \<open>\<open>%d\<close>, \<open>%i\<close> and \<open>%lu\<close>.\<close>

definition digit_char :: "nat \<Rightarrow> char" where
  "digit_char d = char_of (48 + d)"

fun dec :: "nat \<Rightarrow> string" where
  "dec n = (if n < 10 then [digit_char n] else dec (n div 10) @ [digit_char (n mod 10)])"

declare dec.simps [simp del]

definition dec_int :: "int \<Rightarrow> string" where
  "dec_int i = (if i < 0 then CHR ''-'' # dec (nat (- i)) else dec (nat i))"

text \<open>\<open>strtol(s, &end, 10)\<close>: value, the text from \<open>end\<close>, and whether \<open>errno\<close> is \<open>ERANGE\<close>.\<close>

definition LONG_MIN :: int where "LONG_MIN = - (2 ^ 63)"
definition LONG_MAX :: int where "LONG_MAX = 2 ^ 63 - 1"

definition digits_value :: "string \<Rightarrow> int" where
  "digits_value ds = foldl (\<lambda>v c. 10 * v + int (char_code c - 48)) 0 ds"

definition strtol_sign :: "string \<Rightarrow> int \<times> string" where
  "strtol_sign s = (case s of [] \<Rightarrow> (1, [])
     | c # r \<Rightarrow> if c = CHR ''-'' then (-1, r) else if c = CHR ''+'' then (1, r) else (1, s))"

definition strtol :: "string \<Rightarrow> int \<times> string \<times> bool" where
  "strtol s =
     (let (sign, r) = strtol_sign (dropWhile isspace s);
          ds = takeWhile isdigit r;
          v = sign * digits_value ds
      in if ds = [] then (0, s, False)
         else if v < LONG_MIN then (LONG_MIN, dropWhile isdigit r, True)
         else if LONG_MAX < v then (LONG_MAX, dropWhile isdigit r, True)
         else (v, dropWhile isdigit r, False))"

text \<open>\<open>strtok_r\<close> with one delimiter, called until it returns \<open>NULL\<close>: the non-empty pieces.\<close>

fun strtok :: "char \<Rightarrow> string \<Rightarrow> string \<Rightarrow> string list" where
  "strtok d acc [] = (if acc = [] then [] else [rev acc])"
| "strtok d acc (c # cs) =
     (if c = d then (if acc = [] then strtok d [] cs else rev acc # strtok d [] cs)
      else strtok d (c # acc) cs)"

section \<open>Facts\<close>

lemma char_code_less [simp]: "char_code c < 256"
  by (simp add: char_code_def)

lemma char_code_digit_char: "d < 10 \<Longrightarrow> char_code (digit_char d) = 48 + d"
  by (simp add: char_code_def digit_char_def)

lemma isdigit_digit_char: "d < 10 \<Longrightarrow> isdigit (digit_char d)"
  by (simp add: isdigit_def char_code_digit_char)

lemma digit_char_numerals [simp]:
  "digit_char 0 = CHR ''0''" "digit_char (Suc 0) = CHR ''1''" "digit_char 2 = CHR ''2''"
  "digit_char 3 = CHR ''3''" "digit_char 4 = CHR ''4''" "digit_char 5 = CHR ''5''"
  "digit_char 6 = CHR ''6''" "digit_char 7 = CHR ''7''" "digit_char 8 = CHR ''8''"
  "digit_char 9 = CHR ''9''"
  by (code_simp)+

lemma dec_digits: "\<forall>c \<in> set (dec n). isdigit c"
proof (induction n rule: dec.induct)
  case (1 n)
  then show ?case
    by (cases "n < 10") (auto simp: dec.simps[of n] isdigit_digit_char)
qed

lemma dec_nonempty: "dec n \<noteq> []"
  by (subst dec.simps) simp

lemma digits_value_append:
  "digits_value (ds @ [c]) = 10 * digits_value ds + int (char_code c - 48)"
  by (simp add: digits_value_def)

lemma digits_value_dec: "digits_value (dec n) = int n"
proof (induction n rule: dec.induct)
  case (1 n)
  show ?case
  proof (cases "n < 10")
    case True
    then show ?thesis by (simp add: dec.simps[of n] digits_value_def char_code_digit_char)
  next
    case False
    with 1 have "digits_value (dec n) = 10 * int (n div 10) + int (n mod 10)"
      by (simp add: dec.simps[of n] digits_value_append char_code_digit_char)
    then show ?thesis by (simp add: zdiv_int zmod_int)
  qed
qed

lemma isdigit_facts:
  "isdigit c \<Longrightarrow> \<not> isspace c" "isdigit c \<Longrightarrow> c \<noteq> CHR ''-''" "isdigit c \<Longrightarrow> c \<noteq> CHR ''+''"
  "isdigit c \<Longrightarrow> c \<noteq> NUL"
  by (auto simp: isdigit_def isspace_def char_code_def NUL_def)

text \<open>Printing a number and reading it back.\<close>

lemma dropWhile_all_not: "\<forall>x \<in> set xs. \<not> P x \<Longrightarrow> dropWhile P xs = xs"
  by (cases xs) auto

lemma strtol_sign_digits:
  "\<forall>c \<in> set s. isdigit c \<Longrightarrow> strtol_sign s = (1, s)"
  by (cases s) (auto simp: strtol_sign_def dest: isdigit_facts)

lemma strtol_dec:
  "int n \<le> LONG_MAX \<Longrightarrow> strtol (dec n) = (int n, [], False)"
proof -
  assume le: "int n \<le> LONG_MAX"
  have ws: "dropWhile isspace (dec n) = dec n"
    using dec_digits[of n] isdigit_facts(1) by (intro dropWhile_all_not) blast
  have tk: "takeWhile isdigit (dec n) = dec n" "dropWhile isdigit (dec n) = []"
    using dec_digits[of n] by auto
  have "\<not> int n < LONG_MIN" by (simp add: LONG_MIN_def)
  with le show ?thesis
    by (simp add: strtol_def ws strtol_sign_digits[OF dec_digits] tk digits_value_dec dec_nonempty)
qed

lemma length_dec_bound: "0 < k \<Longrightarrow> n < 10 ^ k \<Longrightarrow> length (dec n) \<le> k"
proof (induction n arbitrary: k rule: dec.induct)
  case (1 n)
  show ?case
  proof (cases "n < 10")
    case True
    with 1 show ?thesis by (simp add: dec.simps[of n])
  next
    case False
    with "1.prems" have k: "k \<noteq> 1" by auto
    with "1.prems" obtain j where j: "k = Suc j" "0 < j" by (cases k) auto
    with "1.prems" have "n div 10 < 10 ^ j" by (simp add: div_less_iff_less_mult)
    with "1.IH"[OF False j(2)] have "length (dec (n div 10)) \<le> j" by simp
    with False j show ?thesis by (simp add: dec.simps[of n])
  qed
qed

lemma snprintf_fits: "length s < n \<Longrightarrow> snprintf n s = s"
  by (simp add: snprintf_def)

lemma length_snprintf: "0 < n \<Longrightarrow> length (snprintf n s) < n"
  by (auto simp: snprintf_def)

lemma c_str_id: "is_cstr s \<Longrightarrow> c_str s = s"
  by (auto simp: is_cstr_def c_str_def takeWhile_eq_all_conv)

lemma strcaseeq_refl [simp]: "strcaseeq s s"
  by (simp add: strcaseeq_def)

lemma strcaseeq_sym: "strcaseeq a b \<Longrightarrow> strcaseeq b a"
  by (simp add: strcaseeq_def)

lemma strcaseeq_trans: "strcaseeq a b \<Longrightarrow> strcaseeq b c \<Longrightarrow> strcaseeq a c"
  by (simp add: strcaseeq_def)

text \<open>\<open>strtok\<close>: every token is non-empty and free of the delimiter, and joining tokens with
  the delimiter and splitting again gives the tokens back.\<close>

lemma strtok_tokens:
  "d \<notin> set acc \<Longrightarrow> set (strtok d acc s) \<subseteq> {t. t \<noteq> [] \<and> d \<notin> set t}"
  by (induction s arbitrary: acc) simp_all

lemma strtok_no_delim:
  "d \<notin> set s \<Longrightarrow> strtok d acc s = (if acc = [] \<and> s = [] then [] else [rev acc @ s])"
  by (induction s arbitrary: acc) auto

lemma strtok_step:
  "d \<notin> set t \<Longrightarrow> strtok d acc (t @ d # s) =
     (if acc = [] \<and> t = [] then strtok d [] s else (rev acc @ t) # strtok d [] s)"
  by (induction t arbitrary: acc) auto

fun join :: "char \<Rightarrow> string list \<Rightarrow> string" where
  "join d [] = []"
| "join d [t] = t"
| "join d (t # u # ts) = t @ d # join d (u # ts)"

lemma strtok_join:
  "\<forall>t \<in> set ts. t \<noteq> [] \<and> d \<notin> set t \<Longrightarrow> strtok d [] (join d ts) = ts"
  by (induction d ts rule: join.induct) (auto simp: strtok_no_delim strtok_step)

end
