(* ===== verification/C_Time.thy ===== *)
theory C_Time
  imports C_Strings
begin

text \<open>
  The calendar functions of the C library that \<open>src/httpresponse.c\<close> uses for the \<open>Date\<close>
  header: \<open>gmtime\<close> on a non-negative time, and \<open>strftime\<close> with the one format
  \<^verbatim>\<open>%a, %d %b %Y %H:%M:%S %z\<close> in the C locale.
\<close>

record tm =
  tm_sec :: nat
  tm_min :: nat
  tm_hour :: nat
  tm_mday :: nat
  tm_mon :: nat
  tm_year :: nat
  tm_wday :: nat

definition leap :: "nat \<Rightarrow> bool" where
  "leap y \<longleftrightarrow> (y mod 4 = 0 \<and> y mod 100 \<noteq> 0) \<or> y mod 400 = 0"

definition year_len :: "nat \<Rightarrow> nat" where
  "year_len y = (if leap y then 366 else 365)"

definition month_lens :: "nat \<Rightarrow> nat list" where
  "month_lens y = [31, if leap y then 29 else 28, 31, 30, 31, 30, 31, 31, 30, 31, 30, 31]"

function year_loop :: "nat \<Rightarrow> nat \<Rightarrow> nat \<times> nat" where
  "year_loop y d = (if d < year_len y then (y, d) else year_loop (Suc y) (d - year_len y))"
  by pat_completeness auto
termination
  by (relation "measure (\<lambda>(y, d). d)") (auto simp: year_len_def split: if_splits)

declare year_loop.simps [simp del]

fun month_loop :: "nat list \<Rightarrow> nat \<Rightarrow> nat \<Rightarrow> nat \<times> nat" where
  "month_loop [] i d = (i, d)"
| "month_loop (n # ns) i d = (if d < n then (i, d) else month_loop ns (Suc i) (d - n))"

definition gmtime :: "nat \<Rightarrow> tm" where
  "gmtime now =
     (let days = now div 86400; s = now mod 86400;
          (y, yd) = year_loop 1970 days;
          (mon, md) = month_loop (month_lens y) 0 yd
      in \<lparr>tm_sec = s mod 60, tm_min = s div 60 mod 60, tm_hour = s div 3600,
          tm_mday = Suc md, tm_mon = mon, tm_year = y, tm_wday = (days + 4) mod 7\<rparr>)"

definition wday_names :: "string list" where
  "wday_names = [''Sun'', ''Mon'', ''Tue'', ''Wed'', ''Thu'', ''Fri'', ''Sat'']"

definition month_names :: "string list" where
  "month_names = [''Jan'', ''Feb'', ''Mar'', ''Apr'', ''May'', ''Jun'',
                  ''Jul'', ''Aug'', ''Sep'', ''Oct'', ''Nov'', ''Dec'']"

definition pad2 :: "nat \<Rightarrow> string" where
  "pad2 n = (if n < 10 then CHR ''0'' # dec n else dec n)"

definition http_date :: "tm \<Rightarrow> string" where
  "http_date t = wday_names ! tm_wday t @ '', '' @ pad2 (tm_mday t) @ '' '' @
     month_names ! tm_mon t @ '' '' @ dec (tm_year t) @ '' '' @ pad2 (tm_hour t) @ '':'' @
     pad2 (tm_min t) @ '':'' @ pad2 (tm_sec t) @ '' +0000''"

text \<open>\<open>strftime\<close> gives 0, here \<open>None\<close>, when the text and its NUL do not fit.\<close>

definition strftime :: "nat \<Rightarrow> tm \<Rightarrow> string option" where
  "strftime n t = (if length (http_date t) < n then Some (http_date t) else None)"

section \<open>Ranges\<close>

lemma year_loop_bounds:
  "year_loop y d = (y', d') \<Longrightarrow> d' < year_len y' \<and> y \<le> y' \<and> 365 * (y' - y) \<le> d"
proof (induction y d arbitrary: y' d' rule: year_loop.induct)
  case (1 y d)
  show ?case
  proof (cases "d < year_len y")
    case True
    with "1.prems" show ?thesis by (simp add: year_loop.simps[of y d])
  next
    case False
    with "1.prems" have "year_loop (Suc y) (d - year_len y) = (y', d')"
      by (simp add: year_loop.simps[of y d])
    from "1.IH"[OF False this] have
      "d' < year_len y'" "Suc y \<le> y'" "365 * (y' - Suc y) \<le> d - year_len y" by auto
    moreover have "365 \<le> year_len y" by (simp add: year_len_def)
    moreover have "year_len y \<le> d" using False by simp
    ultimately show ?thesis by auto
  qed
qed

lemma month_loop_bounds:
  "month_loop ns i d = (i', d') \<Longrightarrow> d < sum_list ns \<Longrightarrow> \<forall>n \<in> set ns. n \<le> 31 \<Longrightarrow>
     i' < i + length ns \<and> d' < 31"
  by (induction ns i d rule: month_loop.induct) (fastforce split: if_splits)+

lemma sum_month_lens: "sum_list (month_lens y) = year_len y"
  by (simp add: month_lens_def year_len_def)

lemma gmtime_ranges:
  assumes "now < 86400 * (365 * 8030)"
  shows "tm_mday (gmtime now) \<le> 31" "tm_mon (gmtime now) < 12" "tm_wday (gmtime now) < 7"
    "tm_hour (gmtime now) < 24" "tm_min (gmtime now) < 60" "tm_sec (gmtime now) < 60"
    "1970 \<le> tm_year (gmtime now)" "tm_year (gmtime now) < 10000"
proof -
  obtain y yd where y: "year_loop 1970 (now div 86400) = (y, yd)" by fastforce
  obtain mon md where mo: "month_loop (month_lens y) 0 yd = (mon, md)" by fastforce
  have yb: "yd < year_len y" "1970 \<le> y" "365 * (y - 1970) \<le> now div 86400"
    using year_loop_bounds[OF y] by auto
  have "\<forall>n \<in> set (month_lens y). n \<le> 31" by (simp add: month_lens_def)
  moreover have "yd < sum_list (month_lens y)" using yb by (simp add: sum_month_lens)
  moreover have "length (month_lens y) = 12" by (simp add: month_lens_def)
  ultimately have mb: "mon < 12" "md < 31" using month_loop_bounds[OF mo] by auto
  have "now div 86400 < 365 * 8030" using assms by (simp add: div_less_iff_less_mult mult.commute)
  with yb have "y < 10000" by linarith
  moreover have "now mod 86400 div 3600 < 24"
    using mod_less_divisor[of 86400 now] by (simp add: div_less_iff_less_mult)
  ultimately show "tm_mday (gmtime now) \<le> 31" "tm_mon (gmtime now) < 12" "tm_wday (gmtime now) < 7"
    "tm_hour (gmtime now) < 24" "tm_min (gmtime now) < 60" "tm_sec (gmtime now) < 60"
    "1970 \<le> tm_year (gmtime now)" "tm_year (gmtime now) < 10000"
    using yb mb by (simp_all add: gmtime_def y mo Let_def)
qed

lemma length_names: "i < 7 \<Longrightarrow> length (wday_names ! i) = 3" "j < 12 \<Longrightarrow> length (month_names ! j) = 3"
  by (auto simp: wday_names_def month_names_def less_Suc_eq numeral_eq_Suc)

lemma length_pad2: "n < 100 \<Longrightarrow> length (pad2 n) \<le> 2"
  using length_dec_bound[of 1 n] length_dec_bound[of 2 n] by (auto simp: pad2_def)

text \<open>Up to the year 9999 the date takes at most 31 characters.\<close>

lemma http_date_length:
  assumes "now < 86400 * (365 * 8030)"
  shows "length (http_date (gmtime now)) \<le> 31"
proof -
  note r = gmtime_ranges[OF assms]
  have "length (dec (tm_year (gmtime now))) \<le> 4"
    using r(8) by (intro length_dec_bound) simp_all
  moreover have "length (pad2 (tm_mday (gmtime now))) \<le> 2" "length (pad2 (tm_hour (gmtime now))) \<le> 2"
    "length (pad2 (tm_min (gmtime now))) \<le> 2" "length (pad2 (tm_sec (gmtime now))) \<le> 2"
    using r by (auto intro!: length_pad2)
  ultimately show ?thesis using r(2,3) by (simp add: http_date_def length_names)
qed

end
