(* ===== verification/Byte_Queue.thy ===== *)
theory Byte_Queue
  imports Rapp_Prelude
begin

text \<open>
  The contract of a byte queue: what the application writes into a response is what the
  connection reads out of it, in the same order, however both sides cut it into pieces.
\<close>

datatype byte_op = Put bytes | Get nat

definition valid_op :: "byte_op \<Rightarrow> bool" where
  "valid_op op = (case op of Put d \<Rightarrow> d \<noteq> [] | Get n \<Rightarrow> 0 < n)"

definition op_input :: "byte_op \<Rightarrow> bytes" where
  "op_input op = (case op of Put d \<Rightarrow> d | Get n \<Rightarrow> [])"

fun queue_run ::
    "(bytes \<Rightarrow> 's \<Rightarrow> 's option) \<Rightarrow> (nat \<Rightarrow> 's \<Rightarrow> (bytes \<times> 's) option) \<Rightarrow> byte_op list \<Rightarrow> 's
      \<Rightarrow> (bytes \<times> 's) option" where
  "queue_run put get [] s = Some ([], s)"
| "queue_run put get (Put d # ops) s = Option.bind (put d s) (queue_run put get ops)"
| "queue_run put get (Get n # ops) s =
     Option.bind (get n s) (\<lambda>(d, s). map_option (apfst (\<lambda>out. d @ out)) (queue_run put get ops s))"

locale byte_queue =
  fixes put :: "bytes \<Rightarrow> 's \<Rightarrow> 's option"
    and get :: "nat \<Rightarrow> 's \<Rightarrow> (bytes \<times> 's) option"
    and content :: "'s \<Rightarrow> bytes"
    and wf :: "'s \<Rightarrow> bool"
  assumes put_ok: "wf s \<Longrightarrow> d \<noteq> [] \<Longrightarrow> \<exists>t. put d s = Some t \<and> wf t \<and> content t = content s @ d"
    and get_ok: "wf s \<Longrightarrow> 0 < n \<Longrightarrow>
      \<exists>t. get n s = Some (take n (content s), t) \<and> wf t \<and> content t = drop n (content s)"
begin

lemma run_stream:
  "wf s \<Longrightarrow> list_all valid_op ops \<Longrightarrow>
     \<exists>out t. queue_run put get ops s = Some (out, t) \<and> wf t \<and>
       out @ content t = content s @ concat (map op_input ops)"
proof (induction ops arbitrary: s)
  case (Cons op ops)
  show ?case
  proof (cases op)
    case (Put d)
    with Cons.prems obtain t where "put d s = Some t" "wf t" "content t = content s @ d"
      using put_ok[of s d] by (auto simp: valid_op_def)
    with Cons.IH[of t] Cons.prems Put show ?thesis by (auto simp: op_input_def)
  next
    case (Get n)
    with Cons.prems obtain t where t: "get n s = Some (take n (content s), t)" "wf t"
      "content t = drop n (content s)"
      using get_ok[of s n] by (auto simp: valid_op_def)
    with Cons.IH[of t] Cons.prems obtain out u where
      u: "queue_run put get ops t = Some (out, u)" "wf u"
      "out @ content u = content t @ concat (map op_input ops)" by auto
    then have "(take n (content s) @ out) @ content u = content s @ concat (map op_input ops)"
      using t(3) by (metis append_assoc append_take_drop_id)
    with t u Get show ?thesis by (simp add: op_input_def[of "Get n"])
  qed
qed simp

end

end
