(* ===== verification/Http_Response.thy ===== *)
theory Http_Response
  imports Memory C_Time Byte_Queue
begin

text \<open>
  The response of a connection (\<open>src/httpresponse.c\<close>): a byte buffer that the application
  appends to and the connection reads from, and the writers of status line, headers, and error
  pages on top of it.  \<open>resp_buffer\<close> is the heap block the source calls \<open>buffer\<close>; reading it
  through a \<open>NULL\<close> pointer, or a failed \<open>assert\<close>, is \<open>None\<close>.  The \<open>clock\<close> argument is what
  \<open>time\<close> returns.
\<close>

section \<open>State and operations\<close>

definition STATUSLINE_LEN :: nat where "STATUSLINE_LEN = 36"
definition PROTOCOL_LEN :: nat where "PROTOCOL_LEN = 8"
definition DATETIME_LEN :: nat where "DATETIME_LEN = 32"
definition HTTP_EOL :: string where "HTTP_EOL = [CHR 0x0D, CHR 0x0A]"

record HTTPResponse =
  resp_buffer :: "bytes option"
  resp_buffer_length :: nat
  resp_server_name :: string
  resp_is_last :: int

text \<open>What a container serves on: a response, the rest of the program and the allocator, where
  \<open>None\<close> is undefined behaviour inside the container.\<close>

type_synonym 'x served = "(HTTPResponse \<times> 'x \<times> mem) option"

definition http_statuses :: "(nat \<times> string) list" where
  "http_statuses =
    [(100, ''Continue''), (101, ''Switching Protocols''), (102, ''Processing''),
     (200, ''OK''), (201, ''Created''), (202, ''Accepted''),
     (203, ''Non-Authoritative Information''), (204, ''No Content''), (205, ''Reset Content''),
     (206, ''Partial Content''), (207, ''Multi-Status''), (208, ''Already Reported''),
     (226, ''IM Used''), (300, ''Multiple Choices''), (301, ''Moved Permanently''),
     (302, ''Found''), (303, ''See Other''), (304, ''Not Modified''), (305, ''Use Proxy''),
     (306, ''Reserved''), (307, ''Temporary Redirect''), (308, ''Permanent Redirect''),
     (400, ''Bad Request''), (401, ''Unauthorized''), (402, ''Payment Required''),
     (403, ''Forbidden''), (404, ''Not Found''), (405, ''Method Not Allowed''),
     (406, ''Not Acceptable''), (407, ''Proxy Authentication Required''),
     (408, ''Request Timeout''), (409, ''Conflict''), (410, ''Gone''), (411, ''Length Required''),
     (412, ''Precondition Failed''), (413, ''Request Entity Too Large''),
     (414, ''Request-URI Too Long''), (415, ''Unsupported Media Type''),
     (416, ''Requested Range Not Satisfiable''), (417, ''Expectation Failed''),
     (422, ''Unprocessable Entity''), (423, ''Locked''), (424, ''Failed Dependency''),
     (426, ''Upgrade Required''), (428, ''Precondition Required''), (429, ''Too Many Requests''),
     (431, ''Request Header Fields Too Large''), (500, ''Internal Server Error''),
     (501, ''Not Implemented''), (502, ''Bad Gateway''), (503, ''Service Unavailable''),
     (504, ''Gateway Timeout''), (505, ''HTTP Version Not Supported''),
     (506, ''Variant Also Negotiates''), (507, ''Insufficient Storage''),
     (508, ''Loop Detected''), (510, ''Not Extended''),
     (511, ''Network Authentication Required'')]"

definition error_body :: string where
  "error_body = ''<!DOCTYPE html><html><head><title>%s</title></head><body><h1>%s</h1></body></html>''"

definition http_response_new :: "string \<Rightarrow> mem \<Rightarrow> HTTPResponse option \<times> mem" where
  "http_response_new server_name m =
     (let (p, m) = memory_create m in
      (case p of
         None \<Rightarrow> (None, m)
       | Some _ \<Rightarrow> (Some \<lparr>resp_buffer = None, resp_buffer_length = 0,
                        resp_server_name = server_name, resp_is_last = 0\<rparr>, m)))"

definition http_response_destroy :: "HTTPResponse \<Rightarrow> mem \<Rightarrow> mem" where
  "http_response_destroy r m =
     (let m = (if resp_buffer r \<noteq> None \<and> resp_buffer_length r \<noteq> 0
               then memory_destroy (resp_buffer r) m else m)
      in memory_destroy (Some r) m)"

text \<open>The table ends with code 0, so code 0 is never found.\<close>

definition status_message_by_code :: "nat \<Rightarrow> string option" where
  "status_message_by_code code = map_of http_statuses code"

definition http_response_append_data ::
    "bytes \<Rightarrow> HTTPResponse \<Rightarrow> mem \<Rightarrow> (int \<times> HTTPResponse \<times> mem) option" where
  "http_response_append_data data r m =
     (if data = [] then None
      else
        (let n = resp_buffer_length r;
             (b, m) = memory_resize (resp_buffer r) (n + length data) m in
         (case b of
            None \<Rightarrow> Some (-1, r\<lparr>resp_buffer := None\<rparr>, m)
          | Some nb \<Rightarrow>
              Some (int (length data),
                    r\<lparr>resp_buffer := Some (take n nb @ data),
                      resp_buffer_length := n + length data\<rparr>, m))))"

definition http_response_write_status_line ::
    "string \<Rightarrow> HTTPResponse \<Rightarrow> mem \<Rightarrow> (int \<times> HTTPResponse \<times> mem) option" where
  "http_response_write_status_line status_line r m =
     (let status_len = PROTOCOL_LEN + 1 + length status_line + length HTTP_EOL + 1;
          status = snprintf status_len (''HTTP/1.1 '' @ status_line @ HTTP_EOL)
      in http_response_append_data (take (status_len - 1) status) r m)"

definition http_response_write_status_line_by_code ::
    "nat \<Rightarrow> HTTPResponse \<Rightarrow> mem \<Rightarrow> (int \<times> HTTPResponse \<times> mem) option" where
  "http_response_write_status_line_by_code code r m =
     (case status_message_by_code code of
        None \<Rightarrow> Some (-1, r, m)
      | Some message \<Rightarrow>
          http_response_write_status_line
            (snprintf STATUSLINE_LEN (dec code @ '' '' @ message)) r m)"

definition http_response_write_header ::
    "string \<Rightarrow> string \<Rightarrow> HTTPResponse \<Rightarrow> mem \<Rightarrow> (int \<times> HTTPResponse \<times> mem) option" where
  "http_response_write_header key val r m =
     (let (n, header, m) = memory_asprintf (key @ '': '' @ val @ HTTP_EOL) m in
      if n < 0 then Some (-1, r, m)
      else do {
        h \<leftarrow> header;
        (ret, r, m) \<leftarrow> http_response_append_data h r m;
        Some (ret, r, memory_destroy header m)
      })"

definition http_response_end_headers ::
    "int \<Rightarrow> HTTPResponse \<Rightarrow> mem \<Rightarrow> (int \<times> HTTPResponse \<times> mem) option" where
  "http_response_end_headers clock r m = do {
     (ret1, r, m) \<leftarrow> http_response_write_header ''Server'' (resp_server_name r) r m;
     if ret1 < 0 then Some (-1, r, m)
     else if clock < 0 then Some (-1, r, m)
     else (case strftime DATETIME_LEN (gmtime (nat clock)) of
        None \<Rightarrow> Some (-1, r, m)
      | Some datetime \<Rightarrow> do {
          (ret2, r, m) \<leftarrow> http_response_write_header ''Date'' datetime r m;
          if ret2 < 0 then Some (-1, r, m)
          else do {
            (ret3, r, m) \<leftarrow> (if resp_is_last r \<noteq> 0
                             then http_response_write_header ''Connection'' ''Close'' r m
                             else Some (0, r, m));
            if ret3 < 0 then Some (-1, r, m)
            else do {
              (ret4, r, m) \<leftarrow> http_response_append_data HTTP_EOL r m;
              if ret4 < 0 then Some (-1, r, m)
              else Some (ret1 + ret2 + ret3 + ret4, r, m)
            }
          }
        })
   }"

text \<open>
  \<open>memmove\<close> brings the unread bytes to the front of the block, \<open>memory_resize\<close> cuts the rest
  off; when it fails the pointer to the block is lost.
\<close>

definition http_response_read_data ::
    "nat \<Rightarrow> HTTPResponse \<Rightarrow> mem \<Rightarrow> (int \<times> bytes \<times> HTTPResponse \<times> mem) option" where
  "http_response_read_data len r m =
     (if len = 0 then None
      else
        (let avail = (if resp_buffer_length r < len then resp_buffer_length r else len);
             rest = resp_buffer_length r - avail in
         case resp_buffer r of
           None \<Rightarrow> if avail = 0 then Some (0, [], r, m) else None
         | Some b \<Rightarrow>
             if rest = 0 then
               Some (int avail, take avail b,
                     r\<lparr>resp_buffer := None, resp_buffer_length := 0\<rparr>,
                     memory_destroy (resp_buffer r) m)
             else
               (let moved = take rest (drop avail b) @ drop rest b;
                    (nb, m) = memory_resize (Some moved) rest m in
                case nb of
                  None \<Rightarrow> Some (-1, take avail b,
                                r\<lparr>resp_buffer := None, resp_buffer_length := rest\<rparr>, m)
                | Some b' \<Rightarrow> Some (int avail, take avail b,
                                r\<lparr>resp_buffer := Some b', resp_buffer_length := rest\<rparr>, m))))"

definition http_response_set_last :: "int \<Rightarrow> HTTPResponse \<Rightarrow> HTTPResponse" where
  "http_response_set_last is_last r = r\<lparr>resp_is_last := is_last\<rparr>"

definition http_response_is_last :: "HTTPResponse \<Rightarrow> int" where
  "http_response_is_last r = resp_is_last r"

definition http_response_write_error_by_code ::
    "int \<Rightarrow> nat \<Rightarrow> HTTPResponse \<Rightarrow> mem \<Rightarrow> (int \<times> HTTPResponse \<times> mem) option" where
  "http_response_write_error_by_code clock code r m =
     (case status_message_by_code code of
        None \<Rightarrow> Some (-1, r, m)
      | Some message \<Rightarrow>
         (let (n, pbody, m) = memory_asprintf (sprintf_s error_body [message, message]) m in
          if n < 0 then Some (-1, r, m)
          else
           (let (k, len_s, m) = memory_asprintf (dec (length (the pbody))) m in
            if k < 0 then Some (-1, r, memory_destroy pbody m)
            else do {
              (ret1, r, m) \<leftarrow> http_response_write_status_line_by_code code r m;
              if ret1 < 0 then Some (-1, r, memory_destroy len_s (memory_destroy pbody m))
              else do {
                (ret2, r, m) \<leftarrow> http_response_write_header ''Content-Type'' ''text/html'' r m;
                if ret2 < 0 then Some (-1, r, memory_destroy len_s (memory_destroy pbody m))
                else do {
                  (ret3, r, m) \<leftarrow> http_response_write_header ''Content-Length'' (the len_s) r m;
                  if ret3 < 0 then Some (-1, r, memory_destroy len_s (memory_destroy pbody m))
                  else do {
                    (ret4, r, m) \<leftarrow>
                      http_response_end_headers clock r (memory_destroy len_s m);
                    if ret4 < 0 then Some (-1, r, memory_destroy pbody m)
                    else do {
                      (ret5, r, m) \<leftarrow> http_response_append_data (the pbody) r m;
                      if ret5 < 0 then Some (-1, r, memory_destroy pbody m)
                      else Some (ret1 + ret2 + ret3 + ret4 + ret5, r, memory_destroy pbody m)
                    }
                  }
                }
              }
            })))"

section \<open>What a writer emits\<close>

text \<open>The bytes not read yet, the representation invariant, and the heap blocks owned.\<close>

definition resp_contents :: "HTTPResponse \<Rightarrow> bytes" where
  "resp_contents r = (case resp_buffer r of None \<Rightarrow> [] | Some b \<Rightarrow> b)"

definition resp_wf :: "HTTPResponse \<Rightarrow> bool" where
  "resp_wf r = (case resp_buffer r of None \<Rightarrow> resp_buffer_length r = 0
     | Some b \<Rightarrow> length b = resp_buffer_length r \<and> b \<noteq> [])"

definition resp_owned :: "HTTPResponse \<Rightarrow> int" where
  "resp_owned r = 1 + (if resp_buffer r = None then 0 else 1)"

text \<open>
  From \<open>(r, m)\<close> to \<open>(r', m')\<close> exactly the bytes \<open>d\<close> were appended, and \<open>k\<close> blocks are live that
  neither the response owns nor were live before (the temporaries of the caller).
\<close>

definition emitted :: "int \<Rightarrow> bytes \<Rightarrow> HTTPResponse \<Rightarrow> mem \<Rightarrow> HTTPResponse \<Rightarrow> mem \<Rightarrow> bool" where
  "emitted k d r m r' m' \<longleftrightarrow> resp_wf r' \<and> resp_contents r' = resp_contents r @ d \<and>
     resp_server_name r' = resp_server_name r \<and> resp_is_last r' = resp_is_last r \<and>
     blocks m' - resp_owned r' = blocks m - resp_owned r + k \<and>
     fresh m \<le> fresh m' \<and> (answers m = [] \<longrightarrow> answers m' = [])"

text \<open>A writer either fails with -1 or emits \<open>d\<close> and returns its length; with an allocator that
  does not fail it emits \<open>d\<close>.\<close>

definition outcome :: "bytes \<Rightarrow> HTTPResponse \<Rightarrow> mem \<Rightarrow> (int \<times> HTTPResponse \<times> mem) option \<Rightarrow> bool" where
  "outcome d r m res \<longleftrightarrow> (\<exists>ret r' m'. res = Some (ret, r', m') \<and>
     (ret = -1 \<or> ret = int (length d) \<and> emitted 0 d r m r' m') \<and>
     (answers m = [] \<longrightarrow> ret \<noteq> -1))"

lemma emitted_refl: "resp_wf r \<Longrightarrow> emitted 0 [] r m r m"
  by (simp add: emitted_def)

lemma emitted_trans:
  "emitted k d r m r1 m1 \<Longrightarrow> emitted j e r1 m1 r2 m2 \<Longrightarrow> emitted (k + j) (d @ e) r m r2 m2"
  by (simp add: emitted_def)

lemma emitted_wf: "emitted k d r m r' m' \<Longrightarrow> resp_wf r'"
  by (simp add: emitted_def)

lemma emitted_answers: "emitted k d r m r' m' \<Longrightarrow> answers m = [] \<Longrightarrow> answers m' = []"
  by (simp add: emitted_def)

lemma emitted_fields:
  "emitted k d r m r' m' \<Longrightarrow> resp_server_name r' = resp_server_name r \<and> resp_is_last r' = resp_is_last r"
  by (simp add: emitted_def)

lemma emitted_destroy:
  "emitted k d r m r' m' \<Longrightarrow> p \<noteq> None \<Longrightarrow> emitted (k - 1) d r m r' (memory_destroy p m')"
  by (auto simp: emitted_def)

lemma emitted_asprintf:
  assumes "emitted k d r m r' m'" "memory_asprintf s m' = (n, p, m'')" "0 \<le> n"
  shows "p = Some s \<and> emitted (k + 1) d r m r' m''"
proof -
  have "answers m' = [] \<longrightarrow> answers m'' = []" using assms(2) by auto
  then show ?thesis
    using assms(1,3) memory_asprintf_cases[OF assms(2)] memory_asprintf_fresh_mono[OF assms(2)]
    by (auto simp: emitted_def)
qed

text \<open>The sequencing rule every writer is proved with: the error branch returns -1.\<close>

lemma outcome_bind:
  assumes "emitted k p r0 m0 r m" "outcome d1 r m res"
    and "\<And>r1 m1. emitted k (p @ d1) r0 m0 r1 m1 \<Longrightarrow> outcome d r0 m0 (cont (int (length d1)) r1 m1)"
  shows "outcome d r0 m0 (Option.bind res
     (\<lambda>(ret, r, m). if ret < 0 then Some (-1, r, clean m) else cont ret r m))"
proof -
  obtain ret r1 m1 where res: "res = Some (ret, r1, m1)"
    "ret = -1 \<or> ret = int (length d1) \<and> emitted 0 d1 r m r1 m1" "answers m = [] \<longrightarrow> ret \<noteq> -1"
    using assms(2) by (auto simp: outcome_def)
  show ?thesis
  proof (cases "ret = -1")
    case True
    then have "answers m0 \<noteq> []" using res(3) emitted_answers[OF assms(1)] by auto
    then show ?thesis using True res(1) by (simp add: outcome_def)
  next
    case False
    then have "ret = int (length d1)" "emitted k (p @ d1) r0 m0 r1 m1"
      using res(2) emitted_trans[OF assms(1)] by force+
    then show ?thesis using res(1) assms(3) by simp
  qed
qed

lemma outcome_done:
  "emitted 0 d r m r' m' \<Longrightarrow> n = int (length d) \<Longrightarrow> outcome d r m (Some (n, r', m'))"
  by (auto simp: outcome_def)

section \<open>The writers\<close>

lemma append_data_outcome:
  assumes wf: "resp_wf r" and d: "d \<noteq> []"
  shows "outcome d r m (http_response_append_data d r m)"
proof -
  obtain nb m1 where mr:
    "memory_resize (resp_buffer r) (resp_buffer_length r + length d) m = (nb, m1)" by fastforce
  have "answers m = [] \<longrightarrow> nb \<noteq> None \<and> answers m1 = []"
    using memory_resize_ok[of m "resp_buffer r" "resp_buffer_length r + length d"] mr by auto
  moreover have "take (resp_buffer_length r) b = resp_contents r" if "nb = Some b" for b
    using memory_resize_content[OF mr[unfolded that]] wf
    by (auto simp: resp_wf_def resp_contents_def resized_def split: option.splits)
  ultimately show ?thesis using d mr wf memory_resize_fresh_mono[OF mr]
    by (cases nb) (auto simp: http_response_append_data_def outcome_def emitted_def resp_wf_def
        resp_contents_def resp_owned_def mem_simps split: option.splits)
qed

lemma write_status_line_outcome:
  assumes "resp_wf r"
  shows "outcome (''HTTP/1.1 '' @ s @ HTTP_EOL) r m (http_response_write_status_line s r m)"
proof -
  have "snprintf (PROTOCOL_LEN + 1 + length s + length HTTP_EOL + 1) (''HTTP/1.1 '' @ s @ HTTP_EOL) =
      ''HTTP/1.1 '' @ s @ HTTP_EOL" by (rule snprintf_fits) (simp add: PROTOCOL_LEN_def)
  with append_data_outcome[OF assms, of "''HTTP/1.1 '' @ s @ HTTP_EOL"] show ?thesis
    by (simp add: http_response_write_status_line_def PROTOCOL_LEN_def)
qed

lemma write_header_outcome:
  assumes "resp_wf r"
  shows "outcome (k @ '': '' @ v @ HTTP_EOL) r m (http_response_write_header k v r m)"
proof -
  let ?h = "k @ '': '' @ v @ HTTP_EOL"
  obtain n p m1 where a: "memory_asprintf ?h m = (n, p, m1)" by (cases "memory_asprintf ?h m")
  show ?thesis
  proof (cases "n < 0")
    case True
    then have "answers m \<noteq> []" using a by auto
    with True a show ?thesis by (simp add: http_response_write_header_def outcome_def)
  next
    case False
    then have em: "p = Some ?h" "emitted 1 [] r m r m1"
      using emitted_asprintf[OF emitted_refl[OF assms] a] by auto
    obtain ret r2 m2 where w: "http_response_append_data ?h r m1 = Some (ret, r2, m2)"
      "ret = -1 \<or> ret = int (length ?h) \<and> emitted 0 ?h r m1 r2 m2" "answers m1 = [] \<longrightarrow> ret \<noteq> -1"
      using append_data_outcome[OF assms, of ?h m1] by (auto simp: outcome_def)
    have "emitted 0 ?h r m r2 (memory_destroy p m2)" if "ret \<noteq> -1"
      using emitted_destroy[OF emitted_trans[OF em(2), of 0 ?h r2 m2], of p] w(2) that em(1) by auto
    then show ?thesis using a False em w
      by (auto simp: http_response_write_header_def outcome_def dest: emitted_answers)
  qed
qed

section \<open>Status lines, headers, error pages\<close>

lemma status_entry: "status_message_by_code code = Some msg \<Longrightarrow> (code, msg) \<in> set http_statuses"
  by (simp add: status_message_by_code_def map_of_SomeD)

lemma status_entry_bounds:
  "\<forall>(code, msg) \<in> set http_statuses. 100 \<le> code \<and> code < 1000 \<and> length msg \<le> 31"
  by (simp add: http_statuses_def)

lemma status_bounds:
  assumes "status_message_by_code code = Some msg"
  shows "length (dec code @ '' '' @ msg) < STATUSLINE_LEN"
proof -
  have "code < 10 ^ 3" "length msg \<le> 31" using status_entry[OF assms] status_entry_bounds by auto
  with length_dec_bound[of 3 code] show ?thesis by (simp add: STATUSLINE_LEN_def)
qed

lemma write_status_line_by_code_outcome:
  assumes "resp_wf r" "status_message_by_code code = Some msg"
  shows "outcome (''HTTP/1.1 '' @ (dec code @ '' '' @ msg) @ HTTP_EOL) r m
           (http_response_write_status_line_by_code code r m)"
  using write_status_line_outcome[OF assms(1), of "dec code @ '' '' @ msg" m]
  by (simp add: http_response_write_status_line_by_code_def assms(2)
      snprintf_fits[OF status_bounds[OF assms(2)], simplified])

definition header_line :: "string \<Rightarrow> string \<Rightarrow> string" where
  "header_line k v = k @ '': '' @ v @ HTTP_EOL"

definition end_headers_text :: "nat \<Rightarrow> HTTPResponse \<Rightarrow> string" where
  "end_headers_text now r = header_line ''Server'' (resp_server_name r) @
     header_line ''Date'' (http_date (gmtime now)) @
     (if resp_is_last r \<noteq> 0 then header_line ''Connection'' ''Close'' else []) @ HTTP_EOL"

lemma HTTP_EOL_nonempty: "HTTP_EOL \<noteq> []" by (simp add: HTTP_EOL_def)

lemma write_header_line_outcome:
  "resp_wf r \<Longrightarrow> outcome (header_line k v) r m (http_response_write_header k v r m)"
  using write_header_outcome[of r k v m] by (simp add: header_line_def)

lemma strftime_http_date:
  "now < 86400 * (365 * 8030) \<Longrightarrow> strftime DATETIME_LEN (gmtime now) = Some (http_date (gmtime now))"
  using http_date_length[of now] by (simp add: strftime_def DATETIME_LEN_def)

lemma connection_header_outcome:
  assumes "resp_wf r"
  shows "outcome (if resp_is_last r \<noteq> 0 then header_line ''Connection'' ''Close'' else []) r m
    (if resp_is_last r \<noteq> 0 then http_response_write_header ''Connection'' ''Close'' r m
     else Some (0, r, m))"
  using assms by (simp add: write_header_line_outcome outcome_done emitted_refl)

lemma end_headers_outcome:
  assumes wf: "resp_wf r" and clock: "0 \<le> clock" "nat clock < 86400 * (365 * 8030)"
  shows "outcome (end_headers_text (nat clock) r) r m (http_response_end_headers clock r m)"
  unfolding http_response_end_headers_def
proof (rule outcome_bind[OF emitted_refl[OF wf] write_header_line_outcome[OF wf]], goal_cases)
  case e1: (1 r1 m1)
  show ?case
    unfolding strftime_http_date[OF clock(2)] option.case if_not_P[OF clock(1)[THEN leD]]
  proof (rule outcome_bind[OF e1 write_header_line_outcome[OF emitted_wf[OF e1]]], goal_cases)
    case e2: (1 r2 m2)
    show ?case
    proof (rule outcome_bind[OF e2 connection_header_outcome[OF emitted_wf[OF e2]]], goal_cases)
      case e3: (1 r3 m3)
      show ?case
      proof (rule outcome_bind[OF e3 append_data_outcome[OF emitted_wf[OF e3] HTTP_EOL_nonempty]],
          goal_cases)
        case e4: (1 r4 m4)
        show ?case
          by (rule outcome_done)
            (use e4 emitted_fields[OF e1] emitted_fields[OF e2] in \<open>simp_all add: end_headers_text_def\<close>)
      qed
    qed
  qed
qed

definition error_page :: "string \<Rightarrow> string" where
  "error_page msg = ''<!DOCTYPE html><html><head><title>'' @ msg @ ''</title></head><body><h1>'' @
     msg @ ''</h1></body></html>''"

lemma sprintf_error_body: "sprintf_s error_body [msg, msg] = error_page msg"
  by (simp add: error_body_def error_page_def)

definition error_text :: "nat \<Rightarrow> nat \<Rightarrow> string \<Rightarrow> HTTPResponse \<Rightarrow> string" where
  "error_text now code msg r = ''HTTP/1.1 '' @ (dec code @ '' '' @ msg) @ HTTP_EOL @
     header_line ''Content-Type'' ''text/html'' @
     header_line ''Content-Length'' (dec (length (error_page msg))) @
     end_headers_text now r @ error_page msg"

lemma error_page_nonempty: "error_page msg \<noteq> []" by (simp add: error_page_def)

text \<open>The texts could be allocated: the writers one after the other, and the texts released.\<close>

lemma write_error_written:
  assumes wf: "resp_wf r" and clock: "0 \<le> clock" "nat clock < 86400 * (365 * 8030)"
    and msg: "status_message_by_code code = Some msg"
    and page: "memory_asprintf (error_page msg) m = (n, Some (error_page msg), m1)" "\<not> n < 0"
    and len: "memory_asprintf (dec (length (error_page msg))) m1 = (k, Some (dec (length (error_page msg))), m2)" "\<not> k < 0"
    and e: "emitted 2 [] r m r m2"
  shows "outcome (error_text (nat clock) code msg r) r m (http_response_write_error_by_code clock code r m)"
  unfolding http_response_write_error_by_code_def msg option.case sprintf_error_body page(1) len(1)
    prod.case Let_def if_not_P[OF page(2)] option.sel if_not_P[OF len(2)]
proof (rule outcome_bind[OF e write_status_line_by_code_outcome[OF wf msg]], goal_cases)
  case c1: (1 r1 m1)
  show ?case
  proof (rule outcome_bind[OF c1 write_header_line_outcome[OF emitted_wf[OF c1]]], goal_cases)
    case c2: (1 r2 m2)
    show ?case
    proof (rule outcome_bind[OF c2 write_header_line_outcome[OF emitted_wf[OF c2]]], goal_cases)
      case c3: (1 r3 m3)
      note d3 = emitted_destroy[OF c3, of "Some (dec (length (error_page msg)))"]
      show ?case
      proof (rule outcome_bind[OF d3 end_headers_outcome[OF emitted_wf[OF c3] clock]], simp, goal_cases)
        case c4: (1 r4 m4)
        show ?case
        proof (rule outcome_bind[OF c4 append_data_outcome[OF emitted_wf[OF c4] error_page_nonempty]], goal_cases)
          case c5: (1 r5 m5)
          have "end_headers_text (nat clock) r3 = end_headers_text (nat clock) r"
            using emitted_fields[OF c3] by (simp add: end_headers_text_def)
          then show ?case
            using emitted_destroy[OF c5, of "Some (error_page msg)"]
            by (intro outcome_done) (simp_all add: error_text_def)
        qed
      qed
    qed
  qed
qed

lemma write_error_outcome:
  assumes wf: "resp_wf r" and clock: "0 \<le> clock" "nat clock < 86400 * (365 * 8030)"
    and msg: "status_message_by_code code = Some msg"
  shows "outcome (error_text (nat clock) code msg r) r m (http_response_write_error_by_code clock code r m)"
proof -
  obtain n p m1 where a: "memory_asprintf (error_page msg) m = (n, p, m1)"
    by (cases "memory_asprintf (error_page msg) m")
  obtain k q m2 where b: "memory_asprintf (dec (length (error_page msg))) m1 = (k, q, m2)"
    by (cases "memory_asprintf (dec (length (error_page msg))) m1")
  consider (page) "n < 0" | (len) "\<not> n < 0" "k < 0" | (made) "\<not> n < 0" "\<not> k < 0" by blast
  then show ?thesis
  proof cases
    case page
    then have "answers m \<noteq> []" using a by auto
    with page a msg show ?thesis
      by (simp add: http_response_write_error_by_code_def sprintf_error_body outcome_def)
  next
    case len
    then have e1: "p = Some (error_page msg)" "emitted 1 [] r m r m1"
      using emitted_asprintf[OF emitted_refl[OF wf] a] by auto
    have "answers m \<noteq> []" using len(2) b emitted_answers[OF e1(2)] by auto
    with len a b e1 msg show ?thesis
      by (simp add: http_response_write_error_by_code_def sprintf_error_body outcome_def)
  next
    case made
    then have e1: "p = Some (error_page msg)" "emitted 1 [] r m r m1"
      using emitted_asprintf[OF emitted_refl[OF wf] a] by auto
    then have e2: "q = Some (dec (length (error_page msg)))" "emitted 2 [] r m r m2"
      using emitted_asprintf[OF e1(2) b] made(2) by auto
    show ?thesis by (rule write_error_written[OF wf clock msg a[unfolded e1(1)] made(1) b[unfolded e2(1)] made(2) e2(2)])
  qed
qed

section \<open>The response is a byte queue\<close>

lemma read_data_result:
  assumes wf: "resp_wf r" and len: "0 < len"
  shows "\<exists>ret data r' m'. http_response_read_data len r m = Some (ret, data, r', m') \<and>
     data = take len (resp_contents r) \<and>
     (ret = -1 \<or> ret = int (length data) \<and> resp_wf r' \<and>
        resp_contents r' = drop len (resp_contents r) \<and>
        blocks m' - resp_owned r' = blocks m - resp_owned r) \<and>
     (answers m = [] \<longrightarrow> ret \<noteq> -1 \<and> answers m' = [])"
proof (cases "resp_buffer r")
  case None
  with wf len show ?thesis
    by (simp add: http_response_read_data_def resp_wf_def resp_contents_def)
next
  case (Some b)
  then have b: "length b = resp_buffer_length r" "b \<noteq> []" using wf by (auto simp: resp_wf_def)
  show ?thesis
  proof (cases "length b \<le> len")
    case True
    with Some b len show ?thesis
      by (auto simp: http_response_read_data_def resp_wf_def resp_contents_def resp_owned_def Let_def)
  next
    case False
    let ?rest = "length b - len"
    let ?moved = "take ?rest (drop len b) @ drop ?rest b"
    obtain nb m1 where mr: "memory_resize (Some ?moved) ?rest m = (nb, m1)" by fastforce
    have "answers m = [] \<longrightarrow> nb \<noteq> None \<and> answers m1 = []"
      using memory_resize_ok[of m "Some ?moved" ?rest] mr by auto
    moreover have "b' = drop len b" if "nb = Some b'" for b'
      using memory_resize_content[OF mr[unfolded that]] False by (simp add: resized_shrink)
    ultimately show ?thesis using Some b False mr len
      by (cases nb) (auto simp: http_response_read_data_def resp_wf_def resp_contents_def
          resp_owned_def Let_def mem_simps)
  qed
qed

definition resp_put :: "bytes \<Rightarrow> HTTPResponse \<times> mem \<Rightarrow> (HTTPResponse \<times> mem) option" where
  "resp_put d s = map_option snd (http_response_append_data d (fst s) (snd s))"

definition resp_get :: "nat \<Rightarrow> HTTPResponse \<times> mem \<Rightarrow> (bytes \<times> HTTPResponse \<times> mem) option" where
  "resp_get n s = map_option snd (http_response_read_data n (fst s) (snd s))"

interpretation resp_queue:
  byte_queue resp_put resp_get "\<lambda>s. resp_contents (fst s)"
    "\<lambda>s. resp_wf (fst s) \<and> answers (snd s) = []"
proof unfold_locales
  fix s :: "HTTPResponse \<times> mem" and d :: bytes
  assume "resp_wf (fst s) \<and> answers (snd s) = []" "d \<noteq> []"
  then show "\<exists>t. resp_put d s = Some t \<and> (resp_wf (fst t) \<and> answers (snd t) = []) \<and>
      resp_contents (fst t) = resp_contents (fst s) @ d"
    using append_data_outcome[of "fst s" d "snd s"]
    by (auto simp: resp_put_def outcome_def emitted_def)
next
  fix s :: "HTTPResponse \<times> mem" and n :: nat
  assume "resp_wf (fst s) \<and> answers (snd s) = []" "0 < n"
  then show "\<exists>t. resp_get n s = Some (take n (resp_contents (fst s)), t) \<and>
      (resp_wf (fst t) \<and> answers (snd t) = []) \<and> resp_contents (fst t) = drop n (resp_contents (fst s))"
    using read_data_result[of "fst s" n "snd s"] by (auto simp: resp_get_def)
qed

section \<open>Properties\<close>

text \<open>
  C17: Any interleaving of \<open>http_response_append_data\<close> and \<open>http_response_read_data\<close> calls
  runs without undefined behaviour when the allocator does not fail, and the bytes read so far
  followed by the bytes still buffered are exactly the bytes appended, in order.
\<close>

theorem response_stream:
  assumes "resp_wf r" "answers m = []" "list_all valid_op ops"
  shows "\<exists>out r' m'. queue_run resp_put resp_get ops (r, m) = Some (out, r', m') \<and>
     out @ resp_contents r' = resp_contents r @ concat (map op_input ops)"
  using resp_queue.run_stream[of "(r, m)" ops] assms by auto

definition response0 :: HTTPResponse where
  "response0 = \<lparr>resp_buffer = None, resp_buffer_length = 0,
     resp_server_name = ''RApp-dev'', resp_is_last = 0\<rparr>"

lemma response0_wf: "resp_wf response0"
  by (simp add: response0_def resp_wf_def)

theorem response_stream_witness:
  "\<exists>out r' m'. queue_run resp_put resp_get [Put ''abc'', Get 2, Put ''de'', Get 9] (response0, mem0) =
     Some (out, r', m') \<and> out @ resp_contents r' = ''abcde''"
  using response_stream[OF response0_wf answers_mem0, of "[Put ''abc'', Get 2, Put ''de'', Get 9]"]
  by (simp add: valid_op_def op_input_def response0_def resp_contents_def)

text \<open>
  For every code of the status table the status line that is appended is the whole of
  \<open>HTTP/1.1 code message\<close> and the line end: the 36 bytes reserved for code and message are
  enough, so \<open>snprintf\<close> never cuts a message.  The call returns its length or, when the
  allocator fails, -1.
\<close>

theorem status_line_complete:
  assumes "resp_wf r" "(code, msg) \<in> set http_statuses"
    and "http_response_write_status_line_by_code code r m = Some (ret, r', m')" "ret \<noteq> -1"
  shows "resp_contents r' = resp_contents r @ ''HTTP/1.1 '' @ dec code @ '' '' @ msg @ HTTP_EOL \<and>
         ret = int (length (resp_contents r') - length (resp_contents r))"
proof -
  have "distinct (map fst http_statuses)" by (simp add: http_statuses_def)
  then have "status_message_by_code code = Some msg"
    using assms(2) by (simp add: status_message_by_code_def)
  from write_status_line_by_code_outcome[OF assms(1) this, of m] assms(3,4)
  show ?thesis by (auto simp: outcome_def emitted_def)
qed

theorem status_line_complete_witness:
  "\<exists>ret r' m'. http_response_write_status_line_by_code 416 response0 mem0 = Some (ret, r', m') \<and>
     resp_contents r' = ''HTTP/1.1 416 Requested Range Not Satisfiable'' @ HTTP_EOL"
proof -
  have mem: "(416, ''Requested Range Not Satisfiable'') \<in> set http_statuses"
    by (simp add: http_statuses_def)
  then have msg: "status_message_by_code 416 = Some ''Requested Range Not Satisfiable''"
    by (simp add: status_message_by_code_def http_statuses_def)
  obtain ret r' m' where c: "http_response_write_status_line_by_code 416 response0 mem0 =
      Some (ret, r', m')" "ret \<noteq> -1"
    using write_status_line_by_code_outcome[OF response0_wf msg, of mem0] answers_mem0
    by (auto simp: outcome_def)
  have "resp_contents r' = ''HTTP/1.1 '' @ dec 416 @ '' Requested Range Not Satisfiable'' @ HTTP_EOL"
    using status_line_complete[OF response0_wf mem c] by (simp add: response0_def resp_contents_def)
  then show ?thesis using c by (simp add: dec.simps)
qed

text \<open>
  C29: For a known code, a clock before the year 9994 and a result other than -1, the error page
  appends exactly the status line, the headers and the page, returns the number of bytes
  appended, leaks no temporary, and the number printed in \<open>Content-Length\<close> reads back as the
  length of the page.
\<close>

theorem error_response_exact:
  assumes "resp_wf r" "0 \<le> clock" "nat clock < 86400 * (365 * 8030)"
    and "(code, msg) \<in> set http_statuses"
    and "http_response_write_error_by_code clock code r m = Some (ret, r', m')" "ret \<noteq> -1"
  shows "resp_contents r' = resp_contents r @ error_text (nat clock) code msg r \<and>
         ret = int (length (error_text (nat clock) code msg r)) \<and>
         blocks m' - resp_owned r' = blocks m - resp_owned r \<and>
         (int (length (error_page msg)) \<le> LONG_MAX \<longrightarrow>
            strtol (dec (length (error_page msg))) = (int (length (error_page msg)), [], False))"
proof -
  have "distinct (map fst http_statuses)" by (simp add: http_statuses_def)
  then have "status_message_by_code code = Some msg"
    using assms(4) by (simp add: status_message_by_code_def)
  from write_error_outcome[OF assms(1-3) this, of m] assms(5,6)
  show ?thesis by (auto simp: outcome_def emitted_def strtol_dec)
qed

theorem error_response_exact_witness:
  "\<exists>ret r' m'. http_response_write_error_by_code 0 404 response0 mem0 = Some (ret, r', m') \<and>
     resp_contents r' = error_text 0 404 ''Not Found'' response0"
proof -
  have mem: "(404, ''Not Found'') \<in> set http_statuses" by (simp add: http_statuses_def)
  then have msg: "status_message_by_code 404 = Some ''Not Found''"
    by (simp add: status_message_by_code_def http_statuses_def)
  obtain ret r' m' where c: "http_response_write_error_by_code 0 404 response0 mem0 =
      Some (ret, r', m')" "ret \<noteq> -1"
    using write_error_outcome[OF response0_wf _ _ msg, of 0 mem0] answers_mem0
    by (auto simp: outcome_def)
  have "resp_contents r' = error_text 0 404 ''Not Found'' response0"
    using error_response_exact[OF response0_wf _ _ mem c] by (simp add: response0_def resp_contents_def)
  then show ?thesis using c by auto
qed

text \<open>
  \<open>http_response_end_headers\<close> appends the \<open>Server\<close> and \<open>Date\<close> headers, \<open>Connection: Close\<close>
  exactly when the response is the last one, and the empty line; the 32 bytes for the date are
  enough, so it fails only when the allocator does.
\<close>

theorem end_headers_exact:
  assumes "resp_wf r" "answers m = []" "0 \<le> clock" "nat clock < 86400 * (365 * 8030)"
  shows "\<exists>r' m'. http_response_end_headers clock r m =
           Some (int (length (end_headers_text (nat clock) r)), r', m') \<and>
         resp_contents r' = resp_contents r @ end_headers_text (nat clock) r"
  using end_headers_outcome[OF assms(1,3,4), of m] assms(2) by (auto simp: outcome_def emitted_def)

theorem end_headers_exact_witness:
  "\<exists>r' m'. http_response_end_headers 2 (response0\<lparr>resp_is_last := 1\<rparr>) mem0 =
      Some (int (length (end_headers_text 2 (response0\<lparr>resp_is_last := 1\<rparr>))), r', m') \<and>
    resp_contents r' = ''Server: RApp-dev'' @ HTTP_EOL @ ''Date: Thu, 01 Jan 1970 00:00:02 +0000'' @
      HTTP_EOL @ ''Connection: Close'' @ HTTP_EOL @ HTTP_EOL"
proof -
  have wf: "resp_wf (response0\<lparr>resp_is_last := 1\<rparr>)" by (simp add: resp_wf_def response0_def)
  have date: "http_date (gmtime 2) = ''Thu, 01 Jan 1970 00:00:02 +0000''"
    by (simp add: http_date_def gmtime_def year_loop.simps year_len_def leap_def month_lens_def
        wday_names_def month_names_def pad2_def dec.simps)
  obtain r' m' where c: "http_response_end_headers 2 (response0\<lparr>resp_is_last := 1\<rparr>) mem0 =
      Some (int (length (end_headers_text 2 (response0\<lparr>resp_is_last := 1\<rparr>))), r', m')"
    "resp_contents r' = resp_contents (response0\<lparr>resp_is_last := 1\<rparr>) @
       end_headers_text 2 (response0\<lparr>resp_is_last := 1\<rparr>)"
    using end_headers_exact[OF wf answers_mem0, of 2] by auto
  moreover have "resp_contents r' = ''Server: RApp-dev'' @ HTTP_EOL @
      ''Date: Thu, 01 Jan 1970 00:00:02 +0000'' @ HTTP_EOL @ ''Connection: Close'' @ HTTP_EOL @ HTTP_EOL"
    using c(2) by (simp add: end_headers_text_def header_line_def date response0_def resp_contents_def)
  ultimately show ?thesis by blast
qed

text \<open>
  A failed \<open>memory_resize\<close> in \<open>http_response_append_data\<close> throws the buffered output away
  but keeps its length (and loses the block): if the next append succeeds, the connection
  sends as many bytes of uninitialised memory as were buffered before, in place of the output.
\<close>

theorem append_after_failed_append:
  assumes "resp_wf r" "resp_buffer r \<noteq> None"
    and "http_response_append_data d1 r m = Some (-1, r1, m1)"
    and "http_response_append_data d2 r1 m1 = Some (ret, r2, m2)" "ret \<noteq> -1"
  shows "resp_contents r2 = map (junk m1) [0..<length (resp_contents r)] @ d2 \<and>
         blocks m1 - resp_owned r1 = blocks m - resp_owned r + 1"
proof -
  obtain b where b: "resp_buffer r = Some b" "length b = resp_buffer_length r"
    using assms(1,2) by (auto simp: resp_wf_def split: option.splits)
  have 1: "r1 = r\<lparr>resp_buffer := None\<rparr>" "blocks m1 = blocks m"
    using assms(3) by (auto simp: http_response_append_data_def Let_def mem_simps
        split: if_splits option.splits prod.splits)
  obtain nb m' where mr: "memory_resize None (length b + length d2) m1 = (nb, m')" by fastforce
  with assms(4,5) 1 b obtain c where "nb = Some c" "r2 = r1\<lparr>resp_buffer := Some (take (length b) c @ d2),
      resp_buffer_length := length b + length d2\<rparr>"
    by (auto simp: http_response_append_data_def Let_def split: if_splits option.splits)
  then show ?thesis
    using memory_resize_content[of None "length b + length d2" m1 c m'] mr 1 b
    by (simp add: resp_contents_def resp_owned_def resized_def take_map)
qed

theorem append_after_failed_append_witness:
  "\<exists>r1 m1 ret r2 m2. http_response_append_data ''x''
      (response0\<lparr>resp_buffer := Some ''ab'', resp_buffer_length := 2\<rparr>) (mem0\<lparr>answers := [False]\<rparr>) =
      Some (-1, r1, m1) \<and> http_response_append_data ''y'' r1 m1 = Some (ret, r2, m2) \<and>
    resp_contents r2 = ''??y''"
proof -
  let ?r = "response0\<lparr>resp_buffer := Some ''ab'', resp_buffer_length := 2\<rparr>"
  let ?m = "mem0\<lparr>answers := [False]\<rparr>"
  have wf: "resp_wf ?r" by (simp add: resp_wf_def)
  obtain r1 m1 where 1: "http_response_append_data ''x'' ?r ?m = Some (-1, r1, m1)" "junk m1 = junk mem0"
     "resp_buffer_length r1 = 2" "resp_buffer r1 = None" "answers m1 = []"
    by (simp add: http_response_append_data_def memory_resize_def take_answer_def response0_def)
  obtain ret r2 m2 where 2: "http_response_append_data ''y'' r1 m1 = Some (ret, r2, m2)" "ret \<noteq> -1"
    using 1 by (simp add: http_response_append_data_def memory_resize_def Let_def)
  have "resp_contents r2 = ''??y''"
    using append_after_failed_append[OF wf _ 1(1) 2] 1(2)
    by (simp add: resp_contents_def mem0_def upt_rec)
  with 1(1) 2(1) show ?thesis by blast
qed

end
