(* ===== verification/Http_Request.thy ===== *)
theory Http_Request
  imports Memory C_Strings
begin

text \<open>
  A parsed request (\<open>src/httprequest.c\<close>, \<open>rapp/rapp_httprequest.h\<close>): ranges into the block of
  header bytes, and the body.  Index and block accesses outside the arrays, and failed asserts, are
  \<open>None\<close>.
\<close>

section \<open>Data\<close>

definition HTTP_REQUEST_MAX_HEADERS :: nat where "HTTP_REQUEST_MAX_HEADERS = 100"

record MemoryRange =
  mr_offset :: nat
  mr_length :: nat

record HeaderMemoryRange =
  hr_key :: MemoryRange
  hr_value :: MemoryRange

datatype HTTPMethod =
    HTTP_METHOD_DELETE | HTTP_METHOD_GET | HTTP_METHOD_HEAD | HTTP_METHOD_POST | HTTP_METHOD_PUT
  | HTTP_METHOD_CONNECT | HTTP_METHOD_OPTIONS | HTTP_METHOD_TRACE | HTTP_METHOD_COPY
  | HTTP_METHOD_LOCK | HTTP_METHOD_MKCOL | HTTP_METHOD_MOVE | HTTP_METHOD_PROPFIND
  | HTTP_METHOD_PROPPATCH | HTTP_METHOD_SEARCH | HTTP_METHOD_UNLOCK | HTTP_METHOD_REPORT
  | HTTP_METHOD_MKACTIVITY | HTTP_METHOD_CHECKOUT | HTTP_METHOD_MERGE | HTTP_METHOD_MSEARCH
  | HTTP_METHOD_NOTIFY | HTTP_METHOD_SUBSCRIBE | HTTP_METHOD_UNSUBSCRIBE | HTTP_METHOD_PATCH
  | HTTP_METHOD_PURGE | HTTP_METHOD_MAX

datatype HTTPURLField =
    HTTP_URL_FIELD_SCHEMA | HTTP_URL_FIELD_HOST | HTTP_URL_FIELD_PORT | HTTP_URL_FIELD_PATH
  | HTTP_URL_FIELD_QUERY | HTTP_URL_FIELD_FRAGMENT | HTTP_URL_FIELD_USERINFO | HTTP_URL_FIELD_MAX

primrec field_index :: "HTTPURLField \<Rightarrow> nat" where
  "field_index HTTP_URL_FIELD_SCHEMA = 0"
| "field_index HTTP_URL_FIELD_HOST = 1"
| "field_index HTTP_URL_FIELD_PORT = 2"
| "field_index HTTP_URL_FIELD_PATH = 3"
| "field_index HTTP_URL_FIELD_QUERY = 4"
| "field_index HTTP_URL_FIELD_FRAGMENT = 5"
| "field_index HTTP_URL_FIELD_USERINFO = 6"
| "field_index HTTP_URL_FIELD_MAX = 7"

record HTTPRequest =
  req_method :: HTTPMethod
  req_url_range :: MemoryRange
  req_url_field_ranges :: "MemoryRange list"
  req_headers_ranges :: "HeaderMemoryRange list"
  req_current_header :: nat
  req_headers_buffer :: "bytes option"
  req_body :: "bytes option"
  req_body_length :: nat
  req_is_last :: int

definition range0 :: MemoryRange where
  "range0 = \<lparr>mr_offset = 0, mr_length = 0\<rparr>"

definition http_request_zero :: HTTPRequest where
  "http_request_zero =
     \<lparr>req_method = HTTP_METHOD_DELETE, req_url_range = range0,
      req_url_field_ranges = replicate (field_index HTTP_URL_FIELD_MAX) range0,
      req_headers_ranges =
        replicate HTTP_REQUEST_MAX_HEADERS \<lparr>hr_key = range0, hr_value = range0\<rparr>,
      req_current_header = 0, req_headers_buffer = None, req_body = None, req_body_length = 0,
      req_is_last = 0\<rparr>"

section \<open>Operations\<close>

definition http_request_new :: "mem \<Rightarrow> HTTPRequest option \<times> mem" where
  "http_request_new m =
     (let (p, m) = memory_create m in (map_option (\<lambda>_. http_request_zero) p, m))"

definition http_request_destroy :: "HTTPRequest \<Rightarrow> mem \<Rightarrow> mem" where
  "http_request_destroy q m =
     (let m = (if req_headers_buffer q \<noteq> None then memory_destroy (req_headers_buffer q) m else m);
          m = (if req_body q \<noteq> None then memory_destroy (req_body q) m else m)
      in memory_destroy (Some q) m)"

definition http_request_set_headers_buffer ::
    "bytes \<Rightarrow> nat \<Rightarrow> HTTPRequest \<Rightarrow> mem \<Rightarrow> (int \<times> HTTPRequest \<times> mem) option" where
  "http_request_set_headers_buffer buffer len q m =
     (if len = 0 \<or> length buffer < len then None
      else
        (let (p, m) = memory_create m in
         (case p of
            None \<Rightarrow> Some (-1, q\<lparr>req_headers_buffer := None\<rparr>, m)
          | Some _ \<Rightarrow> Some (0, q\<lparr>req_headers_buffer := Some (take len buffer)\<rparr>, m))))"

definition http_request_get_headers_buffer :: "HTTPRequest \<Rightarrow> bytes option" where
  "http_request_get_headers_buffer q = req_headers_buffer q"

definition http_request_set_method :: "HTTPMethod \<Rightarrow> HTTPRequest \<Rightarrow> HTTPRequest" where
  "http_request_set_method method q = q\<lparr>req_method := method\<rparr>"

definition http_request_get_method :: "HTTPRequest \<Rightarrow> HTTPMethod" where
  "http_request_get_method q = req_method q"

definition http_request_set_url_range :: "nat \<Rightarrow> nat \<Rightarrow> HTTPRequest \<Rightarrow> HTTPRequest" where
  "http_request_set_url_range offset len q =
     q\<lparr>req_url_range := \<lparr>mr_offset = offset, mr_length = len\<rparr>\<rparr>"

definition http_request_get_url_range :: "HTTPRequest \<Rightarrow> MemoryRange" where
  "http_request_get_url_range q = req_url_range q"

definition http_request_set_url_field_range ::
    "HTTPURLField \<Rightarrow> nat \<Rightarrow> nat \<Rightarrow> HTTPRequest \<Rightarrow> HTTPRequest option" where
  "http_request_set_url_field_range field offset len q =
     (if field_index field < length (req_url_field_ranges q) then
        Some (q\<lparr>req_url_field_ranges :=
          (req_url_field_ranges q)[field_index field := \<lparr>mr_offset = offset, mr_length = len\<rparr>]\<rparr>)
      else None)"

text \<open>The inner \<open>None\<close> is the return value -1, the range of the caller being left alone.\<close>

definition http_request_get_url_field_range ::
    "HTTPURLField \<Rightarrow> HTTPRequest \<Rightarrow> MemoryRange option option" where
  "http_request_get_url_field_range field q =
     (if field_index field < length (req_url_field_ranges q) then
        (let range = req_url_field_ranges q ! field_index field in
         if mr_length range = 0 then Some None else Some (Some range))
      else None)"

definition http_request_set_header_key_range ::
    "nat \<Rightarrow> nat \<Rightarrow> nat \<Rightarrow> HTTPRequest \<Rightarrow> HTTPRequest option" where
  "http_request_set_header_key_range header_index offset len q =
     (if header_index < length (req_headers_ranges q) then
        Some (q\<lparr>req_headers_ranges := (req_headers_ranges q)[header_index :=
          (req_headers_ranges q ! header_index)\<lparr>hr_key := \<lparr>mr_offset = offset, mr_length = len\<rparr>\<rparr>]\<rparr>)
      else None)"

definition http_request_set_header_value_range ::
    "nat \<Rightarrow> nat \<Rightarrow> nat \<Rightarrow> HTTPRequest \<Rightarrow> HTTPRequest option" where
  "http_request_set_header_value_range header_index offset len q =
     (if header_index < length (req_headers_ranges q) then
        Some (q\<lparr>req_headers_ranges := (req_headers_ranges q)[header_index :=
          (req_headers_ranges q ! header_index)\<lparr>hr_value := \<lparr>mr_offset = offset, mr_length = len\<rparr>\<rparr>],
          req_current_header := Suc (req_current_header q)\<rparr>)
      else None)"

text \<open>\<open>memcpy\<close> of a range out of a block: it must lie inside the block.\<close>

definition read_range :: "bytes option \<Rightarrow> MemoryRange \<Rightarrow> bytes option" where
  "read_range buffer rng =
     (case buffer of
        None \<Rightarrow> None
      | Some b \<Rightarrow> if mr_offset rng + mr_length rng \<le> length b
                  then Some (take (mr_length rng) (drop (mr_offset rng) b)) else None)"

fun header_loop :: "HTTPRequest \<Rightarrow> string \<Rightarrow> nat \<Rightarrow> nat \<Rightarrow> MemoryRange option option" where
  "header_loop q name i 0 = Some None"
| "header_loop q name i (Suc n) =
     (if length (req_headers_ranges q) \<le> i then None
      else do {
        current_header_name \<leftarrow> read_range (req_headers_buffer q) (hr_key (req_headers_ranges q ! i));
        if strcaseeq name (c_str current_header_name)
        then Some (Some (hr_value (req_headers_ranges q ! i)))
        else header_loop q name (Suc i) n
      })"

definition http_request_get_header_value_range ::
    "string \<Rightarrow> HTTPRequest \<Rightarrow> MemoryRange option option" where
  "http_request_get_header_value_range header_name q =
     header_loop q header_name 0 (req_current_header q)"

definition http_request_get_headers_ranges :: "HTTPRequest \<Rightarrow> HeaderMemoryRange list \<times> nat" where
  "http_request_get_headers_ranges q = (req_headers_ranges q, req_current_header q)"

definition http_request_get_body :: "HTTPRequest \<Rightarrow> bytes option" where
  "http_request_get_body q = req_body q"

definition http_request_set_body_length ::
    "nat \<Rightarrow> HTTPRequest \<Rightarrow> mem \<Rightarrow> (int \<times> HTTPRequest \<times> mem) option" where
  "http_request_set_body_length len q m =
     (if len = 0 then None
      else
        (let (p, m) = memory_create m in
         (case p of
            None \<Rightarrow> Some (-1, q\<lparr>req_body := None\<rparr>, m)
          | Some _ \<Rightarrow> Some (0, q\<lparr>req_body := Some (replicate len NUL)\<rparr>, m))))"

definition http_request_append_body_data :: "bytes \<Rightarrow> HTTPRequest \<Rightarrow> HTTPRequest option" where
  "http_request_append_body_data data q =
     (case req_body q of
        None \<Rightarrow> None
      | Some b \<Rightarrow>
          (let n = req_body_length q; len = length data in
           if len = 0 \<or> length b < n + len then None
           else Some (q\<lparr>req_body := Some (take n b @ data @ drop (n + len) b),
                        req_body_length := n + len\<rparr>)))"

definition http_request_set_last :: "int \<Rightarrow> HTTPRequest \<Rightarrow> HTTPRequest" where
  "http_request_set_last is_last q = q\<lparr>req_is_last := is_last\<rparr>"

definition http_request_is_last :: "HTTPRequest \<Rightarrow> int" where
  "http_request_is_last q = req_is_last q"

definition http_request_new_fake_url :: "string \<Rightarrow> mem \<Rightarrow> HTTPRequest option \<times> mem" where
  "http_request_new_fake_url url m =
     (let (request_url, m) = memory_strdup url m in
      (case request_url of
         None \<Rightarrow> (None, m)
       | Some u \<Rightarrow>
          (let (q, m) = http_request_new m in
           (case q of
              None \<Rightarrow> (None, memory_destroy request_url m)
            | Some q \<Rightarrow>
                (Some (q\<lparr>req_headers_buffer := Some (u @ [NUL]),
                         req_url_range := \<lparr>mr_offset = 0, mr_length = length url\<rparr>\<rparr>), m)))))"

section \<open>Representation invariant and accounting\<close>

definition request_wf :: "HTTPRequest \<Rightarrow> bool" where
  "request_wf q \<longleftrightarrow> length (req_url_field_ranges q) = 7 \<and>
     length (req_headers_ranges q) = HTTP_REQUEST_MAX_HEADERS \<and>
     (\<forall>b. req_body q = Some b \<longrightarrow> req_body_length q \<le> length b)"

definition request_owned :: "HTTPRequest \<Rightarrow> int" where
  "request_owned q = 1 + (if req_headers_buffer q = None then 0 else 1) +
     (if req_body q = None then 0 else 1)"

lemma request_zero_wf: "request_wf http_request_zero" "request_owned http_request_zero = 1"
  by (simp_all add: request_wf_def request_owned_def http_request_zero_def)

lemma request_new_owned:
  "http_request_new m = (Some q, m') \<Longrightarrow> q = http_request_zero \<and> blocks m' = blocks m + 1"
  by (auto simp: http_request_new_def mem_simps split: prod.splits)

lemma request_destroy_owned: "blocks (http_request_destroy q m) = blocks m - request_owned q"
  by (auto simp: http_request_destroy_def request_owned_def Let_def)

section \<open>Header lookup\<close>

definition header_name :: "bytes \<Rightarrow> HeaderMemoryRange \<Rightarrow> string" where
  "header_name b h = c_str (take (mr_length (hr_key h)) (drop (mr_offset (hr_key h)) b))"

definition key_in_buffer :: "bytes \<Rightarrow> HeaderMemoryRange \<Rightarrow> bool" where
  "key_in_buffer b h \<longleftrightarrow> mr_offset (hr_key h) + mr_length (hr_key h) \<le> length b"

definition find_header :: "string \<Rightarrow> bytes \<Rightarrow> HeaderMemoryRange list \<Rightarrow> MemoryRange option" where
  "find_header name b hs = map_option hr_value (find (\<lambda>h. strcaseeq name (header_name b h)) hs)"

lemma header_loop_find:
  assumes "req_headers_buffer q = Some b" "i + n \<le> length (req_headers_ranges q)"
    and "\<forall>h \<in> set (take n (drop i (req_headers_ranges q))). key_in_buffer b h"
  shows "header_loop q name i n = Some (find_header name b (take n (drop i (req_headers_ranges q))))"
  using assms
proof (induction q name i n rule: header_loop.induct)
  case (1 q name i)
  then show ?case by (simp add: find_header_def)
next
  case (2 q name i n)
  let ?hs = "req_headers_ranges q"
  have i: "i < length ?hs" using "2.prems"(2) by simp
  then have split: "take (Suc n) (drop i ?hs) = ?hs ! i # take n (drop (Suc i) ?hs)"
    by (simp add: Cons_nth_drop_Suc[symmetric])
  with "2.prems"(1,3) have rd:
    "read_range (req_headers_buffer q) (hr_key (?hs ! i)) =
       Some (take (mr_length (hr_key (?hs ! i))) (drop (mr_offset (hr_key (?hs ! i))) b))"
    by (simp add: read_range_def key_in_buffer_def)
  show ?case
  proof (cases "strcaseeq name (header_name b (?hs ! i))")
    case True
    with i rd split show ?thesis by (simp add: find_header_def header_name_def)
  next
    case False
    then have "header_loop q name (Suc i) n = Some (find_header name b (take n (drop (Suc i) ?hs)))"
      using "2.IH"[OF _ rd] "2.prems" i split by (auto simp: header_name_def)
    with False i rd split show ?thesis by (simp add: find_header_def header_name_def)
  qed
qed

text \<open>
  C30: Header lookup returns the value range of the first header whose name equals the
  requested one up to letter case, and -1 exactly when there is none; it reads only inside the
  header block.
\<close>

theorem header_value_lookup:
  assumes "request_wf q" "req_headers_buffer q = Some b" "req_current_header q \<le> HTTP_REQUEST_MAX_HEADERS"
    and "\<forall>h \<in> set (take (req_current_header q) (req_headers_ranges q)). key_in_buffer b h"
  shows "http_request_get_header_value_range name q =
    Some (find_header name b (take (req_current_header q) (req_headers_ranges q)))"
  using header_loop_find[of q b 0 "req_current_header q" name] assms
  by (simp add: http_request_get_header_value_range_def request_wf_def)

definition request_example :: HTTPRequest where
  "request_example = http_request_zero\<lparr>
     req_headers_buffer := Some ''Host:a Foo:b'', req_current_header := 2,
     req_headers_ranges :=
       \<lparr>hr_key = \<lparr>mr_offset = 0, mr_length = 4\<rparr>, hr_value = \<lparr>mr_offset = 5, mr_length = 1\<rparr>\<rparr> #
       \<lparr>hr_key = \<lparr>mr_offset = 7, mr_length = 3\<rparr>, hr_value = \<lparr>mr_offset = 11, mr_length = 1\<rparr>\<rparr> #
       replicate 98 \<lparr>hr_key = range0, hr_value = range0\<rparr>\<rparr>"

theorem header_value_lookup_witness:
  "http_request_get_header_value_range ''FOO'' request_example =
     Some (Some \<lparr>mr_offset = 11, mr_length = 1\<rparr>)"
proof -
  have "tolower CHR ''F'' = CHR ''f'' \<and> tolower CHR ''O'' = CHR ''o'' \<and> tolower CHR ''o'' = CHR ''o'' \<and>
        tolower CHR ''H'' = CHR ''h''" by code_simp
  then show ?thesis
    using header_value_lookup[of request_example "''Host:a Foo:b''" "''FOO''"]
    by (simp add: request_example_def request_wf_def http_request_zero_def find_header_def header_name_def
        key_in_buffer_def c_str_def NUL_def strcaseeq_def HTTP_REQUEST_MAX_HEADERS_def)
qed

section \<open>Body\<close>

lemma append_body_step:
  assumes "req_body q = Some (pre @ suf)" "req_body_length q = length pre" "d \<noteq> []"
  shows "http_request_append_body_data d q =
    (if length d \<le> length suf
     then Some (q\<lparr>req_body := Some ((pre @ d) @ drop (length d) suf),
                  req_body_length := length (pre @ d)\<rparr>) else None)"
  using assms by (simp add: http_request_append_body_data_def Let_def)

lemma append_body_chunks:
  "req_body q = Some (pre @ suf) \<Longrightarrow> req_body_length q = length pre \<Longrightarrow> [] \<notin> set ds \<Longrightarrow>
     run_opt http_request_append_body_data ds q =
       (if length (concat ds) \<le> length suf
        then Some (q\<lparr>req_body := Some ((pre @ concat ds) @ drop (length (concat ds)) suf),
                     req_body_length := length (pre @ concat ds)\<rparr>) else None)"
proof (induction ds arbitrary: q pre suf)
  case Nil
  then show ?case by (cases q) simp
next
  case (Cons d ds)
  then have d: "d \<noteq> []" by auto
  show ?case
  proof (cases "length d \<le> length suf")
    case True
    let ?q = "q\<lparr>req_body := Some ((pre @ d) @ drop (length d) suf), req_body_length := length (pre @ d)\<rparr>"
    have "run_opt http_request_append_body_data ds ?q =
       (if length (concat ds) \<le> length (drop (length d) suf)
        then Some (?q\<lparr>req_body := Some (((pre @ d) @ concat ds) @ drop (length (concat ds)) (drop (length d) suf)),
                     req_body_length := length ((pre @ d) @ concat ds)\<rparr>) else None)"
      by (rule Cons.IH) (use Cons.prems in auto)
    with True show ?thesis
      using append_body_step[OF Cons.prems(1,2) d] by (auto simp: add.commute)
  next
    case False
    then show ?thesis using append_body_step[OF Cons.prems(1,2) d] by simp
  qed
qed

text \<open>
  C31: After \<open>http_request_set_body_length n\<close> the body takes the chunks handed to
  \<open>http_request_append_body_data\<close> one after the other; the writes stay inside the block exactly
  when the chunks together are at most \<open>n\<close> bytes, and nothing in the code stops a longer body.
\<close>

theorem body_chunks_bounded:
  assumes "http_request_set_body_length n q m = Some (0, q1, m1)" "req_body_length q = 0"
    and "[] \<notin> set ds"
  shows "run_opt http_request_append_body_data ds q1 =
    (if length (concat ds) \<le> n
     then Some (q1\<lparr>req_body := Some (concat ds @ replicate (n - length (concat ds)) NUL),
                   req_body_length := length (concat ds)\<rparr>) else None)"
proof -
  have "req_body q1 = Some ([] @ replicate n NUL)" "req_body_length q1 = length []"
    using assms(1,2) by (auto simp: http_request_set_body_length_def Let_def
        split: if_splits prod.splits option.splits)
  from append_body_chunks[OF this assms(3)] show ?thesis by simp
qed

theorem body_chunks_bounded_witness:
  "\<exists>q1 m1. http_request_set_body_length 5 http_request_zero mem0 = Some (0, q1, m1) \<and>
     map_option req_body (run_opt http_request_append_body_data [''ab'', ''cde''] q1) = Some (Some ''abcde'') \<and>
     run_opt http_request_append_body_data [''ab'', ''cdef''] q1 = None"
proof -
  obtain q1 m1 where s: "http_request_set_body_length 5 http_request_zero mem0 = Some (0, q1, m1)"
    by (simp add: http_request_set_body_length_def mem0_def)
  have "req_body_length http_request_zero = 0" by (simp add: http_request_zero_def)
  note t = body_chunks_bounded[OF s this]
  show ?thesis using s t[of "[''ab'', ''cde'']"] t[of "[''ab'', ''cdef'']"] by auto
qed

section \<open>URL fields and life cycle\<close>

lemma field_index_inj: "field_index f = field_index g \<longleftrightarrow> f = g"
  by (cases f; cases g) simp_all

text \<open>
  A URL field range that was set is read back, except that an empty one reads as missing
  (-1); setting one field leaves every other field as it was.  Only \<open>HTTP_URL_FIELD_MAX\<close> is
  out of bounds.
\<close>

theorem url_field_roundtrip:
  assumes "request_wf q" "f \<noteq> HTTP_URL_FIELD_MAX" "g \<noteq> HTTP_URL_FIELD_MAX"
  shows "\<exists>q'. http_request_set_url_field_range f offset len q = Some q' \<and> request_wf q' \<and>
     http_request_get_url_field_range g q' =
       (if g \<noteq> f then http_request_get_url_field_range g q
        else Some (if len = 0 then None else Some \<lparr>mr_offset = offset, mr_length = len\<rparr>))"
proof -
  have "field_index f < 7" "field_index g < 7" using assms(2,3) by (cases f; cases g; simp)+
  then show ?thesis using assms(1)
    by (auto simp: http_request_set_url_field_range_def http_request_get_url_field_range_def
        request_wf_def Let_def nth_list_update field_index_inj)
qed

theorem url_field_roundtrip_witness:
  "\<exists>q'. http_request_set_url_field_range HTTP_URL_FIELD_PATH 4 6 http_request_zero = Some q' \<and>
     http_request_get_url_field_range HTTP_URL_FIELD_PATH q' = Some (Some \<lparr>mr_offset = 4, mr_length = 6\<rparr>)"
  using url_field_roundtrip[OF request_zero_wf(1), of HTTP_URL_FIELD_PATH HTTP_URL_FIELD_PATH 4 6] by auto

end
