(* ===== verification/Container.thy ===== *)
theory Container
  imports Http_Request
begin

text \<open>
  Application containers (\<open>src/container.c\<close>): a table of callbacks around a handle, loaded
  from a plugin or made from functions of the program.  Plugins are not part of the
  program: their callbacks are arbitrary functions of what the handle points to, \<open>'h\<close>, acting on a world \<open>'w\<close>
  (the response, the plugin's own data) and on the configuration \<open>'c\<close>; \<open>init\<close> writes the object
  the handle points to, so it returns it.  \<open>dlopen\<close> finds a
  library as a table of symbols, and the loader state counts the open library handles beside the
  allocator state.
\<close>

section \<open>State\<close>

record ('h, 'w, 'c) Container =
  cont_plugin :: "string option"
  cont_handle :: 'h
  cont_name :: string
  cont_serve :: "'h \<Rightarrow> HTTPRequest \<Rightarrow> 'w \<Rightarrow> int \<times> 'w"
  cont_destroy :: "'h \<Rightarrow> 'w \<Rightarrow> int \<times> 'w"
  cont_init :: "'h \<Rightarrow> 'c \<Rightarrow> 'w \<Rightarrow> int \<times> 'h \<times> 'w"

text \<open>What \<open>dlsym\<close> finds in a library; \<open>None\<close> is a missing symbol.\<close>

record ('h, 'w, 'c) plugin_lib =
  sym_abi_version :: "int option"
  sym_create :: "('c \<Rightarrow> 'w \<Rightarrow> 'h option \<times> 'c \<times> 'w) option"
  sym_serve :: "('h \<Rightarrow> HTTPRequest \<Rightarrow> 'w \<Rightarrow> int \<times> 'w) option"
  sym_destroy :: "('h \<Rightarrow> 'w \<Rightarrow> int \<times> 'w) option"
  sym_init :: "('h \<Rightarrow> 'c \<Rightarrow> 'w \<Rightarrow> int \<times> 'h \<times> 'w) option"

record loader =
  ld_mem :: mem
  ld_open :: int

definition ABI_VERSION :: int where "ABI_VERSION = 1"

definition is_ABI_compatible :: "int \<Rightarrow> int \<Rightarrow> bool" where
  "is_ABI_compatible core_abi plugin_abi \<longleftrightarrow> core_abi = plugin_abi"

definition dlclose :: "loader \<Rightarrow> loader" where
  "dlclose l = l\<lparr>ld_open := ld_open l - 1\<rparr>"

section \<open>Loading a plugin\<close>

text \<open>The error returns after the handle was made leave the container, its name and the
  handle allocated; none of the error returns closes the library.\<close>

definition container_make ::
    "('h, 'w, 'c) plugin_lib \<Rightarrow> string \<Rightarrow> 'c \<Rightarrow> 'w \<Rightarrow> loader
      \<Rightarrow> ('h, 'w, 'c) Container option \<times> 'c \<times> 'w \<times> loader" where
  "container_make lib name config w l =
     (case sym_create lib of
        None \<Rightarrow> (None, config, w, l)
      | Some plugin_create \<Rightarrow>
         (let (p, m) = memory_create (ld_mem l) in
          case p of
            None \<Rightarrow> (None, config, w, l\<lparr>ld_mem := m\<rparr>)
          | Some _ \<Rightarrow>
             (let (s, m) = memory_strdup name m in
              case s of
                None \<Rightarrow> (None, config, w, l\<lparr>ld_mem := memory_destroy p m\<rparr>)
              | Some nm \<Rightarrow>
                 (let (handle, config, w) = plugin_create config w in
                  case handle of
                    None \<Rightarrow> (None, config, w,
                             l\<lparr>ld_mem := memory_destroy p (memory_destroy s m)\<rparr>)
                  | Some h \<Rightarrow>
                     (let l = l\<lparr>ld_mem := m\<rparr> in
                      case sym_serve lib of
                        None \<Rightarrow> (None, config, w, l)
                      | Some serve \<Rightarrow>
                         (case sym_destroy lib of
                            None \<Rightarrow> (None, config, w, l)
                          | Some destroy \<Rightarrow>
                             (case sym_init lib of
                                None \<Rightarrow> (None, config, w, l)
                              | Some init \<Rightarrow>
                                  (Some \<lparr>cont_plugin = Some name, cont_handle = h, cont_name = nm,
                                     cont_serve = serve, cont_destroy = destroy, cont_init = init\<rparr>,
                                   config, w, l))))))))"

definition container_new ::
    "(string \<Rightarrow> ('h, 'w, 'c) plugin_lib option) \<Rightarrow> string \<Rightarrow> 'c \<Rightarrow> 'w \<Rightarrow> loader
      \<Rightarrow> ('h, 'w, 'c) Container option \<times> 'c \<times> 'w \<times> loader" where
  "container_new dlopen name config w l =
     (case dlopen name of
        None \<Rightarrow> (None, config, w, l)
      | Some lib \<Rightarrow>
         (let l = l\<lparr>ld_open := ld_open l + 1\<rparr> in
          case sym_abi_version lib of
            None \<Rightarrow> (None, config, w, dlclose l)
          | Some plugin_abi \<Rightarrow>
              if \<not> is_ABI_compatible ABI_VERSION plugin_abi then (None, config, w, dlclose l)
              else container_make lib name config w l))"

section \<open>Using a container\<close>

definition container_init ::
    "('h, 'w, 'c) Container \<Rightarrow> 'c \<Rightarrow> 'w \<Rightarrow> int \<times> ('h, 'w, 'c) Container \<times> 'w" where
  "container_init c config w =
     (let (ret, h, w) = cont_init c (cont_handle c) config w in (ret, c\<lparr>cont_handle := h\<rparr>, w))"

definition container_serve :: "('h, 'w, 'c) Container \<Rightarrow> HTTPRequest \<Rightarrow> 'w \<Rightarrow> int \<times> 'w" where
  "container_serve c request w = cont_serve c (cont_handle c) request w"

definition container_destroy :: "('h, 'w, 'c) Container \<Rightarrow> 'w \<Rightarrow> loader \<Rightarrow> 'w \<times> loader" where
  "container_destroy c w l =
     (let (ret, w) = cont_destroy c (cont_handle c) w in
      if ret = 0 then
        (let l = (if cont_plugin c \<noteq> None then dlclose l else l) in
         (w, l\<lparr>ld_mem := memory_destroy (Some c) (memory_destroy (Some (cont_name c)) (ld_mem l))\<rparr>))
      else (w, l))"

definition null_serve :: "'h \<Rightarrow> HTTPRequest \<Rightarrow> 'w \<Rightarrow> int \<times> 'w" where
  "null_serve h request w = (-1, w)"

definition null_destroy :: "'h \<Rightarrow> 'w \<Rightarrow> int \<times> 'w" where
  "null_destroy h w = (0, w)"

definition null_init :: "'h \<Rightarrow> 'c \<Rightarrow> 'w \<Rightarrow> int \<times> 'h \<times> 'w" where
  "null_init h config w = (0, h, w)"

definition container_new_custom ::
    "string \<Rightarrow> ('h \<Rightarrow> 'c \<Rightarrow> 'w \<Rightarrow> int \<times> 'h \<times> 'w) \<Rightarrow> ('h \<Rightarrow> HTTPRequest \<Rightarrow> 'w \<Rightarrow> int \<times> 'w)
      \<Rightarrow> ('h \<Rightarrow> 'w \<Rightarrow> int \<times> 'w) \<Rightarrow> 'h \<Rightarrow> mem \<Rightarrow> ('h, 'w, 'c) Container option \<times> mem" where
  "container_new_custom tag init serve destroy user_data m =
     (let (p, m) = memory_create m in
      case p of
        None \<Rightarrow> (None, m)
      | Some _ \<Rightarrow>
         (let (s, m) = memory_strdup tag m in
          case s of
            None \<Rightarrow> (None, memory_destroy p m)
          | Some nm \<Rightarrow>
              (Some \<lparr>cont_plugin = None, cont_handle = user_data, cont_name = nm,
                     cont_serve = serve, cont_destroy = destroy, cont_init = init\<rparr>, m)))"

definition container_new_null :: "'h \<Rightarrow> string \<Rightarrow> mem \<Rightarrow> ('h, 'w, 'c) Container option \<times> mem" where
  "container_new_null logger tag m =
     container_new_custom tag null_init null_serve null_destroy logger m"

section \<open>Accounting\<close>

text \<open>A container owns itself and its name, and the library it came from.\<close>

definition container_owned :: int where "container_owned = 2"

lemma new_custom_owned:
  "container_new_custom tag i s d u m = (r, m') \<Longrightarrow>
     blocks m' = blocks m + (if r = None then 0 else container_owned)"
  by (auto simp: container_new_custom_def container_owned_def mem_simps
      split: prod.splits option.splits)

lemma new_custom_callbacks:
  "container_new_custom tag i s d u m = (Some c, m') \<Longrightarrow>
     cont_serve c = s \<and> cont_destroy c = d \<and> cont_init c = i \<and> cont_handle c = u \<and>
     cont_plugin c = None"
  by (auto simp: container_new_custom_def split: prod.splits option.splits)

lemma new_null_callbacks:
  "container_new_null h tag m = (Some c, m') \<Longrightarrow>
     cont_serve c = null_serve \<and> cont_destroy c = null_destroy \<and> cont_plugin c = None"
  by (auto simp: container_new_null_def dest: new_custom_callbacks)

lemma new_null_owned:
  "container_new_null h tag m = (r, m') \<Longrightarrow>
     blocks m' = blocks m + (if r = None then 0 else container_owned)"
  unfolding container_new_null_def by (rule new_custom_owned)

lemma new_null_Some:
  "container_new_null h tag m = (Some c, m') \<Longrightarrow>
     cont_destroy c = null_destroy \<and> cont_plugin c = None \<and> blocks m' = blocks m + container_owned"
  using new_null_callbacks[of h tag m c m'] new_null_owned[of h tag m "Some c" m'] by simp

lemma destroy_owned:
  "container_destroy c w l = (w', l') \<Longrightarrow> fst (cont_destroy c (cont_handle c) w) = 0 \<Longrightarrow>
     blocks (ld_mem l') = blocks (ld_mem l) - container_owned \<and>
     ld_open l' = ld_open l - (if cont_plugin c = None then 0 else 1)"
  by (auto simp: container_destroy_def container_owned_def dlclose_def Let_def split: prod.splits)

lemma container_make_Some:
  "container_make lib name config w l = (Some c, config', w', l') \<Longrightarrow>
     sym_create lib \<noteq> None \<and> sym_serve lib = Some (cont_serve c) \<and>
     sym_destroy lib = Some (cont_destroy c) \<and> sym_init lib = Some (cont_init c) \<and>
     cont_plugin c = Some name \<and> cont_name c = name \<and>
     blocks (ld_mem l') = blocks (ld_mem l) + container_owned \<and> ld_open l' = ld_open l"
  by (auto simp: container_make_def Let_def container_owned_def mem_simps
      dest!: memory_strdup_SomeD split: prod.splits option.splits)

lemma container_make_None:
  assumes "container_make lib name config w l = (None, config', w', l')" "answers (ld_mem l) = []"
  shows "ld_open l' = ld_open l \<and> blocks (ld_mem l') = blocks (ld_mem l) +
    (case sym_create lib of None \<Rightarrow> 0
     | Some create \<Rightarrow> if fst (create config w) = None then 0 else container_owned)"
  using assms by (auto simp: container_make_def Let_def container_owned_def
      split: prod.splits option.splits)

section \<open>Properties\<close>

text \<open>
  A container is only loaded from a library that exports all five symbols and the ABI
  version of the core; it then calls the library's own functions, keeps its name and holds
  exactly one open library and two blocks.
\<close>

theorem loaded_container:
  assumes "container_new dlopen name config w l = (Some c, config', w', l')"
  shows "\<exists>lib. dlopen name = Some lib \<and> sym_abi_version lib = Some ABI_VERSION \<and>
    sym_create lib \<noteq> None \<and> sym_serve lib = Some (cont_serve c) \<and>
    sym_destroy lib = Some (cont_destroy c) \<and> sym_init lib = Some (cont_init c) \<and>
    cont_name c = name \<and> ld_open l' = ld_open l + 1 \<and>
    blocks (ld_mem l') = blocks (ld_mem l) + container_owned"
  using assms
  by (auto simp: container_new_def is_ABI_compatible_def Let_def dest!: container_make_Some
      split: option.splits if_splits)

definition hello_lib :: "(nat, nat, nat) plugin_lib" where
  "hello_lib = \<lparr>sym_abi_version = Some 1, sym_create = Some (\<lambda>c w. (Some 5, c, w)),
     sym_serve = Some (\<lambda>h q w. (0, Suc w)), sym_destroy = Some (\<lambda>h w. (0, w)),
     sym_init = Some (\<lambda>h c w. (0, h, w))\<rparr>"

definition loader0 :: loader where
  "loader0 = \<lparr>ld_mem = mem0, ld_open = 0\<rparr>"

theorem loaded_container_witness:
  "\<exists>c l'. container_new (\<lambda>_. Some hello_lib) ''hello.so'' 0 0 loader0 = (Some c, 0, 0, l') \<and>
     cont_name c = ''hello.so'' \<and> ld_open l' = 1"
proof -
  obtain c l' where c: "container_new (\<lambda>_. Some hello_lib) ''hello.so'' 0 0 loader0 = (Some c, 0, 0, l')"
    by (simp add: container_new_def container_make_def hello_lib_def loader0_def mem0_def
        is_ABI_compatible_def ABI_VERSION_def Let_def)
  show ?thesis using loaded_container[OF c] c by (simp add: loader0_def)
qed

text \<open>
  What a failed load leaves behind when memory is not short.  An unreadable library or
  a wrong ABI version leaves nothing.  Once the ABI version was accepted, a failed load never closes
  the library; and when the plugin's handle was already created (a callback symbol is missing) the
  container and its name stay allocated as well.
\<close>

theorem failed_load_leaks:
  assumes "container_new dlopen name config w l = (None, config', w', l')" "answers (ld_mem l) = []"
  shows "case dlopen name of
      None \<Rightarrow> l' = l
    | Some lib \<Rightarrow>
        (if sym_abi_version lib \<noteq> Some ABI_VERSION then l' = l
         else ld_open l' = ld_open l + 1 \<and>
           blocks (ld_mem l') = blocks (ld_mem l) +
             (case sym_create lib of None \<Rightarrow> 0
              | Some create \<Rightarrow> if fst (create config w) = None then 0 else container_owned))"
  using assms
  by (auto simp: container_new_def is_ABI_compatible_def dlclose_def Let_def
      dest: container_make_None split: option.splits if_splits)

theorem failed_load_leaks_witness:
  "\<exists>l'. container_new (\<lambda>_. Some (hello_lib\<lparr>sym_init := None\<rparr>)) ''hello.so'' 0 0 loader0 =
     (None, 0, 0, l') \<and> ld_open l' = 1 \<and> blocks (ld_mem l') = 2"
proof -
  obtain l' where c: "container_new (\<lambda>_. Some (hello_lib\<lparr>sym_init := None\<rparr>)) ''hello.so'' 0 0 loader0 =
     (None, 0, 0, l')"
    by (simp add: container_new_def container_make_def hello_lib_def loader0_def mem0_def
        is_ABI_compatible_def ABI_VERSION_def Let_def)
  show ?thesis using failed_load_leaks[OF c] c
    by (simp add: loader0_def mem0_def hello_lib_def ABI_VERSION_def container_owned_def)
qed

end
