(* ===== verification/Http_Router.thy ===== *)
theory Http_Router
  imports Container "HOL-Library.Word" "HOL-Library.Sublist"
begin

text \<open>
  The router (\<open>src/httprouter.c\<close>): bindings of URL prefixes to containers, kept in a chain of
  packs of thirty.  The first pack is part of the router, the others are heap blocks;
  \<open>rt_last\<close> is the index of the pack the source's \<open>last\<close> points at.  A short route is stored in
  the binding itself (\<open>Inline\<close>), a longer one in a heap copy, and when that copy could not be
  allocated the route pointer is \<open>NULL\<close>.
\<close>

section \<open>State\<close>

definition ROUTE_BASE_LEN :: nat where "ROUTE_BASE_LEN = 14"
definition ROUTE_GROUP_LEN :: nat where "ROUTE_GROUP_LEN = 30"
definition ROUTE_MAX_LEN :: nat where "ROUTE_MAX_LEN = 1023"

datatype RouteMatchMode = ROUTE_MATCH_FIRST | ROUTE_MATCH_LONGEST

datatype route_ptr = Inline | Heap string | NullRoute

record ('h, 'w, 'c) RouteBinding =
  rb_route :: route_ptr
  rb_container :: "('h, 'w, 'c) Container"
  rb_name :: string
  rb_route_len :: "16 word"

text \<open>The bound entries of a pack; \<open>binding_num\<close> is their number.\<close>

type_synonym ('h, 'w, 'c) RoutePack = "('h, 'w, 'c) RouteBinding list"

record ('h, 'w, 'c) HTTPRouter =
  rt_packs :: "('h, 'w, 'c) RoutePack list"
  rt_last :: nat
  rt_null :: "('h, 'w, 'c) Container"
  rt_starter :: "('h, 'w, 'c) Container option"
  rt_match_mode :: RouteMatchMode

section \<open>Operations\<close>

text \<open>On a failed allocation of the router itself the source reads \<open>router->logger\<close>
  through the \<open>NULL\<close> pointer (\<open>None\<close>).\<close>

definition http_router_new ::
    "'h \<Rightarrow> RouteMatchMode \<Rightarrow> mem \<Rightarrow> (('h, 'w, 'c) HTTPRouter option \<times> mem) option" where
  "http_router_new logger match_mode m =
     (let (null, m) = container_new_null logger ''default'' m in
      case null of
        None \<Rightarrow> Some (None, m)
      | Some n \<Rightarrow>
         (let (p, m) = memory_create m in
          case p of
            None \<Rightarrow> None
          | Some _ \<Rightarrow> Some (Some \<lparr>rt_packs = [[]], rt_last = 0, rt_null = n, rt_starter = None,
                                  rt_match_mode = match_mode\<rparr>, m)))"

definition make_binding ::
    "string \<Rightarrow> ('h, 'w, 'c) Container \<Rightarrow> mem \<Rightarrow> (('h, 'w, 'c) RouteBinding \<times> mem) option" where
  "make_binding route container m =
     (let len = word_of_nat (length route) :: 16 word in
      if sint len < int ROUTE_BASE_LEN then
        (if length route < ROUTE_BASE_LEN then
           Some (\<lparr>rb_route = Inline, rb_container = container, rb_name = route, rb_route_len = len\<rparr>, m)
         else None)
      else
        (let (s, m) = memory_strdup route m in
         Some (\<lparr>rb_route = (case s of None \<Rightarrow> NullRoute | Some r \<Rightarrow> Heap r),
                rb_container = container, rb_name = [], rb_route_len = len\<rparr>, m)))"

text \<open>
  Binds in the pack at index \<open>i\<close>: a full pack gets a new, empty pack as its \<open>next\<close> and the
  call goes on there (its \<open>assert\<close> fails when that pack could not be allocated).  The result is
  the chain and the index of the pack that took the binding.
\<close>

function route_pack_bind ::
    "nat \<Rightarrow> string \<Rightarrow> ('h, 'w, 'c) Container \<Rightarrow> ('h, 'w, 'c) RoutePack list \<Rightarrow> mem
      \<Rightarrow> (('h, 'w, 'c) RoutePack list \<times> nat \<times> mem) option" where
  "route_pack_bind i route container packs m =
     (if length packs \<le> i then None
      else if length (packs ! i) = ROUTE_GROUP_LEN then
        (let (p, m) = memory_create m in
         case p of
           None \<Rightarrow> None
         | Some _ \<Rightarrow> route_pack_bind (Suc i) route container (take (Suc i) packs @ [[]]) m)
      else
        (case make_binding route container m of
           None \<Rightarrow> None
         | Some (b, m) \<Rightarrow> Some (packs[i := packs ! i @ [b]], i, m)))"
  by pat_completeness auto
termination
  by (relation "measure (\<lambda>(i, route, c, packs, m).
        if i < length packs \<and> length (packs ! i) = ROUTE_GROUP_LEN then 1 else 0)")
    (auto simp: nth_append ROUTE_GROUP_LEN_def min_def)

declare route_pack_bind.simps [simp del]

definition http_router_set_default_container ::
    "('h, 'w, 'c) Container \<Rightarrow> ('h, 'w, 'c) HTTPRouter \<Rightarrow> int \<times> ('h, 'w, 'c) HTTPRouter" where
  "http_router_set_default_container container rt = (0, rt\<lparr>rt_starter := Some container\<rparr>)"

definition http_router_bind ::
    "string \<Rightarrow> ('h, 'w, 'c) Container \<Rightarrow> ('h, 'w, 'c) HTTPRouter \<Rightarrow> mem
      \<Rightarrow> (int \<times> ('h, 'w, 'c) HTTPRouter \<times> mem) option" where
  "http_router_bind route container rt m =
     (if ROUTE_MAX_LEN < length route then Some (-1, rt, m)
      else
        (case route_pack_bind (rt_last rt) route container (rt_packs rt) m of
           None \<Rightarrow> None
         | Some (packs, l, m) \<Rightarrow> Some (0, rt\<lparr>rt_packs := packs, rt_last := l\<rparr>, m)))"

text \<open>Releasing: the packs after the first are blocks, and so are the heap copies of routes.\<close>

definition route_pack_clean :: "('h, 'w, 'c) RoutePack \<Rightarrow> mem \<Rightarrow> mem" where
  "route_pack_clean pack m =
     fold (\<lambda>b m. case rb_route b of Inline \<Rightarrow> m | Heap r \<Rightarrow> memory_destroy (Some r) m
                   | NullRoute \<Rightarrow> memory_destroy (None :: string option) m) pack m"

fun route_pack_destroy :: "('h, 'w, 'c) RoutePack list \<Rightarrow> mem \<Rightarrow> mem" where
  "route_pack_destroy [] m = m"
| "route_pack_destroy (pack # rest) m =
     route_pack_destroy rest (memory_destroy (Some pack) (route_pack_clean pack m))"

definition http_router_destroy ::
    "('h, 'w, 'c) HTTPRouter \<Rightarrow> 'w \<Rightarrow> loader \<Rightarrow> 'w \<times> loader" where
  "http_router_destroy rt w l =
     (let (w, l) = container_destroy (rt_null rt) w l;
          m = route_pack_clean (hd (rt_packs rt)) (ld_mem l);
          m = route_pack_destroy (tl (rt_packs rt)) m
      in (w, l\<lparr>ld_mem := memory_destroy (Some rt) m\<rparr>))"

text \<open>
  \<open>strmatch\<close> over memory: \<open>s1\<close> and \<open>s2\<close> are the bytes from the two pointers to the end of
  their blocks, \<open>n\<close> is the C \<open>int\<close>; reading past a block is \<open>None\<close>.
\<close>

fun strmatch :: "bytes \<Rightarrow> bytes \<Rightarrow> int \<Rightarrow> int option" where
  "strmatch s1 s2 n =
     (if n = 0 then Some 0
      else (case s1 of
          [] \<Rightarrow> None
        | a # s1' \<Rightarrow> (case s2 of
            [] \<Rightarrow> None
          | b # s2' \<Rightarrow>
              if a = b then map_option (\<lambda>k. k + 1) (strmatch s1' s2' (n - 1)) else Some 0)))"

declare strmatch.simps [simp del]

text \<open>The memory a route pointer points at: fourteen bytes of the binding, or the copy.\<close>

definition route_bytes :: "('h, 'w, 'c) RouteBinding \<Rightarrow> bytes option" where
  "route_bytes b =
     (case rb_route b of
        Inline \<Rightarrow> Some (take ROUTE_BASE_LEN (rb_name b @ replicate ROUTE_BASE_LEN NUL))
      | Heap r \<Rightarrow> Some (r @ [NUL])
      | NullRoute \<Rightarrow> None)"

definition match_binding ::
    "bytes option \<Rightarrow> nat \<Rightarrow> nat \<Rightarrow> ('h, 'w, 'c) RouteBinding \<Rightarrow> int option" where
  "match_binding raw_req offset len b =
     (let n = sint (word_of_nat len :: 32 word) in
      case raw_req of
        None \<Rightarrow> if offset = 0 then Some 0 else None
      | Some buf \<Rightarrow>
          if length buf < offset then None
          else (case route_bytes b of
                  None \<Rightarrow> Some 0
                | Some s2 \<Rightarrow> strmatch (drop offset buf) s2 n))"

text \<open>The two nested loops, stopping when \<open>found\<close> is set.\<close>

fun scan_bindings ::
    "RouteMatchMode \<Rightarrow> bytes option \<Rightarrow> nat \<Rightarrow> nat \<Rightarrow> ('h, 'w, 'c) RouteBinding list
      \<Rightarrow> bool \<times> ('h, 'w, 'c) Container \<Rightarrow> (bool \<times> ('h, 'w, 'c) Container) option" where
  "scan_bindings mode raw offset len [] (found, container) = Some (found, container)"
| "scan_bindings mode raw offset len (b # bs) (found, container) =
     (if found then Some (found, container)
      else (case match_binding raw offset len b of
          None \<Rightarrow> None
        | Some current \<Rightarrow>
            if sint (rb_route_len b) \<le> current
            then scan_bindings mode raw offset len bs (mode = ROUTE_MATCH_FIRST, rb_container b)
            else scan_bindings mode raw offset len bs (found, container)))"

fun scan_packs ::
    "RouteMatchMode \<Rightarrow> bytes option \<Rightarrow> nat \<Rightarrow> nat \<Rightarrow> ('h, 'w, 'c) RoutePack list
      \<Rightarrow> bool \<times> ('h, 'w, 'c) Container \<Rightarrow> (bool \<times> ('h, 'w, 'c) Container) option" where
  "scan_packs mode raw offset len [] st = Some st"
| "scan_packs mode raw offset len (pack # packs) st =
     (if fst st then Some st
      else Option.bind (scan_bindings mode raw offset len pack st)
             (scan_packs mode raw offset len packs))"

definition http_router_serve ::
    "('h, 'w, 'c) HTTPRouter \<Rightarrow> HTTPRequest \<Rightarrow> 'w \<Rightarrow> (int \<times> 'w) option" where
  "http_router_serve rt request w =
     (let routed = (\<lambda>w.
        (let raw_req = http_request_get_headers_buffer request;
             uri_range = http_request_get_url_range request in
         map_option (\<lambda>(found, container). container_serve container request w)
           (scan_packs (rt_match_mode rt) raw_req (mr_offset uri_range) (mr_length uri_range)
              (rt_packs rt) (False, rt_null rt))))
      in case rt_starter rt of
           None \<Rightarrow> routed w
         | Some starter \<Rightarrow>
            (let (ret, w) = container_serve starter request w in
             if ret = 0 then Some (ret, w) else routed w))"

section \<open>What the packs hold\<close>

definition route_of :: "('h, 'w, 'c) RouteBinding \<Rightarrow> string option" where
  "route_of b = (case rb_route b of Inline \<Rightarrow> Some (rb_name b) | Heap r \<Rightarrow> Some r | NullRoute \<Rightarrow> None)"

definition binding_wf :: "('h, 'w, 'c) RouteBinding \<Rightarrow> bool" where
  "binding_wf b \<longleftrightarrow> (case rb_route b of
       Inline \<Rightarrow> length (rb_name b) < ROUTE_BASE_LEN \<and> is_cstr (rb_name b) \<and>
                 sint (rb_route_len b) = int (length (rb_name b))
     | Heap r \<Rightarrow> is_cstr r \<and> sint (rb_route_len b) = int (length r)
     | NullRoute \<Rightarrow> 0 < sint (rb_route_len b))"

definition routes :: "('h, 'w, 'c) HTTPRouter \<Rightarrow> (string option \<times> ('h, 'w, 'c) Container) list" where
  "routes rt = map (\<lambda>b. (route_of b, rb_container b)) (concat (rt_packs rt))"

definition router_wf :: "('h, 'w, 'c) HTTPRouter \<Rightarrow> bool" where
  "router_wf rt \<longleftrightarrow> (\<exists>full open_pack. rt_packs rt = full @ [open_pack] \<and> rt_last rt = length full \<and>
     (\<forall>p \<in> set full. length p = ROUTE_GROUP_LEN) \<and> length open_pack \<le> ROUTE_GROUP_LEN \<and>
     (\<forall>b \<in> set (concat (rt_packs rt)). binding_wf b))"

definition heap_route :: "('h, 'w, 'c) RouteBinding \<Rightarrow> int" where
  "heap_route b = (case rb_route b of Heap r \<Rightarrow> 1 | _ \<Rightarrow> 0)"

definition packs_owned :: "('h, 'w, 'c) RoutePack list \<Rightarrow> int" where
  "packs_owned packs = int (length packs) - 1 + sum_list (map heap_route (concat packs))"

definition router_owned :: "('h, 'w, 'c) HTTPRouter \<Rightarrow> int" where
  "router_owned rt = 1 + container_owned + packs_owned (rt_packs rt)"

lemmas route_consts = ROUTE_BASE_LEN_def ROUTE_GROUP_LEN_def ROUTE_MAX_LEN_def

lemma sint_route_len:
  "n \<le> ROUTE_MAX_LEN \<Longrightarrow> sint (word_of_nat n :: 16 word) = int n"
  by (simp add: route_consts signed_of_nat signed_take_bit_int_eq_self)

lemma make_binding_result:
  assumes "length route \<le> ROUTE_MAX_LEN" "is_cstr route"
  shows "\<exists>b m'. make_binding route c m = Some (b, m') \<and> binding_wf b \<and> rb_container b = c \<and>
     blocks m' = blocks m + heap_route b \<and>
     (route_of b = Some route \<or> route_of b = None \<and> ROUTE_BASE_LEN \<le> length route) \<and>
     (answers m = [] \<longrightarrow> route_of b = Some route \<and> answers m' = []) \<and>
     route_of b = (if length route < ROUTE_BASE_LEN \<or> answer_at 0 m then Some route else None)"
proof -
  note len = sint_route_len[OF assms(1)]
  show ?thesis
  proof (cases "length route < ROUTE_BASE_LEN")
    case True
    then show ?thesis using len assms(2)
      by (simp add: make_binding_def binding_wf_def route_of_def heap_route_def)
  next
    case False
    obtain r m' where s: "memory_strdup route m = (r, m')" by fastforce
    then have "answers m = [] \<longrightarrow> r = Some route \<and> answers m' = []" "r = (if answer_at 0 m then Some route else None)"
      using memory_strdup_answer[of route m] by auto
    with False s len assms(2) show ?thesis
      by (cases r) (auto simp: make_binding_def binding_wf_def route_of_def heap_route_def
          mem_simps route_consts dest!: memory_strdup_SomeD)
  qed
qed

text \<open>Binding adds one entry at the end of the chain.\<close>

lemma route_pack_bind_open:
  assumes "length open_pack < ROUTE_GROUP_LEN" "make_binding route c m = Some (b, m')"
  shows "route_pack_bind (length full) route c (full @ [open_pack]) m =
    Some (full @ [open_pack @ [b]], length full, m')"
  using assms by (simp add: route_pack_bind.simps)

lemma route_pack_bind_full:
  assumes "length open_pack = ROUTE_GROUP_LEN"
  shows "route_pack_bind (length full) route c (full @ [open_pack]) m =
    (case memory_create m of
       (None, m) \<Rightarrow> None
     | (Some _, m) \<Rightarrow>
        (case make_binding route c m of
           None \<Rightarrow> None
         | Some (b, m') \<Rightarrow> Some (full @ [open_pack, [b]], Suc (length full), m')))"
  using assms
  by (simp add: route_pack_bind.simps[of "length full"]
      route_pack_bind.simps[of "Suc (length full)" _ _ "full @ [open_pack, []]"]
      nth_append ROUTE_GROUP_LEN_def list_update_append split: prod.splits option.splits)

lemma packs_owned_simps:
  "packs_owned (full @ [open_pack @ [b]]) = packs_owned (full @ [open_pack]) + heap_route b"
  "packs_owned (full @ [open_pack, [b]]) = packs_owned (full @ [open_pack]) + heap_route b + 1"
  by (simp_all add: packs_owned_def)

text \<open>
  What is stored of a route: a short one lies in the binding itself, a long one is copied, and a copy that the
  allocator refuses is not noticed.  When the last pack is full a new one is allocated first.
\<close>

definition copy_granted :: "('h, 'w, 'c) HTTPRouter \<Rightarrow> mem \<Rightarrow> bool" where
  "copy_granted rt m = answer_at (if length (last (rt_packs rt)) = ROUTE_GROUP_LEN then 1 else 0) m"

definition stored_route :: "('h, 'w, 'c) HTTPRouter \<Rightarrow> mem \<Rightarrow> string \<Rightarrow> string option" where
  "stored_route rt m route =
     (if length route < ROUTE_BASE_LEN \<or> copy_granted rt m then Some route else None)"

lemma router_bind_result:
  assumes wf: "router_wf rt" and len: "length route \<le> ROUTE_MAX_LEN" and cs: "is_cstr route"
    and bind: "http_router_bind route c rt m = Some (ret, rt', m')"
  shows "ret = 0 \<and> router_wf rt' \<and> rt_null rt' = rt_null rt \<and> rt_starter rt' = rt_starter rt \<and>
     rt_match_mode rt' = rt_match_mode rt \<and>
     (\<exists>p. routes rt' = routes rt @ [(p, c)] \<and>
          (p = Some route \<or> p = None \<and> ROUTE_BASE_LEN \<le> length route) \<and>
          (answers m = [] \<longrightarrow> p = Some route) \<and> p = stored_route rt m route) \<and>
     blocks m' - router_owned rt' = blocks m - router_owned rt \<and> (answers m = [] \<longrightarrow> answers m' = [])"
proof -
  obtain full open_pack where rt: "rt_packs rt = full @ [open_pack]" "rt_last rt = length full"
    "\<forall>p \<in> set full. length p = ROUTE_GROUP_LEN" "length open_pack \<le> ROUTE_GROUP_LEN"
    "\<forall>b \<in> set (concat (rt_packs rt)). binding_wf b"
    using wf unfolding router_wf_def by blast
  show ?thesis
  proof (cases "length open_pack < ROUTE_GROUP_LEN")
    case True
    obtain b m1 where b: "make_binding route c m = Some (b, m1)" "binding_wf b" "rb_container b = c"
      "blocks m1 = blocks m + heap_route b"
      "route_of b = Some route \<or> route_of b = None \<and> ROUTE_BASE_LEN \<le> length route"
      "answers m = [] \<longrightarrow> route_of b = Some route \<and> answers m1 = []"
      "route_of b = (if length route < ROUTE_BASE_LEN \<or> answer_at 0 m then Some route else None)"
      using make_binding_result[OF len cs, of c m] by blast
    have stored: "route_of b = stored_route rt m route"
      using True by (simp add: b(7) stored_route_def copy_granted_def rt(1))
    have rt': "rt' = rt\<lparr>rt_packs := full @ [open_pack @ [b]], rt_last := length full\<rparr>" "m' = m1" "ret = 0"
      using bind len rt(1,2) by (auto simp: http_router_bind_def route_pack_bind_open[OF True b(1)])
    have "router_wf rt'" using rt rt' b(2) True by (auto simp: router_wf_def)
    with rt' rt b(1-6) stored show ?thesis
      by (auto simp: routes_def router_owned_def packs_owned_simps)
  next
    case False
    then have full: "length open_pack = ROUTE_GROUP_LEN" using rt(4) by simp
    obtain p m0 where p: "memory_create m = (Some p, m0)"
      using bind len rt(1,2) by (auto simp: http_router_bind_def route_pack_bind_full[OF full]
          split: option.splits prod.splits)
    obtain b m1 where b: "make_binding route c m0 = Some (b, m1)" "binding_wf b" "rb_container b = c"
      "blocks m1 = blocks m0 + heap_route b"
      "route_of b = Some route \<or> route_of b = None \<and> ROUTE_BASE_LEN \<le> length route"
      "answers m0 = [] \<longrightarrow> route_of b = Some route \<and> answers m1 = []"
      "route_of b = (if length route < ROUTE_BASE_LEN \<or> answer_at 0 m0 then Some route else None)"
      using make_binding_result[OF len cs, of c m0] by blast
    have stored: "route_of b = stored_route rt m route"
      using full by (simp add: b(7) stored_route_def copy_granted_def rt(1) memory_create_answers(2)[OF p])
    have rt': "rt' = rt\<lparr>rt_packs := full @ [open_pack, [b]], rt_last := Suc (length full)\<rparr>" "m' = m1" "ret = 0"
      using bind len rt(1,2) p b(1) by (auto simp: http_router_bind_def route_pack_bind_full[OF full])
    have "router_wf rt'"
      unfolding router_wf_def
      by (rule exI[of _ "full @ [open_pack]"], rule exI[of _ "[b]"])
        (use rt rt' b(2) full in \<open>auto simp: ROUTE_GROUP_LEN_def\<close>)
    moreover have "answers m = [] \<longrightarrow> answers m0 = []" using p by auto
    ultimately show ?thesis using rt' rt b(1-6) stored memory_create_Some[OF p]
      by (auto simp: routes_def router_owned_def packs_owned_simps)
  qed
qed

lemma router_bind_ok:
  assumes "router_wf rt" "length route \<le> ROUTE_MAX_LEN" "is_cstr route" "answers m = []"
  shows "\<exists>rt' m'. http_router_bind route c rt m = Some (0, rt', m')"
proof -
  obtain full open_pack where rt: "rt_packs rt = full @ [open_pack]" "rt_last rt = length full"
    "length open_pack \<le> ROUTE_GROUP_LEN"
    using assms(1) by (auto simp: router_wf_def)
  show ?thesis
  proof (cases "length open_pack < ROUTE_GROUP_LEN")
    case True
    with rt assms(2) make_binding_result[OF assms(2,3), of c m] show ?thesis
      by (auto simp: http_router_bind_def route_pack_bind_open)
  next
    case False
    with rt assms(2,4)
      make_binding_result[OF assms(2,3), of c "m\<lparr>fresh := Suc (fresh m), blocks := blocks m + 1\<rparr>"]
    show ?thesis by (auto simp: http_router_bind_def route_pack_bind_full)
  qed
qed

section \<open>Matching\<close>

text \<open>On a URL without NUL bytes that lies inside its block, \<open>strmatch\<close> reads neither block
  past its end, and it reaches the length of the route exactly when the route is a prefix.\<close>

lemma strmatch_0 [simp]: "strmatch s1 s2 0 = Some 0"
  by (simp add: strmatch.simps)

lemma strmatch_prefix:
  assumes "length u = n" "NUL \<notin> set u" "NUL \<notin> set route"
  shows "\<exists>k. strmatch (u @ more1) (route @ NUL # more2) (int n) = Some (int k) \<and>
     (length route \<le> k \<longleftrightarrow> prefix route u)"
  using assms
proof (induction route arbitrary: u n)
  case Nil
  then show ?case by (cases u) (auto simp: strmatch.simps[of _ _ "int n"])
next
  case (Cons c route)
  show ?case
  proof (cases u)
    case Nil
    with Cons.prems show ?thesis by (simp add: strmatch.simps)
  next
    case (Cons a u')
    with Cons.prems obtain j where n: "n = Suc j" "length u' = j" by auto
    show ?thesis
    proof (cases "a = c")
      case True
      obtain k where "strmatch (u' @ more1) (route @ NUL # more2) (int j) = Some (int k)"
        "length route \<le> k \<longleftrightarrow> prefix route u'"
        using Cons.IH[of u' j] Cons.prems n Cons by auto
      then show ?thesis using True n Cons
        by (intro exI[of _ "Suc k"]) (simp add: strmatch.simps[of "_ # _"])
    next
      case False
      then show ?thesis using n Cons
        by (intro exI[of _ 0]) (simp add: strmatch.simps[of "_ # _"])
    qed
  qed
qed

definition route_matches :: "string option \<Rightarrow> string \<Rightarrow> bool" where
  "route_matches p u = (case p of None \<Rightarrow> False | Some r \<Rightarrow> prefix r u)"

lemma sint_uri_len: "n < 2 ^ 31 \<Longrightarrow> sint (word_of_nat n :: 32 word) = int n"
  by (simp add: signed_of_nat signed_take_bit_int_eq_self)

lemma inline_bytes:
  assumes "length r < ROUTE_BASE_LEN"
  shows "take ROUTE_BASE_LEN (r @ replicate ROUTE_BASE_LEN NUL) =
    r @ NUL # replicate (ROUTE_BASE_LEN - length r - 1) NUL"
proof -
  obtain k where "ROUTE_BASE_LEN - length r = Suc k" using assms by (cases "ROUTE_BASE_LEN - length r") auto
  with assms show ?thesis by simp
qed

lemma match_binding_prefix:
  assumes "binding_wf b" "offset + len \<le> length buf" "len < 2 ^ 31"
    and "NUL \<notin> set (take len (drop offset buf))"
  shows "\<exists>k. match_binding (Some buf) offset len b = Some k \<and>
    (sint (rb_route_len b) \<le> k \<longleftrightarrow> route_matches (route_of b) (take len (drop offset buf)))"
proof -
  let ?u = "take len (drop offset buf)"
  have u: "length ?u = len" "drop offset buf = ?u @ drop len (drop offset buf)"
    using assms(2) by (simp_all del: drop_drop)
  note n = sint_uri_len[OF assms(3)]
  have main: "\<exists>k. match_binding (Some buf) offset len b = Some k \<and>
      (sint (rb_route_len b) \<le> k \<longleftrightarrow> route_matches (route_of b) ?u)"
    if h: "route_of b = Some r" "route_bytes b = Some (r @ NUL # more)" "NUL \<notin> set r"
       "sint (rb_route_len b) = int (length r)" for r more
  proof -
    obtain k where "strmatch (drop offset buf) (r @ NUL # more) (int len) = Some (int k)"
      "length r \<le> k \<longleftrightarrow> prefix r ?u"
      using strmatch_prefix[OF u(1) assms(4) h(3), of "drop len (drop offset buf)" more] u(2) by auto
    with h n assms(2) show ?thesis by (auto simp: match_binding_def route_matches_def Let_def)
  qed
  show ?thesis
  proof (cases "rb_route b")
    case Inline
    have b: "length (rb_name b) < ROUTE_BASE_LEN" "NUL \<notin> set (rb_name b)"
      "sint (rb_route_len b) = int (length (rb_name b))"
      using assms(1) Inline by (auto simp: binding_wf_def is_cstr_def)
    have "route_of b = Some (rb_name b)" by (simp add: route_of_def Inline)
    moreover have "route_bytes b =
        Some (rb_name b @ NUL # replicate (ROUTE_BASE_LEN - length (rb_name b) - 1) NUL)"
      by (simp only: route_bytes_def Inline route_ptr.case inline_bytes[OF b(1)])
    ultimately show ?thesis using b(2,3) by (rule main)
  next
    case (Heap r)
    with assms(1) main[of r "[]"] show ?thesis
      by (auto simp: binding_wf_def route_of_def route_bytes_def is_cstr_def)
  next
    case NullRoute
    with assms(1,2) show ?thesis
      by (auto simp: binding_wf_def route_of_def route_bytes_def match_binding_def route_matches_def Let_def)
  qed
qed

section \<open>The container that is picked\<close>

definition pick ::
    "RouteMatchMode \<Rightarrow> (string option \<times> 'k) list \<Rightarrow> string \<Rightarrow> 'k \<Rightarrow> 'k" where
  "pick mode rs u dflt =
     (case find (\<lambda>rc. route_matches (fst rc) u) (if mode = ROUTE_MATCH_FIRST then rs else rev rs) of
        None \<Rightarrow> dflt | Some rc \<Rightarrow> snd rc)"

lemma pick_Cons_first:
  "pick ROUTE_MATCH_FIRST (rc # rs) u d =
     (if route_matches (fst rc) u then snd rc else pick ROUTE_MATCH_FIRST rs u d)"
  by (simp add: pick_def)

lemma pick_Cons_longest:
  "pick ROUTE_MATCH_LONGEST (rc # rs) u d =
     pick ROUTE_MATCH_LONGEST rs u (if route_matches (fst rc) u then snd rc else d)"
  by (simp add: pick_def find_append split: option.splits)

lemma scan_found [simp]: "scan_bindings mode raw offset len bs (True, c) = Some (True, c)"
  by (cases bs) simp_all

lemma scan_bindings_append:
  "scan_bindings mode raw offset len (xs @ ys) st =
     Option.bind (scan_bindings mode raw offset len xs st) (scan_bindings mode raw offset len ys)"
  by (induction mode raw offset len xs st rule: scan_bindings.induct) (auto split: option.splits)

lemma scan_packs_concat:
  "scan_packs mode raw offset len packs st = scan_bindings mode raw offset len (concat packs) st"
proof (induction packs arbitrary: st)
  case Nil
  then show ?case by (cases st) simp
next
  case (Cons pack packs)
  have "scan_packs mode raw offset len packs = scan_bindings mode raw offset len (concat packs)"
    by (rule ext) (rule Cons.IH)
  then show ?case by (cases st) (auto simp: scan_bindings_append)
qed

lemma scan_bindings_pick:
  assumes "\<forall>b \<in> set bs. binding_wf b" "offset + len \<le> length buf" "len < 2 ^ 31"
    and "NUL \<notin> set (take len (drop offset buf))"
  shows "\<exists>found. scan_bindings mode (Some buf) offset len bs (False, c) = Some (found,
    pick mode (map (\<lambda>b. (route_of b, rb_container b)) bs) (take len (drop offset buf)) c)"
  using assms(1)
proof (induction bs arbitrary: c)
  case Nil
  then show ?case by (intro exI[of _ False]) (simp add: pick_def)
next
  case (Cons b bs)
  obtain k where k: "match_binding (Some buf) offset len b = Some k"
    "sint (rb_route_len b) \<le> k \<longleftrightarrow> route_matches (route_of b) (take len (drop offset buf))"
    using match_binding_prefix[OF _ assms(2-4)] Cons.prems by auto
  from Cons show ?case
    by (cases mode) (auto simp: k pick_Cons_first pick_Cons_longest)
qed

definition request_uri_ok :: "HTTPRequest \<Rightarrow> bytes \<Rightarrow> bool" where
  "request_uri_ok q u \<longleftrightarrow> (\<exists>buf. req_headers_buffer q = Some buf \<and>
     mr_offset (req_url_range q) + mr_length (req_url_range q) \<le> length buf \<and>
     mr_length (req_url_range q) < 2 ^ 31 \<and> NUL \<notin> set u \<and>
     u = take (mr_length (req_url_range q)) (drop (mr_offset (req_url_range q)) buf))"

lemma serve_routed:
  assumes wf: "router_wf rt" and uri: "request_uri_ok q u"
  shows "http_router_serve rt q w =
    (let routed = (\<lambda>w. Some (container_serve (pick (rt_match_mode rt) (routes rt) u (rt_null rt)) q w)) in
     case rt_starter rt of
       None \<Rightarrow> routed w
     | Some starter \<Rightarrow>
        (let (ret, w) = container_serve starter q w in if ret = 0 then Some (ret, w) else routed w))"
proof -
  obtain buf where buf: "req_headers_buffer q = Some buf"
    "mr_offset (req_url_range q) + mr_length (req_url_range q) \<le> length buf"
    "mr_length (req_url_range q) < 2 ^ 31" "NUL \<notin> set u"
    "u = take (mr_length (req_url_range q)) (drop (mr_offset (req_url_range q)) buf)"
    using uri by (auto simp: request_uri_ok_def)
  have "\<forall>b \<in> set (concat (rt_packs rt)). binding_wf b" using wf unfolding router_wf_def by blast
  then obtain found where "scan_packs (rt_match_mode rt) (Some buf) (mr_offset (req_url_range q))
      (mr_length (req_url_range q)) (rt_packs rt) (False, rt_null rt) =
      Some (found, pick (rt_match_mode rt) (routes rt) u (rt_null rt))"
    using scan_bindings_pick[OF _ buf(2,3)] buf(4,5) unfolding scan_packs_concat routes_def by blast
  then show ?thesis
    by (simp add: http_router_serve_def http_request_get_headers_buffer_def
        http_request_get_url_range_def buf(1) split: option.split)
qed

section \<open>The contract of a prefix route table\<close>

text \<open>
  What the program relies on when it binds routes and lets requests through: binding appends a
  route, and a URL goes to the first route that is a prefix of it.
\<close>

locale route_table =
  fixes bind :: "string \<Rightarrow> 'k \<Rightarrow> 's \<Rightarrow> 's option"
    and table :: "'s \<Rightarrow> (string option \<times> 'k) list"
    and target :: "string \<Rightarrow> 's \<Rightarrow> 'k option"
    and valid :: "string \<Rightarrow> bool"
    and valid_url :: "string \<Rightarrow> bool"
    and inv :: "'s \<Rightarrow> bool"
  assumes bind_ok: "inv s \<Longrightarrow> valid r \<Longrightarrow>
      \<exists>t. bind r k s = Some t \<and> inv t \<and> table t = table s @ [(Some r, k)]"
    and target_first: "inv s \<Longrightarrow> valid_url u \<Longrightarrow>
      target u s = map_option snd (find (\<lambda>rc. route_matches (fst rc) u) (table s))"
begin

lemma bind_all:
  "inv s \<Longrightarrow> list_all (\<lambda>rk. valid (fst rk)) rks \<Longrightarrow>
     \<exists>t. run_opt (\<lambda>rk. bind (fst rk) (snd rk)) rks s = Some t \<and> inv t \<and>
         table t = table s @ map (apfst Some) rks"
proof (induction rks arbitrary: s)
  case (Cons rk rks)
  then obtain t where t: "bind (fst rk) (snd rk) s = Some t" "inv t"
    "table t = table s @ [(Some (fst rk), snd rk)]"
    using bind_ok[of s "fst rk" "snd rk"] by auto
  with Cons.IH[OF t(2)] Cons.prems show ?case by (cases rk) auto
qed simp

lemma target_stable:
  assumes "inv s" "valid r" "valid_url u" "target u s = Some k" "bind r k' s = Some t"
  shows "target u t = Some k"
proof -
  have "inv t" "table t = table s @ [(Some r, k')]" using bind_ok[OF assms(1,2), of k'] assms(5) by auto
  then show ?thesis using assms(1,3,4) by (auto simp: target_first find_append split: option.splits)
qed

end

text \<open>The router with a non-failing allocator, in the mode the program uses.\<close>

definition router_bind_step ::
    "string \<Rightarrow> ('h, 'w, 'c) Container \<Rightarrow> ('h, 'w, 'c) HTTPRouter \<times> mem
      \<Rightarrow> (('h, 'w, 'c) HTTPRouter \<times> mem) option" where
  "router_bind_step route c s = map_option snd (http_router_bind route c (fst s) (snd s))"

definition router_target ::
    "string \<Rightarrow> ('h, 'w, 'c) HTTPRouter \<times> mem \<Rightarrow> ('h, 'w, 'c) Container option" where
  "router_target u s =
     (case scan_packs (rt_match_mode (fst s)) (Some u) 0 (length u) (rt_packs (fst s))
             (False, rt_null (fst s)) of
        Some (True, c) \<Rightarrow> Some c | _ \<Rightarrow> None)"

definition route_valid :: "string \<Rightarrow> bool" where
  "route_valid r \<longleftrightarrow> is_cstr r \<and> length r \<le> ROUTE_MAX_LEN"

definition url_valid :: "string \<Rightarrow> bool" where
  "url_valid u \<longleftrightarrow> is_cstr u \<and> length u < 2 ^ 31"

lemma scan_bindings_first:
  assumes "\<forall>b \<in> set bs. binding_wf b" "url_valid u"
  shows "scan_bindings ROUTE_MATCH_FIRST (Some u) 0 (length u) bs (False, c) =
    (case find (\<lambda>rc. route_matches (fst rc) u) (map (\<lambda>b. (route_of b, rb_container b)) bs) of
       None \<Rightarrow> Some (False, c) | Some rc \<Rightarrow> Some (True, snd rc))"
  using assms(1)
proof (induction bs)
  case (Cons b bs)
  obtain k where k: "match_binding (Some u) 0 (length u) b = Some k"
    "sint (rb_route_len b) \<le> k \<longleftrightarrow> route_matches (route_of b) u"
    using match_binding_prefix[of b 0 "length u" u] assms(2) Cons.prems
    by (auto simp: url_valid_def is_cstr_def)
  from Cons show ?case by (auto simp: k)
qed simp

interpretation router_table:
  route_table router_bind_step "\<lambda>s. routes (fst s)" router_target route_valid url_valid
    "\<lambda>s. router_wf (fst s) \<and> rt_match_mode (fst s) = ROUTE_MATCH_FIRST \<and> answers (snd s) = []"
proof unfold_locales
  fix s :: "('h, 'w, 'c) HTTPRouter \<times> mem" and r and k :: "('h, 'w, 'c) Container"
  assume s: "router_wf (fst s) \<and> rt_match_mode (fst s) = ROUTE_MATCH_FIRST \<and> answers (snd s) = []"
    and r: "route_valid r"
  obtain rt' m' where b: "http_router_bind r k (fst s) (snd s) = Some (0, rt', m')"
    using router_bind_ok[of "fst s" r "snd s" k] s r by (auto simp: route_valid_def)
  then show "\<exists>t. router_bind_step r k s = Some t \<and>
      (router_wf (fst t) \<and> rt_match_mode (fst t) = ROUTE_MATCH_FIRST \<and> answers (snd t) = []) \<and>
      routes (fst t) = routes (fst s) @ [(Some r, k)]"
    using router_bind_result[OF _ _ _ b] s r by (auto simp: router_bind_step_def route_valid_def)
next
  fix s :: "('h, 'w, 'c) HTTPRouter \<times> mem" and u
  assume s: "router_wf (fst s) \<and> rt_match_mode (fst s) = ROUTE_MATCH_FIRST \<and> answers (snd s) = []"
    and u: "url_valid u"
  have "\<forall>b \<in> set (concat (rt_packs (fst s))). binding_wf b" using s unfolding router_wf_def by blast
  from scan_bindings_first[OF this u] s
  show "router_target u s = map_option snd (find (\<lambda>rc. route_matches (fst rc) u) (routes (fst s)))"
    by (simp add: router_target_def scan_packs_concat routes_def split: option.split)
qed

section \<open>Properties\<close>

text \<open>
  C13: The router calls the default container first and is done when it returns 0; otherwise
  the request goes to the container \<open>pick\<close> chooses: in mode FIRST the earliest binding, in mode LONGEST
  the latest binding whose route is a prefix of the URL, and the null container when there
  is none.  The loops over the packs never read outside the request or a route.
\<close>

theorem router_serves_picked:
  assumes "router_wf rt" "request_uri_ok q u"
  shows "http_router_serve rt q w =
    (let routed = (\<lambda>w. Some (container_serve (pick (rt_match_mode rt) (routes rt) u (rt_null rt)) q w)) in
     case rt_starter rt of
       None \<Rightarrow> routed w
     | Some starter \<Rightarrow>
        (let (ret, w) = container_serve starter q w in if ret = 0 then Some (ret, w) else routed w))"
  by (rule serve_routed[OF assms])

definition tag_container :: "nat \<Rightarrow> (nat, nat list, nat) Container" where
  "tag_container n = \<lparr>cont_plugin = None, cont_handle = n, cont_name = ''tag'',
     cont_serve = (\<lambda>h q w. (0, w @ [h])), cont_destroy = (\<lambda>h w. (0, w)), cont_init = (\<lambda>h c w. (0, h, w))\<rparr>"

definition router0 :: "RouteMatchMode \<Rightarrow> (nat, nat list, nat) HTTPRouter" where
  "router0 mode = \<lparr>rt_packs = [[]], rt_last = 0, rt_null = tag_container 0, rt_starter = None,
     rt_match_mode = mode\<rparr>"

lemma router0_wf: "router_wf (router0 mode)"
  by (simp add: router_wf_def router0_def)

definition request_for :: "string \<Rightarrow> HTTPRequest" where
  "request_for u = http_request_zero\<lparr>req_headers_buffer := Some u,
     req_url_range := \<lparr>mr_offset = 0, mr_length = length u\<rparr>\<rparr>"

lemma request_for_uri: "url_valid u \<Longrightarrow> request_uri_ok (request_for u) u"
  by (simp add: request_uri_ok_def request_for_def url_valid_def is_cstr_def)

theorem router_serves_picked_witness:
  "http_router_serve (router0 ROUTE_MATCH_FIRST) (request_for ''/x'') [] = Some (0, [0])"
proof -
  have "request_uri_ok (request_for ''/x'') ''/x''"
    by (rule request_for_uri) (simp add: url_valid_def is_cstr_def NUL_def)
  from router_serves_picked[OF router0_wf this] show ?thesis
    by (simp add: router0_def pick_def routes_def container_serve_def tag_container_def)
qed

lemma bind_result_any:
  assumes "router_wf rt" "is_cstr route" "http_router_bind route c rt m = Some (ret, rt', m')"
  shows "router_wf rt' \<and> blocks m' - router_owned rt' = blocks m - router_owned rt \<and>
    (if ROUTE_MAX_LEN < length route then ret = -1 \<and> rt' = rt
     else ret = 0 \<and> routes rt' = routes rt @ [(stored_route rt m route, c)])"
proof (cases "ROUTE_MAX_LEN < length route")
  case True
  with assms show ?thesis by (auto simp: http_router_bind_def)
next
  case False
  with router_bind_result[OF assms(1) _ assms(2,3)] show ?thesis by auto
qed


text \<open>A short route and one that has to be copied.\<close>

definition long_route :: string where "long_route = CHR ''/'' # replicate 99 (CHR ''a'')"


text \<open>
  With enough memory, any number of routes can be bound one after the other to an empty
  router; a URL then goes to the container of the first of them that is a prefix of it, through
  however many packs the bindings are spread, and binding further routes never takes a URL away from
  its container.
\<close>

theorem router_first_match:
  assumes "router_wf rt" "rt_match_mode rt = ROUTE_MATCH_FIRST" "routes rt = []" "answers m = []"
    and "list_all (\<lambda>rk. route_valid (fst rk)) rks" "url_valid u"
  shows "\<exists>s. run_opt (\<lambda>rk. router_bind_step (fst rk) (snd rk)) rks (rt, m) = Some s \<and>
    router_target u s = map_option snd (find (\<lambda>rk. prefix (fst rk) u) rks) \<and>
    (\<forall>r k k' t. route_valid r \<and> router_target u s = Some k \<and> router_bind_step r k' s = Some t \<longrightarrow>
       router_target u t = Some k)"
proof -
  let ?inv = "\<lambda>s. router_wf (fst s) \<and> rt_match_mode (fst s) = ROUTE_MATCH_FIRST \<and> answers (snd s) = []"
  have "?inv (rt, m)" using assms by simp
  from router_table.bind_all[OF this assms(5)] obtain s where
    s: "run_opt (\<lambda>rk. router_bind_step (fst rk) (snd rk)) rks (rt, m) = Some s" "?inv s"
      "routes (fst s) = map (apfst Some) rks"
    using assms(3) by auto
  have "map_option snd (find (\<lambda>rc. route_matches (fst rc) u) (map (apfst Some) rks)) =
      map_option snd (find (\<lambda>rk. prefix (fst rk) u) rks)"
    by (induction rks) (auto simp: route_matches_def)
  then show ?thesis
    using s router_table.target_first[OF s(2) assms(6)] router_table.target_stable[OF s(2) _ assms(6)]
    by auto
qed

theorem router_first_match_witness:
  "\<exists>s. run_opt (\<lambda>rk. router_bind_step (fst rk) (snd rk))
      [(''/app'', tag_container 1), (''/'', tag_container 2)] (router0 ROUTE_MATCH_FIRST, mem0) = Some s \<and>
    router_target ''/about'' s = Some (tag_container 2)"
proof -
  have "list_all (\<lambda>rk. route_valid (fst rk)) [(''/app'', tag_container 1), (''/'', tag_container 2)]"
    "url_valid ''/about''" "routes (router0 ROUTE_MATCH_FIRST) = []"
    "rt_match_mode (router0 ROUTE_MATCH_FIRST) = ROUTE_MATCH_FIRST" "answers mem0 = []"
    by (simp_all add: route_valid_def url_valid_def is_cstr_def NUL_def ROUTE_MAX_LEN_def routes_def
        router0_def)
  from router_first_match[OF router0_wf this(4,3,5,1,2)] show ?thesis by auto
qed

text \<open>
  In mode LONGEST the router does not look for the longest match: a URL that the
  last bound route is a prefix of goes to that route's container, however many longer
  routes match as well.
\<close>

theorem longest_mode_serves_last:
  assumes "router_wf rt" "rt_match_mode rt = ROUTE_MATCH_LONGEST" "rt_starter rt = None"
    and "routes rt = earlier @ [(Some r, c)]" "request_uri_ok q u" "prefix r u"
  shows "http_router_serve rt q w = Some (container_serve c q w)"
  using assms by (simp add: serve_routed pick_def route_matches_def)

theorem longest_mode_serves_last_witness:
  "\<exists>s. run_opt (\<lambda>rk. router_bind_step (fst rk) (snd rk))
      [(''/app/sub'', tag_container 1), (''/app'', tag_container 2)] (router0 ROUTE_MATCH_LONGEST, mem0) = Some s \<and>
    http_router_serve (fst s) (request_for ''/app/sub/x'') [] = Some (0, [2])"
proof -
  have cs: "is_cstr ''/app/sub''" "is_cstr ''/app''" by (simp_all add: is_cstr_def NUL_def)
  have "length ''/app/sub'' \<le> ROUTE_MAX_LEN" "length ''/app'' \<le> ROUTE_MAX_LEN"
    by (simp_all add: ROUTE_MAX_LEN_def)
  note len = this
  obtain rt1 m1 where b1: "http_router_bind ''/app/sub'' (tag_container 1) (router0 ROUTE_MATCH_LONGEST) mem0 =
      Some (0, rt1, m1)"
    using router_bind_ok[OF router0_wf len(1) cs(1) answers_mem0] by blast
  have 1: "router_wf rt1" "answers m1 = []" "rt_match_mode rt1 = ROUTE_MATCH_LONGEST" "rt_starter rt1 = None"
    using router_bind_result[OF router0_wf len(1) cs(1) b1] by (auto simp: router0_def mem0_def)
  obtain rt2 m2 where b2: "http_router_bind ''/app'' (tag_container 2) rt1 m1 = Some (0, rt2, m2)"
    using router_bind_ok[OF 1(1) len(2) cs(2) 1(2), of "tag_container 2"] by auto
  have 2: "router_wf rt2" "rt_match_mode rt2 = ROUTE_MATCH_LONGEST" "rt_starter rt2 = None"
    "routes rt2 = routes rt1 @ [(Some ''/app'', tag_container 2)]"
    using router_bind_result[OF 1(1) len(2) cs(2) b2] 1 by auto
  have uri: "request_uri_ok (request_for ''/app/sub/x'') ''/app/sub/x''"
    by (rule request_for_uri) (simp add: url_valid_def is_cstr_def NUL_def)
  have "http_router_serve rt2 (request_for ''/app/sub/x'') [] = Some (0, [2])"
    using longest_mode_serves_last[OF 2 uri] by (simp add: container_serve_def tag_container_def)
  then show ?thesis using b1 b2 by (simp add: router_bind_step_def)
qed

section \<open>Life cycle\<close>

lemma route_pack_clean_blocks:
  "blocks (route_pack_clean pack m) = blocks m - sum_list (map heap_route pack)"
  by (induction pack arbitrary: m)
    (auto simp: route_pack_clean_def heap_route_def split: route_ptr.splits)

lemma route_pack_destroy_blocks:
  "blocks (route_pack_destroy packs m) =
     blocks m - int (length packs) - sum_list (map heap_route (concat packs))"
  by (induction packs m rule: route_pack_destroy.induct) (auto simp: route_pack_clean_blocks)

lemma router_destroy_blocks:
  assumes "router_wf rt" "cont_destroy (rt_null rt) = null_destroy" "cont_plugin (rt_null rt) = None"
    and "http_router_destroy rt w l = (w', l')"
  shows "blocks (ld_mem l') = blocks (ld_mem l) - router_owned rt \<and> ld_open l' = ld_open l"
proof -
  obtain w1 l1 where d: "container_destroy (rt_null rt) w l = (w1, l1)" by fastforce
  have n: "blocks (ld_mem l1) = blocks (ld_mem l) - container_owned" "ld_open l1 = ld_open l"
    using destroy_owned[OF d] assms(2,3) by (simp_all add: null_destroy_def)
  obtain pack packs where "rt_packs rt = pack # packs"
    using assms(1) unfolding router_wf_def by (cases "rt_packs rt") auto
  then show ?thesis using assms(4) n
    by (auto simp: http_router_destroy_def d Let_def route_pack_clean_blocks route_pack_destroy_blocks
        router_owned_def packs_owned_def)
qed

definition router_step ::
    "string \<times> ('h, 'w, 'c) Container \<Rightarrow> ('h, 'w, 'c) HTTPRouter \<times> mem
      \<Rightarrow> (('h, 'w, 'c) HTTPRouter \<times> mem) option" where
  "router_step rc s = (if is_cstr (fst rc) then router_bind_step (fst rc) (snd rc) s else None)"

interpretation router_life:
  partial_stepper router_step
    "\<lambda>s. router_wf (fst s) \<and> rt_null (fst s) = n \<and> blocks (snd s) - router_owned (fst s) = k" for n k
proof unfold_locales
  fix s t :: "('a, 'b, 'c) HTTPRouter \<times> mem" and e
  assume s: "router_wf (fst s) \<and> rt_null (fst s) = n \<and> blocks (snd s) - router_owned (fst s) = k"
    and "router_step e s = Some t"
  then obtain ret where b: "is_cstr (fst e)"
    "http_router_bind (fst e) (snd e) (fst s) (snd s) = Some (ret, t)"
    by (auto simp: router_step_def router_bind_step_def split: if_splits)
  then have "http_router_bind (fst e) (snd e) (fst s) (snd s) = Some (ret, fst t, snd t)" by simp
  note a = bind_result_any[OF conjunct1[OF s] b(1) this]
  have "rt_null (fst t) = rt_null (fst s)"
    using b(2) by (cases t) (auto simp: http_router_bind_def split: if_splits option.splits)
  with a s show "router_wf (fst t) \<and> rt_null (fst t) = n \<and> blocks (snd t) - router_owned (fst t) = k"
    by simp
qed


lemma router_new_owned:
  assumes "http_router_new logger mode m = Some (Some rt, m')"
  shows "router_wf rt \<and> cont_destroy (rt_null rt) = null_destroy \<and> cont_plugin (rt_null rt) = None \<and>
    blocks m' = blocks m + router_owned rt"
  using assms
  by (auto simp: http_router_new_def router_wf_def router_owned_def packs_owned_def mem_simps
      dest!: new_null_Some split: prod.splits option.splits)

text \<open>
  The life of a router.  After \<open>http_router_new\<close>, any sequence of bindings of C strings of
  any length, with any of the allocations failing, and \<open>http_router_destroy\<close>, every block taken is
  released exactly once and no library handle is left open or closed too often.
\<close>

theorem router_lifecycle_balanced:
  assumes "http_router_new logger mode m = Some (Some rt, m1)"
    and "run_opt router_step bindings (rt, m1) = Some (rt', m2)"
    and "http_router_destroy rt' w \<lparr>ld_mem = m2, ld_open = n\<rparr> = (w', l')"
  shows "blocks (ld_mem l') = blocks m \<and> ld_open l' = n"
proof -
  note new = router_new_owned[OF assms(1)]
  have "router_wf rt' \<and> rt_null rt' = rt_null rt \<and> blocks m2 - router_owned rt' = blocks m"
    using router_life.run_inv[of "(rt, m1)" "rt_null rt" "blocks m", OF _ assms(2)] new by simp
  with new router_destroy_blocks[OF _ _ _ assms(3)] show ?thesis by simp
qed

theorem router_lifecycle_balanced_witness:
  "\<exists>(rt :: (nat, nat list, nat) HTTPRouter) m1 rt' m2 w' l'.
     http_router_new 0 ROUTE_MATCH_FIRST mem0 = Some (Some rt, m1) \<and>
     run_opt router_step [(''/a'', tag_container 1), (''/a-much-longer-route'', tag_container 2)]
       (rt, m1) = Some (rt', m2) \<and>
     http_router_destroy rt' [] \<lparr>ld_mem = m2, ld_open = 1\<rparr> = (w', l') \<and>
     blocks (ld_mem l') = 0 \<and> ld_open l' = 1"
proof -
  obtain rt :: "(nat, nat list, nat) HTTPRouter" and m1
    where n: "http_router_new 0 ROUTE_MATCH_FIRST mem0 = Some (Some rt, m1)" and a: "answers m1 = []"
    by (simp add: http_router_new_def container_new_null_def container_new_custom_def)
  have v: "is_cstr ''/a''" "is_cstr ''/a-much-longer-route''"
    "length ''/a'' \<le> ROUTE_MAX_LEN" "length ''/a-much-longer-route'' \<le> ROUTE_MAX_LEN"
    by (simp_all add: is_cstr_def NUL_def ROUTE_MAX_LEN_def)
  obtain rt1 ma where b1: "http_router_bind ''/a'' (tag_container 1) rt m1 = Some (0, rt1, ma)"
    using router_bind_ok[of rt "''/a''" m1 "tag_container 1"] router_new_owned[OF n] v a by blast
  then have "router_wf rt1" "answers ma = []"
    using router_bind_result[OF _ v(3,1) b1] router_new_owned[OF n] a by simp_all
  then obtain rt' m2 where b2:
      "http_router_bind ''/a-much-longer-route'' (tag_container 2) rt1 ma = Some (0, rt', m2)"
    using router_bind_ok[of rt1 "''/a-much-longer-route''" ma "tag_container 2"] v by blast
  have r: "run_opt router_step [(''/a'', tag_container 1), (''/a-much-longer-route'', tag_container 2)]
      (rt, m1) = Some (rt', m2)"
    using b1 b2 v by (simp add: router_step_def router_bind_step_def)
  obtain w' l' where d: "http_router_destroy rt' [] \<lparr>ld_mem = m2, ld_open = 1\<rparr> = (w', l')" by fastforce
  show ?thesis using router_lifecycle_balanced[OF n r d] n r d by auto
qed

text \<open>
  Creating a router reports a failed allocation of the null container as \<open>NULL\<close>, but
  when the router itself cannot be allocated the source reads the logger through the \<open>NULL\<close>
  pointer: the outcome is undefined exactly then.
\<close>

theorem router_new_undefined_iff:
  "http_router_new logger mode m = (None :: (('h, 'w, 'c) HTTPRouter option \<times> mem) option) \<longleftrightarrow>
     (\<exists>n m1 m2. container_new_null logger ''default'' m = (Some (n :: ('h, 'w, 'c) Container), m1) \<and>
        memory_create m1 = (None, m2))"
  by (auto simp: http_router_new_def split: prod.splits option.splits)

end
