(* ===== verification/Logger.thy ===== *)
theory Logger
  imports Memory C_Strings "HOL-Library.Word"
begin

text \<open>
  The logger (\<open>src/logger.c\<close>, \<open>rapp/rapp_logger.h\<close>).  A level is the unsigned 32-bit integer the C
  \<open>enum\<close> is compiled to, because the null logger is made with level -1; \<open>level_code\<close> gives the
  constants.  A stream is the list of calls of \<open>vfprintf\<close> on it, each with its format and
  its arguments (\<open>'a\<close>); \<open>None\<close> is a read outside the table of templates.
\<close>

section \<open>Levels\<close>

datatype LogLevel =
  LOG_CRITICAL | LOG_ERROR | LOG_WARNING | LOG_INFO | LOG_DEBUG | LOG_MARK | LOG_LAST

primrec level_code :: "LogLevel \<Rightarrow> 32 word" where
  "level_code LOG_CRITICAL = 0"
| "level_code LOG_ERROR = 1"
| "level_code LOG_WARNING = 2"
| "level_code LOG_INFO = 3"
| "level_code LOG_DEBUG = 4"
| "level_code LOG_MARK = 5"
| "level_code LOG_LAST = 6"

lemma level_code_inject: "level_code a = level_code b \<Longrightarrow> a = b"
  by (cases a; cases b) simp_all

instantiation LogLevel :: linorder
begin

definition less_eq_LogLevel :: "LogLevel \<Rightarrow> LogLevel \<Rightarrow> bool" where
  "less_eq_LogLevel a b \<longleftrightarrow> level_code a \<le> level_code b"

definition less_LogLevel :: "LogLevel \<Rightarrow> LogLevel \<Rightarrow> bool" where
  "less_LogLevel a b \<longleftrightarrow> level_code a < level_code b"

instance
  by standard (auto simp: less_eq_LogLevel_def less_LogLevel_def intro: level_code_inject)

end

section \<open>Streams and handlers\<close>

record ('p, 'a) log_io =
  io_files :: "'p \<Rightarrow> (string \<times> 'a) list"
  io_stderr :: "string list"
  io_mem :: mem

type_synonym ('p, 'a) log_handler =
  "'p option \<Rightarrow> 32 word \<Rightarrow> string \<Rightarrow> string \<Rightarrow> 'a \<Rightarrow> ('p, 'a) log_io \<Rightarrow> (int \<times> ('p, 'a) log_io) option"

datatype log_close = LOGGER_DESTROY_FILE | LOGGER_DESTROY_NULL
datatype log_flush = LOGGER_FLUSH_FILE | LOGGER_FLUSH_NULL

record ('p, 'a) Logger =
  lg_priv :: "'p option"
  lg_max_level :: "32 word"
  lg_trace :: "('p, 'a) log_handler"
  lg_close :: log_close
  lg_flush :: log_flush

definition CLAMP :: "32 word \<Rightarrow> 32 word \<Rightarrow> 32 word \<Rightarrow> 32 word" where
  "CLAMP x a b = min (max a x) b"

definition PANIC_BUF_SIZE :: nat where "PANIC_BUF_SIZE = 256"
definition LOG_BUF_SIZE :: nat where "LOG_BUF_SIZE = 1024"
definition LOG_TEMPLATE_LEN :: nat where "LOG_TEMPLATE_LEN = 32"

definition COL :: "string \<Rightarrow> string" where
  "COL x = CHR 0x1B # ''['' @ x @ '';1m''"

definition COL_GRAY :: string where
  "COL_GRAY = CHR 0x1B # ''[0m''"

definition NL :: string where "NL = [CHR 0x0A]"

definition logger_templates :: "string list" where
  "logger_templates =
     [COL ''31'' @ ''CRI [%s]: %s'' @ COL_GRAY @ NL,
      COL ''31'' @ ''ERR [%s]'' @ COL_GRAY @ '': %s'' @ NL,
      COL ''33'' @ ''WRN [%s]'' @ COL_GRAY @ '': %s'' @ NL,
      COL ''32'' @ ''INF [%s]'' @ COL_GRAY @ '': %s'' @ NL,
      COL ''34'' @ ''DBG [%s]'' @ COL_GRAY @ '': %s'' @ NL,
      ''%s%s'',
      ''%s%s'']"

definition logger_template :: "32 word \<Rightarrow> string option" where
  "logger_template level =
     (if unat level < length logger_templates then Some (logger_templates ! unat level) else None)"

definition vfprintf :: "'p option \<Rightarrow> string \<Rightarrow> 'a \<Rightarrow> ('p, 'a) log_io \<Rightarrow> ('p, 'a) log_io option" where
  "vfprintf f fmt ap io = (case f of None \<Rightarrow> None
     | Some p \<Rightarrow> Some (io\<lparr>io_files := (io_files io)(p := io_files io p @ [(fmt, ap)])\<rparr>))"

definition logger_panic :: "string \<Rightarrow> ('p, 'a) log_io \<Rightarrow> int \<times> ('p, 'a) log_io" where
  "logger_panic fmt io =
     (0, io\<lparr>io_stderr := io_stderr io @
              [snprintf PANIC_BUF_SIZE (sprintf_s (''[CRI] %s'' @ NL) [fmt])]\<rparr>)"

definition panic_no_memory :: string where
  "panic_no_memory = ''can't get memory in logger_trace(), the output will be truncated.''"

definition logger_trace_console :: "('p, 'a) log_handler" where
  "logger_trace_console user_data level tag fmt ap io =
     (let tag = (if level \<noteq> level_code LOG_MARK then tag else '''') in
      case logger_template level of
        None \<Rightarrow> None
      | Some tmpl \<Rightarrow>
         (let n = LOG_TEMPLATE_LEN + length tag + length fmt + 1;
              deliver = (\<lambda>n io. vfprintf user_data (snprintf n (sprintf_s tmpl [tag, fmt])) ap io)
          in if LOG_BUF_SIZE < n then
               (let (msg, m) = memory_create (io_mem io); io = io\<lparr>io_mem := m\<rparr> in
                case msg of
                  Some _ \<Rightarrow>
                    map_option (\<lambda>io. (0, io\<lparr>io_mem := memory_destroy msg (io_mem io)\<rparr>)) (deliver n io)
                | None \<Rightarrow>
                    map_option (Pair 1)
                      (deliver (LOG_BUF_SIZE - 1) (snd (logger_panic panic_no_memory io))))
             else map_option (Pair 0) (deliver (LOG_BUF_SIZE - 1) io)))"

definition logger_trace_file :: "('p, 'a) log_handler" where
  "logger_trace_file user_data level tag fmt ap io =
     logger_trace_console user_data (level_code LOG_MARK) tag fmt ap io"

definition logger_trace_null :: "('p, 'a) log_handler" where
  "logger_trace_null user_data level tag fmt ap io = Some (0, io)"

definition logger_flush_file :: "('p, 'a) Logger \<Rightarrow> int" where
  "logger_flush_file logger = 0"

definition logger_destroy_file :: "('p, 'a) Logger \<Rightarrow> int" where
  "logger_destroy_file logger = logger_flush_file logger"

definition logger_destroy_null :: "('p, 'a) Logger \<Rightarrow> int" where
  "logger_destroy_null logger = 0"

definition logger_flush_null :: "('p, 'a) Logger \<Rightarrow> int" where
  "logger_flush_null logger = 0"

section \<open>Making loggers\<close>

definition logger_no_memory :: "('p, 'a) log_io \<Rightarrow> ('p, 'a) log_io" where
  "logger_no_memory io = snd (logger_panic ''memory_create: %s'' io)"

definition logger_new_fp ::
    "32 word \<Rightarrow> 'p \<Rightarrow> bool \<Rightarrow> ('p, 'a) log_io \<Rightarrow> ('p, 'a) Logger option \<times> ('p, 'a) log_io" where
  "logger_new_fp max_level sink colored io =
     (let lev = CLAMP max_level (level_code LOG_ERROR) (level_code LOG_MARK);
          (p, m) = memory_create (io_mem io); io = io\<lparr>io_mem := m\<rparr> in
      case p of
        None \<Rightarrow> (None, logger_no_memory io)
      | Some _ \<Rightarrow>
          (Some \<lparr>lg_priv = Some sink, lg_max_level = lev,
                 lg_trace = (if colored then logger_trace_console else logger_trace_file),
                 lg_close = LOGGER_DESTROY_FILE, lg_flush = LOGGER_FLUSH_FILE\<rparr>, io))"

definition logger_new_file ::
    "32 word \<Rightarrow> 'p \<Rightarrow> ('p, 'a) log_io \<Rightarrow> ('p, 'a) Logger option \<times> ('p, 'a) log_io" where
  "logger_new_file max_level sink io = logger_new_fp max_level sink False io"

definition logger_new_console ::
    "32 word \<Rightarrow> 'p \<Rightarrow> ('p, 'a) log_io \<Rightarrow> ('p, 'a) Logger option \<times> ('p, 'a) log_io" where
  "logger_new_console max_level sink io = logger_new_fp max_level sink True io"

definition logger_make ::
    "32 word \<Rightarrow> ('p, 'a) log_handler \<Rightarrow> 'p option \<Rightarrow> ('p, 'a) log_io
      \<Rightarrow> ('p, 'a) Logger option \<times> ('p, 'a) log_io" where
  "logger_make lev handler user_data io =
     (let (p, m) = memory_create (io_mem io); io = io\<lparr>io_mem := m\<rparr> in
      case p of
        None \<Rightarrow> (None, logger_no_memory io)
      | Some _ \<Rightarrow>
          (Some \<lparr>lg_priv = user_data, lg_max_level = lev, lg_trace = handler,
                 lg_close = LOGGER_DESTROY_NULL, lg_flush = LOGGER_FLUSH_NULL\<rparr>, io))"

definition logger_new_custom ::
    "32 word \<Rightarrow> ('p, 'a) log_handler \<Rightarrow> 'p option \<Rightarrow> ('p, 'a) log_io
      \<Rightarrow> ('p, 'a) Logger option \<times> ('p, 'a) log_io" where
  "logger_new_custom max_level handler user_data io =
     logger_make (CLAMP max_level (level_code LOG_ERROR) (level_code LOG_MARK)) handler user_data io"

definition logger_new_null :: "('p, 'a) log_io \<Rightarrow> ('p, 'a) Logger option \<times> ('p, 'a) log_io" where
  "logger_new_null io = logger_make (- 1) logger_trace_null None io"

section \<open>Using a logger\<close>

definition logger_trace_va ::
    "('p, 'a) Logger \<Rightarrow> 32 word \<Rightarrow> string \<Rightarrow> string \<Rightarrow> 'a \<Rightarrow> ('p, 'a) log_io
      \<Rightarrow> (int \<times> ('p, 'a) log_io) option" where
  "logger_trace_va logger level tag fmt args io =
     (let level = CLAMP level (level_code LOG_ERROR) (level_code LOG_MARK) in
      if level \<le> lg_max_level logger then lg_trace logger (lg_priv logger) level tag fmt args io
      else Some (0, io))"

definition logger_trace ::
    "('p, 'a) Logger \<Rightarrow> 32 word \<Rightarrow> string \<Rightarrow> string \<Rightarrow> 'a \<Rightarrow> ('p, 'a) log_io
      \<Rightarrow> (int \<times> ('p, 'a) log_io) option" where
  "logger_trace logger level tag fmt args io = logger_trace_va logger level tag fmt args io"

definition logger_flush :: "('p, 'a) Logger \<Rightarrow> int" where
  "logger_flush logger = (case lg_flush logger of
     LOGGER_FLUSH_FILE \<Rightarrow> logger_flush_file logger | LOGGER_FLUSH_NULL \<Rightarrow> logger_flush_null logger)"

definition logger_destroy :: "('p, 'a) Logger \<Rightarrow> ('p, 'a) log_io \<Rightarrow> ('p, 'a) log_io" where
  "logger_destroy logger io =
     (let err = (case lg_close logger of
           LOGGER_DESTROY_FILE \<Rightarrow> logger_destroy_file logger
         | LOGGER_DESTROY_NULL \<Rightarrow> logger_destroy_null logger)
      in if err = 0 then io\<lparr>io_mem := memory_destroy (Some logger) (io_mem io)\<rparr> else io)"

section \<open>What is printed\<close>

definition level_tag :: "32 word \<Rightarrow> string \<times> string" where
  "level_tag level =
     (if level = level_code LOG_ERROR then (''31'', ''ERR'')
      else if level = level_code LOG_WARNING then (''33'', ''WRN'')
      else if level = level_code LOG_INFO then (''32'', ''INF'')
      else (''34'', ''DBG''))"

definition log_text :: "32 word \<Rightarrow> string \<Rightarrow> string \<Rightarrow> string" where
  "log_text level tag fmt =
     (if level = level_code LOG_MARK then fmt
      else COL (fst (level_tag level)) @ snd (level_tag level) @ '' ['' @ tag @ '']'' @ COL_GRAY @
           '': '' @ fmt @ NL)"

definition clamp_level :: "32 word \<Rightarrow> 32 word" where
  "clamp_level level = CLAMP level (level_code LOG_ERROR) (level_code LOG_MARK)"

lemma clamp_level_cases:
  "clamp_level l = 1 \<or> clamp_level l = 2 \<or> clamp_level l = 3 \<or> clamp_level l = 4 \<or> clamp_level l = 5"
proof -
  have "clamp_level l \<le> 5" "1 \<le> clamp_level l"
    by (simp_all add: clamp_level_def CLAMP_def min_def max_def)
  then have "unat (clamp_level l) \<le> 5" "1 \<le> unat (clamp_level l)"
    by (simp_all add: word_le_nat_alt)
  then have "unat (clamp_level l) = 1 \<or> unat (clamp_level l) = 2 \<or> unat (clamp_level l) = 3 \<or>
      unat (clamp_level l) = 4 \<or> unat (clamp_level l) = 5" by linarith
  then show ?thesis
    by (elim disjE) (simp_all add: word_unat_eq_iff)
qed

lemma clamp_critical: "clamp_level (level_code LOG_CRITICAL) = level_code LOG_ERROR"
  by (simp add: clamp_level_def CLAMP_def)

lemma clamp_level_code: "LOG_ERROR \<le> l \<Longrightarrow> l \<le> LOG_MARK \<Longrightarrow> clamp_level (level_code l) = level_code l"
  by (cases l) (simp_all add: clamp_level_def CLAMP_def less_eq_LogLevel_def)

lemma template_text:
  "\<exists>tmpl. logger_template (clamp_level l) = Some tmpl \<and>
     sprintf_s tmpl [if clamp_level l \<noteq> level_code LOG_MARK then tag else '''', fmt] =
       log_text (clamp_level l) tag fmt"
  using clamp_level_cases[of l]
  by (elim disjE)
    (simp_all add: logger_template_def logger_templates_def log_text_def level_tag_def COL_def
      COL_GRAY_def NL_def)

lemma log_text_length:
  "length (log_text level tag fmt) < LOG_TEMPLATE_LEN +
     length (if level \<noteq> level_code LOG_MARK then tag else '''') + length fmt + 1"
  "length (log_text level tag fmt) \<le> 20 +
     length (if level \<noteq> level_code LOG_MARK then tag else '''') + length fmt"
  by (simp_all add: log_text_def level_tag_def COL_def COL_GRAY_def NL_def LOG_TEMPLATE_LEN_def)

section \<open>Delivery\<close>

text \<open>What one delivery does to the streams: \<open>n\<close> is where the text was cut.\<close>

definition delivered ::
    "'p \<Rightarrow> string \<Rightarrow> 'a \<Rightarrow> nat \<Rightarrow> ('p, 'a) log_io \<Rightarrow> ('p, 'a) log_io \<Rightarrow> bool" where
  "delivered sink txt args n io io' \<longleftrightarrow>
     io_files io' = (io_files io)(sink := io_files io sink @ [(take n txt, args)]) \<and>
     blocks (io_mem io') = blocks (io_mem io)"

lemma trace_console_outcome:
  fixes l tag fmt
  defines "level \<equiv> clamp_level l"
  shows "\<exists>ret io' n. logger_trace_console (Some sink) level tag fmt args io = Some (ret, io') \<and>
    delivered sink (log_text level tag fmt) args n io io' \<and>
    (ret = 0 \<and> take n (log_text level tag fmt) = log_text level tag fmt \<and> io_stderr io' = io_stderr io \<or>
     ret = 1 \<and> n = LOG_BUF_SIZE - 2 \<and> LOG_BUF_SIZE \<le> LOG_TEMPLATE_LEN + length tag + length fmt \<and>
     answers (io_mem io) \<noteq> [] \<and>
     (\<exists>msg. io_stderr io' = io_stderr io @ [msg]))"
proof -
  obtain tg where tg: "(if level \<noteq> level_code LOG_MARK then tag else '''') = tg" by blast
  let ?txt = "log_text level tag fmt"
  let ?n = "LOG_TEMPLATE_LEN + length tg + length fmt + 1"
  obtain tmpl where t: "logger_template level = Some tmpl" "sprintf_s tmpl [tg, fmt] = ?txt"
    using template_text[of l tag fmt] unfolding level_def[symmetric] tg by blast
  note len = log_text_length[of level tag fmt, unfolded tg]
  obtain p m where p: "memory_create (io_mem io) = (p, m)" by fastforce
  note run = logger_trace_console_def[of "Some sink" level tag fmt args io,
      unfolded Let_def tg t(1) option.case t(2) p prod.case]
  have "length tg \<le> length tag" using tg by auto
  then have short: "LOG_BUF_SIZE < ?n \<Longrightarrow> LOG_BUF_SIZE \<le> LOG_TEMPLATE_LEN + length tag + length fmt"
    by linarith
  show ?thesis
  proof (cases "LOG_BUF_SIZE < ?n")
    case True
    show ?thesis
    proof (cases p)
      case None
      then have "answers (io_mem io) \<noteq> []" using p by auto
      with True None p short[OF True] show ?thesis unfolding run
        by (auto simp: delivered_def vfprintf_def snprintf_def logger_panic_def mem_simps
            numeral_2_eq_2 intro!: exI[of _ "LOG_BUF_SIZE - 2"])
    next
      case (Some a)
      with True p len show ?thesis unfolding run
        by (auto simp: delivered_def vfprintf_def snprintf_def mem_simps intro!: exI[of _ "?n"])
    qed
  next
    case False
    then have "length ?txt < LOG_BUF_SIZE - 1" using len by (simp add: LOG_BUF_SIZE_def LOG_TEMPLATE_LEN_def)
    with False show ?thesis unfolding run
      by (auto simp: delivered_def vfprintf_def snprintf_fits intro!: exI[of _ "length ?txt"])
  qed
qed

definition sink_text :: "bool \<Rightarrow> 32 word \<Rightarrow> string \<Rightarrow> string \<Rightarrow> string" where
  "sink_text colored level tag fmt = (if colored then log_text (clamp_level level) tag fmt else fmt)"

lemma new_fp_fields:
  "logger_new_fp lvl sink colored io = (Some lg, io') \<Longrightarrow>
     lg_priv lg = Some sink \<and> lg_max_level lg = clamp_level lvl \<and>
     lg_trace lg = (if colored then logger_trace_console else logger_trace_file)"
  by (auto simp: logger_new_fp_def clamp_level_def Let_def split: prod.splits option.splits)

lemma new_owned:
  "logger_new_fp lvl sink colored io = (r, io1) \<Longrightarrow>
     blocks (io_mem io1) = blocks (io_mem io) + (if r = None then 0 else 1)"
  "logger_make lev h u io = (r, io1) \<Longrightarrow>
     blocks (io_mem io1) = blocks (io_mem io) + (if r = None then 0 else 1)"
  by (auto simp: logger_new_fp_def logger_make_def logger_no_memory_def logger_panic_def Let_def
      mem_simps split: prod.splits option.splits)

lemma logger_destroy_owned:
  "blocks (io_mem (logger_destroy lg io)) = blocks (io_mem io) - 1"
  by (simp add: logger_destroy_def logger_destroy_file_def logger_flush_file_def
      logger_destroy_null_def split: log_close.splits)

text \<open>
  C32: A console or file logger delivers a message to its stream exactly when its level,
  clamped to the range from error to mark, is at most the logger's.  The console prefixes color, level
  and tag, the file gets the bare text.  The text is delivered whole, whatever its length; only when
  it needs a heap buffer and that allocation fails, it is cut after 1022 bytes and the call
  returns 1.  No message leaks memory, and a message above the level changes nothing.
\<close>

theorem logger_delivery:
  assumes "logger_new_fp lvl sink colored io = (Some lg, io1)"
  shows "\<exists>ret io3. logger_trace lg level tag fmt args io2 = Some (ret, io3) \<and>
    (if clamp_level level \<le> clamp_level lvl then
       \<exists>n. delivered sink (sink_text colored level tag fmt) args n io2 io3 \<and>
         (ret = 0 \<and> take n (sink_text colored level tag fmt) = sink_text colored level tag fmt \<and>
          io_stderr io3 = io_stderr io2 \<or>
          ret = 1 \<and> n = 1022 \<and> 992 \<le> length tag + length fmt \<and> answers (io_mem io2) \<noteq> [])
     else ret = 0 \<and> io3 = io2)"
proof (cases "clamp_level level \<le> clamp_level lvl")
  case True
  let ?l = "if colored then level else level_code LOG_MARK"
  have mark: "clamp_level (level_code LOG_MARK) = level_code LOG_MARK"
    by (simp add: clamp_level_def CLAMP_def)
  have run: "logger_trace lg level tag fmt args io2 =
      logger_trace_console (Some sink) (clamp_level ?l) tag fmt args io2"
    using True new_fp_fields[OF assms] mark
    by (simp add: logger_trace_def logger_trace_va_def clamp_level_def logger_trace_file_def)
  have st: "sink_text colored level tag fmt = log_text (clamp_level ?l) tag fmt"
    using mark by (simp add: sink_text_def log_text_def)
  show ?thesis using True trace_console_outcome[of sink ?l tag fmt args io2]
    unfolding run st by (auto simp: LOG_BUF_SIZE_def LOG_TEMPLATE_LEN_def)
next
  case False
  with new_fp_fields[OF assms] show ?thesis
    by (simp add: logger_trace_def logger_trace_va_def clamp_level_def)
qed

definition io0 :: "(nat, unit) log_io" where
  "io0 = \<lparr>io_files = (\<lambda>_. []), io_stderr = [], io_mem = mem0\<rparr>"

theorem logger_delivery_witness:
  "\<exists>lg io1 io3. logger_new_fp (level_code LOG_INFO) (1 :: nat) False io0 = (Some lg, io1) \<and>
     logger_trace lg (level_code LOG_WARNING) ''tag'' ''low'' () io1 = Some (0, io3) \<and>
     io_files io3 1 = [(''low'', ())]"
proof -
  obtain lg io1 where n: "logger_new_fp (level_code LOG_INFO) (1 :: nat) False io0 = (Some lg, io1)"
    and f: "io_files io1 = (\<lambda>_. [])"
    by (simp add: logger_new_fp_def io0_def Let_def)
  have "clamp_level (level_code LOG_WARNING) \<le> clamp_level (level_code LOG_INFO)"
    by (simp add: clamp_level_def CLAMP_def)
  with logger_delivery[OF n, of "level_code LOG_WARNING" "''tag''" "''low''" "()" io1] n f
  show ?thesis by (auto simp: delivered_def sink_text_def)
qed

text \<open>
  A custom logger calls its handler, with its own data, exactly for the messages whose
  level is at most the logger's; tag, format and arguments arrive unchanged and so does the level,
  except that a critical message arrives as an error.
\<close>

theorem custom_logger_filter:
  assumes "logger_new_custom (level_code max_level) handler user_data io = (Some lg, io1)"
    and "LOG_ERROR \<le> max_level" "max_level \<le> LOG_MARK" "level \<le> LOG_MARK"
  shows "logger_trace lg (level_code level) tag fmt args io2 =
    (if level \<le> max_level then
       handler user_data (level_code (if level = LOG_CRITICAL then LOG_ERROR else level)) tag fmt args io2
     else Some (0, io2))"
proof -
  have lg: "lg_priv lg = user_data" "lg_trace lg = handler" "lg_max_level lg = level_code max_level"
    using assms(1) clamp_level_code[OF assms(2,3)]
    by (auto simp: logger_new_custom_def logger_make_def clamp_level_def Let_def
        split: prod.splits option.splits)
  have "clamp_level (level_code level) = level_code (if level = LOG_CRITICAL then LOG_ERROR else level)"
    using assms(4) by (cases level) (simp_all add: clamp_level_def CLAMP_def less_eq_LogLevel_def)
  then show ?thesis using lg assms(2)
    by (cases "level = LOG_CRITICAL")
      (auto simp: logger_trace_def logger_trace_va_def clamp_level_def less_eq_LogLevel_def)
qed

theorem custom_logger_filter_witness:
  "\<exists>lg io1. logger_new_custom (level_code LOG_WARNING) (\<lambda>u l t f a io. Some (int (unat l), io)) None io0 =
       (Some lg, io1) \<and>
     logger_trace lg (level_code LOG_CRITICAL) ''t'' ''f'' () io1 = Some (1, io1) \<and>
     logger_trace lg (level_code LOG_INFO) ''t'' ''f'' () io1 = Some (0, io1)"
proof -
  obtain lg io1 where n: "logger_new_custom (level_code LOG_WARNING)
      (\<lambda>u l t f a io. Some (int (unat l), io)) None io0 = (Some lg, io1)"
    by (simp add: logger_new_custom_def logger_make_def io0_def Let_def)
  show ?thesis
    using custom_logger_filter[OF n, of LOG_CRITICAL] custom_logger_filter[OF n, of LOG_INFO] n
    by (simp add: less_eq_LogLevel_def)
qed

text \<open>The null logger: its level is the largest there is, so it calls its handler on every message.\<close>

lemma null_logger_silent:
  "logger_new_null io = (Some lg, io1) \<Longrightarrow> logger_trace lg level tag fmt args io2 = Some (0, io2)"
  by (auto simp: logger_new_null_def logger_make_def logger_trace_def logger_trace_va_def
      logger_trace_null_def Let_def split: prod.splits option.splits)

end
