(* ===== verification/Http_Request_Queue.thy ===== *)
theory Http_Request_Queue
  imports Http_Request
begin

text \<open>
  The request queue (\<open>src/httprequestqueue.c\<close>): it collects the bytes of a connection, runs the
  HTTP parser over every chunk and fills in requests from the parser's callbacks.  The parser
  itself is a git submodule whose code is not in the repository: it is the parameter \<open>lib\<close>, a
  function from its state and a chunk to the callbacks it makes if all of them return 0.  Positions
  are relative to the chunk.  What the source relies on of a particular parser run is a
  hypothesis of the theorems.

  Undefined behaviour is \<open>None\<close>: an index outside the hundred requests, a missing request or buffer,
  and in particular a parser that goes on reading a chunk after \<open>on_headers_complete\<close> freed or
  reallocated the block it lies in.
\<close>

section \<open>The parser\<close>

datatype parser_event =
    Message_begin
  | Url nat nat
  | Header_field nat nat
  | Header_value nat nat
  | Headers_complete HTTPMethod nat bool int
  | Body nat nat
  | Message_complete

text \<open>\<open>Headers_complete method nread keep_alive content_length\<close> carries the fields of the
  parser the callback reads.\<close>

record 'ps parser_lib =
  hp_init :: 'ps
  hp_execute :: "'ps \<Rightarrow> bytes \<Rightarrow> parser_event list \<times> nat \<times> 'ps"
  hp_stopped :: "'ps \<Rightarrow> bytes \<Rightarrow> nat \<Rightarrow> 'ps"
  hp_parse_url :: "bytes \<Rightarrow> (nat \<times> nat) option list option"

section \<open>State\<close>

definition MAX_REQUESTS :: nat where "MAX_REQUESTS = 100"

record ('ps, 'd) HTTPRequestQueue =
  rq_parser :: 'ps
  rq_current_header :: nat
  rq_requests :: "HTTPRequest option list"
  rq_incoming_index :: nat
  rq_outgoing_index :: nat
  rq_buffer :: "bytes option"
  rq_buffer_length :: nat
  rq_data :: "'d option"

text \<open>\<open>rq_data\<close> is the callback's data once a callback is set; what the callback does is the
  argument \<open>call\<close>, over the queue, the rest of the program and the allocator.\<close>

definition current_request :: "('ps, 'd) HTTPRequestQueue \<Rightarrow> HTTPRequest option" where
  "current_request q =
     (if rq_incoming_index q < length (rq_requests q)
      then rq_requests q ! rq_incoming_index q else None)"

definition put_current :: "HTTPRequest \<Rightarrow> ('ps, 'd) HTTPRequestQueue \<Rightarrow> ('ps, 'd) HTTPRequestQueue" where
  "put_current r q = q\<lparr>rq_requests := (rq_requests q)[rq_incoming_index q := Some r]\<rparr>"

definition buffer_range :: "nat \<Rightarrow> nat \<Rightarrow> ('ps, 'd) HTTPRequestQueue \<Rightarrow> bytes option" where
  "buffer_range at len q = read_range (rq_buffer q) \<lparr>mr_offset = at, mr_length = len\<rparr>"

section \<open>Callbacks of the parser\<close>

definition on_message_begin ::
    "('ps, 'd) HTTPRequestQueue \<Rightarrow> mem \<Rightarrow> (int \<times> ('ps, 'd) HTTPRequestQueue \<times> mem) option" where
  "on_message_begin q m =
     (if length (rq_requests q) \<le> rq_incoming_index q then None
      else
        (let (r, m) = http_request_new m;
             q = q\<lparr>rq_requests := (rq_requests q)[rq_incoming_index q := r]\<rparr>
         in Some (if r = None then -1 else 0, q, m)))"

fun url_fields_loop ::
    "nat \<Rightarrow> (HTTPURLField \<times> (nat \<times> nat) option) list \<Rightarrow> HTTPRequest \<Rightarrow> HTTPRequest option" where
  "url_fields_loop at [] r = Some r"
| "url_fields_loop at ((field, None) # fs) r = url_fields_loop at fs r"
| "url_fields_loop at ((field, Some (off, len)) # fs) r =
     Option.bind (http_request_set_url_field_range field (at + off) len r) (url_fields_loop at fs)"

definition url_field_list :: "HTTPURLField list" where
  "url_field_list =
     [HTTP_URL_FIELD_SCHEMA, HTTP_URL_FIELD_HOST, HTTP_URL_FIELD_PORT, HTTP_URL_FIELD_PATH,
      HTTP_URL_FIELD_QUERY, HTTP_URL_FIELD_FRAGMENT, HTTP_URL_FIELD_USERINFO]"

definition on_url ::
    "'ps parser_lib \<Rightarrow> nat \<Rightarrow> nat \<Rightarrow> ('ps, 'd) HTTPRequestQueue
      \<Rightarrow> (int \<times> ('ps, 'd) HTTPRequestQueue) option" where
  "on_url lib at len q = do {
     url_bytes \<leftarrow> buffer_range at len q;
     case hp_parse_url lib url_bytes of
       None \<Rightarrow> Some (-1, q)
     | Some url \<Rightarrow> do {
         request \<leftarrow> current_request q;
         request \<leftarrow> url_fields_loop at (zip url_field_list url)
                      (http_request_set_url_range at len request);
         Some (0, put_current request q)
       }
   }"

definition on_header_field ::
    "nat \<Rightarrow> nat \<Rightarrow> ('ps, 'd) HTTPRequestQueue \<Rightarrow> (int \<times> ('ps, 'd) HTTPRequestQueue) option" where
  "on_header_field at len q =
     (if HTTP_REQUEST_MAX_HEADERS \<le> rq_current_header q then Some (-1, q)
      else do {
        request \<leftarrow> current_request q;
        request \<leftarrow> http_request_set_header_key_range (rq_current_header q) at len request;
        Some (0, put_current request q)
      })"

definition on_header_value ::
    "nat \<Rightarrow> nat \<Rightarrow> ('ps, 'd) HTTPRequestQueue \<Rightarrow> (int \<times> ('ps, 'd) HTTPRequestQueue) option" where
  "on_header_value at len q = do {
     request \<leftarrow> current_request q;
     request \<leftarrow> http_request_set_header_value_range (rq_current_header q) at len request;
     Some (0, (put_current request q)\<lparr>rq_current_header := Suc (rq_current_header q)\<rparr>)
   }"

definition shift_buffer ::
    "nat \<Rightarrow> ('ps, 'd) HTTPRequestQueue \<Rightarrow> mem \<Rightarrow> int \<times> ('ps, 'd) HTTPRequestQueue \<times> mem" where
  "shift_buffer nread q m =
     (let q = q\<lparr>rq_buffer_length := rq_buffer_length q - nread\<rparr>; n = rq_buffer_length q in
      if n = 0 then (0, q\<lparr>rq_buffer := None\<rparr>, memory_destroy (rq_buffer q) m)
      else
        (let moved = map_option (\<lambda>b. take n (drop nread b) @ drop n b) (rq_buffer q);
             (b, m) = memory_resize moved n m
         in (if b = None then -1 else 0, q\<lparr>rq_buffer := b\<rparr>, m)))"

definition on_headers_complete ::
    "HTTPMethod \<Rightarrow> nat \<Rightarrow> bool \<Rightarrow> int \<Rightarrow> ('ps, 'd) HTTPRequestQueue \<Rightarrow> mem
      \<Rightarrow> (int \<times> ('ps, 'd) HTTPRequestQueue \<times> mem) option" where
  "on_headers_complete method nread keep_alive content_length q m = do {
     request \<leftarrow> current_request q;
     let request = http_request_set_method method request;
     let request = http_request_set_last (if keep_alive then 0 else 1) request;
     buffer \<leftarrow> rq_buffer q;
     (ret, request, m) \<leftarrow> http_request_set_headers_buffer buffer nread request m;
     let q = put_current request q;
     if ret < 0 then Some (-1, q, m)
     else (let (ret, q, m) = shift_buffer nread q m in
       if ret < 0 then Some (-1, q, m)
       else if 0 < content_length then do {
         (ret, request, m) \<leftarrow> http_request_set_body_length (nat content_length) request m;
         Some (if ret < 0 then -1 else 0, put_current request q, m)
       }
       else Some (0, q, m))
   }"

definition on_body ::
    "nat \<Rightarrow> nat \<Rightarrow> ('ps, 'd) HTTPRequestQueue \<Rightarrow> (int \<times> ('ps, 'd) HTTPRequestQueue) option" where
  "on_body at len q = do {
     request \<leftarrow> current_request q;
     data \<leftarrow> buffer_range at len q;
     request \<leftarrow> http_request_append_body_data data request;
     Some (0, put_current request q)
   }"

definition on_message_complete ::
    "('d \<Rightarrow> ('ps, 'd) HTTPRequestQueue \<Rightarrow> 'w \<Rightarrow> mem \<Rightarrow> (('ps, 'd) HTTPRequestQueue \<times> 'w \<times> mem) option)
      \<Rightarrow> ('ps, 'd) HTTPRequestQueue \<Rightarrow> 'w \<Rightarrow> mem \<Rightarrow> (int \<times> ('ps, 'd) HTTPRequestQueue \<times> 'w \<times> mem) option" where
  "on_message_complete call q w m = do {
     let q = q\<lparr>rq_incoming_index := Suc (rq_incoming_index q), rq_current_header := 0\<rparr>;
     q \<leftarrow> (if rq_incoming_index q = MAX_REQUESTS then do {
             request \<leftarrow> rq_requests q ! (rq_incoming_index q - 1);
             Some (q\<lparr>rq_requests := (rq_requests q)[rq_incoming_index q - 1 :=
                       Some (http_request_set_last 1 request)]\<rparr>)
           } else Some q);
     case rq_data q of
       None \<Rightarrow> Some (0, q, w, m)
     | Some d \<Rightarrow> map_option (Pair 0) (call d q w m)
   }"

section \<open>Operations\<close>

text \<open>\<open>base\<close> is the offset of the chunk in the buffer.\<close>

fun parser_callback ::
    "'ps parser_lib
      \<Rightarrow> ('d \<Rightarrow> ('ps, 'd) HTTPRequestQueue \<Rightarrow> 'w \<Rightarrow> mem \<Rightarrow> (('ps, 'd) HTTPRequestQueue \<times> 'w \<times> mem) option)
      \<Rightarrow> nat \<Rightarrow> parser_event \<Rightarrow> ('ps, 'd) HTTPRequestQueue \<Rightarrow> 'w \<Rightarrow> mem
      \<Rightarrow> (int \<times> ('ps, 'd) HTTPRequestQueue \<times> 'w \<times> mem) option" where
  "parser_callback lib call base Message_begin q w m =
     map_option (\<lambda>(ret, q, m). (ret, q, w, m)) (on_message_begin q m)"
| "parser_callback lib call base (Url off len) q w m =
     map_option (\<lambda>(ret, q). (ret, q, w, m)) (on_url lib (base + off) len q)"
| "parser_callback lib call base (Header_field off len) q w m =
     map_option (\<lambda>(ret, q). (ret, q, w, m)) (on_header_field (base + off) len q)"
| "parser_callback lib call base (Header_value off len) q w m =
     map_option (\<lambda>(ret, q). (ret, q, w, m)) (on_header_value (base + off) len q)"
| "parser_callback lib call base (Headers_complete meth nread keep_alive content_length) q w m =
     map_option (\<lambda>(ret, q, m). (ret, q, w, m))
       (on_headers_complete meth nread keep_alive content_length q m)"
| "parser_callback lib call base (Body off len) q w m =
     map_option (\<lambda>(ret, q). (ret, q, w, m)) (on_body (base + off) len q)"
| "parser_callback lib call base Message_complete q w m = on_message_complete call q w m"

text \<open>
  The parser reads the chunk through the pointer it was given, so the block has to stay as it was: \<open>chunk\<close> is the content
  of the buffer when the parser was called, and \<open>base\<close> the offset it reads from.  For every callback but the one at the end
  of a message the parser reads on first.  And when a callback leaves the queue another buffer than the one the parser
  reads - of which the last \<open>length b\<close> bytes are left - the parser must not read beyond what is gone; in the end it will
  have consumed \<open>parsed\<close> bytes of the chunk.
\<close>

definition reads_chunk :: "parser_event \<Rightarrow> bool" where
  "reads_chunk e \<longleftrightarrow> e \<noteq> Message_complete"

definition reads_past :: "nat \<Rightarrow> bytes \<Rightarrow> nat \<Rightarrow> parser_event \<Rightarrow> ('ps, 'd) HTTPRequestQueue \<Rightarrow> bool" where
  "reads_past base chunk parsed e q \<longleftrightarrow> reads_chunk e \<and> rq_buffer q \<noteq> Some chunk \<and>
     length chunk - (case rq_buffer q of None \<Rightarrow> 0 | Some b \<Rightarrow> length b) < base + parsed"

text \<open>The callbacks of one parser run; the result is \<open>None\<close> in the first component when all
  returned 0, and otherwise the number of callbacks left when one of them stopped the parser.\<close>

fun parser_callbacks ::
    "'ps parser_lib
      \<Rightarrow> ('d \<Rightarrow> ('ps, 'd) HTTPRequestQueue \<Rightarrow> 'w \<Rightarrow> mem \<Rightarrow> (('ps, 'd) HTTPRequestQueue \<times> 'w \<times> mem) option)
      \<Rightarrow> nat \<Rightarrow> bytes \<Rightarrow> nat \<Rightarrow> parser_event list \<Rightarrow> ('ps, 'd) HTTPRequestQueue \<Rightarrow> 'w \<Rightarrow> mem
      \<Rightarrow> (nat option \<times> ('ps, 'd) HTTPRequestQueue \<times> 'w \<times> mem) option" where
  "parser_callbacks lib call base chunk parsed [] q w m = Some (None, q, w, m)"
| "parser_callbacks lib call base chunk parsed (e # es) q w m =
     (if reads_chunk e \<and> rq_buffer q \<noteq> Some chunk then None
      else Option.bind (parser_callback lib call base e q w m) (\<lambda>(ret, q, w, m).
        if ret \<noteq> 0 then Some (Some (length es), q, w, m)
        else if reads_past base chunk parsed e q then None
        else parser_callbacks lib call base chunk parsed es q w m))"

definition http_request_queue_new ::
    "'ps parser_lib \<Rightarrow> mem \<Rightarrow> ('ps, 'd) HTTPRequestQueue option \<times> mem" where
  "http_request_queue_new lib m =
     (let (p, m) = memory_create m in
      case p of
        None \<Rightarrow> (None, m)
      | Some _ \<Rightarrow>
          (Some \<lparr>rq_parser = hp_init lib, rq_current_header = 0,
                 rq_requests = replicate MAX_REQUESTS None, rq_incoming_index = 0,
                 rq_outgoing_index = 0, rq_buffer = None, rq_buffer_length = 0, rq_data = None\<rparr>, m))"

definition http_request_queue_destroy :: "('ps, 'd) HTTPRequestQueue \<Rightarrow> mem \<Rightarrow> mem" where
  "http_request_queue_destroy q m =
     memory_destroy (Some q)
       (if rq_buffer q \<noteq> None then memory_destroy (rq_buffer q) m else m)"

definition http_request_queue_set_new_request_callback ::
    "'d \<Rightarrow> ('ps, 'd) HTTPRequestQueue \<Rightarrow> ('ps, 'd) HTTPRequestQueue" where
  "http_request_queue_set_new_request_callback data q = q\<lparr>rq_data := Some data\<rparr>"

definition http_request_queue_append_data ::
    "'ps parser_lib
      \<Rightarrow> ('d \<Rightarrow> ('ps, 'd) HTTPRequestQueue \<Rightarrow> 'w \<Rightarrow> mem \<Rightarrow> (('ps, 'd) HTTPRequestQueue \<times> 'w \<times> mem) option)
      \<Rightarrow> bytes \<Rightarrow> ('ps, 'd) HTTPRequestQueue \<Rightarrow> 'w \<Rightarrow> mem
      \<Rightarrow> (int \<times> ('ps, 'd) HTTPRequestQueue \<times> 'w \<times> mem) option" where
  "http_request_queue_append_data lib call data q w m =
     (if data = [] then None
      else
        (let n = rq_buffer_length q;
             (b, m) = memory_resize (rq_buffer q) (n + length data) m in
         case b of
           None \<Rightarrow> Some (-1, q\<lparr>rq_buffer := None\<rparr>, w, m)
         | Some nb \<Rightarrow>
            (let chunk = take n nb @ data;
                 q = q\<lparr>rq_buffer := Some chunk, rq_buffer_length := n + length data\<rparr>;
                 (events, parsed, ps) = hp_execute lib (rq_parser q) data in
             Option.bind (parser_callbacks lib call n chunk parsed events q w m) (\<lambda>(stop, q, w, m).
               case stop of
                 Some k \<Rightarrow> Some (-1, q\<lparr>rq_parser := hp_stopped lib (rq_parser q) data k\<rparr>, w, m)
               | None \<Rightarrow>
                   Some (if parsed \<noteq> length data then -1 else 0, q\<lparr>rq_parser := ps\<rparr>, w, m)))))"

definition http_request_queue_get_next_request ::
    "('ps, 'd) HTTPRequestQueue \<Rightarrow> (HTTPRequest option \<times> ('ps, 'd) HTTPRequestQueue) option" where
  "http_request_queue_get_next_request q =
     (if rq_outgoing_index q < length (rq_requests q) then
        Some (rq_requests q ! rq_outgoing_index q,
              q\<lparr>rq_outgoing_index := Suc (rq_outgoing_index q)\<rparr>)
      else None)"

section \<open>Invariant\<close>

definition queue_wf :: "('ps, 'd) HTTPRequestQueue \<Rightarrow> bool" where
  "queue_wf q \<longleftrightarrow> length (rq_requests q) = MAX_REQUESTS \<and>
     (\<forall>b. rq_buffer q = Some b \<longrightarrow> length b = rq_buffer_length q)"

lemma request_zero_lengths [simp]:
  "length (req_headers_ranges http_request_zero) = 100"
  "length (req_url_field_ranges http_request_zero) = 7"
  "req_current_header http_request_zero = 0"
  by (simp_all add: http_request_zero_def HTTP_REQUEST_MAX_HEADERS_def)

lemma put_current_current [simp]:
  "rq_incoming_index q < length (rq_requests q) \<Longrightarrow> current_request (put_current r q) = Some r"
  by (simp add: current_request_def put_current_def)

lemma put_current_twice [simp]: "put_current r (put_current r' q) = put_current r q"
  by (simp add: put_current_def)

lemma put_current_fields [simp]:
  "rq_incoming_index (put_current r q) = rq_incoming_index q"
  "rq_current_header (put_current r q) = rq_current_header q"
  "length (rq_requests (put_current r q)) = length (rq_requests q)"
  "rq_buffer (put_current r q) = rq_buffer q"
  "rq_buffer_length (put_current r q) = rq_buffer_length q"
  "rq_data (put_current r q) = rq_data q"
  "rq_parser (put_current r q) = rq_parser q"
  "buffer_range at len (put_current r q) = buffer_range at len q"
  by (simp_all add: put_current_def buffer_range_def)

section \<open>URL and headers\<close>

text \<open>The fields the parser found are stored at their place, shifted by the offset of the URL.\<close>

lemma url_fields_loop_result:
  assumes "length (req_url_field_ranges r) = 7" "\<forall>(f, x) \<in> set fs. field_index f < 7"
    and "distinct (map (field_index \<circ> fst) fs)"
  shows "\<exists>rs. url_fields_loop at fs r = Some (r\<lparr>req_url_field_ranges := rs\<rparr>) \<and> length rs = 7 \<and>
    (\<forall>(f, x) \<in> set fs. rs ! field_index f = (case x of
        None \<Rightarrow> req_url_field_ranges r ! field_index f
      | Some (off, len) \<Rightarrow> \<lparr>mr_offset = at + off, mr_length = len\<rparr>)) \<and>
    (\<forall>i < 7. i \<notin> set (map (field_index \<circ> fst) fs) \<longrightarrow> rs ! i = req_url_field_ranges r ! i)"
  using assms
proof (induction at fs r rule: url_fields_loop.induct)
  case (1 at r)
  then show ?case by (auto intro!: exI[of _ "req_url_field_ranges r"])
next
  case (2 at field fs r)
  then show ?case by (auto simp: case_prod_unfold)
next
  case (3 at field off len fs r)
  let ?x = "\<lparr>mr_offset = at + off, mr_length = len\<rparr>"
  let ?rs = "(req_url_field_ranges r)[field_index field := ?x]"
  have set1: "http_request_set_url_field_range field (at + off) len r = Some (r\<lparr>req_url_field_ranges := ?rs\<rparr>)"
    using 3 by (simp add: http_request_set_url_field_range_def)
  let ?r = "r\<lparr>req_url_field_ranges := ?rs\<rparr>"
  have p: "length (req_url_field_ranges ?r) = 7" "\<forall>(f, x) \<in> set fs. field_index f < 7"
    "distinct (map (field_index \<circ> fst) fs)" using "3.prems" by (auto simp: comp_def)
  obtain rs where rs: "url_fields_loop at fs ?r = Some (?r\<lparr>req_url_field_ranges := rs\<rparr>)"
    "length rs = 7"
    "\<forall>(f, x) \<in> set fs. rs ! field_index f = (case x of None \<Rightarrow> req_url_field_ranges ?r ! field_index f
      | Some (off, len) \<Rightarrow> \<lparr>mr_offset = at + off, mr_length = len\<rparr>)"
    "\<forall>i < 7. i \<notin> set (map (field_index \<circ> fst) fs) \<longrightarrow> rs ! i = req_url_field_ranges ?r ! i"
    using "3.IH"[OF set1 p] by blast
  have "\<forall>(f, x) \<in> set fs. ?rs ! field_index f = req_url_field_ranges r ! field_index f"
    using 3 by (force simp: nth_list_update)
  moreover have "rs ! field_index field = ?x" using rs(4) 3 by auto
  moreover have "\<forall>i < 7. i \<noteq> field_index field \<longrightarrow> ?rs ! i = req_url_field_ranges r ! i" by auto
  ultimately show ?case using rs set1
    by (intro exI[of _ rs] conjI) (fastforce split: option.splits)+
qed

definition header_events :: "HeaderMemoryRange \<Rightarrow> parser_event list" where
  "header_events h =
     [Header_field (mr_offset (hr_key h)) (mr_length (hr_key h)),
      Header_value (mr_offset (hr_value h)) (mr_length (hr_value h))]"

definition shift_range :: "nat \<Rightarrow> MemoryRange \<Rightarrow> MemoryRange" where
  "shift_range base r = \<lparr>mr_offset = base + mr_offset r, mr_length = mr_length r\<rparr>"

definition shift_header :: "nat \<Rightarrow> HeaderMemoryRange \<Rightarrow> HeaderMemoryRange" where
  "shift_header base h = \<lparr>hr_key = shift_range base (hr_key h), hr_value = shift_range base (hr_value h)\<rparr>"

lemma shift_header_0 [simp]: "shift_header 0 h = h"
  by (simp add: shift_header_def shift_range_def)

definition with_headers :: "nat \<Rightarrow> HeaderMemoryRange list \<Rightarrow> HTTPRequest \<Rightarrow> HTTPRequest" where
  "with_headers k hs r =
     r\<lparr>req_headers_ranges := take k (req_headers_ranges r) @ hs @ drop (k + length hs) (req_headers_ranges r),
       req_current_header := req_current_header r + length hs\<rparr>"

lemma header_both_set:
  "(h :: HeaderMemoryRange)\<lparr>hr_key := a, hr_value := b\<rparr> = \<lparr>hr_key = a, hr_value = b\<rparr>"
  by (cases h) simp

lemma one_header:
  assumes "current_request q = Some r" "rq_current_header q = k" "k < length (req_headers_ranges r)"
    and "length (req_headers_ranges r) = HTTP_REQUEST_MAX_HEADERS" "rq_buffer q = Some chunk"
  shows "parser_callbacks lib call base chunk parsed (header_events h @ es) q w m =
    parser_callbacks lib call base chunk parsed es
      ((put_current (with_headers k [shift_header base h] r) q)\<lparr>rq_current_header := Suc k\<rparr>) w m"
proof -
  have idx: "rq_incoming_index q < length (rq_requests q)"
    using assms(1) by (simp add: current_request_def split: if_splits)
  have "(req_headers_ranges r)[k := shift_header base h] =
      take k (req_headers_ranges r) @ [shift_header base h] @ drop (Suc k) (req_headers_ranges r)"
    using assms(3) by (simp add: upd_conv_take_nth_drop)
  then show ?thesis using assms idx
    by (simp add: header_events_def on_header_field_def on_header_value_def reads_past_def
        http_request_set_header_key_range_def http_request_set_header_value_range_def
        with_headers_def shift_header_def shift_range_def header_both_set)
qed

lemma with_headers_Cons:
  assumes "k + length hs < length (req_headers_ranges r)"
  shows "with_headers (Suc k) hs (with_headers k [h] r) = with_headers k (h # hs) r"
  using assms by (simp add: with_headers_def drop_Cons' min_def ac_simps)

lemma with_headers_length:
  "k + length hs \<le> length (req_headers_ranges r) \<Longrightarrow>
     length (req_headers_ranges (with_headers k hs r)) = length (req_headers_ranges r)"
  by (simp add: with_headers_def)

text \<open>All headers of a request: they are stored in order, or the parser is stopped at the first
  one that does not fit; no callback writes outside the table.\<close>

lemma header_callbacks:
  assumes "current_request q = Some r" "length (req_headers_ranges r) = HTTP_REQUEST_MAX_HEADERS"
    and "rq_current_header q \<le> HTTP_REQUEST_MAX_HEADERS" "rq_buffer q = Some chunk"
  shows "if rq_current_header q + length hs \<le> HTTP_REQUEST_MAX_HEADERS
    then parser_callbacks lib call base chunk parsed (concat (map header_events hs) @ es) q w m =
      parser_callbacks lib call base chunk parsed es
        ((put_current (with_headers (rq_current_header q) (map (shift_header base) hs) r) q)
           \<lparr>rq_current_header := rq_current_header q + length hs\<rparr>) w m
    else \<exists>q' k. parser_callbacks lib call base chunk parsed (concat (map header_events hs) @ es) q w m =
      Some (Some k, q', w, m) \<and> rq_data q' = rq_data q"
  using assms
proof (induction hs arbitrary: q r)
  case Nil
  have "put_current r q = q"
    using Nil(1) by (cases q) (auto simp: put_current_def current_request_def list_update_same_conv
        split: if_splits)
  then show ?case using Nil by (simp add: with_headers_def)
next
  case (Cons h hs)
  show ?case
  proof (cases "rq_current_header q < HTTP_REQUEST_MAX_HEADERS")
    case True
    let ?r = "with_headers (rq_current_header q) [shift_header base h] r"
    let ?q = "(put_current ?r q)\<lparr>rq_current_header := Suc (rq_current_header q)\<rparr>"
    have idx: "rq_incoming_index q < length (rq_requests q)"
      using Cons.prems(1) by (simp add: current_request_def split: if_splits)
    then have cur: "current_request ?q = Some ?r"
      using put_current_current[of q ?r] by (simp add: current_request_def)
    have len: "length (req_headers_ranges ?r) = HTTP_REQUEST_MAX_HEADERS"
      using with_headers_length[of "rq_current_header q" "[shift_header base h]" r] True Cons.prems(2)
      by simp
    have step: "parser_callbacks lib call base chunk parsed (concat (map header_events (h # hs)) @ es) q w m =
        parser_callbacks lib call base chunk parsed (concat (map header_events hs) @ es) ?q w m"
      using one_header[OF Cons.prems(1) refl _ Cons.prems(2,4)] True Cons.prems(2) by simp
    have next_put: "put_current x ?q = (put_current x q)\<lparr>rq_current_header := Suc (rq_current_header q)\<rparr>" for x
      by (simp add: put_current_def)
    show ?thesis
      using Cons.IH[OF cur len] True Cons.prems(2,4)
        with_headers_Cons[of "rq_current_header q" "map (shift_header base) hs" r "shift_header base h"]
      unfolding step next_put by (simp split: if_splits)
  next
    case False
    with Cons.prems show ?thesis by (auto simp: header_events_def on_header_field_def)
  qed
qed

section \<open>A whole request in one chunk\<close>

definition request_events ::
    "nat \<Rightarrow> nat \<Rightarrow> HeaderMemoryRange list \<Rightarrow> HTTPMethod \<Rightarrow> nat \<Rightarrow> bool \<Rightarrow> int \<Rightarrow> parser_event list" where
  "request_events at l hs meth nread ka cl =
     [Message_begin, Url at l] @ concat (map header_events hs) @
     [Headers_complete meth nread ka cl, Message_complete]"

text \<open>A queue between two requests.\<close>

definition queue_idle :: "('ps, 'd) HTTPRequestQueue \<Rightarrow> bool" where
  "queue_idle q \<longleftrightarrow> length (rq_requests q) = MAX_REQUESTS \<and> rq_incoming_index q < MAX_REQUESTS \<and>
     rq_current_header q = 0 \<and> rq_buffer q = None \<and> rq_buffer_length q = 0"

definition url_fields_from :: "nat \<Rightarrow> (nat \<times> nat) option list \<Rightarrow> HTTPRequest \<Rightarrow> bool" where
  "url_fields_from at url r \<longleftrightarrow> (\<forall>(f, x) \<in> set (zip url_field_list url).
     http_request_get_url_field_range f r = Some (case x of None \<Rightarrow> None
       | Some (off, len) \<Rightarrow> if len = 0 then None else Some \<lparr>mr_offset = at + off, mr_length = len\<rparr>))"

lemma url_field_list_index:
  "map field_index url_field_list = [0, 1, 2, 3, 4, 5, 6]" "length url_field_list = 7"
  by (simp_all add: url_field_list_def)

lemma zip_url_fields:
  assumes "length url = 7"
  shows "\<forall>(f, x) \<in> set (zip url_field_list url). field_index f < 7"
    "distinct (map (field_index \<circ> fst) (zip url_field_list url))"
proof -
  have z: "map (field_index \<circ> fst) (zip url_field_list url) = [0, 1, 2, 3, 4, 5, 6]"
    using assms url_field_list_index by (simp flip: map_map)
  then show "distinct (map (field_index \<circ> fst) (zip url_field_list url))" by simp
  show "\<forall>(f, x) \<in> set (zip url_field_list url). field_index f < 7"
  proof clarify
    fix f x assume "(f, x) \<in> set (zip url_field_list url)"
    then have "field_index f \<in> set (map (field_index \<circ> fst) (zip url_field_list url))" by force
    then show "field_index f < 7" unfolding z by auto
  qed
qed

lemma zero_url_fields:
  "field_index f < 7 \<Longrightarrow> req_url_field_ranges http_request_zero ! field_index f = range0"
  by (simp add: http_request_zero_def)

lemma on_url_new_request:
  assumes "rq_incoming_index q < length (rq_requests q)" "current_request q = Some http_request_zero"
    and "rq_buffer q = Some b" "at + l \<le> length b"
    and "hp_parse_url lib (take l (drop at b)) = Some url" "length url = 7"
  shows "\<exists>rs. on_url lib at l q = Some (0, put_current
      (http_request_zero\<lparr>req_url_range := \<lparr>mr_offset = at, mr_length = l\<rparr>, req_url_field_ranges := rs\<rparr>) q) \<and>
    length rs = 7 \<and> (\<forall>r. req_url_field_ranges r = rs \<longrightarrow> url_fields_from at url r)"
proof -
  let ?r = "http_request_set_url_range at l http_request_zero"
  have r: "req_url_field_ranges ?r = req_url_field_ranges http_request_zero"
    by (simp add: http_request_set_url_range_def)
  obtain rs where rs: "url_fields_loop at (zip url_field_list url) ?r = Some (?r\<lparr>req_url_field_ranges := rs\<rparr>)"
    "length rs = 7"
    "\<forall>(f, x) \<in> set (zip url_field_list url). rs ! field_index f = (case x of
        None \<Rightarrow> req_url_field_ranges ?r ! field_index f
      | Some (off, len) \<Rightarrow> \<lparr>mr_offset = at + off, mr_length = len\<rparr>)"
    using url_fields_loop_result[of ?r "zip url_field_list url" at] zip_url_fields[OF assms(6)] r by auto
  have "on_url lib at l q = Some (0, put_current (?r\<lparr>req_url_field_ranges := rs\<rparr>) q)"
    using assms rs(1) by (simp add: on_url_def buffer_range_def read_range_def)
  moreover have "\<forall>r. req_url_field_ranges r = rs \<longrightarrow> url_fields_from at url r"
    using rs(2,3) zip_url_fields(1)[OF assms(6)] zero_url_fields r
    by (fastforce simp: url_fields_from_def http_request_get_url_field_range_def range0_def Let_def
        split: option.splits)
  ultimately show ?thesis using rs(2) by (auto simp: http_request_set_url_range_def)
qed

lemma message_begin_ok:
  assumes "rq_incoming_index q < length (rq_requests q)" "answers m = []"
  shows "\<exists>m'. on_message_begin q m = Some (0, put_current http_request_zero q, m') \<and>
    answers m' = [] \<and> blocks m' = blocks m + 1 \<and> fresh m \<le> fresh m'"
  using assms by (simp add: on_message_begin_def http_request_new_def put_current_def)

lemma headers_complete_whole_buffer:
  assumes "current_request q = Some r" "rq_buffer q = Some data" "rq_buffer_length q = length data"
    and "data \<noteq> []" "cl \<le> 0" "answers m = []"
  shows "\<exists>m'. on_headers_complete meth (length data) ka cl q m = Some (0,
      (put_current (r\<lparr>req_method := meth, req_is_last := (if ka then 0 else 1),
         req_headers_buffer := Some data\<rparr>) q)\<lparr>rq_buffer_length := 0, rq_buffer := None\<rparr>, m') \<and>
    blocks m' = blocks m \<and> answers m' = [] \<and> fresh m \<le> fresh m'"
  using assms
  by (simp add: on_headers_complete_def http_request_set_headers_buffer_def shift_buffer_def Let_def
      http_request_set_method_def http_request_set_last_def)

lemma message_complete_result:
  assumes "current_request q = Some r" "rq_data q = Some d" "length (rq_requests q) = MAX_REQUESTS"
    and "rq_incoming_index q < MAX_REQUESTS"
  shows "on_message_complete call q w m = map_option (Pair 0) (call d
    ((put_current (if Suc (rq_incoming_index q) = MAX_REQUESTS then r\<lparr>req_is_last := 1\<rparr> else r) q)
      \<lparr>rq_incoming_index := Suc (rq_incoming_index q), rq_current_header := 0\<rparr>) w m)"
proof (cases "Suc (rq_incoming_index q) = MAX_REQUESTS")
  case True
  then have "MAX_REQUESTS - Suc 0 = rq_incoming_index q" by simp
  with True assms show ?thesis
    by (cases q) (simp add: on_message_complete_def put_current_def current_request_def
        http_request_set_last_def)
next
  case False
  have "put_current r q = q"
    using assms(1) by (cases q) (auto simp: put_current_def current_request_def list_update_same_conv
        split: if_splits)
  with False assms show ?thesis by (simp add: on_message_complete_def)
qed

lemma last_callback:
  assumes "on_message_complete call q w m = map_option (Pair 0) x"
  shows "parser_callbacks lib call base chunk parsed [Message_complete] q w m =
    map_option (\<lambda>(q, w, m). (None, q, w, m)) x"
  using assms by (cases x) (auto simp: reads_chunk_def reads_past_def)

text \<open>The end of a request without a body: headers and message complete.\<close>

lemma request_tail:
  assumes "current_request q = Some r" "rq_buffer q = Some data" "rq_buffer_length q = length data"
    and "data \<noteq> []" "cl \<le> 0" "answers m = []" "rq_data q = Some d"
    and "length (rq_requests q) = MAX_REQUESTS" "rq_incoming_index q < MAX_REQUESTS"
  shows "\<exists>m'. blocks m' = blocks m \<and> answers m' = [] \<and> fresh m \<le> fresh m' \<and>
    parser_callbacks lib call 0 data (length data) [Headers_complete meth (length data) ka cl, Message_complete] q w m =
      map_option (\<lambda>(q, w, m). (None, q, w, m)) (call d
        ((put_current (if Suc (rq_incoming_index q) = MAX_REQUESTS
            then r\<lparr>req_method := meth, req_is_last := (if ka then 0 else 1), req_headers_buffer := Some data,
                   req_is_last := 1\<rparr>
            else r\<lparr>req_method := meth, req_is_last := (if ka then 0 else 1), req_headers_buffer := Some data\<rparr>) q)
          \<lparr>rq_buffer_length := 0, rq_buffer := None, rq_incoming_index := Suc (rq_incoming_index q),
            rq_current_header := 0\<rparr>) w m')"
proof -
  let ?r = "r\<lparr>req_method := meth, req_is_last := (if ka then 0 else 1), req_headers_buffer := Some data\<rparr>"
  let ?q = "(put_current ?r q)\<lparr>rq_buffer_length := 0, rq_buffer := None\<rparr>"
  obtain m' where m': "blocks m' = blocks m" "answers m' = []" "fresh m \<le> fresh m'"
    "on_headers_complete meth (length data) ka cl q m = Some (0, ?q, m')"
    using headers_complete_whole_buffer[OF assms(1-6), of meth ka] by blast
  have q: "current_request ?q = Some ?r" "rq_data ?q = Some d" "length (rq_requests ?q) = MAX_REQUESTS"
    "rq_incoming_index ?q < MAX_REQUESTS"
    using assms by (simp_all add: current_request_def put_current_def)
  have "parser_callbacks lib call 0 data (length data) [Headers_complete meth (length data) ka cl, Message_complete] q w m =
      parser_callbacks lib call 0 data (length data) [Message_complete] ?q w m'"
    using m'(4) assms(2)
    by (subst parser_callbacks.simps(2)) (simp add: reads_past_def del: parser_callbacks.simps)
  from trans[OF this last_callback[OF message_complete_result[OF q, of call w m']]] m'(1-3)
  show ?thesis by (intro exI[of _ m'], cases q, cases r) (simp add: put_current_def del: parser_callbacks.simps)
qed

text \<open>What the queue hands to the callback once a request has arrived.\<close>

definition request_delivered ::
    "bytes \<Rightarrow> nat \<Rightarrow> nat \<Rightarrow> (nat \<times> nat) option list \<Rightarrow> HeaderMemoryRange list \<Rightarrow> HTTPMethod \<Rightarrow> bool
      \<Rightarrow> ('ps, 'd) HTTPRequestQueue \<Rightarrow> ('ps, 'd) HTTPRequestQueue \<Rightarrow> bool" where
  "request_delivered data at l url hs meth ka q q1 \<longleftrightarrow> (\<exists>r.
     rq_requests q1 = (rq_requests q)[rq_incoming_index q := Some r] \<and>
     rq_incoming_index q1 = Suc (rq_incoming_index q) \<and> rq_outgoing_index q1 = rq_outgoing_index q \<and>
     rq_buffer q1 = None \<and> rq_buffer_length q1 = 0 \<and> rq_current_header q1 = 0 \<and>
     rq_data q1 = rq_data q \<and> request_wf r \<and> req_method r = meth \<and> req_headers_buffer r = Some data \<and> req_body r = None \<and>
     req_url_range r = \<lparr>mr_offset = at, mr_length = l\<rparr> \<and> url_fields_from at url r \<and>
     req_current_header r = length hs \<and> take (length hs) (req_headers_ranges r) = hs \<and>
     (req_is_last r = 0 \<longleftrightarrow> ka \<and> Suc (rq_incoming_index q) < MAX_REQUESTS))"

lemma append_data_first_chunk:
  assumes "rq_buffer q = None" "rq_buffer_length q = 0" "data \<noteq> []" "answers m = []"
    and "hp_execute lib (rq_parser q) data = (events, length data, ps)"
  shows "\<exists>m1. answers m1 = [] \<and> blocks m1 = blocks m + 1 \<and> fresh m \<le> fresh m1 \<and>
    http_request_queue_append_data lib call data q w m =
      Option.bind (parser_callbacks lib call 0 data (length data) events
          (q\<lparr>rq_buffer := Some data, rq_buffer_length := length data\<rparr>) w m1)
        (\<lambda>(stop, q', w, m). Some (case stop of
            Some k \<Rightarrow> (-1, q'\<lparr>rq_parser := hp_stopped lib (rq_parser q') data k\<rparr>, w, m)
          | None \<Rightarrow> (0, q'\<lparr>rq_parser := ps\<rparr>, w, m)))"
proof -
  obtain nb m1 where r: "memory_resize None (length data) m = (Some nb, m1)" "answers m1 = []"
    using memory_resize_ok[OF assms(4)] by blast
  then have "blocks m1 = blocks m + 1" "fresh m \<le> fresh m1"
    by (auto dest: memory_resize_Some memory_resize_fresh_mono)
  with r assms show ?thesis
    by (auto simp: http_request_queue_append_data_def intro!: exI[of _ m1]
        arg_cong[of _ _ "Option.bind (parser_callbacks lib call 0 data (length data) events _ w m1)"] ext
        split: option.splits)
qed

text \<open>The beginning of a request: message begin, URL and headers.\<close>

definition front_request :: "nat \<Rightarrow> nat \<Rightarrow> MemoryRange list \<Rightarrow> HeaderMemoryRange list \<Rightarrow> HTTPRequest" where
  "front_request at l rs hs = with_headers 0 hs
     (http_request_zero\<lparr>req_url_range := \<lparr>mr_offset = at, mr_length = l\<rparr>, req_url_field_ranges := rs\<rparr>)"

lemma request_front:
  assumes q: "rq_incoming_index q < length (rq_requests q)" "rq_current_header q = 0" "rq_buffer q = Some data"
    and mem: "answers m = []" and url: "at + l \<le> length data"
      "hp_parse_url lib (take l (drop at data)) = Some url" "length url = 7"
  shows "\<exists>rs m'. answers m' = [] \<and> blocks m' = blocks m + 1 \<and> fresh m \<le> fresh m' \<and> length rs = 7 \<and>
    (\<forall>r. req_url_field_ranges r = rs \<longrightarrow> url_fields_from at url r) \<and>
    (if length hs \<le> HTTP_REQUEST_MAX_HEADERS
     then parser_callbacks lib call 0 data parsed ([Message_begin, Url at l] @ concat (map header_events hs) @ es) q w m =
       parser_callbacks lib call 0 data parsed es
         ((put_current (front_request at l rs hs) q)\<lparr>rq_current_header := length hs\<rparr>) w m'
     else \<exists>q' k. parser_callbacks lib call 0 data parsed
         ([Message_begin, Url at l] @ concat (map header_events hs) @ es) q w m = Some (Some k, q', w, m'))"
proof -
  let ?new = "put_current http_request_zero q"
  obtain m' where m': "answers m' = []" "blocks m' = blocks m + 1" "fresh m \<le> fresh m'"
    and begin_msg: "on_message_begin q m = Some (0, ?new, m')"
    using message_begin_ok[OF q(1) mem] by blast
  have idx: "rq_incoming_index ?new < length (rq_requests ?new)" using q(1) by simp
  obtain rs where u: "on_url lib at l ?new = Some (0, put_current
      (http_request_zero\<lparr>req_url_range := \<lparr>mr_offset = at, mr_length = l\<rparr>, req_url_field_ranges := rs\<rparr>) ?new)"
    "length rs = 7" "\<forall>r. req_url_field_ranges r = rs \<longrightarrow> url_fields_from at url r"
    using on_url_new_request[OF idx put_current_current[OF q(1)] _ url] q(3) by auto
  let ?r = "http_request_zero\<lparr>req_url_range := \<lparr>mr_offset = at, mr_length = l\<rparr>, req_url_field_ranges := rs\<rparr>"
  let ?q1 = "put_current ?r q"
  have start: "parser_callbacks lib call 0 data parsed ([Message_begin, Url at l] @ concat (map header_events hs) @ es) q w m =
      parser_callbacks lib call 0 data parsed (concat (map header_events hs) @ es) ?q1 w m'"
    using begin_msg u(1) q(3) by (simp add: reads_past_def)
  have hd0: "rq_current_header ?q1 = 0" using q(2) by simp
  note headers = header_callbacks[OF put_current_current[OF q(1)], of ?r data hs lib call 0 parsed es w m', unfolded hd0]
  show ?thesis
    using headers map_idI[of hs "shift_header 0"] u(2,3) m' q(3) unfolding start front_request_def
    by (intro exI[of _ rs] exI[of _ m'])
      (auto simp: HTTP_REQUEST_MAX_HEADERS_def simp del: parser_callbacks.simps split: if_splits)
qed

text \<open>What follows the headers of a request without a body: it is stored and handed on.\<close>

lemma request_handed_on:
  fixes data :: bytes
  assumes idle: "queue_idle q" and cb: "rq_data q = Some d" and mem: "answers m = []"
    and chunk: "data \<noteq> []" "cl \<le> 0" and rs: "length rs = 7" "\<forall>r. req_url_field_ranges r = rs \<longrightarrow> url_fields_from at url r"
    and n: "length hs \<le> HTTP_REQUEST_MAX_HEADERS"
    and q2: "q2 = (put_current (front_request at l rs hs) (q\<lparr>rq_buffer := Some data, rq_buffer_length := length data\<rparr>))
      \<lparr>rq_current_header := length hs\<rparr>"
  shows "\<exists>q4 m'. request_delivered data at l url hs meth ka q q4 \<and>
    parser_callbacks lib call 0 data (length data) [Headers_complete meth (length data) ka cl, Message_complete] q2 w m =
      map_option (\<lambda>(q, w, m). (None, q, w, m)) (call d q4 w m') \<and>
    blocks m' = blocks m \<and> answers m' = [] \<and> fresh m \<le> fresh m'"
proof -
  let ?i = "rq_incoming_index q" and ?q = "q\<lparr>rq_buffer := Some data, rq_buffer_length := length data\<rparr>"
  have front: "rq_incoming_index ?q < length (rq_requests ?q)" using idle by (simp add: queue_idle_def)
  have cur2: "current_request q2 = Some (front_request at l rs hs)"
    using front put_current_current[of ?q "front_request at l rs hs"] by (simp add: current_request_def q2)
  let ?r3 = "(front_request at l rs hs)\<lparr>req_method := meth, req_is_last := (if ka then 0 else 1),
    req_headers_buffer := Some data\<rparr>"
  let ?r4 = "if Suc ?i = MAX_REQUESTS then ?r3\<lparr>req_is_last := 1\<rparr> else ?r3"
  obtain q4 m3 where tail: "blocks m3 = blocks m"
    "parser_callbacks lib call 0 data (length data) [Headers_complete meth (length data) ka cl, Message_complete] q2 w m =
      map_option (\<lambda>(q, w, m). (None, q, w, m)) (call d q4 w m3)"
    "q4 = (put_current ?r4 q2)\<lparr>rq_buffer_length := 0, rq_buffer := None,
       rq_incoming_index := Suc ?i, rq_current_header := 0\<rparr>" "answers m3 = []" "fresh m \<le> fresh m3"
    using request_tail[OF cur2 _ _ chunk mem, of d lib call meth ka w] idle cb
    by (auto simp: queue_idle_def q2)
  have "request_delivered data at l url hs meth ka q q4"
    unfolding request_delivered_def tail(3) using idle rs n
    by (intro exI[of _ ?r4]) (auto simp: q2 put_current_def with_headers_def request_wf_def front_request_def
        queue_idle_def http_request_zero_def HTTP_REQUEST_MAX_HEADERS_def)
  with tail(1,2,4,5) show ?thesis by blast
qed

lemma one_chunk_request:
  assumes idle: "queue_idle q" and cb: "rq_data q = Some d" and mem: "answers m = []"
    and chunk: "data \<noteq> []" "at + l \<le> length data" "cl \<le> 0"
    and run: "hp_execute lib (rq_parser q) data =
      (request_events at l hs meth (length data) ka cl, length data, ps)"
    and url: "hp_parse_url lib (take l (drop at data)) = Some url" "length url = 7"
  shows "if length hs \<le> HTTP_REQUEST_MAX_HEADERS
    then \<exists>q1 m1. request_delivered data at l url hs meth ka q q1 \<and> blocks m1 = blocks m + 2 \<and> answers m1 = [] \<and>
      fresh m \<le> fresh m1 \<and>
      http_request_queue_append_data lib call data q w m =
        map_option (\<lambda>(q, w, m). (0, q\<lparr>rq_parser := ps\<rparr>, w, m)) (call d q1 w m1)
    else \<exists>q1 m1. http_request_queue_append_data lib call data q w m = Some (-1, q1, w, m1)"
proof -
  let ?i = "rq_incoming_index q"
  have empty: "rq_buffer q = None" "rq_buffer_length q = 0" using idle by (simp_all add: queue_idle_def)
  obtain m1 where m1: "answers m1 = []" "blocks m1 = blocks m + 1" "fresh m \<le> fresh m1" and app:
    "http_request_queue_append_data lib call data q w m = Option.bind (parser_callbacks lib call 0 data (length data)
          (request_events at l hs meth (length data) ka cl)
          (q\<lparr>rq_buffer := Some data, rq_buffer_length := length data\<rparr>) w m1)
        (\<lambda>(stop, q', w, m). Some (case stop of
            Some k \<Rightarrow> (-1, q'\<lparr>rq_parser := hp_stopped lib (rq_parser q') data k\<rparr>, w, m)
          | None \<Rightarrow> (0, q'\<lparr>rq_parser := ps\<rparr>, w, m)))"
    using append_data_first_chunk[OF empty chunk(1) mem run, of call w] by blast
  let ?q = "q\<lparr>rq_buffer := Some data, rq_buffer_length := length data\<rparr>"
  let ?tail = "[Headers_complete meth (length data) ka cl, Message_complete]"
  have front: "rq_incoming_index ?q < length (rq_requests ?q)" "rq_current_header ?q = 0" "rq_buffer ?q = Some data"
    using idle by (simp_all add: queue_idle_def)
  obtain rs m2 where m2: "answers m2 = []" "blocks m2 = blocks m1 + 1" "fresh m1 \<le> fresh m2"
    and rs: "length rs = 7" "\<forall>r. req_url_field_ranges r = rs \<longrightarrow> url_fields_from at url r"
    and headers: "if length hs \<le> HTTP_REQUEST_MAX_HEADERS
      then parser_callbacks lib call 0 data (length data) (request_events at l hs meth (length data) ka cl) ?q w m1 =
        parser_callbacks lib call 0 data (length data) ?tail
          ((put_current (front_request at l rs hs) ?q)\<lparr>rq_current_header := length hs\<rparr>) w m2
      else \<exists>q' k. parser_callbacks lib call 0 data (length data) (request_events at l hs meth (length data) ka cl) ?q w m1 =
        Some (Some k, q', w, m2)"
    using request_front[OF front m1(1) chunk(2) url, of hs call "length data" ?tail w]
    unfolding request_events_def by blast
  show ?thesis
  proof (cases "length hs \<le> HTTP_REQUEST_MAX_HEADERS")
    case False
    with headers show ?thesis unfolding app by auto
  next
    case True
    let ?q2 = "(put_current (front_request at l rs hs) ?q)\<lparr>rq_current_header := length hs\<rparr>"
    obtain q4 m3 where tail: "request_delivered data at l url hs meth ka q q4"
      "parser_callbacks lib call 0 data (length data) ?tail ?q2 w m2 =
        map_option (\<lambda>(q, w, m). (None, q, w, m)) (call d q4 w m3)"
      "blocks m3 = blocks m2" "answers m3 = []" "fresh m2 \<le> fresh m3"
      using request_handed_on[OF idle cb m2(1) chunk(1,3) rs True refl, where meth = meth and ka = ka and lib = lib and call = call and w = w and l = l]
      by (elim exE conjE) (rule that, assumption+)
    note tail(1)
    moreover have "http_request_queue_append_data lib call data q w m =
        map_option (\<lambda>(q, w, m). (0, q\<lparr>rq_parser := ps\<rparr>, w, m)) (call d q4 w m3)"
      using headers True unfolding app tail(2)[symmetric]
      by (cases "call d q4 w m3") (auto simp: tail(2) simp del: parser_callbacks.simps)
    moreover have "blocks m3 = blocks m + 2" using m2(2) m1(2) tail(3) by simp
    moreover have "answers m3 = []" "fresh m \<le> fresh m3"
      using tail(4,5) m2(3) m1(3) by simp_all
    ultimately show ?thesis unfolding if_P[OF True] by blast
  qed
qed

text \<open>
  C16: A request without a body arrives in one chunk on an idle queue, and the parser
  reports it the way a well formed request is reported: begin, URL, name and value of each header in
  turn, headers complete, message complete.  With at most a hundred headers the queue hands
  exactly one new request to its callback: the ranges are the reported ones, the header buffer is the
  chunk, the buffer of the queue is empty again, and the request is the connection's last exactly when
  the peer asks to close or it is the hundredth.  With more headers the chunk is refused with -1.
\<close>

theorem request_received:
  assumes idle: "queue_idle q" and cb: "rq_data q = Some d" and mem: "answers m = []"
    and chunk: "data \<noteq> []" "at + l \<le> length data" "cl \<le> 0"
    and run: "hp_execute lib (rq_parser q) data =
      (request_events at l hs meth (length data) ka cl, length data, ps)"
    and url: "hp_parse_url lib (take l (drop at data)) = Some url" "length url = 7"
  shows "if length hs \<le> HTTP_REQUEST_MAX_HEADERS
    then \<exists>q1 m1. request_delivered data at l url hs meth ka q q1 \<and> blocks m1 = blocks m + 2 \<and>
      http_request_queue_append_data lib call data q w m =
        map_option (\<lambda>(q, w, m). (0, q\<lparr>rq_parser := ps\<rparr>, w, m)) (call d q1 w m1)
    else \<exists>q1 m1. http_request_queue_append_data lib call data q w m = Some (-1, q1, w, m1)"
  using one_chunk_request[OF assms, of call w] by (auto split: if_splits)

text \<open>A parser that reports the given callbacks, and the URL as one path.\<close>

definition reporting :: "parser_event list \<Rightarrow> unit parser_lib" where
  "reporting events =
     \<lparr>hp_init = (), hp_execute = (\<lambda>ps data. (events, length data, ())), hp_stopped = (\<lambda>ps data k. ()),
      hp_parse_url = (\<lambda>u. Some [None, None, None, Some (0, length u), None, None, None])\<rparr>"

definition get_root :: bytes where
  "get_root = ''GET / HTTP/1.1'' @ [CHR 0x0D, CHR 0x0A] @ ''Host: h'' @ [CHR 0x0D, CHR 0x0A, CHR 0x0D, CHR 0x0A]"

definition queue0 :: "(unit, nat) HTTPRequestQueue" where
  "queue0 = \<lparr>rq_parser = (), rq_current_header = 0, rq_requests = replicate MAX_REQUESTS None,
     rq_incoming_index = 0, rq_outgoing_index = 0, rq_buffer = None, rq_buffer_length = 0,
     rq_data = Some 7\<rparr>"

definition host_header :: HeaderMemoryRange where
  "host_header = \<lparr>hr_key = \<lparr>mr_offset = 16, mr_length = 4\<rparr>, hr_value = \<lparr>mr_offset = 22, mr_length = 1\<rparr>\<rparr>"

lemma queue0_idle: "queue_idle queue0" "rq_data queue0 = Some 7"
  by (simp_all add: queue_idle_def queue0_def MAX_REQUESTS_def)

theorem request_received_witness:
  "\<exists>q1 m1. request_delivered get_root 4 1 [None, None, None, Some (0, 1), None, None, None]
       [host_header] HTTP_METHOD_GET True queue0 q1 \<and>
     http_request_queue_append_data
       (reporting (request_events 4 1 [host_header] HTTP_METHOD_GET (length get_root) True (-1)))
       (\<lambda>d q w m. Some (q, w @ [d], m)) get_root queue0 [] mem0 = Some (0, q1\<lparr>rq_parser := ()\<rparr>, [7], m1)"
proof -
  let ?lib = "reporting (request_events 4 1 [host_header] HTTP_METHOD_GET (length get_root) True (-1))"
  have chunk: "get_root \<noteq> []" "4 + 1 \<le> length get_root" by (simp_all add: get_root_def)
  have len: "length [host_header] \<le> HTTP_REQUEST_MAX_HEADERS" by (simp add: HTTP_REQUEST_MAX_HEADERS_def)
  have url: "hp_parse_url ?lib (take 1 (drop 4 get_root)) =
      Some [None, None, None, Some (0, 1), None, None, None]"
    by (simp add: reporting_def get_root_def)
  show ?thesis
    using request_received[where lib = ?lib and hs = "[host_header]" and meth = HTTP_METHOD_GET
        and ka = True and cl = "-1" and call = "\<lambda>d q w m. Some (q, w @ [d], m)" and w = "[]", OF queue0_idle answers_mem0 chunk _ _ url]
      len
    by (auto simp: reporting_def)
qed

section \<open>Where the queue breaks\<close>

text \<open>
  C38: The queue has room for a hundred requests and no slot is ever given back.  When the
  parser begins one more message, the callback writes outside the array of requests.
\<close>

theorem queue_overrun:
  assumes "queue_wf q" "rq_incoming_index q = MAX_REQUESTS" "data \<noteq> []" "answers m = []"
    and "hp_execute lib (rq_parser q) data = (Message_begin # events, parsed, ps)"
  shows "http_request_queue_append_data lib call data q w m = None"
proof -
  obtain b m1 where "memory_resize (rq_buffer q) (rq_buffer_length q + length data) m = (Some b, m1)"
    using memory_resize_ok[OF assms(4)] by blast
  with assms show ?thesis
    by (simp add: http_request_queue_append_data_def on_message_begin_def queue_wf_def)
qed

theorem queue_overrun_witness:
  "http_request_queue_append_data (reporting [Message_begin]) (\<lambda>d q w m. Some (q, w, m)) ''G''
     (queue0\<lparr>rq_incoming_index := MAX_REQUESTS\<rparr>) () mem0 = None"
proof -
  have "queue_wf (queue0\<lparr>rq_incoming_index := MAX_REQUESTS\<rparr>)"
    by (simp add: queue_wf_def queue0_def)
  from queue_overrun[OF this _ _ answers_mem0, of "''G''" "reporting [Message_begin]" "[]" 1 "()"]
  show ?thesis by (simp add: reporting_def)
qed

text \<open>Headers may end before the end of the buffer: the callback then moves the rest.\<close>

lemma headers_complete_ok:
  assumes "current_request q = Some r" "rq_buffer q = Some data" "rq_buffer_length q = length data"
    and "0 < nread" "nread < length data" "answers m = []"
  shows "\<exists>q' m'. on_headers_complete meth nread ka cl q m = Some (0, q', m') \<and>
    rq_buffer q' = Some (drop nread data)"
proof -
  have "take (length data - nread) (drop nread data @ drop (length data - nread) data) = drop nread data"
    by simp
  with assms show ?thesis
    by (auto simp: on_headers_complete_def http_request_set_headers_buffer_def shift_buffer_def Let_def
        http_request_set_method_def http_request_set_last_def http_request_set_body_length_def
        memory_resize_def resized_def)
qed

text \<open>
  C39: The headers of a well formed request end inside a chunk and the parser consumes more of the
  chunk than the headers, be it the body or a pipelined request.  \<open>on_headers_complete\<close> has by then
  moved what follows the headers to the front of the buffer and cut the block, in which the chunk
  lies: the parser reads beyond its end, so the behaviour is undefined for every such chunk.
\<close>

theorem chunk_with_body_undefined:
  assumes idle: "queue_idle q" and mem: "answers m = []"
    and chunk: "at + l \<le> length data" "0 < nread" "nread < parsed" "parsed \<le> length data"
    and len: "length hs \<le> HTTP_REQUEST_MAX_HEADERS"
    and run: "hp_execute lib (rq_parser q) data =
      ([Message_begin, Url at l] @ concat (map header_events hs) @
       Headers_complete meth nread ka cl # events, parsed, ps)"
    and url: "hp_parse_url lib (take l (drop at data)) = Some url" "length url = 7"
  shows "http_request_queue_append_data lib call data q w m = None"
proof -
  let ?q = "q\<lparr>rq_buffer := Some data, rq_buffer_length := length data\<rparr>"
  let ?es = "Headers_complete meth nread ka cl # events"
  obtain m1 where m1: "memory_resize None (length data) m = (Some (map (junk m) [0..<length data]), m1)"
    "answers m1 = []"
    using mem by (simp add: memory_resize_def resized_def)
  have front: "rq_incoming_index ?q < length (rq_requests ?q)" "rq_current_header ?q = 0" "rq_buffer ?q = Some data"
    using idle by (simp_all add: queue_idle_def)
  let ?whole = "[Message_begin, Url at l] @ concat (map header_events hs) @ ?es"
  obtain rs m2 where m2: "answers m2 = []"
    and headers: "parser_callbacks lib call 0 data parsed ?whole ?q w m1 = parser_callbacks lib call 0 data parsed ?es
        ((put_current (front_request at l rs hs) ?q)\<lparr>rq_current_header := length hs\<rparr>) w m2"
    using request_front[OF front m1(2) chunk(1) url, of hs call parsed ?es w, unfolded if_P[OF len]]
    by (elim exE conjE) (rule that, assumption+)
  let ?q2 = "(put_current (front_request at l rs hs) ?q)\<lparr>rq_current_header := length hs\<rparr>"
  have cur: "current_request ?q2 = Some (front_request at l rs hs)"
    using front(1) put_current_current[of ?q "front_request at l rs hs"] by (simp add: current_request_def)
  obtain q3 m3 where "on_headers_complete meth nread ka cl ?q2 m2 = Some (0, q3, m3)"
    "rq_buffer q3 = Some (drop nread data)"
    using headers_complete_ok[OF cur _ _ chunk(2) _ m2, of data meth ka cl] chunk(3,4) by auto
  moreover have "drop nread data \<noteq> data"
    using chunk(2-4) by (metis diff_less length_drop less_le_trans less_imp_neq order_less_le_trans
        less_trans)
  ultimately have "parser_callbacks lib call 0 data parsed ?es ?q2 w m2 = None"
    using chunk(2-4) by (simp add: reads_past_def reads_chunk_def)
  with headers m1 run chunk idle show ?thesis
    by (auto simp: http_request_queue_append_data_def queue_idle_def simp del: parser_callbacks.simps)
qed

theorem chunk_with_body_undefined_witness:
  "http_request_queue_append_data
     (reporting [Message_begin, Url 4 1, Headers_complete HTTP_METHOD_POST 20 True 3, Body 20 3])
     (\<lambda>d q w m. Some (q, w, m)) get_root queue0 () mem0 = None"
proof -
  let ?lib = "reporting [Message_begin, Url 4 1, Headers_complete HTTP_METHOD_POST 20 True 3, Body 20 3]"
  have url: "hp_parse_url ?lib (take 1 (drop 4 get_root)) =
      Some [None, None, None, Some (0, 1), None, None, None]"
    by (simp add: reporting_def get_root_def)
  have chunk: "4 + 1 \<le> length get_root" "0 < (20 :: nat)" "20 < length get_root" "length get_root \<le> length get_root"
    by (simp_all add: get_root_def)
  show ?thesis
    using chunk_with_body_undefined[where hs = "[]" and meth = HTTP_METHOD_POST and ka = True and cl = 3
        and events = "[Body 20 3]" and call = "\<lambda>d q w m. Some (q, w, m)" and w = "()",
        OF queue0_idle(1) answers_mem0 chunk _ _ url]
    by (simp add: reporting_def)
qed

section \<open>A body in a chunk of its own\<close>

lemma on_body_result:
  assumes "current_request q = Some r" "rq_buffer q = Some data" "data \<noteq> []"
    and "req_body r = Some room" "req_body_length r + length data \<le> length room"
  shows "on_body 0 (length data) q = Some (0, put_current (r\<lparr>
      req_body := Some (take (req_body_length r) room @ data @ drop (req_body_length r + length data) room),
      req_body_length := req_body_length r + length data\<rparr>) q)"
  using assms
  by (simp add: on_body_def buffer_range_def read_range_def http_request_append_body_data_def Let_def)

text \<open>
  C35: A chunk that is the rest of a body, arriving after its headers, is stored behind the body
  bytes already there and the request goes to the callback.  But the chunk stays in the buffer of
  the queue: nothing removes body bytes from it, so the next request on the connection will be
  parsed with them in front of its headers.
\<close>

theorem body_delivered_and_kept:
  assumes q: "rq_buffer q = None" "rq_buffer_length q = 0" "rq_data q = Some d"
      "length (rq_requests q) = MAX_REQUESTS" "rq_incoming_index q < MAX_REQUESTS"
    and r: "current_request q = Some r" "req_body r = Some room"
      "req_body_length r + length data \<le> length room"
    and mem: "answers m = []" "data \<noteq> []"
    and run: "hp_execute lib (rq_parser q) data = ([Body 0 (length data), Message_complete], length data, ps)"
  shows "\<exists>q1 m1 r1. http_request_queue_append_data lib call data q w m =
      map_option (\<lambda>(q, w, m). (0, q\<lparr>rq_parser := ps\<rparr>, w, m)) (call d q1 w m1) \<and>
    rq_requests q1 = (rq_requests q)[rq_incoming_index q := Some r1] \<and>
    req_body r1 = Some (take (req_body_length r) room @ data @ drop (req_body_length r + length data) room) \<and>
    rq_buffer q1 = Some data \<and> rq_buffer_length q1 = length data"
proof -
  let ?q = "q\<lparr>rq_buffer := Some data, rq_buffer_length := length data\<rparr>"
  let ?r = "r\<lparr>req_body := Some (take (req_body_length r) room @ data @ drop (req_body_length r + length data) room),
      req_body_length := req_body_length r + length data\<rparr>"
  have cur: "current_request ?q = Some r" using r(1) by (simp add: current_request_def split: if_splits)
  let ?qb = "put_current ?r ?q"
  have qb: "current_request ?qb = Some ?r" "rq_data ?qb = Some d" "length (rq_requests ?qb) = MAX_REQUESTS"
    "rq_incoming_index ?qb < MAX_REQUESTS"
    using q by simp_all
  have body: "on_body 0 (length data) ?q = Some (0, ?qb)"
    using on_body_result[OF cur _ mem(2) r(2,3)] by simp
  obtain m1 where app: "http_request_queue_append_data lib call data q w m =
      Option.bind (parser_callbacks lib call 0 data (length data) [Body 0 (length data), Message_complete] ?q w m1)
        (\<lambda>(stop, q', w, m). Some (case stop of
            Some k \<Rightarrow> (-1, q'\<lparr>rq_parser := hp_stopped lib (rq_parser q') data k\<rparr>, w, m)
          | None \<Rightarrow> (0, q'\<lparr>rq_parser := ps\<rparr>, w, m)))"
    using append_data_first_chunk[OF q(1,2) mem(2,1) run, of call w] by blast
  let ?q4 = "(put_current (if Suc (rq_incoming_index q) = MAX_REQUESTS then ?r\<lparr>req_is_last := 1\<rparr> else ?r) ?qb)
      \<lparr>rq_incoming_index := Suc (rq_incoming_index q), rq_current_header := 0\<rparr>"
  have "http_request_queue_append_data lib call data q w m =
      map_option (\<lambda>(q, w, m). (0, q\<lparr>rq_parser := ps\<rparr>, w, m)) (call d ?q4 w m1)"
    using last_callback[OF message_complete_result[OF qb, of call w m1], of lib 0 data "length data"] body unfolding app
    by (cases "call d ?q4 w m1")
      (auto simp: parser_callbacks.simps(2)[of _ _ _ _ _ "Body _ _"] reads_past_def
        simp del: parser_callbacks.simps(2))
  then show ?thesis
    by (intro exI[of _ ?q4] exI[of _ m1]
        exI[of _ "if Suc (rq_incoming_index q) = MAX_REQUESTS then ?r\<lparr>req_is_last := 1\<rparr> else ?r"])
      (simp add: put_current_def)
qed

theorem body_delivered_and_kept_witness:
  "\<exists>q1 m1. http_request_queue_append_data (reporting [Body 0 3, Message_complete])
     (\<lambda>d q w m. Some (q, w @ [d], m)) ''abc''
     (queue0\<lparr>rq_requests := replicate MAX_REQUESTS
        (Some (http_request_zero\<lparr>req_body := Some ''...''\<rparr>))\<rparr>) [] mem0 = Some (0, q1, [7], m1) \<and>
     rq_buffer q1 = Some ''abc''"
proof -
  let ?r = "http_request_zero\<lparr>req_body := Some ''...''\<rparr>"
  let ?q = "queue0\<lparr>rq_requests := replicate MAX_REQUESTS (Some ?r)\<rparr>"
  have q: "rq_buffer ?q = None" "rq_buffer_length ?q = 0" "rq_data ?q = Some 7"
    "length (rq_requests ?q) = MAX_REQUESTS" "rq_incoming_index ?q < MAX_REQUESTS"
    "current_request ?q = Some ?r" "req_body ?r = Some ''...''" "req_body_length ?r + length ''abc'' \<le> length ''...''"
    by (simp_all add: queue0_def MAX_REQUESTS_def current_request_def http_request_zero_def)
  show ?thesis
    using body_delivered_and_kept[where lib = "reporting [Body 0 3, Message_complete]" and w = "[]"
        and call = "\<lambda>d q w m. Some (q, w @ [d], m)", OF q answers_mem0]
    by (fastforce simp: reporting_def)
qed

end
