(* ===== verification/Config_Common.thy ===== *)
theory Config_Common
  imports Memory C_Strings
begin

text \<open>
  The configuration store (\<open>src/config/common.c\<close>, \<open>src/config/common.h\<close>): sections of typed
  options with their values.  Sections and options are only ever added at the end of their
  lists, so a pointer to an option is modelled by the positions of its section and of
  the option.  A function that returns an \<open>int\<close> in C returns it first.  The two regular expressions
  are constants of the source; \<open>bool_regex\<close> is what the pattern accepts, whose anchors bind to the
  first and the last alternative only.
\<close>

section \<open>State\<close>

definition RAPP_CONFIG_SECTION :: string where "RAPP_CONFIG_SECTION = ''core''"

datatype RappConfigParamType = PARAM_BOOL | PARAM_INT | PARAM_STRING

datatype config_value = IntValue int | StrValue string

datatype config_default = DefInt int | DefStr "string option"

record ConfigOption =
  opt_type :: RappConfigParamType
  opt_help :: "string option"
  opt_name :: string
  opt_range_set :: bool
  opt_value_min :: int
  opt_value_max :: int
  opt_multivalued :: int
  opt_num_values :: int
  opt_default_value :: config_default
  opt_default_set :: bool
  opt_metavar :: "string option"
  opt_no_override :: bool
  opt_values :: "config_value list"

record ConfigSection =
  sect_name :: string
  sect_num_opts :: nat
  sect_options :: "ConfigOption list"

record argp_option =
  ao_name :: "string option"
  ao_key :: int
  ao_arg :: "string option"
  ao_doc_only :: bool
  ao_doc :: "string option"
  ao_group :: int

type_synonym opt_ref = "nat \<times> nat"

record RappConfig =
  cf_num_sections :: int
  cf_options_map :: "opt_ref option list option"
  cf_options :: "argp_option list option"
  cf_num_argp_options :: nat
  cf_sections :: "ConfigSection list"

section \<open>Lookup\<close>

fun index_of :: "('a \<Rightarrow> bool) \<Rightarrow> 'a list \<Rightarrow> nat option" where
  "index_of P [] = None"
| "index_of P (x # xs) = (if P x then Some 0 else map_option Suc (index_of P xs))"

definition config_section_find :: "RappConfig \<Rightarrow> string \<Rightarrow> nat option" where
  "config_section_find conf s = index_of (\<lambda>x. sect_name x = s) (cf_sections conf)"

definition config_section_get :: "RappConfig \<Rightarrow> string \<Rightarrow> nat option" where
  "config_section_get conf s = index_of (\<lambda>x. sect_name x = s) (cf_sections conf)"

definition GET_OPTION_FROM_SECT :: "ConfigSection \<Rightarrow> string \<Rightarrow> nat option" where
  "GET_OPTION_FROM_SECT sect optname = index_of (\<lambda>x. opt_name x = optname) (sect_options sect)"

definition GET_OPTION :: "RappConfig \<Rightarrow> string \<Rightarrow> string \<Rightarrow> opt_ref option" where
  "GET_OPTION conf s optname =
     (case config_section_find conf s of
        None \<Rightarrow> None
      | Some i \<Rightarrow> map_option (Pair i) (GET_OPTION_FROM_SECT (cf_sections conf ! i) optname))"

definition opt_at :: "RappConfig \<Rightarrow> opt_ref \<Rightarrow> ConfigOption" where
  "opt_at conf r = sect_options (cf_sections conf ! fst r) ! snd r"

definition put_opt :: "opt_ref \<Rightarrow> ConfigOption \<Rightarrow> RappConfig \<Rightarrow> RappConfig" where
  "put_opt r opt conf =
     (let sect = cf_sections conf ! fst r in
      conf\<lparr>cf_sections := (cf_sections conf)[fst r :=
        sect\<lparr>sect_options := (sect_options sect)[snd r := opt]\<rparr>]\<rparr>)"

section \<open>Adding values\<close>

definition opt_add_value_int :: "int \<Rightarrow> ConfigOption \<Rightarrow> mem \<Rightarrow> int \<times> ConfigOption \<times> mem" where
  "opt_add_value_int v opt m =
     (if opt_type opt \<noteq> PARAM_BOOL \<and> opt_type opt \<noteq> PARAM_INT then (-1, opt, m)
      else if opt_multivalued opt = 0 \<and> 0 < opt_num_values opt then (-1, opt, m)
      else if opt_range_set opt \<and> (v < opt_value_min opt \<or> opt_value_max opt < v) then (-1, opt, m)
      else
        (let (cv, m) = memory_create m in
         case cv of
           None \<Rightarrow> (-1, opt, m)
         | Some _ \<Rightarrow> (0, opt\<lparr>opt_num_values := opt_num_values opt + 1,
                            opt_values := opt_values opt @ [IntValue v]\<rparr>, m)))"

definition opt_add_value_string ::
    "string option \<Rightarrow> ConfigOption \<Rightarrow> mem \<Rightarrow> int \<times> ConfigOption \<times> mem" where
  "opt_add_value_string v opt m =
     (if opt_multivalued opt = 0 \<and> 0 < opt_num_values opt then (-1, opt, m)
      else (case v of
          None \<Rightarrow> (-1, opt, m)
        | Some v \<Rightarrow>
            if opt_type opt \<noteq> PARAM_STRING then (-1, opt, m)
            else
              (let (cv, m) = memory_create m in
               case cv of
                 None \<Rightarrow> (-1, opt, m)
               | Some _ \<Rightarrow>
                  (let (s, m) = memory_strdup v m in
                   case s of
                     None \<Rightarrow> (-1, opt, memory_destroy cv m)
                   | Some s \<Rightarrow> (0, opt\<lparr>opt_num_values := opt_num_values opt + 1,
                                      opt_values := opt_values opt @ [StrValue s]\<rparr>, m)))))"

definition config_add_value_int ::
    "string \<Rightarrow> string \<Rightarrow> int \<Rightarrow> RappConfig \<Rightarrow> mem \<Rightarrow> int \<times> RappConfig \<times> mem" where
  "config_add_value_int s name v conf m =
     (case GET_OPTION conf s name of
        None \<Rightarrow> (1, conf, m)
      | Some r \<Rightarrow>
         (let (ret, opt, m) = opt_add_value_int v (opt_at conf r) m in
          (if ret \<noteq> 0 then -1 else 0, put_opt r opt conf, m)))"

definition config_add_value_string ::
    "string \<Rightarrow> string \<Rightarrow> string option \<Rightarrow> RappConfig \<Rightarrow> mem \<Rightarrow> int \<times> RappConfig \<times> mem" where
  "config_add_value_string s name v conf m =
     (case GET_OPTION conf s name of
        None \<Rightarrow> (1, conf, m)
      | Some r \<Rightarrow>
         (let (ret, opt, m) = opt_add_value_string v (opt_at conf r) m in
          (if ret \<noteq> 0 then -1 else 0, put_opt r opt conf, m)))"

text \<open>\<open>^yes|Yes|...|1|0$\<close>, searched anywhere in the text.\<close>

fun occurs :: "string \<Rightarrow> string \<Rightarrow> bool" where
  "occurs w [] \<longleftrightarrow> w = []"
| "occurs w (c # cs) \<longleftrightarrow> prefix w (c # cs) \<or> occurs w cs"

definition bool_words :: "string list" where
  "bool_words = [''Yes'', ''YES'', ''no'', ''No'', ''NO'', ''true'', ''True'', ''TRUE'', ''false'',
     ''False'', ''FALSE'', ''on'', ''On'', ''ON'', ''off'', ''Off'', ''OFF'', ''1'']"

definition bool_regex :: "string \<Rightarrow> bool" where
  "bool_regex s \<longleftrightarrow> prefix ''yes'' s \<or> list_ex (\<lambda>w. occurs w s) bool_words \<or> suffix ''0'' s"

text \<open>The source compiles the second pattern but never runs it: its value is 1 whenever
  the compilation succeeds.  It compiles it over the first one and leaves the switch before either is
  released: only a text that does not match gives its pattern back.\<close>

definition config_add_value_from_string :: "string \<Rightarrow> ConfigOption \<Rightarrow> mem \<Rightarrow> int \<times> ConfigOption \<times> mem" where
  "config_add_value_from_string v opt m =
     (case opt_type opt of
        PARAM_STRING \<Rightarrow> (let (_, opt, m) = opt_add_value_string (Some v) opt m in (0, opt, m))
      | PARAM_BOOL \<Rightarrow>
          (let m = lib_alloc 1 m in
           if bool_regex v then (let m = lib_alloc 1 m; (_, opt, m) = opt_add_value_int 1 opt m in (0, opt, m))
           else (-1, opt, lib_free 1 m))
      | PARAM_INT \<Rightarrow>
          (let (val, endptr, erange) = strtol v in
           if erange \<and> (val = LONG_MAX \<or> val = LONG_MIN) \<or> erange \<and> val = 0 \<or> 0 < length endptr \<or>
              val < opt_value_min opt \<or> opt_value_max opt < val
           then (-1, opt, m)
           else (let (_, opt, m) = opt_add_value_int val opt m in (0, opt, m))))"

section \<open>Releasing\<close>

text \<open>\<open>None\<close> is a \<open>free\<close> of an integer read as a pointer.\<close>

definition free_value :: "RappConfigParamType \<Rightarrow> config_value \<Rightarrow> mem \<Rightarrow> mem option" where
  "free_value ty v m =
     (if ty = PARAM_STRING then
        (case v of IntValue _ \<Rightarrow> None
         | StrValue s \<Rightarrow> Some (memory_destroy (Some v) (memory_destroy (Some s) m)))
      else Some (memory_destroy (Some v) m))"

definition config_option_remove_all_values :: "ConfigOption \<Rightarrow> mem \<Rightarrow> (ConfigOption \<times> mem) option" where
  "config_option_remove_all_values opt m =
     map_option (\<lambda>m. (opt\<lparr>opt_values := [],
         opt_num_values := opt_num_values opt - int (length (opt_values opt))\<rparr>, m))
       (run_opt (free_value (opt_type opt)) (opt_values opt) m)"

definition config_option_destroy :: "ConfigOption \<Rightarrow> mem \<Rightarrow> mem option" where
  "config_option_destroy opt m = do {
     (opt, m) \<leftarrow> config_option_remove_all_values opt m;
     let m = memory_destroy (Some (opt_name opt)) m;
     m \<leftarrow> (if opt_default_set opt \<and> opt_type opt = PARAM_STRING
           then (case opt_default_value opt of DefInt _ \<Rightarrow> None | DefStr s \<Rightarrow> Some (memory_destroy s m))
           else Some m);
     let m = (if opt_help opt \<noteq> None then memory_destroy (opt_help opt) m else m);
     let m = (if opt_metavar opt \<noteq> None then memory_destroy (opt_metavar opt) m else m);
     Some (memory_destroy (Some opt) m)
   }"

definition config_section_destroy :: "ConfigSection \<Rightarrow> mem \<Rightarrow> mem option" where
  "config_section_destroy sect m = do {
     m \<leftarrow> run_opt config_option_destroy (sect_options sect) m;
     Some (memory_destroy (Some sect) (memory_destroy (Some (sect_name sect)) m))
   }"

text \<open>\<open>config_argp_options_destroy\<close> is in \<open>src/config/commandline.c\<close>.\<close>

definition free_argp_option :: "argp_option \<Rightarrow> mem \<Rightarrow> mem" where
  "free_argp_option ao m =
     (let m = (if ao_name ao \<noteq> None then memory_destroy (ao_name ao) m else m);
          m = (if ao_arg ao \<noteq> None then memory_destroy (ao_arg ao) m else m)
      in (if ao_doc ao \<noteq> None then memory_destroy (ao_doc ao) m else m))"

definition config_argp_options_destroy :: "RappConfig \<Rightarrow> mem \<Rightarrow> mem option" where
  "config_argp_options_destroy conf m = do {
     m \<leftarrow> (if cf_num_argp_options conf = 0 then Some m
           else do {
             opts \<leftarrow> cf_options conf;
             (if length opts < cf_num_argp_options conf then None
              else Some (fold free_argp_option (take (cf_num_argp_options conf) opts) m))
           });
     Some (memory_destroy (cf_options_map conf) (memory_destroy (cf_options conf) m))
   }"

definition config_destroy :: "RappConfig \<Rightarrow> mem \<Rightarrow> mem option" where
  "config_destroy conf m = do {
     m \<leftarrow> run_opt config_section_destroy (cf_sections conf) m;
     m \<leftarrow> config_argp_options_destroy conf m;
     Some (memory_destroy (Some conf) m)
   }"

section \<open>Creating\<close>

definition config_new :: "mem \<Rightarrow> RappConfig option \<times> mem" where
  "config_new m =
     (let (p, m) = memory_create m in
      case p of
        None \<Rightarrow> (None, m)
      | Some _ \<Rightarrow> (Some \<lparr>cf_num_sections = 0, cf_options_map = None, cf_options = None,
                       cf_num_argp_options = 0, cf_sections = []\<rparr>, m))"

definition config_section_create :: "string \<Rightarrow> RappConfig \<Rightarrow> mem \<Rightarrow> nat option \<times> RappConfig \<times> mem" where
  "config_section_create name conf m =
     (let (p, m) = memory_create m in
      case p of
        None \<Rightarrow> (None, conf, m)
      | Some _ \<Rightarrow>
         (let (s, m) = memory_strdup name m in
          case s of
            None \<Rightarrow> (None, conf, memory_destroy p m)
          | Some s \<Rightarrow>
              (Some (length (cf_sections conf)),
               conf\<lparr>cf_sections := cf_sections conf @
                 [\<lparr>sect_name = s, sect_num_opts = 0, sect_options = []\<rparr>]\<rparr>, m)))"

definition uppercase :: "string \<Rightarrow> string" where
  "uppercase s = map toupper s"

section \<open>Typing of the stored values\<close>

definition value_of_type :: "RappConfigParamType \<Rightarrow> config_value \<Rightarrow> bool" where
  "value_of_type ty v \<longleftrightarrow> (case v of IntValue _ \<Rightarrow> ty \<noteq> PARAM_STRING | StrValue _ \<Rightarrow> ty = PARAM_STRING)"

definition default_of_type :: "RappConfigParamType \<Rightarrow> config_default \<Rightarrow> bool" where
  "default_of_type ty d \<longleftrightarrow> (case d of DefInt _ \<Rightarrow> ty \<noteq> PARAM_STRING | DefStr _ \<Rightarrow> ty = PARAM_STRING)"

definition opt_wf :: "ConfigOption \<Rightarrow> bool" where
  "opt_wf opt \<longleftrightarrow> opt_num_values opt = int (length (opt_values opt)) \<and>
     (\<forall>v \<in> set (opt_values opt). value_of_type (opt_type opt) v) \<and>
     default_of_type (opt_type opt) (opt_default_value opt)"

definition opt_bit :: "'a option \<Rightarrow> int" where
  "opt_bit x = (case x of None \<Rightarrow> 0 | Some _ \<Rightarrow> 1)"

definition value_owned :: "config_value \<Rightarrow> int" where
  "value_owned v = (case v of IntValue _ \<Rightarrow> 1 | StrValue _ \<Rightarrow> 2)"

definition default_owned :: "ConfigOption \<Rightarrow> int" where
  "default_owned opt =
     (if opt_default_set opt \<and> opt_type opt = PARAM_STRING
      then (case opt_default_value opt of DefInt _ \<Rightarrow> 0 | DefStr s \<Rightarrow> opt_bit s) else 0)"

definition option_owned :: "ConfigOption \<Rightarrow> int" where
  "option_owned opt = 2 + opt_bit (opt_help opt) + opt_bit (opt_metavar opt) + default_owned opt +
     sum_list (map value_owned (opt_values opt))"

definition section_owned :: "ConfigSection \<Rightarrow> int" where
  "section_owned sect = 2 + sum_list (map option_owned (sect_options sect))"

definition config_wf :: "RappConfig \<Rightarrow> bool" where
  "config_wf conf \<longleftrightarrow> (\<forall>sect \<in> set (cf_sections conf). sect_num_opts sect = length (sect_options sect) \<and>
     (\<forall>opt \<in> set (sect_options sect). opt_wf opt))"

definition config_owned :: "RappConfig \<Rightarrow> int" where
  "config_owned conf = 1 + sum_list (map section_owned (cf_sections conf))"

lemma run_opt_owned:
  assumes "\<And>x m. x \<in> set xs \<Longrightarrow> \<exists>m'. f x m = Some m' \<and> blocks m' = blocks m - own x"
  shows "\<exists>m'. run_opt f xs m = Some m' \<and> blocks m' = blocks m - sum_list (map own xs)"
  using assms
proof (induction xs arbitrary: m)
  case (Cons x xs)
  obtain m1 where m1: "f x m = Some m1" "blocks m1 = blocks m - own x" using Cons.prems[of x m] by auto
  obtain m2 where "run_opt f xs m1 = Some m2" "blocks m2 = blocks m1 - sum_list (map own xs)"
    using Cons.IH[of m1] Cons.prems by auto
  with m1 show ?case by simp
qed simp

lemma free_values_owned:
  "\<forall>v \<in> set vs. value_of_type ty v \<Longrightarrow>
     \<exists>m'. run_opt (free_value ty) vs m = Some m' \<and> blocks m' = blocks m - sum_list (map value_owned vs)"
  by (rule run_opt_owned)
    (auto simp: free_value_def value_of_type_def value_owned_def split: config_value.splits)

lemma remove_all_values_owned:
  assumes "opt_wf opt"
  shows "\<exists>m'. config_option_remove_all_values opt m = Some (opt\<lparr>opt_values := [], opt_num_values := 0\<rparr>, m') \<and>
    blocks m' = blocks m - sum_list (map value_owned (opt_values opt))"
  using free_values_owned[of "opt_values opt" "opt_type opt" m] assms
  by (auto simp: config_option_remove_all_values_def opt_wf_def)

lemma option_destroy_owned:
  assumes "opt_wf opt"
  shows "\<exists>m'. config_option_destroy opt m = Some m' \<and> blocks m' = blocks m - option_owned opt"
proof -
  obtain m1 where m1: "config_option_remove_all_values opt m = Some (opt\<lparr>opt_values := [], opt_num_values := 0\<rparr>, m1)"
    "blocks m1 = blocks m - sum_list (map value_owned (opt_values opt))"
    using remove_all_values_owned[OF assms] by blast
  show ?thesis
    using assms m1 by (cases "opt_default_value opt"; cases "opt_help opt"; cases "opt_metavar opt")
      (auto simp: config_option_destroy_def option_owned_def default_owned_def opt_wf_def default_of_type_def opt_bit_def
        Let_def memory_destroy_def split: option.splits)
qed

lemma section_destroy_owned:
  assumes "\<forall>opt \<in> set (sect_options sect). opt_wf opt"
  shows "\<exists>m'. config_section_destroy sect m = Some m' \<and> blocks m' = blocks m - section_owned sect"
proof -
  obtain m1 where "run_opt config_option_destroy (sect_options sect) m = Some m1"
    "blocks m1 = blocks m - sum_list (map option_owned (sect_options sect))"
    using run_opt_owned[of "sect_options sect" config_option_destroy option_owned m]
      option_destroy_owned assms by blast
  then show ?thesis by (simp add: config_section_destroy_def section_owned_def)
qed

lemma config_destroy_owned:
  assumes "config_wf conf" "cf_num_argp_options conf = 0" "cf_options conf = None" "cf_options_map conf = None"
  shows "\<exists>m'. config_destroy conf m = Some m' \<and> blocks m' = blocks m - config_owned conf"
proof -
  obtain m1 where "run_opt config_section_destroy (cf_sections conf) m = Some m1"
    "blocks m1 = blocks m - sum_list (map section_owned (cf_sections conf))"
    using run_opt_owned[of "cf_sections conf" config_section_destroy section_owned m]
      section_destroy_owned assms(1) unfolding config_wf_def by blast
  with assms show ?thesis
    by (simp add: config_destroy_def config_argp_options_destroy_def config_owned_def)
qed

section \<open>Working on one option of the store\<close>

definition valid_ref :: "RappConfig \<Rightarrow> opt_ref \<Rightarrow> bool" where
  "valid_ref conf r \<longleftrightarrow> fst r < length (cf_sections conf) \<and>
     snd r < length (sect_options (cf_sections conf ! fst r))"

definition config_update ::
    "(ConfigOption \<Rightarrow> mem \<Rightarrow> int \<times> ConfigOption \<times> mem) \<Rightarrow> opt_ref \<Rightarrow> RappConfig \<Rightarrow> mem
      \<Rightarrow> int \<times> RappConfig \<times> mem" where
  "config_update op r conf m =
     (let (ret, opt, m) = op (opt_at conf r) m in (ret, put_opt r opt conf, m))"

lemma index_of_Some: "index_of P xs = Some i \<Longrightarrow> i < length xs \<and> P (xs ! i)"
  by (induction xs arbitrary: i) (auto split: if_splits)

lemma index_of_append:
  "index_of P (xs @ ys) = (case index_of P xs of Some i \<Rightarrow> Some i
     | None \<Rightarrow> map_option (\<lambda>i. length xs + i) (index_of P ys))"
proof (induction xs)
  case Nil
  then show ?case by (cases "index_of P ys") simp_all
next
  case (Cons x xs)
  then show ?case by (cases "index_of P ys"; cases "index_of P xs") simp_all
qed

lemma index_of_map_conv: "index_of (\<lambda>x. f x = a) xs = index_of (\<lambda>y. y = a) (map f xs)"
  by (induction xs) simp_all

lemma index_of_map: "map f xs = map f ys \<Longrightarrow> index_of (\<lambda>x. f x = a) xs = index_of (\<lambda>x. f x = a) ys"
  using index_of_map_conv[of f a xs] index_of_map_conv[of f a ys] by argo

lemma GET_OPTION_valid: "GET_OPTION conf s n = Some r \<Longrightarrow> valid_ref conf r"
  by (auto simp: GET_OPTION_def config_section_find_def GET_OPTION_FROM_SECT_def valid_ref_def
      dest!: index_of_Some split: option.splits)

lemma GET_OPTION_name:
  "GET_OPTION conf s n = Some r \<Longrightarrow> opt_name (opt_at conf r) = n \<and> sect_name (cf_sections conf ! fst r) = s"
  by (auto simp: GET_OPTION_def config_section_find_def GET_OPTION_FROM_SECT_def opt_at_def
      dest!: index_of_Some split: option.splits)

lemma opt_at_put [simp]: "valid_ref conf r \<Longrightarrow> opt_at (put_opt r opt conf) r = opt"
  by (simp add: opt_at_def put_opt_def valid_ref_def Let_def)

lemma opt_at_put_other: "r' \<noteq> r \<Longrightarrow> valid_ref conf r \<Longrightarrow> opt_at (put_opt r opt conf) r' = opt_at conf r'"
  by (cases r; cases r') (auto simp: opt_at_def put_opt_def valid_ref_def Let_def nth_list_update)

lemma valid_ref_put [simp]: "valid_ref (put_opt r opt conf) r' = valid_ref conf r'"
  by (cases "fst r < length (cf_sections conf)"; cases "fst r = fst r'")
    (auto simp: put_opt_def valid_ref_def Let_def)

lemma map_update_id: "i < length xs \<Longrightarrow> f x = f (xs ! i) \<Longrightarrow> map f (xs[i := x]) = map f xs"
  by (metis list_update_id map_update)

lemma GET_OPTION_put:
  assumes "valid_ref conf r" "opt_name opt = opt_name (opt_at conf r)"
  shows "GET_OPTION (put_opt r opt conf) s n = GET_OPTION conf s n"
proof -
  let ?sect = "cf_sections conf ! fst r"
  let ?new = "?sect\<lparr>sect_options := (sect_options ?sect)[snd r := opt]\<rparr>"
  have secs: "cf_sections (put_opt r opt conf) = (cf_sections conf)[fst r := ?new]"
    by (simp add: put_opt_def Let_def)
  have i: "fst r < length (cf_sections conf)" using assms(1) by (simp add: valid_ref_def)
  have names: "map sect_name (cf_sections (put_opt r opt conf)) = map sect_name (cf_sections conf)"
    unfolding secs by (rule map_update_id[OF i]) simp
  have opts: "map opt_name (sect_options ?new) = map opt_name (sect_options ?sect)"
    using map_update_id[of "snd r" "sect_options ?sect" opt_name opt] assms
    by (simp add: valid_ref_def opt_at_def)
  have "GET_OPTION_FROM_SECT (cf_sections (put_opt r opt conf) ! j) n =
      GET_OPTION_FROM_SECT (cf_sections conf ! j) n" if "j < length (cf_sections conf)" for j
    using index_of_map[OF opts, of n] i that unfolding secs GET_OPTION_FROM_SECT_def
    by (cases "j = fst r") simp_all
  then show ?thesis
    using index_of_map[OF names, of s]
    by (auto simp: GET_OPTION_def config_section_find_def dest: index_of_Some split: option.split)
qed

lemma sum_list_update_int:
  "i < length xs \<Longrightarrow> sum_list (xs[i := x :: int]) = sum_list xs + x - xs ! i"
  by (induction xs arbitrary: i) (auto split: nat.splits)

lemma put_opt_owned:
  assumes "valid_ref conf r"
  shows "config_owned (put_opt r opt conf) = config_owned conf + option_owned opt - option_owned (opt_at conf r)"
  using assms
  by (simp add: config_owned_def put_opt_def Let_def valid_ref_def map_update sum_list_update_int
      section_owned_def opt_at_def)

lemma opt_at_wf: "config_wf conf \<Longrightarrow> valid_ref conf r \<Longrightarrow> opt_wf (opt_at conf r)"
  using nth_mem[of "fst r" "cf_sections conf"]
    nth_mem[of "snd r" "sect_options (cf_sections conf ! fst r)"]
  unfolding config_wf_def valid_ref_def opt_at_def by fast

definition section_wf :: "ConfigSection \<Rightarrow> bool" where
  "section_wf sect \<longleftrightarrow> sect_num_opts sect = length (sect_options sect) \<and>
     (\<forall>opt \<in> set (sect_options sect). opt_wf opt)"

lemma config_wf_sections: "config_wf conf \<longleftrightarrow> (\<forall>sect \<in> set (cf_sections conf). section_wf sect)"
  by (simp add: config_wf_def section_wf_def)

lemma config_wf_update:
  assumes "config_wf conf" "section_wf sect"
  shows "config_wf (conf\<lparr>cf_sections := (cf_sections conf)[i := sect]\<rparr>)"
  using assms subsetD[OF set_update_subset_insert[of "cf_sections conf" i sect]]
  unfolding config_wf_sections by auto

lemma put_opt_wf:
  assumes "config_wf conf" "opt_wf opt" "valid_ref conf r"
  shows "config_wf (put_opt r opt conf)"
proof -
  let ?sect = "cf_sections conf ! fst r"
  let ?opts = "(sect_options ?sect)[snd r := opt]"
  have "?sect \<in> set (cf_sections conf)" using assms(3) by (simp add: valid_ref_def)
  with assms(1) have s: "sect_num_opts ?sect = length (sect_options ?sect)"
    "\<forall>x \<in> set (sect_options ?sect). opt_wf x"
    by (auto simp: config_wf_def)
  have "\<forall>x \<in> set ?opts. opt_wf x"
    using s(2) assms(2) set_update_subset_insert[of "sect_options ?sect" "snd r" opt] by blast
  then have "section_wf (?sect\<lparr>sect_options := ?opts\<rparr>)"
    using s(1) by (simp add: section_wf_def)
  then show ?thesis using config_wf_update[OF assms(1)] by (simp add: put_opt_def Let_def)
qed

text \<open>Only the patterns of a boolean option stay behind.\<close>

definition lib_change :: "RappConfigParamType \<Rightarrow> mem \<Rightarrow> mem \<Rightarrow> bool" where
  "lib_change ty m m' \<longleftrightarrow> lib_blocks m \<le> lib_blocks m' \<and> (ty \<noteq> PARAM_BOOL \<longrightarrow> lib_blocks m' = lib_blocks m)"

lemma lib_change_same [simp]: "lib_blocks m' = lib_blocks m \<Longrightarrow> lib_change ty m m'"
  by (simp add: lib_change_def)

lemma lib_change_trans: "lib_change ty m m1 \<Longrightarrow> lib_change ty m1 m2 \<Longrightarrow> lib_change ty m m2"
  by (auto simp: lib_change_def)

text \<open>What the functions that change one option promise to the store.\<close>

locale option_operation =
  fixes op :: "ConfigOption \<Rightarrow> mem \<Rightarrow> int \<times> ConfigOption \<times> mem"
  assumes op_wf: "opt_wf opt \<Longrightarrow> op opt m = (ret, opt', m') \<Longrightarrow> opt_wf opt'"
    and op_owned: "opt_wf opt \<Longrightarrow> op opt m = (ret, opt', m') \<Longrightarrow>
      blocks m' - option_owned opt' = blocks m - option_owned opt"
    and op_name: "opt_wf opt \<Longrightarrow> op opt m = (ret, opt', m') \<Longrightarrow> opt_name opt' = opt_name opt"
    and op_lib: "opt_wf opt \<Longrightarrow> op opt m = (ret, opt', m') \<Longrightarrow>
      opt_type opt' = opt_type opt \<and> lib_change (opt_type opt) m m'"
begin

lemma update_store:
  assumes "config_wf conf" "valid_ref conf r" "config_update op r conf m = (ret, conf', m')"
  shows "config_wf conf' \<and> blocks m' - config_owned conf' = blocks m - config_owned conf \<and>
    (\<forall>s n. GET_OPTION conf' s n = GET_OPTION conf s n) \<and>
    (\<forall>r'. r' \<noteq> r \<longrightarrow> opt_at conf' r' = opt_at conf r')"
proof -
  obtain opt where op: "op (opt_at conf r) m = (ret, opt, m')" "conf' = put_opt r opt conf"
    using assms(3) by (auto simp: config_update_def split: prod.splits)
  have wf: "opt_wf (opt_at conf r)" using assms(1,2) by (rule opt_at_wf)
  show ?thesis
    using op_wf[OF wf op(1)] op_owned[OF wf op(1)] op_name[OF wf op(1)] assms(1,2) op(2)
    by (simp add: put_opt_wf put_opt_owned GET_OPTION_put opt_at_put_other)
qed

end

lemma opt_add_int_cases:
  assumes "opt_add_value_int v opt m = (ret, opt', m')"
  shows "ret = -1 \<and> opt' = opt \<and> blocks m' = blocks m \<or>
    ret = 0 \<and> opt_type opt \<noteq> PARAM_STRING \<and> blocks m' = blocks m + 1 \<and>
      opt' = opt\<lparr>opt_num_values := opt_num_values opt + 1, opt_values := opt_values opt @ [IntValue v]\<rparr>"
  using assms
  by (cases "opt_type opt")
    (auto simp: opt_add_value_int_def mem_simps split: if_splits prod.splits option.splits)

lemma opt_add_string_cases:
  assumes "opt_add_value_string v opt m = (ret, opt', m')"
  shows "ret = -1 \<and> opt' = opt \<and> blocks m' = blocks m \<or>
    ret = 0 \<and> opt_type opt = PARAM_STRING \<and> blocks m' = blocks m + 2 \<and>
      (\<exists>s. v = Some s \<and>
        opt' = opt\<lparr>opt_num_values := opt_num_values opt + 1, opt_values := opt_values opt @ [StrValue s]\<rparr>)"
  using assms
  by (auto simp: opt_add_value_string_def mem_simps dest!: memory_strdup_SomeD
      split: if_splits prod.splits option.splits)

lemma from_string_cases:
  assumes "config_add_value_from_string v opt m = (ret, opt', m')"
  shows "opt' = opt \<and> blocks m' = blocks m \<or>
    opt_type opt \<noteq> PARAM_STRING \<and> blocks m' = blocks m + 1 \<and> (\<exists>i.
      opt' = opt\<lparr>opt_num_values := opt_num_values opt + 1, opt_values := opt_values opt @ [IntValue i]\<rparr>) \<or>
    opt_type opt = PARAM_STRING \<and> blocks m' = blocks m + 2 \<and>
      opt' = opt\<lparr>opt_num_values := opt_num_values opt + 1, opt_values := opt_values opt @ [StrValue v]\<rparr>"
  using assms
  by (auto simp: config_add_value_from_string_def Let_def split: RappConfigParamType.splits if_splits prod.splits
      dest!: opt_add_int_cases opt_add_string_cases)

lemma appended_value:
  assumes "opt_wf opt" "value_of_type (opt_type opt) v"
  shows "opt_wf (opt\<lparr>opt_num_values := opt_num_values opt + 1, opt_values := opt_values opt @ [v]\<rparr>)"
    "option_owned (opt\<lparr>opt_num_values := opt_num_values opt + 1, opt_values := opt_values opt @ [v]\<rparr>) =
      option_owned opt + value_owned v"
  using assms by (auto simp: opt_wf_def option_owned_def default_owned_def)

lemma value_facts [simp]:
  "value_of_type ty (IntValue i) \<longleftrightarrow> ty \<noteq> PARAM_STRING" "value_of_type ty (StrValue s) \<longleftrightarrow> ty = PARAM_STRING"
  "value_owned (IntValue i) = 1" "value_owned (StrValue s) = 2"
  by (simp_all add: value_of_type_def value_owned_def)

lemma opt_add_lib:
  "opt_add_value_int i opt m = (ret, opt', m') \<Longrightarrow> lib_blocks m' = lib_blocks m"
  "opt_add_value_string t opt m = (ret, opt', m') \<Longrightarrow> lib_blocks m' = lib_blocks m"
  by (auto simp: opt_add_value_int_def opt_add_value_string_def dest!: lib_kept
      split: if_splits prod.splits option.splits)

lemma from_string_lib:
  "config_add_value_from_string v opt m = (ret, opt', m') \<Longrightarrow> lib_change (opt_type opt) m m'"
  by (auto simp: config_add_value_from_string_def lib_change_def Let_def dest: opt_add_lib
      split: RappConfigParamType.splits prod.splits if_splits)

interpretation add_int: option_operation "opt_add_value_int v" for v
  by unfold_locales (frule opt_add_lib(1), drule opt_add_int_cases, auto simp: appended_value)+

interpretation add_string: option_operation "opt_add_value_string v" for v
  by unfold_locales (frule opt_add_lib(2), drule opt_add_string_cases, auto simp: appended_value)+

interpretation add_text: option_operation "config_add_value_from_string v" for v
  by unfold_locales (frule from_string_lib, drule from_string_cases, auto simp: appended_value)+

text \<open>Balanced changes of one option, which compose.\<close>

definition balanced_option :: "ConfigOption \<Rightarrow> mem \<Rightarrow> ConfigOption \<Rightarrow> mem \<Rightarrow> bool" where
  "balanced_option opt m opt' m' \<longleftrightarrow> opt_wf opt' \<and> opt_name opt' = opt_name opt \<and> opt_type opt' = opt_type opt \<and>
     blocks m' - option_owned opt' = blocks m - option_owned opt \<and> (answers m = [] \<longrightarrow> answers m' = []) \<and>
     lib_change (opt_type opt) m m'"

lemma balanced_trans:
  "balanced_option opt m opt1 m1 \<Longrightarrow> balanced_option opt1 m1 opt2 m2 \<Longrightarrow> balanced_option opt m opt2 m2"
  by (auto simp: balanced_option_def intro: lib_change_trans)

lemma from_string_answers:
  "answers m = [] \<Longrightarrow> config_add_value_from_string v opt m = (ret, opt', m') \<Longrightarrow> answers m' = []"
  by (auto simp: config_add_value_from_string_def opt_add_value_int_def opt_add_value_string_def Let_def
      split: RappConfigParamType.splits prod.splits if_splits)

lemma text_balanced:
  assumes "opt_wf opt" "config_add_value_from_string v opt m = (ret, opt', m')"
  shows "balanced_option opt m opt' m'"
  using add_text.op_wf[OF assms] add_text.op_name[OF assms] add_text.op_owned[OF assms]
    from_string_answers[OF _ assms(2)] from_string_lib[OF assms(2)] from_string_cases[OF assms(2)]
  by (auto simp: balanced_option_def)

text \<open>The types of the options, section by section; what reading may cost of the C library's objects.\<close>

definition types_in :: "ConfigSection list \<Rightarrow> RappConfigParamType list list" where
  "types_in ss = map (\<lambda>sect. map opt_type (sect_options sect)) ss"

definition boolean_types :: "RappConfigParamType list list \<Rightarrow> bool" where
  "boolean_types tys \<longleftrightarrow> list_ex (list_ex (\<lambda>ty. ty = PARAM_BOOL)) tys"

definition has_boolean :: "RappConfig \<Rightarrow> bool" where
  "has_boolean conf \<longleftrightarrow> boolean_types (types_in (cf_sections conf))"

lemma types_in_simps [simp]:
  "types_in [] = []" "types_in (s # ss) = map opt_type (sect_options s) # types_in ss"
  "boolean_types [] = False"
  "boolean_types (tys # tyss) \<longleftrightarrow> PARAM_BOOL \<in> set tys \<or> boolean_types tyss"
  by (auto simp: types_in_def boolean_types_def list_ex_iff)

lemma types_in_put:
  assumes "valid_ref conf r" "opt_type opt = opt_type (opt_at conf r)"
  shows "types_in (cf_sections (put_opt r opt conf)) = types_in (cf_sections conf)"
  using assms by (simp add: types_in_def put_opt_def valid_ref_def opt_at_def Let_def map_update_id)

lemma has_boolean_iff:
  "has_boolean conf \<longleftrightarrow> (\<exists>sect \<in> set (cf_sections conf). \<exists>opt \<in> set (sect_options sect). opt_type opt = PARAM_BOOL)"
  by (simp add: has_boolean_def boolean_types_def types_in_def list_ex_iff image_iff eq_commute)

text \<open>What a step of the store costs: nothing, as long as the store has no boolean option in the end.\<close>

definition lib_cost :: "RappConfig \<times> mem \<Rightarrow> RappConfig \<times> mem \<Rightarrow> bool" where
  "lib_cost cm cm' \<longleftrightarrow> lib_blocks (snd cm) \<le> lib_blocks (snd cm') \<and> (has_boolean (fst cm) \<longrightarrow> has_boolean (fst cm')) \<and>
     (\<not> has_boolean (fst cm') \<longrightarrow> lib_blocks (snd cm') = lib_blocks (snd cm))"

lemma lib_cost_refl [simp]: "lib_cost cm cm" by (simp add: lib_cost_def)

lemma lib_cost_trans: "lib_cost cm cm1 \<Longrightarrow> lib_cost cm1 cm2 \<Longrightarrow> lib_cost cm cm2"
  by (auto simp: lib_cost_def)

lemma lib_cost_free:
  assumes "lib_blocks m' = lib_blocks m" "types_in (cf_sections conf') = types_in (cf_sections conf)"
  shows "lib_cost (conf, m) (conf', m')"
  using assms by (simp add: lib_cost_def has_boolean_def)

lemma has_boolean_at: "valid_ref conf r \<Longrightarrow> \<not> has_boolean conf \<Longrightarrow> opt_type (opt_at conf r) \<noteq> PARAM_BOOL"
  unfolding has_boolean_def boolean_types_def types_in_def valid_ref_def opt_at_def
  by (auto simp: list_ex_iff) (metis image_eqI nth_mem)

lemma put_opt_cost:
  assumes "valid_ref conf r" "opt_type opt = opt_type (opt_at conf r)" "lib_change (opt_type opt) m m'"
  shows "lib_cost (conf, m) (put_opt r opt conf, m')"
proof -
  have "has_boolean (put_opt r opt conf) = has_boolean conf"
    by (simp add: has_boolean_def types_in_put[OF assms(1,2)])
  with assms has_boolean_at[OF assms(1)] show ?thesis by (auto simp: lib_cost_def lib_change_def)
qed

text \<open>Releasing values, options and stores leaves the C library's objects alone.\<close>

lemma run_opt_lib:
  assumes "\<And>x m m'. f x m = Some m' \<Longrightarrow> lib_blocks m' = lib_blocks m" "run_opt f xs m = Some m'"
  shows "lib_blocks m' = lib_blocks m"
  using assms(2) by (induction xs arbitrary: m) (auto dest: assms(1) split: Option.bind_splits)

lemma remove_all_lib:
  "config_option_remove_all_values opt m = Some (opt', m') \<Longrightarrow> lib_blocks m' = lib_blocks m"
  by (auto simp: config_option_remove_all_values_def free_value_def elim!: run_opt_lib[rotated]
      split: if_splits config_value.splits)

lemma option_destroy_lib: "config_option_destroy opt m = Some m' \<Longrightarrow> lib_blocks m' = lib_blocks m"
  by (auto simp: config_option_destroy_def Let_def dest!: remove_all_lib
      split: Option.bind_splits if_splits config_default.splits)

lemma section_destroy_lib: "config_section_destroy sect m = Some m' \<Longrightarrow> lib_blocks m' = lib_blocks m"
  using run_opt_lib[where f = config_option_destroy] option_destroy_lib
  by (auto simp: config_section_destroy_def split: Option.bind_splits)

lemma config_destroy_lib: "config_destroy conf m = Some m' \<Longrightarrow> lib_blocks m' = lib_blocks m"
proof -
  have "lib_blocks (fold free_argp_option es m) = lib_blocks m" for es m
    by (induction es arbitrary: m) (simp_all add: free_argp_option_def Let_def)
  moreover have "run_opt config_section_destroy ss m = Some m1 \<Longrightarrow> lib_blocks m1 = lib_blocks m" for ss m1
    using run_opt_lib[where f = config_section_destroy] section_destroy_lib by blast
  ultimately show "config_destroy conf m = Some m' \<Longrightarrow> lib_blocks m' = lib_blocks m"
    by (auto simp: config_destroy_def config_argp_options_destroy_def split: Option.bind_splits if_splits)
qed

section \<open>Numbers in text\<close>

lemma strtol_dec_int:
  assumes "LONG_MIN \<le> i" "i \<le> LONG_MAX"
  shows "strtol (dec_int i) = (i, [], False)"
proof (cases "i < 0")
  case False
  then show ?thesis using strtol_dec[of "nat i"] assms by (simp add: dec_int_def)
next
  case True
  let ?ds = "dec (nat (- i))"
  have tk: "takeWhile isdigit ?ds = ?ds" "dropWhile isdigit ?ds = []"
    using dec_digits[of "nat (- i)"] by auto
  have "\<not> isspace CHR ''-''" by code_simp
  then have ws: "dropWhile isspace (dec_int i) = CHR ''-'' # ?ds" using True by (simp add: dec_int_def)
  have val: "- 1 * digits_value ?ds = i" using True by (simp add: digits_value_dec)
  show ?thesis
    using assms by (simp add: strtol_def ws strtol_sign_def tk dec_nonempty digits_value_dec True[THEN less_imp_le])
qed

text \<open>
  C33: The decimal text of any \<open>long\<close>, given to an integer option that can take another value,
  is stored as that number exactly when it lies in the option's range; otherwise the call
  returns -1 and the option is unchanged.
\<close>

theorem int_text_roundtrip:
  assumes "opt_type opt = PARAM_INT" "opt_multivalued opt \<noteq> 0 \<or> opt_num_values opt \<le> 0"
    and "LONG_MIN \<le> i" "i \<le> LONG_MAX" "answers m = []"
    and "config_add_value_from_string (dec_int i) opt m = (ret, opt', m')"
  shows "if opt_value_min opt \<le> i \<and> i \<le> opt_value_max opt
    then ret = 0 \<and> opt_values opt' = opt_values opt @ [IntValue i] \<and> opt_num_values opt' = opt_num_values opt + 1
    else ret = -1 \<and> opt' = opt"
  using assms
  by (auto simp: config_add_value_from_string_def opt_add_value_int_def strtol_dec_int)

definition int_option :: ConfigOption where
  "int_option = \<lparr>opt_type = PARAM_INT, opt_help = None, opt_name = ''port'', opt_range_set = True,
     opt_value_min = -5, opt_value_max = 65535, opt_multivalued = 0, opt_num_values = 0,
     opt_default_value = DefInt 0, opt_default_set = False, opt_metavar = None, opt_no_override = False,
     opt_values = []\<rparr>"

theorem int_text_roundtrip_witness:
  "\<exists>opt' m'. config_add_value_from_string (dec_int 8080) int_option mem0 = (0, opt', m') \<and>
     opt_values opt' = [IntValue 8080]"
proof -
  obtain ret opt' m' where c: "config_add_value_from_string (dec_int 8080) int_option mem0 = (ret, opt', m')"
    by (cases "config_add_value_from_string (dec_int 8080) int_option mem0")
  have "opt_type int_option = PARAM_INT" "opt_multivalued int_option \<noteq> 0 \<or> opt_num_values int_option \<le> 0"
    "LONG_MIN \<le> 8080" "8080 \<le> LONG_MAX"
    by (simp_all add: int_option_def LONG_MIN_def LONG_MAX_def)
  from int_text_roundtrip[OF this answers_mem0 c] c show ?thesis by (simp add: int_option_def)
qed

text \<open>
  A boolean option refuses the texts its first pattern does not match, and stores 1 for
  every text it does match: \<open>no\<close>, \<open>off\<close>, \<open>FALSE\<close> and \<open>0\<close> switch an option on.
\<close>

theorem bool_text_always_true:
  assumes "opt_type opt = PARAM_BOOL" "opt_multivalued opt \<noteq> 0 \<or> opt_num_values opt \<le> 0"
    and "opt_value_min opt = 0" "opt_value_max opt = 1" "answers m = []"
    and "config_add_value_from_string v opt m = (ret, opt', m')"
  shows "(if bool_regex v then ret = 0 \<and> opt_values opt' = opt_values opt @ [IntValue 1]
          else ret = -1 \<and> opt' = opt) \<and>
    list_all bool_regex [''no'', ''off'', ''FALSE'', ''0'', ''nobody'']"
proof
  show "list_all bool_regex [''no'', ''off'', ''FALSE'', ''0'', ''nobody'']" by code_simp
  show "if bool_regex v then ret = 0 \<and> opt_values opt' = opt_values opt @ [IntValue 1]
      else ret = -1 \<and> opt' = opt"
    using assms by (auto simp: config_add_value_from_string_def opt_add_value_int_def)
qed

definition bool_option :: ConfigOption where
  "bool_option = int_option\<lparr>opt_type := PARAM_BOOL, opt_value_min := 0, opt_value_max := 1\<rparr>"

theorem bool_text_always_true_witness:
  "\<exists>opt' m'. config_add_value_from_string ''off'' bool_option mem0 = (0, opt', m') \<and>
     opt_values opt' = [IntValue 1]"
proof -
  obtain ret opt' m' where c: "config_add_value_from_string ''off'' bool_option mem0 = (ret, opt', m')"
    by (cases "config_add_value_from_string ''off'' bool_option mem0")
  have "opt_type bool_option = PARAM_BOOL" "opt_multivalued bool_option \<noteq> 0 \<or> opt_num_values bool_option \<le> 0"
    "opt_value_min bool_option = 0" "opt_value_max bool_option = 1"
    by (simp_all add: bool_option_def int_option_def)
  from bool_text_always_true[OF this answers_mem0 c] c show ?thesis
    by (auto simp: bool_option_def int_option_def split: if_splits)
qed

end
