(* ===== verification/Config_Api.thy ===== *)
theory Config_Api
  imports Config_Common
begin

text \<open>
  The configuration interface of plugins (\<open>src/config/api.c\<close>).  A function that writes through
  a pointer returns what it wrote beside its \<open>int\<close>.  \<open>None\<close> is undefined behaviour: a value read
  as the other member of its union, or a \<open>long\<close> written where only \<open>room\<close> bytes are available.
\<close>

section \<open>Defining options\<close>

text \<open>\<open>^[[:lower:]][_[:lower:]]*[[:lower:]]$\<close>\<close>

definition validate_name :: "string \<Rightarrow> int" where
  "validate_name name =
     (if 2 \<le> length name \<and> islower (hd name) \<and> islower (last name) \<and>
         list_all (\<lambda>c. c = CHR ''_'' \<or> islower c) (butlast (tl name))
      then 0 else -1)"

definition opt_setup_values :: "RappConfigParamType \<Rightarrow> ConfigOption \<Rightarrow> ConfigOption" where
  "opt_setup_values ty opt =
     (case ty of
        PARAM_BOOL \<Rightarrow> opt\<lparr>opt_value_min := 0, opt_value_max := 1, opt_default_value := DefInt 0,
                         opt_range_set := True\<rparr>
      | PARAM_INT \<Rightarrow> opt\<lparr>opt_value_min := LONG_MIN, opt_value_max := LONG_MAX, opt_default_value := DefInt 0\<rparr>
      | PARAM_STRING \<Rightarrow> opt\<lparr>opt_default_value := DefStr None, opt_value_min := 0, opt_value_max := 0\<rparr>)"

definition strdup_if :: "string option \<Rightarrow> mem \<Rightarrow> string option \<times> mem" where
  "strdup_if s m = (case s of None \<Rightarrow> (None, m) | Some s \<Rightarrow> memory_strdup s m)"

definition new_option ::
    "RappConfigParamType \<Rightarrow> string option \<Rightarrow> string \<Rightarrow> string option \<Rightarrow> mem \<Rightarrow> ConfigOption option \<times> mem" where
  "new_option ty help name metavar m =
     (let (p, m) = memory_create m in
      case p of
        None \<Rightarrow> (None, m)
      | Some _ \<Rightarrow>
         (let (h, m) = strdup_if help m in
          if help \<noteq> None \<and> h = None then (None, memory_destroy p m)
          else
            (let (nm, m) = memory_strdup name m in
             case nm of
               None \<Rightarrow> (None, memory_destroy p (if h \<noteq> None then memory_destroy h m else m))
             | Some nm \<Rightarrow>
                (let (mv, m) = strdup_if (if ty \<noteq> PARAM_BOOL then metavar else None) m in
                 (Some (opt_setup_values ty
                    \<lparr>opt_type = ty, opt_help = h, opt_name = nm, opt_range_set = False,
                     opt_value_min = 0, opt_value_max = 0, opt_multivalued = 0, opt_num_values = 0,
                     opt_default_value = DefInt 0, opt_default_set = False, opt_metavar = mv,
                     opt_no_override = False, opt_values = []\<rparr>), m)))))"

definition rapp_config_opt_add ::
    "string \<Rightarrow> string \<Rightarrow> RappConfigParamType \<Rightarrow> string option \<Rightarrow> string option \<Rightarrow> RappConfig \<Rightarrow> mem
      \<Rightarrow> int \<times> RappConfig \<times> mem" where
  "rapp_config_opt_add s name ty help metavar conf m =
     (if validate_name name \<noteq> 0 then (-1, conf, m)
      else if validate_name s \<noteq> 0 then (-1, conf, m)
      else
        (let (i, conf, m) = (case config_section_get conf s of
               Some i \<Rightarrow> (Some i, conf, m)
             | None \<Rightarrow> config_section_create s conf m) in
         case i of
           None \<Rightarrow> (-1, conf, m)
         | Some i \<Rightarrow>
            (let (opt, m) = new_option ty help name metavar m in
             case opt of
               None \<Rightarrow> (-1, conf, m)
             | Some opt \<Rightarrow>
                (let sect = cf_sections conf ! i in
                 (0, conf\<lparr>cf_sections := (cf_sections conf)[i :=
                        sect\<lparr>sect_options := sect_options sect @ [opt],
                             sect_num_opts := Suc (sect_num_opts sect)\<rparr>]\<rparr>, m)))))"

definition rapp_config_opt_set_range_int ::
    "string \<Rightarrow> string \<Rightarrow> int \<Rightarrow> int \<Rightarrow> RappConfig \<Rightarrow> int \<times> RappConfig" where
  "rapp_config_opt_set_range_int s name lo hi conf =
     (case GET_OPTION conf s name of
        None \<Rightarrow> (1, conf)
      | Some r \<Rightarrow>
          if opt_type (opt_at conf r) \<noteq> PARAM_INT then (-1, conf)
          else if hi \<le> lo then (-1, conf)
          else (0, put_opt r ((opt_at conf r)\<lparr>opt_value_min := lo, opt_value_max := hi,
                                 opt_range_set := True\<rparr>) conf))"

definition rapp_config_opt_set_multivalued ::
    "string \<Rightarrow> string \<Rightarrow> int \<Rightarrow> RappConfig \<Rightarrow> int \<times> RappConfig" where
  "rapp_config_opt_set_multivalued s name flag conf =
     (case GET_OPTION conf s name of
        None \<Rightarrow> (1, conf)
      | Some r \<Rightarrow> (0, put_opt r ((opt_at conf r)\<lparr>opt_multivalued := flag\<rparr>) conf))"

definition rapp_config_opt_set_default_string ::
    "string \<Rightarrow> string \<Rightarrow> string option \<Rightarrow> RappConfig \<Rightarrow> mem \<Rightarrow> int \<times> RappConfig \<times> mem" where
  "rapp_config_opt_set_default_string s name v conf m =
     (case v of
        None \<Rightarrow> (-1, conf, m)
      | Some v \<Rightarrow>
         (case GET_OPTION conf s name of
            None \<Rightarrow> (1, conf, m)
          | Some r \<Rightarrow>
             (let (d, m) = memory_strdup v m;
                  opt = (opt_at conf r)\<lparr>opt_default_value := DefStr d\<rparr> in
              if d = None then (-1, put_opt r opt conf, m)
              else (0, put_opt r (opt\<lparr>opt_default_set := True\<rparr>) conf, m))))"

definition rapp_config_opt_set_default_int ::
    "string \<Rightarrow> string \<Rightarrow> int \<Rightarrow> RappConfig \<Rightarrow> int \<times> RappConfig" where
  "rapp_config_opt_set_default_int s name v conf =
     (case GET_OPTION conf s name of
        None \<Rightarrow> (1, conf)
      | Some r \<Rightarrow> (0, put_opt r ((opt_at conf r)\<lparr>opt_default_value := DefInt v,
                                  opt_default_set := True\<rparr>) conf))"

definition rapp_config_opt_set_default_bool ::
    "string \<Rightarrow> string \<Rightarrow> int \<Rightarrow> RappConfig \<Rightarrow> int \<times> RappConfig" where
  "rapp_config_opt_set_default_bool s name v conf =
     (if v < 0 \<or> 1 < v then (-1, conf) else rapp_config_opt_set_default_int s name v conf)"

section \<open>Reading values\<close>

definition nth_value :: "ConfigOption \<Rightarrow> int \<Rightarrow> config_value option" where
  "nth_value opt position =
     (if nat position < length (opt_values opt) then Some (opt_values opt ! nat position) else None)"

text \<open>The result is the return value with the number written, if any.\<close>

definition rapp_config_get_nth_int ::
    "RappConfig \<Rightarrow> string \<Rightarrow> string \<Rightarrow> int \<Rightarrow> (int \<times> int option) option" where
  "rapp_config_get_nth_int conf s name position =
     (if position < 0 then Some (-1, None)
      else (case GET_OPTION conf s name of
          None \<Rightarrow> Some (1, None)
        | Some r \<Rightarrow>
           (let opt = opt_at conf r in
            if opt_type opt \<noteq> PARAM_INT \<and> opt_type opt \<noteq> PARAM_BOOL then Some (-1, None)
            else if opt_multivalued opt = 0 \<and> position \<noteq> 0 then Some (-1, None)
            else if opt_num_values opt = 0 \<and> opt_default_set opt then
              (if position = 0 then
                 (case opt_default_value opt of DefInt v \<Rightarrow> Some (0, Some v) | DefStr _ \<Rightarrow> None)
               else Some (-1, None))
            else if opt_num_values opt \<le> position then Some (-1, None)
            else (case nth_value opt position of
                    Some (IntValue v) \<Rightarrow> Some (0, Some v) | _ \<Rightarrow> None))))"

definition rapp_config_get_nth_bool ::
    "nat \<Rightarrow> RappConfig \<Rightarrow> string \<Rightarrow> string \<Rightarrow> int \<Rightarrow> (int \<times> int option) option" where
  "rapp_config_get_nth_bool room conf s name position =
     (case rapp_config_get_nth_int conf s name position of
        None \<Rightarrow> None
      | Some (ret, v) \<Rightarrow> if v \<noteq> None \<and> room < 8 then None else Some (ret, v))"

definition rapp_config_get_nth_string ::
    "RappConfig \<Rightarrow> string \<Rightarrow> string \<Rightarrow> int \<Rightarrow> mem \<Rightarrow> (int \<times> string option \<times> mem) option" where
  "rapp_config_get_nth_string conf s name position m =
     (if position < 0 then Some (-1, None, m)
      else (case GET_OPTION conf s name of
          None \<Rightarrow> Some (1, None, m)
        | Some r \<Rightarrow>
           (let opt = opt_at conf r in
            if opt_type opt \<noteq> PARAM_STRING \<or> opt_multivalued opt = 0 \<and> position \<noteq> 0 then Some (-1, None, m)
            else if opt_num_values opt = 0 \<and> opt_default_set opt then
              (if position = 0 then
                 (case opt_default_value opt of
                    DefStr (Some d) \<Rightarrow> (let (v, m) = memory_strdup d m in Some (0, v, m)) | _ \<Rightarrow> None)
               else Some (-1, None, m))
            else if opt_num_values opt \<le> position then Some (-1, None, m)
            else (case nth_value opt position of
                    Some (StrValue v) \<Rightarrow> (let (v, m) = memory_strdup v m in Some (0, v, m)) | _ \<Rightarrow> None))))"

definition rapp_config_get_num_values :: "RappConfig \<Rightarrow> string \<Rightarrow> string \<Rightarrow> int \<times> int option" where
  "rapp_config_get_num_values conf s name =
     (case GET_OPTION conf s name of
        None \<Rightarrow> (1, None) | Some r \<Rightarrow> (0, Some (opt_num_values (opt_at conf r))))"

section \<open>Every call keeps the store well formed\<close>

lemma strdup_if_owned: "strdup_if s m = (h, m') \<Longrightarrow> blocks m' = blocks m + opt_bit h"
  by (auto simp: strdup_if_def opt_bit_def mem_simps split: option.splits)

lemma setup_values_wf:
  assumes "opt_values opt = []" "opt_num_values opt = 0" "\<not> opt_default_set opt" "opt_type opt = ty"
  shows "opt_wf (opt_setup_values ty opt) \<and> opt_name (opt_setup_values ty opt) = opt_name opt \<and>
    opt_type (opt_setup_values ty opt) = ty \<and> opt_values (opt_setup_values ty opt) = [] \<and>
    option_owned (opt_setup_values ty opt) = 2 + opt_bit (opt_help opt) + opt_bit (opt_metavar opt)"
  using assms by (cases ty)
    (simp_all add: opt_setup_values_def opt_wf_def default_of_type_def option_owned_def default_owned_def)

lemma new_option_owned:
  assumes "new_option ty help name metavar m = (r, m')"
  shows "blocks m' = blocks m + (case r of None \<Rightarrow> 0 | Some opt \<Rightarrow> option_owned opt) \<and>
    (\<forall>opt. r = Some opt \<longrightarrow> opt_wf opt \<and> opt_name opt = name \<and> opt_type opt = ty \<and> opt_values opt = [])"
proof -
  obtain p m1 where p: "memory_create m = (p, m1)" by fastforce
  obtain h m2 where h: "strdup_if help m1 = (h, m2)" by fastforce
  obtain nm m3 where nm: "memory_strdup name m2 = (nm, m3)" by fastforce
  obtain mv m4 where mv: "strdup_if (if ty \<noteq> PARAM_BOOL then metavar else None) m3 = (mv, m4)" by fastforce
  have b: "blocks m2 = blocks m1 + opt_bit h" "blocks m4 = blocks m3 + opt_bit mv"
    using h mv by (simp_all only: strdup_if_owned)
  show ?thesis
  proof (cases "p = None \<or> help \<noteq> None \<and> h = None \<or> nm = None")
    case True
    with assms p h nm b show ?thesis
      by (cases p; cases h; cases nm)
        (auto simp: new_option_def opt_bit_def dest!: memory_create_Some memory_create_None
          memory_strdup_None memory_strdup_SomeD split: if_splits)
  next
    case False
    then obtain a n where some: "p = Some a" "nm = Some n" "\<not> (help \<noteq> None \<and> h = None)" by auto
    with assms p h nm mv have r: "r = Some (opt_setup_values ty
        \<lparr>opt_type = ty, opt_help = h, opt_name = n, opt_range_set = False, opt_value_min = 0,
         opt_value_max = 0, opt_multivalued = 0, opt_num_values = 0, opt_default_value = DefInt 0,
         opt_default_set = False, opt_metavar = mv, opt_no_override = False, opt_values = []\<rparr>)" "m' = m4"
      by (auto simp: new_option_def)
    have "blocks m1 = blocks m + 1" "n = name" "blocks m3 = blocks m2 + 1"
      using p nm some memory_create_Some[of m a m1] memory_strdup_SomeD[of name m2 n m3] by auto
    with b show ?thesis unfolding r by (simp add: setup_values_wf)
  qed
qed

lemma section_create_result:
  assumes "config_section_create s conf m = (i, conf', m')" "config_wf conf"
  shows "config_wf conf' \<and> blocks m' - config_owned conf' = blocks m - config_owned conf \<and>
    (\<forall>k. i = Some k \<longrightarrow> k < length (cf_sections conf'))"
  using assms
  by (auto simp: config_section_create_def config_wf_def config_owned_def section_owned_def mem_simps
      dest!: memory_strdup_SomeD split: prod.splits option.splits)

lemma section_append_option:
  assumes "config_wf conf" "i < length (cf_sections conf)" "opt_wf opt"
  defines "sect \<equiv> cf_sections conf ! i"
  defines "conf' \<equiv> conf\<lparr>cf_sections := (cf_sections conf)[i :=
      sect\<lparr>sect_options := sect_options sect @ [opt], sect_num_opts := Suc (sect_num_opts sect)\<rparr>]\<rparr>"
  shows "config_wf conf'" "config_owned conf' = config_owned conf + option_owned opt"
proof -
  let ?new = "sect\<lparr>sect_options := sect_options sect @ [opt], sect_num_opts := Suc (sect_num_opts sect)\<rparr>"
  have "sect \<in> set (cf_sections conf)" using assms(2) by (simp add: sect_def)
  with assms(1,3) have "section_wf ?new" by (auto simp: config_wf_sections section_wf_def)
  then show "config_wf conf'" unfolding conf'_def by (rule config_wf_update[OF assms(1)])
  show "config_owned conf' = config_owned conf + option_owned opt"
    using assms(2) by (simp add: config_owned_def conf'_def map_update sum_list_update_int
        section_owned_def sect_def)
qed

lemma opt_add_keeps:
  assumes "rapp_config_opt_add s name ty help metavar conf m = (ret, conf', m')" "config_wf conf"
  shows "config_wf conf' \<and> blocks m' - config_owned conf' = blocks m - config_owned conf"
proof (cases "validate_name name \<noteq> 0 \<or> validate_name s \<noteq> 0")
  case True
  with assms show ?thesis by (auto simp: rapp_config_opt_add_def split: if_splits)
next
  case False
  obtain i conf1 m1 where sec: "(case config_section_get conf s of
      Some i \<Rightarrow> (Some i, conf, m) | None \<Rightarrow> config_section_create s conf m) = (i, conf1, m1)"
    by (metis prod_cases3)
  have conf1: "config_wf conf1" "blocks m1 - config_owned conf1 = blocks m - config_owned conf"
    "\<forall>k. i = Some k \<longrightarrow> k < length (cf_sections conf1)"
    using sec assms(2) section_create_result
    by (force simp: config_section_get_def dest: index_of_Some split: option.splits)+
  show ?thesis
  proof (cases i)
    case None
    with assms(1) False sec conf1 show ?thesis by (auto simp: rapp_config_opt_add_def)
  next
    case (Some k)
    obtain r m2 where new: "new_option ty help name metavar m1 = (r, m2)" by fastforce
    show ?thesis
    proof (cases r)
      case None
      with assms(1) False sec Some conf1 new new_option_owned[OF new] show ?thesis
        by (auto simp: rapp_config_opt_add_def)
    next
      case (Some opt)
      with new_option_owned[OF new] have opt: "opt_wf opt" "blocks m2 = blocks m1 + option_owned opt"
        by auto
      note app = section_append_option[OF conf1(1) _ opt(1), of k]
      show ?thesis using assms(1) False sec Some \<open>i = Some k\<close> conf1 new opt(2) app
        by (auto simp: rapp_config_opt_add_def Let_def)
    qed
  qed
qed

lemma has_boolean_grows:
  assumes "has_boolean conf"
    and "\<And>sect. sect \<in> set (cf_sections conf) \<Longrightarrow>
      \<exists>sect' \<in> set (cf_sections conf'). set (sect_options sect) \<subseteq> set (sect_options sect')"
  shows "has_boolean conf'"
  using assms unfolding has_boolean_iff by blast

lemma new_option_lib: "new_option ty help name metavar m = (r, m') \<Longrightarrow> lib_blocks m' = lib_blocks m"
  by (auto simp: new_option_def strdup_if_def Let_def dest!: lib_kept split: if_splits prod.splits option.splits)

lemma section_create_cost:
  assumes "config_section_create s conf m = (i, conf', m')"
  shows "lib_cost (conf, m) (conf', m')"
proof -
  have "lib_blocks m' = lib_blocks m"
    using assms by (auto simp: config_section_create_def dest!: lib_kept split: prod.splits option.splits)
  moreover have "conf' = conf \<or> (\<exists>nm. cf_sections conf' = cf_sections conf @
      [\<lparr>sect_name = nm, sect_num_opts = 0, sect_options = []\<rparr>])"
    using assms by (auto simp: config_section_create_def split: prod.splits option.splits)
  then have "has_boolean conf' = has_boolean conf" by (elim disjE exE) (simp_all add: has_boolean_iff)
  ultimately show ?thesis by (simp add: lib_cost_def)
qed

lemma section_append_grows:
  assumes "has_boolean conf"
  shows "has_boolean (conf\<lparr>cf_sections := (cf_sections conf)[i := (cf_sections conf ! i)
    \<lparr>sect_options := sect_options (cf_sections conf ! i) @ [opt], sect_num_opts := n\<rparr>]\<rparr>)"
    (is "has_boolean ?conf")
proof (rule has_boolean_grows[OF assms])
  fix sect assume "sect \<in> set (cf_sections conf)"
  then obtain j where j: "j < length (cf_sections conf)" "sect = cf_sections conf ! j" by (metis in_set_conv_nth)
  then have "cf_sections ?conf ! j \<in> set (cf_sections ?conf)" by (intro nth_mem) simp
  moreover have "set (sect_options sect) \<subseteq> set (sect_options (cf_sections ?conf ! j))"
    using j by (cases "i = j") auto
  ultimately show "\<exists>sect' \<in> set (cf_sections ?conf). set (sect_options sect) \<subseteq> set (sect_options sect')" by blast
qed

lemma opt_add_cost:
  assumes "rapp_config_opt_add s name ty help metavar conf m = (ret, conf', m')"
  shows "lib_cost (conf, m) (conf', m')"
proof (cases "validate_name name \<noteq> 0 \<or> validate_name s \<noteq> 0")
  case True
  with assms show ?thesis by (auto simp: rapp_config_opt_add_def split: if_splits)
next
  case False
  obtain i conf1 m1 where sec: "(case config_section_get conf s of
      Some i \<Rightarrow> (Some i, conf, m) | None \<Rightarrow> config_section_create s conf m) = (i, conf1, m1)"
    by (metis prod_cases3)
  have cost: "lib_cost (conf, m) (conf1, m1)" using sec section_create_cost by (auto split: option.splits)
  show ?thesis
  proof (cases i)
    case None
    with assms False sec cost show ?thesis by (simp add: rapp_config_opt_add_def)
  next
    case (Some k)
    obtain r m2 where new: "new_option ty help name metavar m1 = (r, m2)" by fastforce
    show ?thesis
    proof (cases r)
      case None
      with assms False sec Some cost new new_option_lib[OF new] show ?thesis
        by (simp add: rapp_config_opt_add_def lib_cost_def)
    next
      case (Some opt)
      with assms False sec \<open>i = Some k\<close> cost new new_option_lib[OF new] section_append_grows[of conf1, where i = k and opt = opt] show ?thesis
        by (auto simp: rapp_config_opt_add_def lib_cost_def Let_def)
    qed
  qed
qed

text \<open>Changing the range or the flag of an option.\<close>

lemma put_settings_keeps:
  assumes "config_wf conf" "valid_ref conf r"
    and "opt_wf opt" "option_owned opt = option_owned (opt_at conf r)"
  shows "config_wf (put_opt r opt conf) \<and> config_owned (put_opt r opt conf) = config_owned conf"
  using assms by (simp add: put_opt_wf put_opt_owned)

lemma settings_simps [simp]:
  "opt_wf (opt\<lparr>opt_value_min := lo, opt_value_max := hi, opt_range_set := b\<rparr>) = opt_wf opt"
  "option_owned (opt\<lparr>opt_value_min := lo, opt_value_max := hi, opt_range_set := b\<rparr>) = option_owned opt"
  "opt_wf (opt\<lparr>opt_multivalued := f\<rparr>) = opt_wf opt"
  "option_owned (opt\<lparr>opt_multivalued := f\<rparr>) = option_owned opt"
  by (simp_all add: opt_wf_def option_owned_def default_owned_def)

lemma set_range_keeps:
  assumes "rapp_config_opt_set_range_int s name lo hi conf = (ret, conf')" "config_wf conf"
  shows "config_wf conf' \<and> config_owned conf' = config_owned conf"
proof (cases "GET_OPTION conf s name")
  case (Some r)
  note r = GET_OPTION_valid[OF Some]
  show ?thesis using assms Some put_settings_keeps[OF assms(2) r] opt_at_wf[OF assms(2) r]
    by (auto simp: rapp_config_opt_set_range_int_def split: if_splits)
qed (use assms in \<open>auto simp: rapp_config_opt_set_range_int_def\<close>)

lemma set_multivalued_keeps:
  assumes "rapp_config_opt_set_multivalued s name flag conf = (ret, conf')" "config_wf conf"
  shows "config_wf conf' \<and> config_owned conf' = config_owned conf"
proof (cases "GET_OPTION conf s name")
  case (Some r)
  note r = GET_OPTION_valid[OF Some]
  show ?thesis using assms Some put_settings_keeps[OF assms(2) r] opt_at_wf[OF assms(2) r]
    by (auto simp: rapp_config_opt_set_multivalued_def)
qed (use assms in \<open>auto simp: rapp_config_opt_set_multivalued_def\<close>)

text \<open>
  Setting a default.  A text is the store's when the option takes texts and has no default yet: an older text would
  be lost, and an option of another type would not release it.  A number does not belong into an option that takes
  texts, which would release it as a pointer.
\<close>

definition takes_default_text :: "ConfigOption \<Rightarrow> bool" where
  "takes_default_text opt \<longleftrightarrow> opt_type opt = PARAM_STRING \<and> \<not> opt_default_set opt"

lemma default_text_keeps:
  assumes "rapp_config_opt_set_default_string s n v conf m = (ret, conf', m')" "config_wf conf"
    and "\<And>r. GET_OPTION conf s n = Some r \<Longrightarrow> takes_default_text (opt_at conf r)"
  shows "config_wf conf' \<and> blocks m' - config_owned conf' = blocks m - config_owned conf"
proof (cases "v = None \<or> GET_OPTION conf s n = None")
  case True
  with assms(1,2) show ?thesis by (auto simp: rapp_config_opt_set_default_string_def split: option.splits)
next
  case False
  then obtain t r where r: "v = Some t" "GET_OPTION conf s n = Some r" by auto
  note v = GET_OPTION_valid[OF r(2)]
  let ?opt = "opt_at conf r"
  have opt: "opt_wf ?opt" "opt_type ?opt = PARAM_STRING" "\<not> opt_default_set ?opt"
    using opt_at_wf[OF assms(2) v] assms(3)[OF r(2)] by (simp_all add: takes_default_text_def)
  obtain d opt' where d: "memory_strdup t m = (d, m')" "conf' = put_opt r opt' conf"
    "opt' = (if d = None then ?opt\<lparr>opt_default_value := DefStr d\<rparr>
       else ?opt\<lparr>opt_default_value := DefStr d, opt_default_set := True\<rparr>)"
    using assms(1) r by (auto simp: rapp_config_opt_set_default_string_def Let_def split: prod.splits if_splits)
  have "opt_wf opt'" "option_owned opt' = option_owned ?opt + opt_bit d"
    using opt unfolding d(3)
    by (auto simp: opt_wf_def default_of_type_def option_owned_def default_owned_def opt_bit_def split: option.split)
  moreover have "blocks m' = blocks m + opt_bit d"
    using d(1) by (cases d) (auto simp: opt_bit_def mem_simps)
  ultimately show ?thesis using d(2) assms(2) v by (simp add: put_opt_wf put_opt_owned)
qed

lemma default_number_keeps:
  assumes "rapp_config_opt_set_default_int s n v conf = (ret, conf')" "config_wf conf"
    and "\<And>r. GET_OPTION conf s n = Some r \<Longrightarrow> opt_type (opt_at conf r) \<noteq> PARAM_STRING"
  shows "config_wf conf' \<and> config_owned conf' = config_owned conf"
proof (cases "GET_OPTION conf s n")
  case (Some r)
  note r = GET_OPTION_valid[OF Some]
  have c: "conf' = put_opt r ((opt_at conf r)\<lparr>opt_default_value := DefInt v, opt_default_set := True\<rparr>) conf"
    using assms(1) Some by (simp add: rapp_config_opt_set_default_int_def)
  show ?thesis unfolding c
    by (rule put_settings_keeps[OF assms(2) r])
      (use opt_at_wf[OF assms(2) r] assms(3)[OF Some]
        in \<open>simp_all add: opt_wf_def default_of_type_def option_owned_def default_owned_def\<close>)
qed (use assms in \<open>auto simp: rapp_config_opt_set_default_int_def\<close>)

text \<open>None of the settings costs an object of the C library.\<close>

lemma setters_cost:
  "rapp_config_opt_set_range_int s n lo hi conf = (ret, conf') \<Longrightarrow> lib_cost (conf, m) (conf', m)"
  "rapp_config_opt_set_default_string s n t conf m = (ret, conf', m') \<Longrightarrow> lib_cost (conf, m) (conf', m')"
  "rapp_config_opt_set_default_int s n v conf = (ret, conf') \<Longrightarrow> lib_cost (conf, m) (conf', m)"
  "rapp_config_opt_set_multivalued s n f conf = (ret, conf') \<Longrightarrow> lib_cost (conf, m) (conf', m)"
  by (auto simp: rapp_config_opt_set_range_int_def rapp_config_opt_set_default_string_def Let_def
      rapp_config_opt_set_default_int_def rapp_config_opt_set_multivalued_def
      dest!: lib_kept intro!: put_opt_cost GET_OPTION_valid split: option.splits if_splits prod.splits)

lemma add_value_int_update:
  "config_add_value_int s name v conf m =
     (case GET_OPTION conf s name of
        None \<Rightarrow> (1, conf, m)
      | Some r \<Rightarrow> (let (ret, conf, m) = config_update (opt_add_value_int v) r conf m in
                 (if ret \<noteq> 0 then -1 else 0, conf, m)))"
  by (simp add: config_add_value_int_def config_update_def split: option.split prod.split)

lemma add_value_string_update:
  "config_add_value_string s name v conf m =
     (case GET_OPTION conf s name of
        None \<Rightarrow> (1, conf, m)
      | Some r \<Rightarrow> (let (ret, conf, m) = config_update (opt_add_value_string v) r conf m in
                 (if ret \<noteq> 0 then -1 else 0, conf, m)))"
  by (simp add: config_add_value_string_def config_update_def split: option.split prod.split)

section \<open>Life cycle\<close>

datatype config_call =
    Opt_add string string RappConfigParamType "string option" "string option"
  | Set_range string string int int
  | Set_multivalued string string int
  | Set_default_string string string "string option"
  | Set_default_int string string int
  | Set_default_bool string string int
  | Add_int string string int
  | Add_string string string "string option"
  | Add_text string string string

fun config_call_step :: "config_call \<Rightarrow> RappConfig \<times> mem \<Rightarrow> RappConfig \<times> mem" where
  "config_call_step (Opt_add s n ty h mv) (conf, m) = snd (rapp_config_opt_add s n ty h mv conf m)"
| "config_call_step (Set_range s n lo hi) (conf, m) = (snd (rapp_config_opt_set_range_int s n lo hi conf), m)"
| "config_call_step (Set_multivalued s n f) (conf, m) = (snd (rapp_config_opt_set_multivalued s n f conf), m)"
| "config_call_step (Set_default_string s n v) (conf, m) = snd (rapp_config_opt_set_default_string s n v conf m)"
| "config_call_step (Set_default_int s n v) (conf, m) = (snd (rapp_config_opt_set_default_int s n v conf), m)"
| "config_call_step (Set_default_bool s n v) (conf, m) = (snd (rapp_config_opt_set_default_bool s n v conf), m)"
| "config_call_step (Add_int s n v) (conf, m) = snd (config_add_value_int s n v conf m)"
| "config_call_step (Add_string s n v) (conf, m) = snd (config_add_value_string s n v conf m)"
| "config_call_step (Add_text s n v) (conf, m) =
     (case GET_OPTION conf s n of
        None \<Rightarrow> (conf, m)
      | Some r \<Rightarrow> snd (config_update (config_add_value_from_string v) r conf m))"

text \<open>Which calls fit: a default has the type of its option, and a text is the first default of its option.\<close>

fun call_fits :: "config_call \<Rightarrow> RappConfig \<times> mem \<Rightarrow> bool" where
  "call_fits (Set_default_string s n v) cm =
     (case GET_OPTION (fst cm) s n of None \<Rightarrow> True | Some r \<Rightarrow> takes_default_text (opt_at (fst cm) r))"
| "call_fits (Set_default_int s n v) cm =
     (case GET_OPTION (fst cm) s n of None \<Rightarrow> True | Some r \<Rightarrow> opt_type (opt_at (fst cm) r) \<noteq> PARAM_STRING)"
| "call_fits (Set_default_bool s n v) cm =
     (case GET_OPTION (fst cm) s n of None \<Rightarrow> True | Some r \<Rightarrow> opt_type (opt_at (fst cm) r) \<noteq> PARAM_STRING)"
| "call_fits c cm = True"

abbreviation calls_fit :: "config_call list \<Rightarrow> RappConfig \<times> mem \<Rightarrow> bool" where
  "calls_fit \<equiv> steps_fit call_fits config_call_step"

text \<open>An operation on one option, looked up by name, as a step of the store.\<close>

definition at_option ::
    "(ConfigOption \<Rightarrow> mem \<Rightarrow> int \<times> ConfigOption \<times> mem) \<Rightarrow> string \<Rightarrow> string \<Rightarrow> RappConfig \<times> mem
      \<Rightarrow> RappConfig \<times> mem" where
  "at_option op s n cm =
     (case GET_OPTION (fst cm) s n of
        None \<Rightarrow> cm | Some r \<Rightarrow> snd (config_update op r (fst cm) (snd cm)))"

lemma call_step_at_option:
  "config_call_step (Add_int s n v) cm = at_option (opt_add_value_int v) s n cm"
  "config_call_step (Add_string s n t) cm = at_option (opt_add_value_string t) s n cm"
  "config_call_step (Add_text s n u) cm = at_option (config_add_value_from_string u) s n cm"
  by (cases cm; simp add: at_option_def add_value_int_update add_value_string_update
      split: option.split prod.split)+

text \<open>
  What a call does to the account of the store: the blocks that are not the store's stay what they are, and the C
  library's objects are at most those of boolean options.
\<close>

definition call_account :: "RappConfig \<times> mem \<Rightarrow> RappConfig \<times> mem \<Rightarrow> bool" where
  "call_account cm cm' \<longleftrightarrow> blocks (snd cm') - config_owned (fst cm') = blocks (snd cm) - config_owned (fst cm) \<and>
     lib_cost cm cm'"

definition call_keeps :: "RappConfig \<times> mem \<Rightarrow> RappConfig \<times> mem \<Rightarrow> bool" where
  "call_keeps cm cm' \<longleftrightarrow> config_wf (fst cm') \<and> call_account cm cm'"

lemma call_keeps_refl: "call_keeps cm cm \<longleftrightarrow> config_wf (fst cm)"
  by (simp add: call_keeps_def call_account_def)

context option_operation
begin

lemma at_option_keeps:
  assumes wf: "config_wf (fst cm)"
  shows "call_keeps cm (at_option op s n cm)"
proof (cases "GET_OPTION (fst cm) s n")
  case (Some r)
  note r = GET_OPTION_valid[OF Some]
  obtain ret opt m' where u: "op (opt_at (fst cm) r) (snd cm) = (ret, opt, m')"
    by (cases "op (opt_at (fst cm) r) (snd cm)")
  have "lib_cost (fst cm, snd cm) (put_opt r opt (fst cm), m')"
    using op_lib[OF opt_at_wf[OF wf r] u] by (intro put_opt_cost[OF r]) simp_all
  with update_store[OF wf r, of "snd cm" ret "put_opt r opt (fst cm)" m'] Some u show ?thesis
    by (simp add: at_option_def config_update_def call_keeps_def call_account_def)
qed (use wf in \<open>simp add: at_option_def call_keeps_refl\<close>)

end

lemma config_call_keeps:
  assumes "config_wf (fst cm)" "call_fits c cm"
  shows "call_keeps cm (config_call_step c cm)"
proof -
  obtain conf m where cm: "cm = (conf, m)" by fastforce
  note wf = assms(1)[unfolded cm fst_conv]
  note defs = call_keeps_def call_account_def cm
  show ?thesis
  proof (cases c)
    case (Opt_add s n ty h mv)
    obtain ret conf' m' where u: "rapp_config_opt_add s n ty h mv conf m = (ret, conf', m')"
      by (cases "rapp_config_opt_add s n ty h mv conf m")
    from opt_add_keeps[OF u wf] opt_add_cost[OF u] u show ?thesis by (simp add: Opt_add defs)
  next
    case (Set_range s n lo hi)
    obtain ret conf' where u: "rapp_config_opt_set_range_int s n lo hi conf = (ret, conf')" by fastforce
    from set_range_keeps[OF u wf] setters_cost(1)[OF u] u show ?thesis by (simp add: Set_range defs)
  next
    case (Set_multivalued s n f)
    obtain ret conf' where u: "rapp_config_opt_set_multivalued s n f conf = (ret, conf')" by fastforce
    from set_multivalued_keeps[OF u wf] setters_cost(4)[OF u] u show ?thesis by (simp add: Set_multivalued defs)
  next
    case (Set_default_string s n v)
    obtain ret conf' m' where u: "rapp_config_opt_set_default_string s n v conf m = (ret, conf', m')"
      by (cases "rapp_config_opt_set_default_string s n v conf m")
    have "takes_default_text (opt_at conf r)" if "GET_OPTION conf s n = Some r" for r
      using assms(2) that by (simp add: Set_default_string cm)
    from default_text_keeps[OF u wf this] setters_cost(2)[OF u] u show ?thesis by (simp add: Set_default_string defs)
  next
    case (Set_default_int s n v)
    obtain ret conf' where u: "rapp_config_opt_set_default_int s n v conf = (ret, conf')" by fastforce
    have "opt_type (opt_at conf r) \<noteq> PARAM_STRING" if "GET_OPTION conf s n = Some r" for r
      using assms(2) that by (simp add: Set_default_int cm)
    from default_number_keeps[OF u wf this] setters_cost(3)[OF u] u show ?thesis by (simp add: Set_default_int defs)
  next
    case (Set_default_bool s n v)
    obtain ret conf' where u: "rapp_config_opt_set_default_int s n v conf = (ret, conf')" by fastforce
    have "opt_type (opt_at conf r) \<noteq> PARAM_STRING" if "GET_OPTION conf s n = Some r" for r
      using assms(2) that by (simp add: Set_default_bool cm)
    from default_number_keeps[OF u wf this] setters_cost(3)[OF u] u wf show ?thesis
      by (simp add: Set_default_bool rapp_config_opt_set_default_bool_def defs)
  next
    case (Add_int s n v)
    with add_int.at_option_keeps[OF assms(1)] show ?thesis by (simp add: call_step_at_option)
  next
    case (Add_string s n v)
    with add_string.at_option_keeps[OF assms(1)] show ?thesis by (simp add: call_step_at_option)
  next
    case (Add_text s n v)
    with add_text.at_option_keeps[OF assms(1)] show ?thesis by (simp add: call_step_at_option)
  qed
qed

interpretation config_calls:
  guarded_stepper config_call_step call_fits "\<lambda>cm. config_wf (fst cm)" call_account
  by unfold_locales
    (use config_call_keeps in \<open>auto simp: call_keeps_def call_account_def intro: lib_cost_trans\<close>)

lemma put_opt_argp [simp]:
  "cf_num_argp_options (put_opt r opt conf) = cf_num_argp_options conf"
  "cf_options (put_opt r opt conf) = cf_options conf"
  "cf_options_map (put_opt r opt conf) = cf_options_map conf"
  by (simp_all add: put_opt_def Let_def)

definition argp_of :: "RappConfig \<Rightarrow> nat \<times> argp_option list option \<times> opt_ref option list option" where
  "argp_of conf = (cf_num_argp_options conf, cf_options conf, cf_options_map conf)"

lemma argp_of_simps [simp]:
  "argp_of (put_opt r opt conf) = argp_of conf" "argp_of (conf\<lparr>cf_sections := ss\<rparr>) = argp_of conf"
  by (simp_all add: argp_of_def)

lemma opt_add_argp: "rapp_config_opt_add s n ty h mv conf m = (ret, conf', m') \<Longrightarrow> argp_of conf' = argp_of conf"
  by (auto simp: rapp_config_opt_add_def config_section_create_def Let_def
      split: if_splits option.splits prod.splits)

lemma setters_argp:
  "rapp_config_opt_set_range_int s n lo hi conf = (ret, conf') \<Longrightarrow> argp_of conf' = argp_of conf"
  "rapp_config_opt_set_default_string s n t conf m = (ret, conf', m') \<Longrightarrow> argp_of conf' = argp_of conf"
  "rapp_config_opt_set_default_int s n v conf = (ret, conf') \<Longrightarrow> argp_of conf' = argp_of conf"
  "rapp_config_opt_set_multivalued s n f conf = (ret, conf') \<Longrightarrow> argp_of conf' = argp_of conf"
  by (auto simp: rapp_config_opt_set_range_int_def rapp_config_opt_set_default_string_def Let_def
      rapp_config_opt_set_default_int_def rapp_config_opt_set_multivalued_def
      split: option.splits if_splits prod.splits)

lemma call_keeps_argp: "argp_of (fst (config_call_step c cm)) = argp_of (fst cm)"
proof (cases c)
  case (Opt_add s n ty h mv)
  obtain ret conf' m' where u: "rapp_config_opt_add s n ty h mv (fst cm) (snd cm) = (ret, conf', m')"
    by (cases "rapp_config_opt_add s n ty h mv (fst cm) (snd cm)")
  with opt_add_argp[OF u] show ?thesis by (cases cm) (simp add: Opt_add)
qed (cases cm; auto simp: call_step_at_option at_option_def config_update_def rapp_config_opt_set_range_int_def
    rapp_config_opt_set_multivalued_def rapp_config_opt_set_default_string_def rapp_config_opt_set_default_int_def
    rapp_config_opt_set_default_bool_def Let_def simp del: config_call_step.simps(7-9)
    split: option.splits prod.splits if_splits)+

lemma calls_keep_argp: "argp_of (fst (fold config_call_step calls cm)) = argp_of (fst cm)"
  by (induction calls arbitrary: cm) (simp_all add: call_keeps_argp)

text \<open>
  C25: From \<open>config_new\<close> through any sequence of calls that define options, change their ranges, multiplicity and
  defaults and add values, whichever allocations fail, to \<open>config_destroy\<close>.  The arguments are arbitrary but for the
  defaults: a default has the type of its option, and a text is given as a default once, where the option has none
  (the functions do not check this; \<open>default_text_lost\<close> and \<open>default_number_freed\<close> show what happens otherwise).  Then
  every stored value has the type of its option, and destroying the store releases every block that was taken exactly
  once.  The patterns that the C library compiles for the text of a boolean option are another matter: they are not
  released, so the number of the library's objects never falls, and it is what it was when the store has no
  boolean option.
\<close>

theorem config_lifecycle_balanced:
  assumes "config_new m = (Some conf, m1)"
    and "calls_fit calls (conf, m1)" "fold config_call_step calls (conf, m1) = (conf', m2)"
  shows "\<exists>m3. config_destroy conf' m2 = Some m3 \<and> blocks m3 = blocks m \<and>
    lib_blocks m \<le> lib_blocks m3 \<and> (lib_blocks m3 = lib_blocks m \<or> has_boolean conf') \<and>
    (\<forall>s n r. GET_OPTION conf' s n = Some r \<longrightarrow>
       list_all (value_of_type (opt_type (opt_at conf' r))) (opt_values (opt_at conf' r)))"
proof -
  have new: "config_wf conf" "blocks m1 - config_owned conf = blocks m" "lib_blocks m1 = lib_blocks m"
    using assms(1) by (auto simp: config_new_def config_wf_def config_owned_def mem_simps dest: lib_kept
        split: prod.splits option.splits)
  have wf: "config_wf conf'" and bal: "blocks m2 - config_owned conf' = blocks m"
    and lib: "lib_blocks m \<le> lib_blocks m2" "lib_blocks m2 = lib_blocks m \<or> has_boolean conf'"
    using config_calls.fold_fit[of "(conf, m1)" calls] new assms(2,3) by (auto simp: call_account_def lib_cost_def)
  have plain: "cf_num_argp_options conf' = 0" "cf_options conf' = None" "cf_options_map conf' = None"
    using calls_keep_argp[of calls "(conf, m1)"] assms(1,3)
    by (auto simp: config_new_def argp_of_def split: prod.splits option.splits)
  have "list_all (value_of_type (opt_type (opt_at conf' r))) (opt_values (opt_at conf' r))"
    if h: "GET_OPTION conf' s n = Some r" for s n r
    using opt_at_wf[OF wf GET_OPTION_valid[OF h]] by (simp add: opt_wf_def list_all_iff)
  with config_destroy_owned[OF wf plain, of m2] bal lib config_destroy_lib show ?thesis by metis
qed

definition example_calls :: "config_call list" where
  "example_calls =
     [Opt_add ''core'' ''port'' PARAM_INT (Some ''the port'') None,
      Opt_add ''core'' ''host'' PARAM_STRING None (Some ''HOST''),
      Add_text ''core'' ''port'' ''8080'', Add_string ''core'' ''host'' (Some ''localhost''),
      Set_default_string ''core'' ''host'' (Some ''127.0.0.1''), Set_default_int ''core'' ''port'' 80,
      Add_int ''core'' ''host'' 3]"

lemma example_fits: "calls_fit example_calls (the (fst (config_new mem0)), snd (config_new mem0))"
  by code_simp

theorem config_lifecycle_balanced_witness:
  "\<exists>conf m1 conf' m2 m3. config_new mem0 = (Some conf, m1) \<and>
     fold config_call_step example_calls (conf, m1) = (conf', m2) \<and>
     config_destroy conf' m2 = Some m3 \<and> blocks m3 = 0"
proof -
  obtain conf m1 where n: "config_new mem0 = (Some conf, m1)" by (simp add: config_new_def)
  have fit: "calls_fit example_calls (conf, m1)" using example_fits by (simp only: n fst_conv snd_conv option.sel)
  obtain conf' m2 where c: "fold config_call_step example_calls (conf, m1) = (conf', m2)" by fastforce
  from config_lifecycle_balanced[OF n fit c] n c show ?thesis by auto
qed

text \<open>A second default loses the text of the first; a number in an option that takes texts is released as a pointer.\<close>

lemma default_text_lost:
  assumes "rapp_config_opt_set_default_string s n (Some v) conf m = (0, conf', m')" "config_wf conf"
    and "GET_OPTION conf s n = Some r" "opt_type (opt_at conf r) = PARAM_STRING"
    and "opt_default_set (opt_at conf r)" "opt_default_value (opt_at conf r) = DefStr (Some old)"
  shows "blocks m' - config_owned conf' = blocks m - config_owned conf + 1"
proof -
  note r = GET_OPTION_valid[OF assms(3)]
  obtain d where d: "memory_strdup v m = (Some d, m')"
    "conf' = put_opt r ((opt_at conf r)\<lparr>opt_default_value := DefStr (Some d), opt_default_set := True\<rparr>) conf"
    using assms(1,3) by (auto simp: rapp_config_opt_set_default_string_def Let_def split: prod.splits if_splits)
  have "option_owned ((opt_at conf r)\<lparr>opt_default_value := DefStr (Some d), opt_default_set := True\<rparr>) =
      option_owned (opt_at conf r)"
    using assms(4-6) by (simp add: option_owned_def default_owned_def opt_bit_def)
  with d r assms(2) memory_strdup_Some[OF d(1)] show ?thesis by (simp add: put_opt_owned)
qed

lemma default_number_freed:
  assumes "rapp_config_opt_set_default_int s n v conf = (0, conf')"
    and "GET_OPTION conf s n = Some r" "opt_type (opt_at conf r) = PARAM_STRING"
  shows "config_option_destroy (opt_at conf' r) m = None"
  using assms(1,2,3) GET_OPTION_valid[OF assms(2)]
  by (auto simp: rapp_config_opt_set_default_int_def config_option_destroy_def config_option_remove_all_values_def
      split: Option.bind_split)

text \<open>
  A string added to an option is read back at the position after the values that were
  there, which keep their positions; the count grows by one and no other option changes.
\<close>

theorem string_read_back:
  assumes "config_wf conf" "GET_OPTION conf s n = Some r"
    and "config_add_value_string s n (Some v) conf m = (0, conf', m')" "answers m' = []"
  shows "(\<exists>m''. rapp_config_get_nth_string conf' s n (opt_num_values (opt_at conf r)) m' = Some (0, Some v, m'')) \<and>
    take (length (opt_values (opt_at conf r))) (opt_values (opt_at conf' r)) = opt_values (opt_at conf r) \<and>
    rapp_config_get_num_values conf' s n = (0, Some (opt_num_values (opt_at conf r) + 1)) \<and>
    (\<forall>r'. r' \<noteq> r \<longrightarrow> opt_at conf' r' = opt_at conf r')"
proof -
  note r = GET_OPTION_valid[OF assms(2)]
  let ?opt = "opt_at conf r"
  have wf: "opt_num_values ?opt = int (length (opt_values ?opt))"
    using opt_at_wf[OF assms(1) r] by (simp add: opt_wf_def)
  obtain ret opt where add: "opt_add_value_string (Some v) ?opt m = (ret, opt, m')"
    "conf' = put_opt r opt conf" "ret = 0"
    using assms(2,3) by (auto simp: config_add_value_string_def split: prod.splits if_splits)
  from opt_add_string_cases[OF add(1)] add(3)
  have opt: "opt_type ?opt = PARAM_STRING" "opt = ?opt\<lparr>opt_num_values := opt_num_values ?opt + 1,
      opt_values := opt_values ?opt @ [StrValue v]\<rparr>" by auto
  have single: "opt_multivalued ?opt = 0 \<Longrightarrow> opt_num_values ?opt = 0"
    using add(1,3) wf by (auto simp: opt_add_value_string_def split: if_splits)
  have get: "GET_OPTION conf' s n = Some r" using GET_OPTION_put[OF r] assms(2) opt(2) add(2) by simp
  have at: "opt_at conf' r = opt" using r add(2) by simp
  have "\<exists>m''. rapp_config_get_nth_string conf' s n (opt_num_values ?opt) m' = Some (0, Some v, m'')"
    using get at opt single wf assms(4)
    by (simp add: rapp_config_get_nth_string_def nth_value_def Let_def)
  then show ?thesis using get at opt add(2) opt_at_put_other[OF _ r]
    by (simp add: rapp_config_get_num_values_def)
qed

definition string_store :: RappConfig where
  "string_store = \<lparr>cf_num_sections = 0, cf_options_map = None, cf_options = None, cf_num_argp_options = 0,
     cf_sections = [\<lparr>sect_name = ''core'', sect_num_opts = 1, sect_options =
       [int_option\<lparr>opt_type := PARAM_STRING, opt_name := ''host'', opt_default_value := DefStr None\<rparr>]\<rparr>]\<rparr>"

theorem string_read_back_witness:
  "\<exists>conf' m' m''. config_add_value_string ''core'' ''host'' (Some ''h'') string_store mem0 = (0, conf', m') \<and>
     rapp_config_get_nth_string conf' ''core'' ''host'' 0 m' = Some (0, Some ''h'', m'')"
proof -
  have wf: "config_wf string_store"
    by (simp add: config_wf_def string_store_def opt_wf_def int_option_def default_of_type_def)
  have g: "GET_OPTION string_store ''core'' ''host'' = Some (0, 0)"
    by (simp add: GET_OPTION_def config_section_find_def GET_OPTION_FROM_SECT_def string_store_def int_option_def)
  obtain conf' m' where a: "config_add_value_string ''core'' ''host'' (Some ''h'') string_store mem0 = (0, conf', m')"
    and m': "answers m' = []"
    using g by (simp add: config_add_value_string_def opt_add_value_string_def opt_at_def string_store_def int_option_def)
  from string_read_back[OF wf g a m'] a show ?thesis
    by (auto simp: opt_at_def string_store_def int_option_def)
qed

end
