(* ===== verification/Config_Env.thy ===== *)
theory Config_Env
  imports Config_Api
begin

text \<open>
  Option values from the environment (\<open>src/config/env.c\<close>).  The environment is the function
  \<open>getenv\<close> from names to values.
\<close>

section \<open>Operations\<close>

definition env_name :: "string \<Rightarrow> string \<Rightarrow> string" where
  "env_name sect name =
     (let is_core = (sect = RAPP_CONFIG_SECTION) in
      uppercase (''RAPP_'' @ (if is_core then '''' else sect) @ (if is_core then '''' else ''_'') @ name))"

definition get_env_name :: "string \<Rightarrow> string \<Rightarrow> mem \<Rightarrow> int \<times> string option \<times> mem" where
  "get_env_name sect name m =
     (let is_core = (sect = RAPP_CONFIG_SECTION);
          (n, envname, m) = memory_asprintf
            (''RAPP_'' @ (if is_core then '''' else sect) @ (if is_core then '''' else ''_'') @ name) m
      in if n < 0 then (-1, envname, m) else (0, map_option uppercase envname, m))"

fun env_tokens_loop :: "string list \<Rightarrow> ConfigOption \<Rightarrow> mem \<Rightarrow> ConfigOption \<times> mem" where
  "env_tokens_loop [] opt m = (opt, m)"
| "env_tokens_loop (t # ts) opt m =
     (let (_, opt, m) = config_add_value_from_string t opt m in env_tokens_loop ts opt m)"

definition add_value_from_env_list :: "string \<Rightarrow> ConfigOption \<Rightarrow> mem \<Rightarrow> int \<times> ConfigOption \<times> mem" where
  "add_value_from_env_list v opt m =
     (let (val, m) = memory_strdup v m in
      case val of
        None \<Rightarrow> (-1, opt, m)
      | Some val \<Rightarrow>
         (let (opt, m) = env_tokens_loop (strtok CHR '':'' [] val) opt m in
          (0, opt, memory_destroy (Some val) m)))"

definition get_env_for_opt ::
    "(string \<Rightarrow> string option) \<Rightarrow> string \<Rightarrow> ConfigOption \<Rightarrow> mem \<Rightarrow> int \<times> ConfigOption \<times> mem" where
  "get_env_for_opt getenv sect opt m =
     (if opt_no_override opt then (0, opt, m)
      else
        (let (ret, envname, m) = get_env_name sect (opt_name opt) m in
         if ret \<noteq> 0 then (-1, opt, m)
         else
           (case getenv (the envname) of
              None \<Rightarrow> (0, opt, memory_destroy envname m)
            | Some v \<Rightarrow>
               (let (res, opt, m) =
                  (if occurs '':'' v \<and> opt_multivalued opt = 1 then add_value_from_env_list v opt m
                   else config_add_value_from_string v opt m);
                    opt = (if res = 0 then opt\<lparr>opt_no_override := True\<rparr> else opt)
                in (res, opt, memory_destroy envname m)))))"

fun read_env_options ::
    "(string \<Rightarrow> string option) \<Rightarrow> string \<Rightarrow> ConfigOption list \<Rightarrow> mem \<Rightarrow> ConfigOption list \<times> mem" where
  "read_env_options getenv sect [] m = ([], m)"
| "read_env_options getenv sect (opt # opts) m =
     (let (_, opt, m) = get_env_for_opt getenv sect opt m;
          (opts, m) = read_env_options getenv sect opts m
      in (opt # opts, m))"

fun read_env_sections ::
    "(string \<Rightarrow> string option) \<Rightarrow> ConfigSection list \<Rightarrow> mem \<Rightarrow> ConfigSection list \<times> mem" where
  "read_env_sections getenv [] m = ([], m)"
| "read_env_sections getenv (s # ss) m =
     (let (opts, m) = read_env_options getenv (sect_name s) (sect_options s) m;
          (ss, m) = read_env_sections getenv ss m
      in (s\<lparr>sect_options := opts\<rparr> # ss, m))"

definition config_read_env ::
    "(string \<Rightarrow> string option) \<Rightarrow> RappConfig \<Rightarrow> mem \<Rightarrow> int \<times> RappConfig \<times> mem" where
  "config_read_env getenv conf m =
     (let (ss, m) = read_env_sections getenv (cf_sections conf) m in (0, conf\<lparr>cf_sections := ss\<rparr>, m))"

section \<open>Reading the environment is balanced\<close>

lemma tokens_balanced:
  "opt_wf opt \<Longrightarrow> env_tokens_loop ts opt m = (opt', m') \<Longrightarrow> balanced_option opt m opt' m'"
proof (induction ts arbitrary: opt m)
  case (Cons t ts)
  obtain ret opt1 m1 where t: "config_add_value_from_string t opt m = (ret, opt1, m1)"
    by (cases "config_add_value_from_string t opt m")
  note b = text_balanced[OF Cons.prems(1) t]
  have "balanced_option opt1 m1 opt' m'"
    using Cons.IH[of opt1 m1] Cons.prems(2) t b by (simp add: balanced_option_def)
  with b show ?case by (rule balanced_trans)
qed (simp add: balanced_option_def)

lemma env_list_balanced:
  assumes "opt_wf opt" "add_value_from_env_list v opt m = (ret, opt', m')"
  shows "balanced_option opt m opt' m'"
proof -
  obtain val m1 where v: "memory_strdup v m = (val, m1)" by fastforce
  show ?thesis
  proof (cases val)
    case None
    with assms v lib_kept(2)[OF v] show ?thesis by (auto simp: add_value_from_env_list_def balanced_option_def mem_simps)
  next
    case (Some s)
    obtain opt2 m2 where t: "env_tokens_loop (strtok CHR '':'' [] s) opt m1 = (opt2, m2)" by fastforce
    from tokens_balanced[OF assms(1) t] assms(2) v Some t memory_strdup_Some[of v m s m1] lib_kept(2)[OF v] show ?thesis
      by (auto simp: add_value_from_env_list_def balanced_option_def lib_change_def)
  qed
qed

lemma opt_wf_override [simp]: "opt_wf (opt\<lparr>opt_no_override := b\<rparr>) = opt_wf opt"
  "option_owned (opt\<lparr>opt_no_override := b\<rparr>) = option_owned opt"
  by (simp_all add: opt_wf_def option_owned_def default_owned_def)

lemma get_env_name_result:
  assumes "get_env_name sect name m = (ret, e, m')"
  shows "ret = -1 \<and> blocks m' = blocks m \<or>
    ret = 0 \<and> e = Some (env_name sect name) \<and> blocks m' = blocks m + 1"
  using assms by (auto simp: get_env_name_def env_name_def Let_def split: prod.splits if_splits
      dest!: memory_asprintf_cases)

lemma get_env_name_answers:
  "get_env_name sect name m = (ret, e, m') \<Longrightarrow> answers m = [] \<Longrightarrow> answers m' = []"
  by (auto simp: get_env_name_def Let_def)

lemma get_env_name_lib: "get_env_name sect name m = (ret, e, m') \<Longrightarrow> lib_blocks m' = lib_blocks m"
  by (auto simp: get_env_name_def memory_asprintf_def Let_def dest!: lib_kept split: prod.splits if_splits option.splits)

lemma env_opt_balanced:
  assumes "opt_wf opt" "get_env_for_opt getenv sect opt m = (ret, opt', m')"
  shows "balanced_option opt m opt' m'"
proof (cases "opt_no_override opt")
  case True
  with assms show ?thesis by (simp add: get_env_for_opt_def balanced_option_def)
next
  case False
  obtain r e m1 where e: "get_env_name sect (opt_name opt) m = (r, e, m1)"
    by (cases "get_env_name sect (opt_name opt) m")
  note re = get_env_name_result[OF e] get_env_name_answers[OF e] get_env_name_lib[OF e]
  show ?thesis
  proof (cases "r = 0 \<and> getenv (the e) \<noteq> None")
    case True
    then obtain v where v: "getenv (the e) = Some v" by auto
    let ?c = "if occurs '':'' v \<and> opt_multivalued opt = 1 then add_value_from_env_list v opt m1
      else config_add_value_from_string v opt m1"
    obtain res opt1 m2 where c: "?c = (res, opt1, m2)" by (cases ?c)
    then have "balanced_option opt m1 opt1 m2"
      using env_list_balanced[OF assms(1)] text_balanced[OF assms(1)] by (auto split: if_splits)
    with assms(2) False e re True v c show ?thesis
      by (auto simp: get_env_for_opt_def balanced_option_def lib_change_def Let_def)
  next
    case False
    with assms \<open>\<not> opt_no_override opt\<close> e re show ?thesis
      by (auto simp: get_env_for_opt_def balanced_option_def Let_def split: if_splits)
  qed
qed

interpretation env_option: option_operation "get_env_for_opt getenv sect" for getenv sect
  by unfold_locales (use env_opt_balanced in \<open>auto simp: balanced_option_def\<close>)

section \<open>The whole environment\<close>

lemma read_options_result:
  assumes "\<forall>opt \<in> set opts. opt_wf opt" "read_env_options getenv sect opts m = (opts', m')"
  shows "(\<forall>opt \<in> set opts'. opt_wf opt) \<and> length opts' = length opts \<and>
    blocks m' - sum_list (map option_owned opts') = blocks m - sum_list (map option_owned opts) \<and>
    (answers m = [] \<longrightarrow> answers m' = []) \<and> map opt_type opts' = map opt_type opts \<and>
    lib_blocks m \<le> lib_blocks m' \<and> (PARAM_BOOL \<notin> set (map opt_type opts) \<longrightarrow> lib_blocks m' = lib_blocks m)"
  using assms
proof (induction opts arbitrary: m opts' m')
  case (Cons opt opts)
  obtain r opt1 m1 where g: "get_env_for_opt getenv sect opt m = (r, opt1, m1)"
    by (cases "get_env_for_opt getenv sect opt m")
  obtain opts1 m2 where rest: "read_env_options getenv sect opts m1 = (opts1, m2)" by fastforce
  have "balanced_option opt m opt1 m1" using Cons.prems(1) env_opt_balanced[OF _ g] by simp
  with Cons.IH[OF _ rest] Cons.prems g rest show ?case by (auto simp: balanced_option_def lib_change_def)
qed simp

lemma read_sections_result:
  assumes "\<forall>sect \<in> set ss. section_wf sect" "read_env_sections getenv ss m = (ss', m')"
  shows "(\<forall>sect \<in> set ss'. section_wf sect) \<and>
    blocks m' - sum_list (map section_owned ss') = blocks m - sum_list (map section_owned ss) \<and>
    (answers m = [] \<longrightarrow> answers m' = []) \<and> types_in ss' = types_in ss \<and>
    lib_blocks m \<le> lib_blocks m' \<and> (\<not> boolean_types (types_in ss) \<longrightarrow> lib_blocks m' = lib_blocks m)"
  using assms
proof (induction ss arbitrary: m ss' m')
  case (Cons s ss)
  obtain opts m1 where o: "read_env_options getenv (sect_name s) (sect_options s) m = (opts, m1)" by fastforce
  obtain ss1 m2 where rest: "read_env_sections getenv ss m1 = (ss1, m2)" by fastforce
  have "section_wf s" using Cons.prems(1) by simp
  with read_options_result[OF _ o] have "section_wf (s\<lparr>sect_options := opts\<rparr>)"
    "blocks m1 - section_owned (s\<lparr>sect_options := opts\<rparr>) = blocks m - section_owned s"
    "answers m = [] \<longrightarrow> answers m1 = []" "map opt_type opts = map opt_type (sect_options s)" "lib_blocks m \<le> lib_blocks m1"
    "PARAM_BOOL \<notin> set (map opt_type (sect_options s)) \<longrightarrow> lib_blocks m1 = lib_blocks m"
    by (auto simp: section_wf_def section_owned_def)
  with Cons.IH[OF _ rest] Cons.prems o rest show ?case by auto
qed simp

lemma read_env_keeps:
  assumes "config_wf conf" "config_read_env getenv conf m = (ret, conf', m')"
  shows "ret = 0 \<and> config_wf conf' \<and> blocks m' - config_owned conf' = blocks m - config_owned conf \<and>
    (answers m = [] \<longrightarrow> answers m' = []) \<and> types_in (cf_sections conf') = types_in (cf_sections conf) \<and>
    lib_blocks m \<le> lib_blocks m' \<and> (\<not> has_boolean conf \<longrightarrow> lib_blocks m' = lib_blocks m)"
  using assms read_sections_result[of "cf_sections conf" getenv m]
  by (auto simp: config_read_env_def config_wf_sections config_owned_def has_boolean_def split: prod.splits)

section \<open>Properties\<close>

lemma tokens_strings:
  "opt_type opt = PARAM_STRING \<Longrightarrow> opt_multivalued opt \<noteq> 0 \<Longrightarrow> answers m = [] \<Longrightarrow>
     \<exists>opt' m'. env_tokens_loop ts opt m = (opt', m') \<and> answers m' = [] \<and>
       opt_values opt' = opt_values opt @ map StrValue ts"
proof (induction ts arbitrary: opt m)
  case (Cons t ts)
  let ?opt = "opt\<lparr>opt_num_values := opt_num_values opt + 1, opt_values := opt_values opt @ [StrValue t]\<rparr>"
  obtain m1 where "config_add_value_from_string t opt m = (0, ?opt, m1)" "answers m1 = []"
    using Cons.prems by (simp add: config_add_value_from_string_def opt_add_value_string_def)
  with Cons.IH[of ?opt m1] Cons.prems show ?case by auto
qed simp

text \<open>Adding text changes nothing of an option but its values.\<close>

lemma tokens_settings:
  "env_tokens_loop ts opt m = (opt', m') \<Longrightarrow>
     opt' = opt\<lparr>opt_values := opt_values opt', opt_num_values := opt_num_values opt'\<rparr>"
proof (induction ts arbitrary: opt m)
  case (Cons t ts)
  obtain ret opt1 m1 where t: "config_add_value_from_string t opt m = (ret, opt1, m1)"
    by (cases "config_add_value_from_string t opt m")
  then have "opt1 = opt\<lparr>opt_values := opt_values opt1, opt_num_values := opt_num_values opt1\<rparr>"
    by (cases opt) (auto dest!: from_string_cases)
  moreover have "opt' = opt1\<lparr>opt_values := opt_values opt', opt_num_values := opt_num_values opt'\<rparr>"
    using Cons.IH[of opt1 m1] Cons.prems t by simp
  ultimately show ?case by (cases opt; cases opt1; cases opt') auto
qed simp

lemma tokens_owned:
  assumes "env_tokens_loop ts opt m = (opt', m')" "opt_values opt' = opt_values opt @ map StrValue ts"
  shows "option_owned opt' = option_owned opt + 2 * int (length ts)"
proof -
  have "opt_help opt' = opt_help opt" "opt_metavar opt' = opt_metavar opt" "default_owned opt' = default_owned opt"
    using arg_cong[OF tokens_settings[OF assms(1)], of opt_help]
      arg_cong[OF tokens_settings[OF assms(1)], of opt_metavar]
      arg_cong[OF tokens_settings[OF assms(1)], of default_owned]
    by (simp_all add: default_owned_def)
  moreover have "sum_list (map (value_owned \<circ> StrValue) ts) = 2 * int (length ts)"
    by (induction ts) simp_all
  ultimately show ?thesis using assms(2) by (simp add: option_owned_def)
qed

lemma occurs_in: "occurs [c] s \<longleftrightarrow> c \<in> set s"
  by (induction s) auto

lemma join_delim: "2 \<le> length ts \<Longrightarrow> d \<in> set (join d ts)"
  by (cases "(d, ts)" rule: join.cases) auto

text \<open>
  C34: A multivalued string option whose environment variable holds at least two non-empty
  items separated by colons gets exactly these items as values, in order and behind those it
  had; it is locked against the configuration file, its variable is \<open>RAPP_\<close>, the section (not
  for the core section) and the name, in capitals, and every block used on the way is released.
\<close>

theorem env_list_values:
  assumes "opt_type opt = PARAM_STRING" "opt_multivalued opt = 1" "\<not> opt_no_override opt" "opt_wf opt"
    and "2 \<le> length ts" "\<forall>t \<in> set ts. t \<noteq> [] \<and> CHR '':'' \<notin> set t"
    and "getenv (env_name sect (opt_name opt)) = Some (join CHR '':'' ts)" "answers m = []"
    and "get_env_for_opt getenv sect opt m = (ret, opt', m')"
  shows "ret = 0 \<and> opt_values opt' = opt_values opt @ map StrValue ts \<and> opt_no_override opt' \<and>
    blocks m' = blocks m + 2 * int (length ts)"
proof -
  have colon: "occurs '':'' (join CHR '':'' ts)" using join_delim[OF assms(5)] by (simp add: occurs_in)
  obtain m1 where e: "get_env_name sect (opt_name opt) m = (0, Some (env_name sect (opt_name opt)), m1)"
    "answers m1 = []"
    using assms(8) by (simp add: get_env_name_def env_name_def Let_def)
  obtain m2 where d: "memory_strdup (join CHR '':'' ts) m1 = (Some (join CHR '':'' ts), m2)" "answers m2 = []"
    using e(2) by simp
  obtain opt1 m3 where t: "env_tokens_loop ts opt m2 = (opt1, m3)" "opt_values opt1 = opt_values opt @ map StrValue ts"
    using tokens_strings[OF assms(1) _ d(2), of ts] assms(2) by auto
  have r: "ret = 0 \<and> opt' = opt1\<lparr>opt_no_override := True\<rparr>"
    using assms(2,3,7,9) e colon d t strtok_join[OF assms(6)]
    by (auto simp: get_env_for_opt_def add_value_from_env_list_def Let_def)
  have bal: "balanced_option opt m opt' m'" using assms(4,9) by (rule env_opt_balanced)
  have "option_owned opt1 = option_owned opt + 2 * int (length ts)"
    using tokens_owned[OF t] .
  with bal r t(2) show ?thesis by (simp add: balanced_option_def)
qed

definition hosts_option :: ConfigOption where
  "hosts_option = int_option\<lparr>opt_type := PARAM_STRING, opt_name := ''hosts'', opt_multivalued := 1,
     opt_default_value := DefStr None\<rparr>"

theorem env_list_values_witness:
  "\<exists>opt' m'. get_env_for_opt [''RAPP_HOSTS'' \<mapsto> ''a:b''] ''core'' hosts_option mem0 = (0, opt', m') \<and>
     opt_values opt' = [StrValue ''a'', StrValue ''b'']"
proof -
  obtain ret opt' m' where g: "get_env_for_opt [''RAPP_HOSTS'' \<mapsto> ''a:b''] ''core'' hosts_option mem0 = (ret, opt', m')"
    by (cases "get_env_for_opt [''RAPP_HOSTS'' \<mapsto> ''a:b''] ''core'' hosts_option mem0")
  have o: "opt_type hosts_option = PARAM_STRING" "opt_multivalued hosts_option = 1"
    "\<not> opt_no_override hosts_option" "opt_wf hosts_option" "opt_values hosts_option = []"
    by (simp_all add: hosts_option_def int_option_def opt_wf_def default_of_type_def)
  have "env_name ''core'' (opt_name hosts_option) = ''RAPP_HOSTS''" by code_simp
  then have e: "[''RAPP_HOSTS'' \<mapsto> ''a:b''] (env_name ''core'' (opt_name hosts_option)) =
      Some (join CHR '':'' [''a'', ''b''])" by simp
  from env_list_values[OF o(1-4) _ _ e answers_mem0 g] g o(5) show ?thesis by simp
qed

text \<open>Two options of different sections can share a variable.\<close>

lemma env_names_collide: "env_name ''web'' ''cache_size'' = env_name ''web_cache'' ''size''"
  by code_simp

end
