(* ===== verification/Config_Yaml.thy ===== *)
theory Config_Yaml
  imports Config_Api
begin

text \<open>
  Configuration files (\<open>src/config/yaml.c\<close>).  The scanner is libyaml, which is not part of
  the repository: the parser is the list of tokens it still has to deliver.  As libyaml documents
  it, a scan after the end of the stream, or after an error, delivers an empty token, and so
  does every later one.  \<open>None\<close> is a loop that never ends, or undefined behaviour.
\<close>

section \<open>Tokens\<close>

datatype yaml_token =
    YAML_NO_TOKEN | YAML_STREAM_START_TOKEN | YAML_STREAM_END_TOKEN | YAML_DOCUMENT_START_TOKEN
  | YAML_DOCUMENT_END_TOKEN | YAML_BLOCK_SEQUENCE_START_TOKEN | YAML_BLOCK_MAPPING_START_TOKEN
  | YAML_BLOCK_END_TOKEN | YAML_FLOW_SEQUENCE_START_TOKEN | YAML_FLOW_SEQUENCE_END_TOKEN
  | YAML_FLOW_MAPPING_START_TOKEN | YAML_FLOW_MAPPING_END_TOKEN | YAML_BLOCK_ENTRY_TOKEN
  | YAML_FLOW_ENTRY_TOKEN | YAML_KEY_TOKEN | YAML_VALUE_TOKEN | YAML_SCALAR_TOKEN string
  | YAML_OTHER_TOKEN nat

type_synonym tokens = "yaml_token list"

fun yaml_parser_scan :: "tokens \<Rightarrow> yaml_token \<times> tokens" where
  "yaml_parser_scan [] = (YAML_NO_TOKEN, [])"
| "yaml_parser_scan (t # ts) = (t, ts)"

definition is_scalar :: "yaml_token \<Rightarrow> bool" where
  "is_scalar t \<longleftrightarrow> (case t of YAML_SCALAR_TOKEN _ \<Rightarrow> True | _ \<Rightarrow> False)"

definition scalar_value :: "yaml_token \<Rightarrow> string" where
  "scalar_value t = (case t of YAML_SCALAR_TOKEN s \<Rightarrow> s | _ \<Rightarrow> '''')"

section \<open>Operations\<close>

definition endswith :: "string \<Rightarrow> string \<Rightarrow> int" where
  "endswith str suff =
     (let lenstr = length str; lensuffix = length suff in
      if lenstr < lensuffix then -1
      else if take lensuffix (drop (lenstr - lensuffix) str) = suff then 0 else -1)"

definition yaml_parse_init :: "tokens \<Rightarrow> int \<times> tokens" where
  "yaml_parse_init ts =
     (let (t, ts) = yaml_parser_scan ts in
      if t \<noteq> YAML_STREAM_START_TOKEN then (-1, ts)
      else let (t, ts) = yaml_parser_scan ts in
      if t \<noteq> YAML_DOCUMENT_START_TOKEN then (-1, ts)
      else let (t, ts) = yaml_parser_scan ts in
      if t \<noteq> YAML_BLOCK_MAPPING_START_TOKEN then (-1, ts)
      else (0, ts))"

definition config_set_value_from_yaml_scalar ::
    "string \<Rightarrow> ConfigOption \<Rightarrow> mem \<Rightarrow> int \<times> ConfigOption \<times> mem" where
  "config_set_value_from_yaml_scalar v opt m =
     (if opt_no_override opt then (0, opt, m) else config_add_value_from_string v opt m)"

definition list_token :: "yaml_token \<Rightarrow> bool" where
  "list_token t \<longleftrightarrow> t = YAML_BLOCK_ENTRY_TOKEN \<or> is_scalar t \<or> t = YAML_FLOW_ENTRY_TOKEN"

lemma scan_length:
  "yaml_parser_scan ts = (t, us) \<Longrightarrow> length us + (if t = YAML_NO_TOKEN then 0 else 1) \<le> length ts"
  by (cases ts) auto

function yaml_list_loop ::
    "yaml_token \<Rightarrow> tokens \<Rightarrow> ConfigOption \<Rightarrow> mem \<Rightarrow> int \<times> ConfigOption \<times> mem \<times> tokens" where
  "yaml_list_loop t ts opt m =
     (if list_token t then
        (let (t, ts) = (if \<not> is_scalar t then yaml_parser_scan ts else (t, ts)) in
         if \<not> is_scalar t then (-1, opt, m, ts)
         else
           (let (ret, opt, m) = config_set_value_from_yaml_scalar (scalar_value t) opt m in
            if ret \<noteq> 0 then (-1, opt, m, ts)
            else (let (t, ts) = yaml_parser_scan ts in yaml_list_loop t ts opt m)))
      else if t \<noteq> YAML_BLOCK_END_TOKEN \<and> t \<noteq> YAML_FLOW_SEQUENCE_END_TOKEN then (-1, opt, m, ts)
      else (0, opt, m, ts))"
  by pat_completeness auto

termination
proof (relation "measure (\<lambda>(t, ts, opt, m). length ts + (if t = YAML_NO_TOKEN then 0 else 1))", goal_cases)
  case (2 t ts opt m x t1 ts1 y ret z opt1 m1 w t2 ts2)
  have "t \<noteq> YAML_NO_TOKEN" using 2(1) by (auto simp: list_token_def is_scalar_def)
  moreover have "length ts1 \<le> length ts"
    using 2(2,3) scan_length[of ts t1 ts1] by (auto split: if_splits)
  moreover have "length ts2 + (if t2 = YAML_NO_TOKEN then 0 else 1) \<le> length ts1"
    using 2 by (intro scan_length) auto
  ultimately show ?case by simp
qed simp

declare yaml_list_loop.simps [simp del]

definition config_set_value_from_yaml_list ::
    "ConfigOption \<Rightarrow> tokens \<Rightarrow> mem \<Rightarrow> int \<times> ConfigOption \<times> mem \<times> tokens" where
  "config_set_value_from_yaml_list opt ts m =
     (if opt_multivalued opt = 0 then (-1, opt, m, ts)
      else (let (t, ts) = yaml_parser_scan ts in yaml_list_loop t ts opt m))"

text \<open>The value of a key.\<close>

definition yaml_parse_value ::
    "ConfigOption \<Rightarrow> tokens \<Rightarrow> mem \<Rightarrow> (int \<times> ConfigOption \<times> mem \<times> tokens) option" where
  "yaml_parse_value opt ts m =
     (let (t, ts) = yaml_parser_scan ts in
      if \<not> is_scalar t \<and> t \<noteq> YAML_BLOCK_SEQUENCE_START_TOKEN \<and> t \<noteq> YAML_FLOW_SEQUENCE_START_TOKEN
      then Some (-1, opt, m, ts)
      else do {
        (opt, m) \<leftarrow> (if \<not> opt_no_override opt then config_option_remove_all_values opt m else Some (opt, m));
        Some (if t = YAML_BLOCK_SEQUENCE_START_TOKEN \<or> t = YAML_FLOW_SEQUENCE_START_TOKEN
          then (let (ret, opt, m, ts) = config_set_value_from_yaml_list opt ts m in
                (if ret \<noteq> 0 then -1 else 0, opt, m, ts))
          else (let (ret, opt, m) = config_set_value_from_yaml_scalar (scalar_value t) opt m in
                (if ret \<noteq> 0 then -1 else 0, opt, m, ts)))
      })"

text \<open>
  One key and its value; the second component of the result is \<open>last\<close>.  When the section has
  no such option, the lookup macro returns 1 from the function and the copy of the name is lost.
\<close>

definition yaml_parse_key_value ::
    "nat \<Rightarrow> RappConfig \<Rightarrow> tokens \<Rightarrow> mem \<Rightarrow> (int \<times> bool \<times> RappConfig \<times> mem \<times> tokens) option" where
  "yaml_parse_key_value i conf ts m =
     (let (t, ts) = yaml_parser_scan ts in
      if t \<noteq> YAML_KEY_TOKEN \<and> t \<noteq> YAML_FLOW_ENTRY_TOKEN then
        Some (-1, t = YAML_BLOCK_END_TOKEN \<or> t = YAML_FLOW_MAPPING_END_TOKEN, conf, m, ts)
      else let (k, ts) = (if t = YAML_FLOW_ENTRY_TOKEN then yaml_parser_scan ts else (t, ts)) in
      if k \<noteq> YAML_KEY_TOKEN then Some (-1, False, conf, m, ts)
      else let (t, ts) = yaml_parser_scan ts in
      if \<not> is_scalar t then Some (-1, False, conf, m, ts)
      else let (name, m) = memory_strdup (scalar_value t) m in
      case name of
        None \<Rightarrow> Some (-1, False, conf, m, ts)
      | Some nm \<Rightarrow>
         (case GET_OPTION_FROM_SECT (cf_sections conf ! i) nm of
            None \<Rightarrow> Some (1, False, conf, m, ts)
          | Some j \<Rightarrow>
             (let (t, ts) = yaml_parser_scan ts in
              if t \<noteq> YAML_VALUE_TOKEN then Some (-1, False, conf, memory_destroy name m, ts)
              else do {
                (ret, opt, m, ts) \<leftarrow> yaml_parse_value (opt_at conf (i, j)) ts m;
                Some (ret, False, put_opt (i, j) opt conf, memory_destroy name m, ts)
              })))"

partial_function (option) yaml_skip_section :: "tokens \<Rightarrow> tokens option" where
  "yaml_skip_section ts =
     (case yaml_parser_scan ts of (t, ts) \<Rightarrow>
        if t = YAML_BLOCK_END_TOKEN then Some ts else yaml_skip_section ts)"

partial_function (option) yaml_section_loop ::
    "nat \<Rightarrow> RappConfig \<Rightarrow> tokens \<Rightarrow> mem \<Rightarrow> (int \<times> RappConfig \<times> mem \<times> tokens) option" where
  "yaml_section_loop i conf ts m =
     (case yaml_parse_key_value i conf ts m of
        None \<Rightarrow> None
      | Some (ret, is_end, conf, m, ts) \<Rightarrow>
          if ret \<noteq> 0 then Some (if is_end then 0 else -1, conf, m, ts)
          else yaml_section_loop i conf ts m)"

definition yaml_parse_section ::
    "string \<Rightarrow> RappConfig \<Rightarrow> tokens \<Rightarrow> mem \<Rightarrow> (int \<times> RappConfig \<times> mem \<times> tokens) option" where
  "yaml_parse_section sectionname conf ts m =
     (case config_section_get conf sectionname of
        None \<Rightarrow> map_option (\<lambda>ts. (0, conf, m, ts)) (yaml_skip_section ts)
      | Some i \<Rightarrow>
         (let (t, ts) = yaml_parser_scan ts in
          if t \<noteq> YAML_VALUE_TOKEN then Some (-1, conf, m, ts)
          else let (t, ts) = yaml_parser_scan ts in
          if t \<noteq> YAML_BLOCK_MAPPING_START_TOKEN \<and> t \<noteq> YAML_FLOW_MAPPING_START_TOKEN
          then Some (-1, conf, m, ts)
          else yaml_section_loop i conf ts m))"

partial_function (option) yaml_main_loop ::
    "RappConfig \<Rightarrow> tokens \<Rightarrow> mem \<Rightarrow> (int \<times> RappConfig \<times> mem) option" where
  "yaml_main_loop conf ts m =
     (case yaml_parser_scan ts of (t, ts) \<Rightarrow>
        if t = YAML_BLOCK_END_TOKEN then Some (0, conf, m)
        else if t \<noteq> YAML_KEY_TOKEN then Some (-1, conf, m)
        else (case yaml_parser_scan ts of (t, ts) \<Rightarrow>
          if \<not> is_scalar t then Some (-1, conf, m)
          else (case yaml_parse_section (scalar_value t) conf ts m of
              None \<Rightarrow> None
            | Some (ret, conf, m, ts) \<Rightarrow>
                if ret \<noteq> 0 then Some (-1, conf, m) else yaml_main_loop conf ts m)))"

definition config_parse_main :: "RappConfig \<Rightarrow> tokens \<Rightarrow> mem \<Rightarrow> (int \<times> RappConfig \<times> mem) option" where
  "config_parse_main conf ts m =
     (let (ret, ts) = yaml_parse_init ts in
      if ret \<noteq> 0 then Some (-1, conf, m) else yaml_main_loop conf ts m)"

section \<open>Files and directories\<close>

text \<open>The file system and libyaml: where a path leads, the tokens of a file that can be
  opened, of a string, and the sorted entries of a directory.\<close>

record yaml_world =
  yw_realpath :: "string \<Rightarrow> string option"
  yw_file :: "string \<Rightarrow> tokens option"
  yw_string :: "string \<Rightarrow> tokens option"
  yw_scandir :: "string \<Rightarrow> string list option"

definition PATH_MAX :: nat where "PATH_MAX = 4096"

definition config_parse :: "yaml_world \<Rightarrow> string \<Rightarrow> RappConfig \<Rightarrow> mem \<Rightarrow> (int \<times> RappConfig \<times> mem) option" where
  "config_parse yw filename conf m =
     (case yw_realpath yw filename of
        None \<Rightarrow> Some (-1, conf, m)
      | Some buf \<Rightarrow>
         (case yw_file yw buf of
            None \<Rightarrow> Some (-1, conf, m)
          | Some ts \<Rightarrow> config_parse_main conf ts m))"

definition config_parse_string ::
    "yaml_world \<Rightarrow> string \<Rightarrow> RappConfig \<Rightarrow> mem \<Rightarrow> (int \<times> RappConfig \<times> mem) option" where
  "config_parse_string yw src conf m =
     (case yw_string yw src of
        None \<Rightarrow> Some (-1, conf, m) | Some ts \<Rightarrow> config_parse_main conf ts m)"

text \<open>
  The path is printed into a buffer of \<open>PATH_MAX\<close> bytes with its own length as the limit.  Every entry is
  released after it was looked at; a file that fails breaks off the loop before that, so its entry and those after
  it stay.
\<close>

fun scan_entries ::
    "yaml_world \<Rightarrow> string \<Rightarrow> string \<Rightarrow> string list \<Rightarrow> RappConfig \<Rightarrow> mem \<Rightarrow> (int \<times> RappConfig \<times> mem) option" where
  "scan_entries yw directory ext [] conf m = Some (0, conf, m)"
| "scan_entries yw directory ext (d # ds) conf m =
     (if endswith d ext = 0 then
        (let len = length directory + length d + 2 in
         if PATH_MAX < len then None
         else Option.bind (config_parse yw (snprintf len (directory @ ''/'' @ d)) conf m)
           (\<lambda>(ret, conf, m).
              if ret \<noteq> 0 then Some (-1, conf, m) else scan_entries yw directory ext ds conf (lib_free 1 m)))
      else scan_entries yw directory ext ds conf (lib_free 1 m))"

text \<open>\<open>scandir\<close> hands out an array and its entries; the array is released in any case.\<close>

definition config_scan_directory ::
    "yaml_world \<Rightarrow> string \<Rightarrow> string option \<Rightarrow> RappConfig \<Rightarrow> mem \<Rightarrow> (int \<times> RappConfig \<times> mem) option" where
  "config_scan_directory yw directory ext conf m =
     (case yw_scandir yw directory of
        None \<Rightarrow> Some (-1, conf, m)
      | Some names \<Rightarrow>
          map_option (\<lambda>(res, conf, m). (res, conf, lib_free 1 m))
            (scan_entries yw directory (case ext of None \<Rightarrow> ''.yaml'' | Some e \<Rightarrow> e) names conf
              (lib_alloc (1 + length names) m)))"

section \<open>Skipping an unknown section\<close>

lemma skip_section_found: "yaml_skip_section ts = Some us \<Longrightarrow> YAML_BLOCK_END_TOKEN \<in> set ts"
proof (rule yaml_skip_section.raw_induct[where P = "\<lambda>ts us. YAML_BLOCK_END_TOKEN \<in> set ts"], goal_cases)
  case (1 f ts us)
  have h: "f ts' = Some us \<Longrightarrow> YAML_BLOCK_END_TOKEN \<in> set ts'" for ts' using 1(2) .
  from 1(3) h[of "[]"] h[of "tl ts"] show ?case by (cases ts) (auto split: if_splits)
qed

lemma skip_all:
  "yaml_skip_section ts =
     (if YAML_BLOCK_END_TOKEN \<in> set ts
      then Some (tl (dropWhile (\<lambda>t. t \<noteq> YAML_BLOCK_END_TOKEN) ts)) else None)"
proof (cases "YAML_BLOCK_END_TOKEN \<in> set ts")
  case True
  then show ?thesis
  proof (induction ts)
    case (Cons t ts)
    then show ?case by (subst yaml_skip_section.simps) auto
  qed simp
next
  case False
  then show ?thesis using skip_section_found by (cases "yaml_skip_section ts") auto
qed

text \<open>
  C36: Skipping an unknown section reads on to the next end of a block, wherever it belongs;
  when the rest of the stream has none, as in a document in flow style, the loop never ends.
\<close>

theorem skip_section_result:
  "yaml_skip_section ts =
     (if YAML_BLOCK_END_TOKEN \<in> set ts
      then Some (tl (dropWhile (\<lambda>t. t \<noteq> YAML_BLOCK_END_TOKEN) ts)) else None)"
  by (rule skip_all)

section \<open>Documents\<close>

datatype entry = Scalar string | Items "string list"

type_synonym document = "(string \<times> (string \<times> entry) list) list"

fun value_tokens :: "entry \<Rightarrow> tokens" where
  "value_tokens (Scalar v) = [YAML_SCALAR_TOKEN v]"
| "value_tokens (Items vs) = YAML_BLOCK_SEQUENCE_START_TOKEN #
     concat (map (\<lambda>v. [YAML_BLOCK_ENTRY_TOKEN, YAML_SCALAR_TOKEN v]) vs) @ [YAML_BLOCK_END_TOKEN]"

definition entry_tokens :: "string \<times> entry \<Rightarrow> tokens" where
  "entry_tokens ne = [YAML_KEY_TOKEN, YAML_SCALAR_TOKEN (fst ne), YAML_VALUE_TOKEN] @ value_tokens (snd ne)"

definition section_tokens :: "string \<times> (string \<times> entry) list \<Rightarrow> tokens" where
  "section_tokens se = [YAML_KEY_TOKEN, YAML_SCALAR_TOKEN (fst se), YAML_VALUE_TOKEN,
     YAML_BLOCK_MAPPING_START_TOKEN] @ concat (map entry_tokens (snd se)) @ [YAML_BLOCK_END_TOKEN]"

definition doc_tokens :: "document \<Rightarrow> tokens" where
  "doc_tokens doc = [YAML_STREAM_START_TOKEN, YAML_DOCUMENT_START_TOKEN, YAML_BLOCK_MAPPING_START_TOKEN] @
     concat (map section_tokens doc) @ [YAML_BLOCK_END_TOKEN]"

text \<open>The value a text stands for, in an option.\<close>

definition text_value :: "ConfigOption \<Rightarrow> string \<Rightarrow> config_value option" where
  "text_value opt v =
     (case opt_type opt of
        PARAM_STRING \<Rightarrow> Some (StrValue v)
      | PARAM_BOOL \<Rightarrow> if bool_regex v \<and> opt_value_min opt \<le> 1 \<and> 1 \<le> opt_value_max opt
                     then Some (IntValue 1) else None
      | PARAM_INT \<Rightarrow> (case strtol v of (x, rest, erange) \<Rightarrow>
          if \<not> erange \<and> rest = [] \<and> opt_value_min opt \<le> x \<and> x \<le> opt_value_max opt
          then Some (IntValue x) else None))"

fun entry_texts :: "entry \<Rightarrow> string list" where
  "entry_texts (Scalar v) = [v]"
| "entry_texts (Items vs) = vs"

definition entry_ok :: "ConfigOption \<Rightarrow> entry \<Rightarrow> bool" where
  "entry_ok opt e \<longleftrightarrow> \<not> opt_no_override opt \<and> list_all (\<lambda>v. text_value opt v \<noteq> None) (entry_texts e) \<and>
     (case e of Scalar _ \<Rightarrow> True | Items _ \<Rightarrow> opt_multivalued opt \<noteq> 0)"

definition with_values :: "ConfigOption \<Rightarrow> config_value list \<Rightarrow> ConfigOption" where
  "with_values opt vs = opt\<lparr>opt_values := vs, opt_num_values := int (length vs)\<rparr>"

definition entry_result :: "ConfigOption \<Rightarrow> entry \<Rightarrow> ConfigOption" where
  "entry_result opt e = with_values opt (map (\<lambda>v. the (text_value opt v)) (entry_texts e))"

lemma with_values_simps [simp]:
  "opt_type (with_values opt vs) = opt_type opt" "opt_no_override (with_values opt vs) = opt_no_override opt"
  "opt_multivalued (with_values opt vs) = opt_multivalued opt" "opt_values (with_values opt vs) = vs"
  "opt_num_values (with_values opt vs) = int (length vs)" "opt_name (with_values opt vs) = opt_name opt"
  "opt_value_min (with_values opt vs) = opt_value_min opt" "opt_value_max (with_values opt vs) = opt_value_max opt"
  "opt_range_set (with_values opt vs) = opt_range_set opt"
  "with_values (with_values opt vs) us = with_values opt us"
  by (simp_all add: with_values_def)

lemma text_value_with_values [simp]: "text_value (with_values opt vs) v = text_value opt v"
  by (cases "opt_type opt") (simp_all add: text_value_def)

lemma entry_ok_with_values [simp]: "entry_ok (with_values opt vs) e = entry_ok opt e"
  by (cases e) (simp_all add: entry_ok_def)

lemma with_values_append:
  "(with_values opt vs)\<lparr>opt_num_values := int (length vs) + 1, opt_values := vs @ [x]\<rparr> =
     with_values opt (vs @ [x])"
  by (simp add: with_values_def add.commute)

lemma add_text_value:
  assumes "text_value opt v = Some x" "answers m = []" "\<not> opt_no_override opt"
    and "opt_multivalued opt \<noteq> 0 \<or> vs = []"
  shows "\<exists>m'. config_set_value_from_yaml_scalar v (with_values opt vs) m = (0, with_values opt (vs @ [x]), m') \<and>
    answers m' = []"
proof (cases "opt_type opt")
  case PARAM_BOOL
  with assms show ?thesis
    by (auto simp: text_value_def config_set_value_from_yaml_scalar_def config_add_value_from_string_def
        opt_add_value_int_def with_values_def Let_def split: if_splits)
next
  case PARAM_INT
  obtain i rest e where s: "strtol v = (i, rest, e)" by (cases "strtol v")
  with PARAM_INT assms show ?thesis
    by (auto simp: text_value_def config_set_value_from_yaml_scalar_def config_add_value_from_string_def
        opt_add_value_int_def with_values_append split: if_splits)
next
  case PARAM_STRING
  with assms show ?thesis
    by (auto simp: text_value_def config_set_value_from_yaml_scalar_def config_add_value_from_string_def
        opt_add_value_string_def with_values_append)
qed

lemma list_loop_items:
  assumes "list_all (\<lambda>v. text_value opt v \<noteq> None) us" "answers m = []" "\<not> opt_no_override opt"
    and "opt_multivalued opt \<noteq> 0"
  shows "\<exists>m'. (case yaml_parser_scan (concat (map (\<lambda>v. [YAML_BLOCK_ENTRY_TOKEN, YAML_SCALAR_TOKEN v]) us) @
        YAML_BLOCK_END_TOKEN # rest) of (t, ts) \<Rightarrow> yaml_list_loop t ts (with_values opt vs) m) =
      (0, with_values opt (vs @ map (\<lambda>v. the (text_value opt v)) us), m', rest) \<and> answers m' = []"
  using assms(1,2)
proof (induction us arbitrary: vs m)
  case Nil
  then show ?case by (simp add: yaml_list_loop.simps list_token_def is_scalar_def)
next
  case (Cons u us)
  then obtain x where x: "text_value opt u = Some x" by auto
  obtain m1 where m1: "config_set_value_from_yaml_scalar u (with_values opt vs) m =
      (0, with_values opt (vs @ [x]), m1)" "answers m1 = []"
    using add_text_value[OF x Cons.prems(2) assms(3)] assms(4) by blast
  from Cons.IH[of m1 "vs @ [x]"] Cons.prems(1) m1 x show ?case
    by (simp add: yaml_list_loop.simps[of YAML_BLOCK_ENTRY_TOKEN] list_token_def is_scalar_def
        scalar_value_def split: prod.splits)
qed

section \<open>What the parser does with a document\<close>

lemma run_free_answers: "run_opt (free_value ty) vs m = Some m' \<Longrightarrow> answers m' = answers m"
  by (induction vs arbitrary: m)
    (auto simp: free_value_def split: if_splits config_value.splits Option.bind_splits)

lemma remove_all_result:
  assumes "opt_wf opt"
  shows "\<exists>m'. config_option_remove_all_values opt m = Some (with_values opt [], m') \<and>
    answers m' = answers m \<and> balanced_option opt m (with_values opt []) m'"
proof -
  obtain m' where m': "config_option_remove_all_values opt m = Some (opt\<lparr>opt_values := [], opt_num_values := 0\<rparr>, m')"
    "blocks m' = blocks m - sum_list (map value_owned (opt_values opt))"
    using remove_all_values_owned[OF assms] by blast
  then have "answers m' = answers m"
    by (auto simp: config_option_remove_all_values_def dest: run_free_answers)
  with m' assms remove_all_lib[OF m'(1)] show ?thesis
    by (auto simp: with_values_def balanced_option_def opt_wf_def option_owned_def default_owned_def)
qed

lemma scalar_balanced:
  "opt_wf opt \<Longrightarrow> config_set_value_from_yaml_scalar v opt m = (ret, opt', m') \<Longrightarrow> balanced_option opt m opt' m'"
  by (auto simp: config_set_value_from_yaml_scalar_def balanced_option_def
      dest: text_balanced[unfolded balanced_option_def] split: if_splits)

lemma list_loop_balanced:
  "opt_wf opt \<Longrightarrow> yaml_list_loop t ts opt m = (ret, opt', m', ts') \<Longrightarrow> balanced_option opt m opt' m'"
proof (induction t ts opt m rule: yaml_list_loop.induct)
  case (1 t ts opt m)
  show ?case
  proof (cases "list_token t")
    case True
    obtain t1 ts1 where t1: "(if \<not> is_scalar t then yaml_parser_scan ts else (t, ts)) = (t1, ts1)" by fastforce
    show ?thesis
    proof (cases "is_scalar t1")
      case False
      with 1(2,3) True t1 show ?thesis
        by (simp add: yaml_list_loop.simps[of t] balanced_option_def)
    next
      case sc: True
      obtain r opt1 m1 where s: "config_set_value_from_yaml_scalar (scalar_value t1) opt m = (r, opt1, m1)"
        by (cases "config_set_value_from_yaml_scalar (scalar_value t1) opt m")
      note b = scalar_balanced[OF 1(2) s]
      obtain t2 ts2 where t2: "yaml_parser_scan ts1 = (t2, ts2)" by fastforce
      show ?thesis
      proof (cases "r = 0")
        case False
        with 1(3) True t1 sc s b show ?thesis by (simp add: yaml_list_loop.simps[of t])
      next
        case r0: True
        then have "yaml_list_loop t2 ts2 opt1 m1 = (ret, opt', m', ts')"
          using 1(3) True t1 sc s t2 by (simp add: yaml_list_loop.simps[of t])
        then have "balanced_option opt1 m1 opt' m'"
          using 1(1)[OF True t1[symmetric] refl _ s[symmetric] refl refl _ t2[symmetric] refl] sc r0 b
          by (simp add: balanced_option_def)
        with b show ?thesis by (rule balanced_trans)
      qed
    qed
  next
    case False
    with 1(2,3) show ?thesis by (auto simp: yaml_list_loop.simps[of t] balanced_option_def split: if_splits)
  qed
qed

lemma with_no_values_wf: "opt_wf opt \<Longrightarrow> opt_wf (with_values opt [])"
  by (simp add: opt_wf_def with_values_def)

lemma parse_value_entry:
  assumes "opt_wf opt" "entry_ok opt e" "answers m = []"
  shows "\<exists>m'. yaml_parse_value opt (value_tokens e @ rest) m = Some (0, entry_result opt e, m', rest) \<and>
    answers m' = [] \<and> balanced_option opt m (entry_result opt e) m'"
proof -
  obtain m1 where m1: "config_option_remove_all_values opt m = Some (with_values opt [], m1)" "answers m1 = []"
    "balanced_option opt m (with_values opt []) m1"
    using remove_all_result[OF assms(1)] assms(3) by metis
  note wf = with_no_values_wf[OF assms(1)]
  show ?thesis
  proof (cases e)
    case (Scalar v)
    with assms(2) obtain x where x: "text_value opt v = Some x" "\<not> opt_no_override opt"
      by (auto simp: entry_ok_def)
    obtain m2 where m2: "config_set_value_from_yaml_scalar v (with_values opt []) m1 = (0, with_values opt [x], m2)"
      "answers m2 = []"
      using add_text_value[OF x(1) m1(2) x(2), of "[]"] by auto
    from balanced_trans[OF m1(3) scalar_balanced[OF wf m2(1)]] m2 m1(1) x Scalar show ?thesis
      by (simp add: yaml_parse_value_def is_scalar_def scalar_value_def entry_result_def)
  next
    case (Items vs)
    with assms(2) have ok: "list_all (\<lambda>v. text_value opt v \<noteq> None) vs" "\<not> opt_no_override opt"
      "opt_multivalued opt \<noteq> 0" by (simp_all add: entry_ok_def)
    let ?ts = "concat (map (\<lambda>v. [YAML_BLOCK_ENTRY_TOKEN, YAML_SCALAR_TOKEN v]) vs) @ YAML_BLOCK_END_TOKEN # rest"
    obtain t ts where scan: "yaml_parser_scan ?ts = (t, ts)" by fastforce
    obtain m2 where m2: "yaml_list_loop t ts (with_values opt []) m1 = (0, entry_result opt e, m2, rest)"
      "answers m2 = []"
      using list_loop_items[OF ok(1) m1(2) ok(2,3), where rest = rest and vs = "[]"] scan Items by (auto simp: entry_result_def)
    from balanced_trans[OF m1(3) list_loop_balanced[OF wf m2(1)]] m2 m1(1) ok Items scan show ?thesis
      by (simp add: yaml_parse_value_def is_scalar_def config_set_value_from_yaml_list_def)
  qed
qed

text \<open>The effect of a document, without tokens: every entry replaces the values of its option.\<close>

definition apply_entry :: "string \<Rightarrow> string \<times> entry \<Rightarrow> RappConfig \<Rightarrow> RappConfig" where
  "apply_entry s ne conf =
     (case GET_OPTION conf s (fst ne) of
        None \<Rightarrow> conf
      | Some r \<Rightarrow> put_opt r (entry_result (opt_at conf r) (snd ne)) conf)"

definition apply_doc :: "document \<Rightarrow> RappConfig \<Rightarrow> RappConfig" where
  "apply_doc doc conf = fold (\<lambda>se. fold (apply_entry (fst se)) (snd se)) doc conf"

definition entries_ok :: "RappConfig \<Rightarrow> string \<Rightarrow> (string \<times> entry) list \<Rightarrow> bool" where
  "entries_ok conf s es \<longleftrightarrow> config_section_get conf s \<noteq> None \<and>
     (\<forall>(n, e) \<in> set es. \<exists>r. GET_OPTION conf s n = Some r \<and> entry_ok (opt_at conf r) e)"

definition doc_ok :: "RappConfig \<Rightarrow> document \<Rightarrow> bool" where
  "doc_ok conf doc \<longleftrightarrow> (\<forall>(s, es) \<in> set doc. entries_ok conf s es)"

lemma entry_result_simps [simp]:
  "opt_name (entry_result opt e) = opt_name opt" "entry_ok (entry_result opt e) e' = entry_ok opt e'"
  by (simp_all add: entry_result_def)

lemma section_get_put [simp]: "config_section_get (put_opt r opt conf) s = config_section_get conf s"
proof (cases "fst r < length (cf_sections conf)")
  case True
  have "map sect_name (cf_sections (put_opt r opt conf)) = map sect_name (cf_sections conf)"
    using map_update_id[OF True, of sect_name "(cf_sections conf ! fst r)\<lparr>sect_options :=
      (sect_options (cf_sections conf ! fst r))[snd r := opt]\<rparr>"]
    by (simp add: put_opt_def Let_def)
  from index_of_map[OF this] show ?thesis by (simp add: config_section_get_def)
next
  case False
  then show ?thesis by (simp add: put_opt_def Let_def config_section_get_def list_update_beyond)
qed

lemma entries_ok_apply: "entries_ok conf s es \<Longrightarrow> entries_ok (apply_entry s' ne conf) s es"
proof (cases "GET_OPTION conf s' (fst ne)")
  case (Some r)
  assume ok: "entries_ok conf s es"
  note r = GET_OPTION_valid[OF Some]
  let ?conf = "put_opt r (entry_result (opt_at conf r) (snd ne)) conf"
  have get: "GET_OPTION ?conf s n = GET_OPTION conf s n" for n
    using GET_OPTION_put[OF r] by simp
  have "entry_ok (opt_at ?conf r') e = entry_ok (opt_at conf r') e" for r' e
    using opt_at_put_other[OF _ r] r by (cases "r' = r") simp_all
  with ok get Some show ?thesis by (auto simp: entries_ok_def apply_entry_def)
qed (simp add: apply_entry_def)

lemma entries_ok_applies: "entries_ok conf s es \<Longrightarrow> entries_ok (fold (apply_entry s') nes conf) s es"
  by (induction nes arbitrary: conf) (simp_all add: entries_ok_apply)

definition parsed_well :: "RappConfig \<Rightarrow> mem \<Rightarrow> RappConfig \<Rightarrow> mem \<Rightarrow> bool" where
  "parsed_well conf m conf' m' \<longleftrightarrow> config_wf conf' \<and> answers m' = [] \<and>
     blocks m' - config_owned conf' = blocks m - config_owned conf"

lemma parse_key_value_entry:
  assumes "config_wf conf" "config_section_get conf s = Some i" "entries_ok conf s [ne]" "answers m = []"
  shows "\<exists>m'. yaml_parse_key_value i conf (entry_tokens ne @ rest) m =
      Some (0, False, apply_entry s ne conf, m', rest) \<and> parsed_well conf m (apply_entry s ne conf) m'"
proof -
  obtain n e where ne: "ne = (n, e)" by fastforce
  obtain r where r: "GET_OPTION conf s n = Some r" "entry_ok (opt_at conf r) e"
    using assms(3) ne by (auto simp: entries_ok_def)
  obtain j where j: "r = (i, j)" "GET_OPTION_FROM_SECT (cf_sections conf ! i) n = Some j"
    using r(1) assms(2) by (auto simp: GET_OPTION_def config_section_find_def config_section_get_def)
  note ref = GET_OPTION_valid[OF r(1)]
  note wf = opt_at_wf[OF assms(1) ref]
  obtain m1 where m1: "memory_strdup n m = (Some n, m1)" "answers m1 = []" "blocks m1 = blocks m + 1"
    using assms(4) by simp
  obtain m2 where m2: "yaml_parse_value (opt_at conf r) (value_tokens e @ rest) m1 =
      Some (0, entry_result (opt_at conf r) e, m2, rest)" "answers m2 = []"
    "balanced_option (opt_at conf r) m1 (entry_result (opt_at conf r) e) m2"
    using parse_value_entry[OF wf r(2) m1(2)] by blast
  have "yaml_parse_key_value i conf (entry_tokens ne @ rest) m =
      Some (0, False, apply_entry s ne conf, memory_destroy (Some n) m2, rest)"
    using m1(1) m2(1) j r(1) ne
    by (simp add: yaml_parse_key_value_def entry_tokens_def is_scalar_def scalar_value_def apply_entry_def)
  moreover have "parsed_well conf m (apply_entry s ne conf) (memory_destroy (Some n) m2)"
    using m1(3) m2(2,3) assms(1) ref r(1) ne
    by (simp add: parsed_well_def apply_entry_def balanced_option_def put_opt_wf put_opt_owned)
  ultimately show ?thesis by blast
qed

lemma parsed_well_trans:
  "parsed_well conf m conf1 m1 \<Longrightarrow> parsed_well conf1 m1 conf2 m2 \<Longrightarrow> parsed_well conf m conf2 m2"
  by (simp add: parsed_well_def)

lemma section_get_apply [simp]: "config_section_get (apply_entry s' ne conf) s = config_section_get conf s"
  by (simp add: apply_entry_def split: option.split)

lemma section_loop_entries:
  assumes "config_wf conf" "config_section_get conf s = Some i" "entries_ok conf s es" "answers m = []"
  shows "\<exists>m'. yaml_section_loop i conf (concat (map entry_tokens es) @ YAML_BLOCK_END_TOKEN # rest) m =
      Some (0, fold (apply_entry s) es conf, m', rest) \<and>
    parsed_well conf m (fold (apply_entry s) es conf) m'"
  using assms
proof (induction es arbitrary: conf m)
  case Nil
  then show ?case
    by (subst yaml_section_loop.simps) (simp add: yaml_parse_key_value_def parsed_well_def)
next
  case (Cons ne es)
  let ?rest = "concat (map entry_tokens es) @ YAML_BLOCK_END_TOKEN # rest"
  have ok: "entries_ok conf s [ne]" "entries_ok conf s es" using Cons.prems(3) by (auto simp: entries_ok_def)
  obtain m1 where m1: "yaml_parse_key_value i conf (entry_tokens ne @ ?rest) m =
      Some (0, False, apply_entry s ne conf, m1, ?rest)" "parsed_well conf m (apply_entry s ne conf) m1"
    using parse_key_value_entry[OF Cons.prems(1,2) ok(1) Cons.prems(4)] by blast
  have next_ok: "config_wf (apply_entry s ne conf)" "answers m1 = []" using m1(2) by (simp_all add: parsed_well_def)
  obtain m2 where m2: "yaml_section_loop i (apply_entry s ne conf) ?rest m1 =
      Some (0, fold (apply_entry s) es (apply_entry s ne conf), m2, rest)"
    "parsed_well (apply_entry s ne conf) m1 (fold (apply_entry s) es (apply_entry s ne conf)) m2"
    using Cons.IH[OF next_ok(1) _ entries_ok_apply[OF ok(2)] next_ok(2)] Cons.prems(2) by auto
  have "yaml_section_loop i conf (entry_tokens ne @ ?rest) m =
      Some (0, fold (apply_entry s) es (apply_entry s ne conf), m2, rest)"
    by (subst yaml_section_loop.simps) (simp add: m1(1) m2(1))
  with parsed_well_trans[OF m1(2) m2(2)] show ?case by simp
qed

lemma parse_section_entries:
  assumes "config_wf conf" "entries_ok conf s es" "answers m = []"
  shows "\<exists>m'. yaml_parse_section s conf
      ([YAML_VALUE_TOKEN, YAML_BLOCK_MAPPING_START_TOKEN] @ concat (map entry_tokens es) @
       YAML_BLOCK_END_TOKEN # rest) m = Some (0, fold (apply_entry s) es conf, m', rest) \<and>
    parsed_well conf m (fold (apply_entry s) es conf) m'"
proof -
  obtain i where i: "config_section_get conf s = Some i" using assms(2) by (auto simp: entries_ok_def)
  from section_loop_entries[OF assms(1) i assms(2,3), of rest] i show ?thesis
    by (auto simp: yaml_parse_section_def)
qed

lemma main_loop_sections:
  assumes "config_wf conf" "doc_ok conf doc" "answers m = []"
  shows "\<exists>m'. yaml_main_loop conf (concat (map section_tokens doc) @ [YAML_BLOCK_END_TOKEN]) m =
      Some (0, apply_doc doc conf, m') \<and> parsed_well conf m (apply_doc doc conf) m'"
  using assms
proof (induction doc arbitrary: conf m)
  case Nil
  then show ?case by (subst yaml_main_loop.simps) (simp add: apply_doc_def parsed_well_def)
next
  case (Cons se doc)
  obtain s es where se: "se = (s, es)" by fastforce
  let ?conf = "fold (apply_entry s) es conf"
  let ?rest = "concat (map section_tokens doc) @ [YAML_BLOCK_END_TOKEN]"
  have "entries_ok conf s es" using Cons.prems(2) se by (simp add: doc_ok_def)
  then obtain m1 where m1: "yaml_parse_section s conf
      ([YAML_VALUE_TOKEN, YAML_BLOCK_MAPPING_START_TOKEN] @ concat (map entry_tokens es) @
       YAML_BLOCK_END_TOKEN # ?rest) m = Some (0, ?conf, m1, ?rest)" "parsed_well conf m ?conf m1"
    using parse_section_entries[OF Cons.prems(1) _ Cons.prems(3)] by blast
  have "doc_ok ?conf doc"
    using Cons.prems(2) by (auto simp: doc_ok_def intro!: entries_ok_applies)
  then obtain m2 where m2: "yaml_main_loop ?conf ?rest m1 = Some (0, apply_doc doc ?conf, m2)"
    "parsed_well ?conf m1 (apply_doc doc ?conf) m2"
    using Cons.IH[of ?conf m1] m1(2) by (auto simp: parsed_well_def)
  have "yaml_main_loop conf (section_tokens se @ ?rest) m = Some (0, apply_doc doc ?conf, m2)"
    using m1(1) m2(1) se
    by (subst yaml_main_loop.simps) (simp add: section_tokens_def is_scalar_def scalar_value_def)
  moreover have "apply_doc (se # doc) conf = apply_doc doc ?conf" by (simp add: apply_doc_def se)
  ultimately show ?case using parsed_well_trans[OF m1(2) m2(2)] by auto
qed

text \<open>
  C15: The parser reads a block style document over known sections and options, whose texts
  the options accept, to its end: it returns 0 and has replaced the values of every named option
  by those of its (last) entry, in order; nothing else changed and nothing was leaked.
\<close>

theorem yaml_document_applied:
  assumes "config_wf conf" "doc_ok conf doc" "answers m = []"
  shows "\<exists>m'. config_parse_main conf (doc_tokens doc) m = Some (0, apply_doc doc conf, m') \<and>
    config_wf (apply_doc doc conf) \<and>
    blocks m' - config_owned (apply_doc doc conf) = blocks m - config_owned conf"
proof -
  have "yaml_parse_init (doc_tokens doc) = (0, concat (map section_tokens doc) @ [YAML_BLOCK_END_TOKEN])"
    by (simp add: yaml_parse_init_def doc_tokens_def)
  with main_loop_sections[OF assms] show ?thesis
    by (auto simp: config_parse_main_def parsed_well_def)
qed

definition yaml_store :: RappConfig where
  "yaml_store = \<lparr>cf_num_sections = 0, cf_options_map = None, cf_options = None, cf_num_argp_options = 0,
     cf_sections = [\<lparr>sect_name = ''core'', sect_num_opts = 2, sect_options =
       [int_option, int_option\<lparr>opt_type := PARAM_STRING, opt_name := ''hosts'', opt_multivalued := 1,
          opt_default_value := DefStr None\<rparr>]\<rparr>]\<rparr>"

lemma yaml_store_facts:
  "config_wf yaml_store" "config_section_get yaml_store ''core'' = Some 0"
  "GET_OPTION yaml_store ''core'' ''hosts'' = Some (0, 1)"
  by (simp_all add: config_wf_def yaml_store_def opt_wf_def int_option_def default_of_type_def
      config_section_get_def GET_OPTION_def config_section_find_def GET_OPTION_FROM_SECT_def)

theorem yaml_document_applied_witness:
  "\<exists>conf' m'. config_parse_main yaml_store (doc_tokens [(''core'', [(''hosts'', Items [''a'', ''b''])])]) mem0 =
     Some (0, conf', m') \<and> opt_values (opt_at conf' (0, 1)) = [StrValue ''a'', StrValue ''b'']"
proof -
  let ?doc = "[(''core'', [(''hosts'', Items [''a'', ''b''])])]"
  have o: "opt_type (opt_at yaml_store (0, 1)) = PARAM_STRING" "\<not> opt_no_override (opt_at yaml_store (0, 1))"
    "opt_multivalued (opt_at yaml_store (0, 1)) = 1"
    by (simp_all add: opt_at_def yaml_store_def int_option_def)
  then have ok: "doc_ok yaml_store ?doc"
    by (simp add: doc_ok_def entries_ok_def yaml_store_facts entry_ok_def text_value_def)
  have "valid_ref yaml_store (0, 1)" using yaml_store_facts(3) by (rule GET_OPTION_valid)
  then have "opt_values (opt_at (apply_doc ?doc yaml_store) (0, 1)) = [StrValue ''a'', StrValue ''b'']"
    using o by (simp add: apply_doc_def apply_entry_def yaml_store_facts entry_result_def text_value_def)
  with yaml_document_applied[OF yaml_store_facts(1) ok answers_mem0] show ?thesis by blast
qed

text \<open>
  C40: An unknown section with a list in it is not skipped whole: the parser takes the end of
  the list for the end of the section, and the end of the section for the end of the document.
  Whatever follows is ignored, and the result is 0.
\<close>

theorem unknown_section_hides_rest:
  assumes "config_section_get conf s = None"
  shows "config_parse_main conf ([YAML_STREAM_START_TOKEN, YAML_DOCUMENT_START_TOKEN,
      YAML_BLOCK_MAPPING_START_TOKEN] @ section_tokens (s, [(n, Items vs)]) @ rest) m = Some (0, conf, m)"
proof -
  let ?items = "concat (map (\<lambda>v. [YAML_BLOCK_ENTRY_TOKEN, YAML_SCALAR_TOKEN v]) vs)"
  have items: "dropWhile (\<lambda>t. t \<noteq> YAML_BLOCK_END_TOKEN) (?items @ YAML_BLOCK_END_TOKEN # us) =
      YAML_BLOCK_END_TOKEN # us" for us
    by (induction vs) simp_all
  have skip: "yaml_skip_section ([YAML_VALUE_TOKEN, YAML_BLOCK_MAPPING_START_TOKEN] @ entry_tokens (n, Items vs) @
      YAML_BLOCK_END_TOKEN # rest) = Some (YAML_BLOCK_END_TOKEN # rest)"
    by (simp add: skip_all items entry_tokens_def)
  have "yaml_main_loop conf (YAML_BLOCK_END_TOKEN # rest) m = Some (0, conf, m)"
    by (subst yaml_main_loop.simps) simp
  with skip have "yaml_main_loop conf (section_tokens (s, [(n, Items vs)]) @ rest) m = Some (0, conf, m)"
    using assms by (subst yaml_main_loop.simps)
      (simp add: section_tokens_def is_scalar_def scalar_value_def yaml_parse_section_def)
  then show ?thesis by (simp add: config_parse_main_def yaml_parse_init_def)
qed

theorem unknown_section_hides_rest_witness:
  "config_parse_main yaml_store ([YAML_STREAM_START_TOKEN, YAML_DOCUMENT_START_TOKEN,
      YAML_BLOCK_MAPPING_START_TOKEN] @ section_tokens (''other'', [(''xs'', Items [''1''])]) @
      section_tokens (''core'', [(''hosts'', Items [''a''])]) @ [YAML_BLOCK_END_TOKEN]) mem0 =
    Some (0, yaml_store, mem0)"
  by (rule unknown_section_hides_rest) (simp add: config_section_get_def yaml_store_def)

end
