(* ===== verification/ELoop.thy ===== *)
theory ELoop
  imports Collector "HOL-Library.Word"
begin

text \<open>
  The event loop (\<open>src/eloop.c\<close>): a list of watched descriptors, each with up to three
  callbacks, mirrored in the interest list of an epoll descriptor.  An entry has an address,
  because the kernel hands back a pointer to it; using an entry that is no longer in the list is
  undefined behaviour (\<open>None\<close>).  A callback with its data is a value of type \<open>'cb\<close>; what calling
  it does is the argument \<open>fire\<close>, over the state of the loop, of the kernel and of the
  rest of the program \<open>'w\<close>.
\<close>

unbundle bit_operations_syntax

section \<open>State\<close>

datatype ELoopWatchFdCallbackType =
  ELOOP_CALLBACK_READ | ELOOP_CALLBACK_WRITE | ELOOP_CALLBACK_CLOSE | ELOOP_CALLBACK_MAX

definition EPOLLIN :: "32 word" where "EPOLLIN = 0x001"
definition EPOLLOUT :: "32 word" where "EPOLLOUT = 0x004"
definition EPOLLRDHUP :: "32 word" where "EPOLLRDHUP = 0x2000"

record 'cb ELoopCallback =
  ec_addr :: addr
  ec_fd :: int
  ec_events :: "32 word"
  ec_callbacks :: "ELoopWatchFdCallbackType \<Rightarrow> 'cb option"

record ('cb, 'f) ELoop =
  el_epollfd :: int
  el_collector :: "'f Collector option"
  el_callbacks_list :: "'cb ELoopCallback list"
  el_running :: bool

text \<open>The kernel: the descriptors that are open and can be watched, and the interest list.\<close>

record kernel =
  k_open :: "int \<Rightarrow> bool"
  k_epoll :: "int \<Rightarrow> (32 word \<times> addr) option"

definition open_fd :: "int \<Rightarrow> kernel \<Rightarrow> kernel" where
  "open_fd fd k = k\<lparr>k_open := (k_open k)(fd := True)\<rparr>"

record ('cb, 'f, 'w) loop_state =
  ls_eloop :: "('cb, 'f) ELoop"
  ls_kernel :: kernel
  ls_world :: 'w
  ls_mem :: mem

datatype epoll_operation = EPOLL_CTL_ADD | EPOLL_CTL_MOD | EPOLL_CTL_DEL

definition epoll_ctl :: "epoll_operation \<Rightarrow> int \<Rightarrow> 32 word \<times> addr \<Rightarrow> kernel \<Rightarrow> int \<times> kernel" where
  "epoll_ctl op fd ev k =
     (if \<not> k_open k fd then (-1, k)
      else (case op of
          EPOLL_CTL_ADD \<Rightarrow> if k_epoll k fd = None then (0, k\<lparr>k_epoll := (k_epoll k)(fd := Some ev)\<rparr>) else (-1, k)
        | EPOLL_CTL_MOD \<Rightarrow> if k_epoll k fd \<noteq> None then (0, k\<lparr>k_epoll := (k_epoll k)(fd := Some ev)\<rparr>) else (-1, k)
        | EPOLL_CTL_DEL \<Rightarrow> if k_epoll k fd \<noteq> None then (0, k\<lparr>k_epoll := (k_epoll k)(fd := None)\<rparr>) else (-1, k)))"

text \<open>Closing a descriptor takes it out of the interest list.\<close>

definition close_fd :: "int \<Rightarrow> kernel \<Rightarrow> kernel" where
  "close_fd fd k = k\<lparr>k_open := (k_open k)(fd := False), k_epoll := (k_epoll k)(fd := None)\<rparr>"

section \<open>Operations\<close>

definition event_loop_new :: "int \<Rightarrow> mem \<Rightarrow> ('cb, 'f) ELoop option \<times> mem" where
  "event_loop_new epollfd m =
     (let (p, m) = memory_create m in
      case p of
        None \<Rightarrow> (None, m)
      | Some _ \<Rightarrow>
          if epollfd < 0 then (None, m)
          else (let (c, m) = collector_new m in
                (Some \<lparr>el_epollfd = epollfd, el_collector = c, el_callbacks_list = [], el_running = False\<rparr>, m)))"

definition event_loop_destroy ::
    "('f \<Rightarrow> addr \<Rightarrow> 'w \<Rightarrow> mem \<Rightarrow> 'w \<times> mem) \<Rightarrow> ('cb, 'f) ELoop \<Rightarrow> 'w \<Rightarrow> mem \<Rightarrow> 'w \<times> mem" where
  "event_loop_destroy run el w m =
     (let (w, m) = (case el_collector el of None \<Rightarrow> (w, m) | Some c \<Rightarrow> collector_destroy run c w m)
      in (w, memory_destroy (Some el) m))"

definition event_loop_stop :: "('cb, 'f) ELoop \<Rightarrow> ('cb, 'f) ELoop" where
  "event_loop_stop el = el\<lparr>el_running := False\<rparr>"

definition find_callback_by_fd :: "('cb, 'f) ELoop \<Rightarrow> int \<Rightarrow> 'cb ELoopCallback option" where
  "find_callback_by_fd el fd = find (\<lambda>e. ec_fd e = fd) (el_callbacks_list el)"

definition eloop_callback_type_to_epoll_event :: "ELoopWatchFdCallbackType \<Rightarrow> 32 word" where
  "eloop_callback_type_to_epoll_event t =
     (case t of
        ELOOP_CALLBACK_READ \<Rightarrow> EPOLLIN
      | ELOOP_CALLBACK_WRITE \<Rightarrow> EPOLLOUT
      | ELOOP_CALLBACK_CLOSE \<Rightarrow> EPOLLRDHUP
      | ELOOP_CALLBACK_MAX \<Rightarrow> -1)"

text \<open>Writes to one entry go to the node of the list with its address.\<close>

definition set_entry :: "'cb ELoopCallback \<Rightarrow> 'cb ELoopCallback list \<Rightarrow> 'cb ELoopCallback list" where
  "set_entry e es = map (\<lambda>x. if ec_addr x = ec_addr e then e else x) es"

definition event_loop_add_fd_watch ::
    "int \<Rightarrow> ELoopWatchFdCallbackType \<Rightarrow> 'cb \<Rightarrow> ('cb, 'f) ELoop \<Rightarrow> kernel \<Rightarrow> mem
      \<Rightarrow> (int \<times> ('cb, 'f) ELoop \<times> kernel \<times> mem) option" where
  "event_loop_add_fd_watch fd t cb el k m =
     (if fd \<le> -1 then None
      else
        (let (found, el, m, op) = (case find_callback_by_fd el fd of
               Some e \<Rightarrow> (Some e, el, m, EPOLL_CTL_MOD)
             | None \<Rightarrow>
                (let (p, m) = memory_create m in
                 case p of
                   None \<Rightarrow> (None, el, m, EPOLL_CTL_MOD)
                 | Some a \<Rightarrow>
                    (let e = \<lparr>ec_addr = a, ec_fd = 0, ec_events = 0, ec_callbacks = (\<lambda>_. None)\<rparr> in
                     (Some e, el\<lparr>el_callbacks_list := e # el_callbacks_list el\<rparr>, m, EPOLL_CTL_ADD))))
         in case found of
              None \<Rightarrow> Some (-1, el, k, m)
            | Some e \<Rightarrow>
               if t = ELOOP_CALLBACK_MAX then None
               else (let e = e\<lparr>ec_events := ec_events e OR eloop_callback_type_to_epoll_event t, ec_fd := fd,
                          ec_callbacks := (ec_callbacks e)(t := Some cb)\<rparr>;
                    (ret, k) = epoll_ctl op fd (ec_events e, ec_addr e) k
                in Some (ret, el\<lparr>el_callbacks_list := set_entry e (el_callbacks_list el)\<rparr>, k, m))))"

definition event_loop_remove_fd_watch ::
    "int \<Rightarrow> ELoopWatchFdCallbackType \<Rightarrow> ('cb, 'f) ELoop \<Rightarrow> kernel \<Rightarrow> mem
      \<Rightarrow> (int \<times> ('cb, 'f) ELoop \<times> kernel \<times> mem) option" where
  "event_loop_remove_fd_watch fd t el k m =
     (if fd \<le> -1 then None
      else (case find_callback_by_fd el fd of
          None \<Rightarrow> Some (-1, el, k, m)
        | Some e \<Rightarrow>
           if t = ELOOP_CALLBACK_MAX then None
           else (let e = e\<lparr>ec_callbacks := (ec_callbacks e)(t := None),
                      ec_events := ec_events e AND NOT (eloop_callback_type_to_epoll_event t)\<rparr> in
            if ec_events e = 0 then
              (let (ret, k) = epoll_ctl EPOLL_CTL_DEL fd (ec_events e, ec_addr e) k in
               Some (ret, el\<lparr>el_callbacks_list := filter (\<lambda>x. ec_addr x \<noteq> ec_addr e) (el_callbacks_list el)\<rparr>,
                     k, memory_destroy (Some e) m))
            else
              (let (ret, k) = epoll_ctl EPOLL_CTL_MOD fd (ec_events e, ec_addr e) k in
               Some (ret, el\<lparr>el_callbacks_list := set_entry e (el_callbacks_list el)\<rparr>, k, m)))))"

text \<open>\<open>collector_schedule_free\<close> asserts a collector.\<close>

definition event_loop_schedule_free ::
    "'f \<Rightarrow> addr \<Rightarrow> ('cb, 'f) ELoop \<Rightarrow> mem \<Rightarrow> (('cb, 'f) ELoop \<times> mem) option" where
  "event_loop_schedule_free f d el m =
     (case el_collector el of
        None \<Rightarrow> None
      | Some c \<Rightarrow>
         (let (ret, c, m) = collector_schedule_free f d c m in
          Some (el\<lparr>el_collector := Some c\<rparr>, m)))"

section \<open>Running\<close>

definition entry_at :: "addr \<Rightarrow> ('cb, 'f, 'w) loop_state \<Rightarrow> 'cb ELoopCallback option" where
  "entry_at a s = find (\<lambda>e. ec_addr e = a) (el_callbacks_list (ls_eloop s))"

definition dispatch_kind ::
    "('cb \<Rightarrow> int \<Rightarrow> ('cb, 'f, 'w) loop_state \<Rightarrow> ('cb, 'f, 'w) loop_state option)
      \<Rightarrow> ELoopWatchFdCallbackType \<Rightarrow> addr \<times> 32 word \<Rightarrow> ('cb, 'f, 'w) loop_state
      \<Rightarrow> ('cb, 'f, 'w) loop_state option" where
  "dispatch_kind fire t ev s =
     (if snd ev AND eloop_callback_type_to_epoll_event t = 0 then Some s
      else do {
        e \<leftarrow> entry_at (fst ev) s;
        (case ec_callbacks e t of None \<Rightarrow> Some s | Some cb \<Rightarrow> fire cb (ec_fd e) s)
      })"

definition dispatch_event ::
    "('cb \<Rightarrow> int \<Rightarrow> ('cb, 'f, 'w) loop_state \<Rightarrow> ('cb, 'f, 'w) loop_state option)
      \<Rightarrow> addr \<times> 32 word \<Rightarrow> ('cb, 'f, 'w) loop_state \<Rightarrow> ('cb, 'f, 'w) loop_state option" where
  "dispatch_event fire ev s = do {
     s \<leftarrow> dispatch_kind fire ELOOP_CALLBACK_CLOSE ev s;
     s \<leftarrow> dispatch_kind fire ELOOP_CALLBACK_READ ev s;
     dispatch_kind fire ELOOP_CALLBACK_WRITE ev s
   }"

text \<open>The free functions work on the loop and the kernel too; what they do is the argument
  \<open>run\<close>, where \<open>None\<close> in the world is undefined behaviour in one of them.\<close>

type_synonym ('cb, 'f, 'w) free_world = "(('cb, 'f) ELoop \<times> kernel \<times> 'w) option"

definition collect_step ::
    "('f \<Rightarrow> addr \<Rightarrow> ('cb, 'f, 'w) free_world \<Rightarrow> mem \<Rightarrow> ('cb, 'f, 'w) free_world \<times> mem)
      \<Rightarrow> ('cb, 'f, 'w) loop_state \<Rightarrow> ('cb, 'f, 'w) loop_state option" where
  "collect_step run s =
     (case el_collector (ls_eloop s) of
        None \<Rightarrow> None
      | Some c \<Rightarrow>
         (let (c, fw, m) = collector_collect run c (Some (ls_eloop s, ls_kernel s, ls_world s)) (ls_mem s) in
          map_option (\<lambda>(el, k, w). \<lparr>ls_eloop = el\<lparr>el_collector := Some c\<rparr>, ls_kernel = k,
            ls_world = w, ls_mem = m\<rparr>) fw))"

text \<open>The batches are what the calls of \<open>epoll_wait\<close> return; after the last one it returns -1.\<close>

fun loop_batches ::
    "('cb \<Rightarrow> int \<Rightarrow> ('cb, 'f, 'w) loop_state \<Rightarrow> ('cb, 'f, 'w) loop_state option)
      \<Rightarrow> ('f \<Rightarrow> addr \<Rightarrow> ('cb, 'f, 'w) free_world \<Rightarrow> mem \<Rightarrow> ('cb, 'f, 'w) free_world \<times> mem)
      \<Rightarrow> (addr \<times> 32 word) list list \<Rightarrow> ('cb, 'f, 'w) loop_state \<Rightarrow> ('cb, 'f, 'w) loop_state option" where
  "loop_batches fire run [] s = Some s"
| "loop_batches fire run (evs # batches) s =
     (if \<not> el_running (ls_eloop s) then Some s
      else do {
        s \<leftarrow> run_opt (dispatch_event fire) evs s;
        s \<leftarrow> collect_step run s;
        loop_batches fire run batches s
      })"

definition event_loop_run ::
    "('cb \<Rightarrow> int \<Rightarrow> ('cb, 'f, 'w) loop_state \<Rightarrow> ('cb, 'f, 'w) loop_state option)
      \<Rightarrow> ('f \<Rightarrow> addr \<Rightarrow> ('cb, 'f, 'w) free_world \<Rightarrow> mem \<Rightarrow> ('cb, 'f, 'w) free_world \<times> mem)
      \<Rightarrow> (addr \<times> 32 word) list list \<Rightarrow> ('cb, 'f, 'w) loop_state
      \<Rightarrow> (int \<times> ('cb, 'f, 'w) loop_state) option" where
  "event_loop_run fire run batches s =
     map_option (Pair (-1))
       (loop_batches fire run batches (s\<lparr>ls_eloop := (ls_eloop s)\<lparr>el_running := True\<rparr>\<rparr>))"

section \<open>The watch table\<close>

text \<open>What the list stands for: for each descriptor, which callback waits for which event.\<close>

type_synonym 'cb watch_table = "int \<Rightarrow> ELoopWatchFdCallbackType \<Rightarrow> 'cb option"

definition watches :: "('cb, 'f) ELoop \<Rightarrow> 'cb watch_table" where
  "watches el fd t = (case find_callback_by_fd el fd of None \<Rightarrow> None | Some e \<Rightarrow> ec_callbacks e t)"

definition bits_of :: "(ELoopWatchFdCallbackType \<Rightarrow> 'cb option) \<Rightarrow> 32 word" where
  "bits_of f = (if f ELOOP_CALLBACK_READ = None then 0 else EPOLLIN) OR
     ((if f ELOOP_CALLBACK_WRITE = None then 0 else EPOLLOUT) OR
      (if f ELOOP_CALLBACK_CLOSE = None then 0 else EPOLLRDHUP))"

definition entry_wf :: "nat \<Rightarrow> 'cb ELoopCallback \<Rightarrow> bool" where
  "entry_wf n e \<longleftrightarrow> ec_addr e < n \<and> ec_events e = bits_of (ec_callbacks e) \<and> ec_events e \<noteq> 0 \<and>
     ec_callbacks e ELOOP_CALLBACK_MAX = None"

definition loop_inv :: "('cb, 'f) ELoop \<Rightarrow> kernel \<Rightarrow> mem \<Rightarrow> bool" where
  "loop_inv el k m \<longleftrightarrow>
     distinct (map ec_fd (el_callbacks_list el)) \<and> distinct (map ec_addr (el_callbacks_list el)) \<and>
     (\<forall>e \<in> set (el_callbacks_list el). entry_wf (fresh m) e) \<and>
     (\<forall>fd. k_epoll k fd = map_option (\<lambda>e. (ec_events e, ec_addr e)) (find_callback_by_fd el fd))"

lemma epoll_bits [simp]: "EPOLLIN \<noteq> 0" "EPOLLOUT \<noteq> 0" "EPOLLRDHUP \<noteq> 0"
  by (simp_all add: EPOLLIN_def EPOLLOUT_def EPOLLRDHUP_def)

lemma bits_of_zero: "bits_of f = 0 \<longleftrightarrow>
    f ELOOP_CALLBACK_READ = None \<and> f ELOOP_CALLBACK_WRITE = None \<and> f ELOOP_CALLBACK_CLOSE = None"
  by (simp add: bits_of_def EPOLLIN_def EPOLLOUT_def EPOLLRDHUP_def)

lemma bits_of_add:
  "t \<noteq> ELOOP_CALLBACK_MAX \<Longrightarrow>
     bits_of f OR eloop_callback_type_to_epoll_event t = bits_of (f(t := Some cb))"
  by (cases t) (simp_all add: bits_of_def eloop_callback_type_to_epoll_event_def EPOLLIN_def
      EPOLLOUT_def EPOLLRDHUP_def)

lemma bits_of_remove:
  "t \<noteq> ELOOP_CALLBACK_MAX \<Longrightarrow>
     bits_of f AND NOT (eloop_callback_type_to_epoll_event t) = bits_of (f(t := None))"
  by (cases t) (simp_all add: bits_of_def eloop_callback_type_to_epoll_event_def EPOLLIN_def
      EPOLLOUT_def EPOLLRDHUP_def)

lemma bits_of_event:
  "t \<noteq> ELOOP_CALLBACK_MAX \<Longrightarrow>
     (bits_of f AND eloop_callback_type_to_epoll_event t = 0) \<longleftrightarrow> f t = None"
  by (cases t) (simp_all add: bits_of_def eloop_callback_type_to_epoll_event_def EPOLLIN_def
      EPOLLOUT_def EPOLLRDHUP_def)

lemma distinct_addr_eq:
  "distinct (map ec_addr es) \<Longrightarrow> x \<in> set es \<Longrightarrow> y \<in> set es \<Longrightarrow> ec_addr x = ec_addr y \<Longrightarrow> x = y"
  by (simp add: distinct_map inj_on_def)

lemma find_map_same:
  "\<forall>x \<in> set es. P (g x) = P x \<Longrightarrow> find P (map g es) = map_option g (find P es)"
  by (induction es) auto

lemma find_set_entry:
  assumes e0: "find (\<lambda>x. ec_fd x = fd) es = Some e0" and d: "distinct (map ec_addr es)"
    and e: "ec_addr e = ec_addr e0" "ec_fd e = fd"
  shows "find (\<lambda>x. ec_fd x = fd') (set_entry e es) =
    (if fd' = fd then Some e else find (\<lambda>x. ec_fd x = fd') es)"
proof -
  let ?g = "\<lambda>x. if ec_addr x = ec_addr e then e else x"
  have in_es: "e0 \<in> set es" "ec_fd e0 = fd" using find_Some_in[OF e0] by auto
  have same: "\<forall>x \<in> set es. ec_addr x = ec_addr e \<longrightarrow> x = e0"
    using distinct_addr_eq[OF d _ in_es(1)] e(1) by auto
  then have "\<forall>x \<in> set es. (ec_fd (?g x) = fd') = (ec_fd x = fd')" using e(2) in_es(2) by auto
  from find_map_same[of es "\<lambda>x. ec_fd x = fd'" ?g, OF this]
  have "find (\<lambda>x. ec_fd x = fd') (set_entry e es) = map_option ?g (find (\<lambda>x. ec_fd x = fd') es)"
    by (simp add: set_entry_def)
  also have "\<dots> = (if fd' = fd then Some e else find (\<lambda>x. ec_fd x = fd') es)"
  proof (cases "find (\<lambda>x. ec_fd x = fd') es")
    case (Some x)
    have "x \<in> set es" "ec_fd x = fd'" using find_Some_in[OF Some] by auto
    note x = this
    show ?thesis
    proof (cases "fd' = fd")
      case True
      with Some e0 e(1) show ?thesis by simp
    next
      case False
      with x in_es(2) same have "ec_addr x \<noteq> ec_addr e" by blast
      with Some False show ?thesis by simp
    qed
  next
    case None
    with e0 have "fd' \<noteq> fd" by force
    with None show ?thesis by simp
  qed
  finally show ?thesis .
qed

lemma find_filter_entry:
  assumes e0: "find (\<lambda>x. ec_fd x = fd) es = Some e0" and d: "distinct (map ec_addr es)"
    "distinct (map ec_fd es)"
  shows "find (\<lambda>x. ec_fd x = fd') (filter (\<lambda>x. ec_addr x \<noteq> ec_addr e0) es) =
    (if fd' = fd then None else find (\<lambda>x. ec_fd x = fd') es)"
proof -
  have in_es: "e0 \<in> set es" "ec_fd e0 = fd" using find_Some_in[OF e0] by auto
  have keep: "(ec_addr x \<noteq> ec_addr e0) = (ec_fd x \<noteq> fd)" if h: "x \<in> set es" for x
    using distinct_addr_eq[OF d(1) h in_es(1)] d(2) h in_es by (auto simp: distinct_map inj_on_def)
  then have f: "filter (\<lambda>x. ec_addr x \<noteq> ec_addr e0) es = filter (\<lambda>x. ec_fd x \<noteq> fd) es"
    by (auto intro!: filter_cong)
  show ?thesis unfolding f by (induction es) auto
qed

lemma set_entry_maps [simp]:
  assumes "e0 \<in> set es" "distinct (map ec_addr es)" "ec_addr e = ec_addr e0" "ec_fd e = ec_fd e0"
  shows "map ec_fd (set_entry e es) = map ec_fd es" "map ec_addr (set_entry e es) = map ec_addr es"
  using assms distinct_addr_eq[OF assms(2) _ assms(1)] by (auto simp: set_entry_def)

lemma find_key_unique:
  "distinct (map key es) \<Longrightarrow> x \<in> set es \<Longrightarrow> find (\<lambda>y. key y = key x) es = Some x"
  by (induction es) auto

lemma set_entry_in:
  "x \<in> set (set_entry e es) \<Longrightarrow> x = e \<or> x \<in> set es"
  by (auto simp: set_entry_def split: if_splits)

lemma set_entry_Cons_new:
  "\<forall>x \<in> set es. ec_addr x \<noteq> ec_addr e \<Longrightarrow> ec_addr e0 = ec_addr e \<Longrightarrow> set_entry e (e0 # es) = e # es"
  by (simp add: set_entry_def map_idI)

lemma find_fd_Cons:
  "find (\<lambda>x. ec_fd x = fd') (e # es) = (if ec_fd e = fd' then Some e else find (\<lambda>x. ec_fd x = fd') es)"
  by simp

section \<open>Adding a watch\<close>

definition table_add :: "int \<Rightarrow> ELoopWatchFdCallbackType \<Rightarrow> 'cb \<Rightarrow> 'cb watch_table \<Rightarrow> 'cb watch_table" where
  "table_add fd t cb w = w(fd := (w fd)(t := Some cb))"

definition table_remove :: "int \<Rightarrow> ELoopWatchFdCallbackType \<Rightarrow> 'cb watch_table \<Rightarrow> 'cb watch_table" where
  "table_remove fd t w = w(fd := (w fd)(t := None))"

lemma entry_wf_mono: "entry_wf n e \<Longrightarrow> n \<le> n' \<Longrightarrow> entry_wf n' e"
  by (auto simp: entry_wf_def)

lemma loop_inv_entry:
  assumes "loop_inv el k m" "find_callback_by_fd el fd = Some e"
  shows "e \<in> set (el_callbacks_list el)" "ec_fd e = fd" "entry_wf (fresh m) e"
  using assms find_Some_in[of "\<lambda>e. ec_fd e = fd" "el_callbacks_list el" e]
  by (auto simp: loop_inv_def find_callback_by_fd_def)

lemma add_watch_existing:
  assumes inv: "loop_inv el k m" and fd: "k_open k fd" and t: "t \<noteq> ELOOP_CALLBACK_MAX"
    and e0: "find_callback_by_fd el fd = Some e0"
    and e: "e = e0\<lparr>ec_events := ec_events e0 OR eloop_callback_type_to_epoll_event t, ec_fd := fd,
                ec_callbacks := (ec_callbacks e0)(t := Some cb)\<rparr>"
    and el': "el' = el\<lparr>el_callbacks_list := set_entry e (el_callbacks_list el)\<rparr>"
  shows "\<exists>k'. epoll_ctl EPOLL_CTL_MOD fd (ec_events e, ec_addr e) k = (0, k') \<and> k_open k' = k_open k \<and>
     loop_inv el' k' m \<and> watches el' = table_add fd t cb (watches el)"
proof -
  note i = loop_inv_entry[OF inv e0]
  have d: "distinct (map ec_fd (el_callbacks_list el))" "distinct (map ec_addr (el_callbacks_list el))"
    using inv by (simp_all add: loop_inv_def)
  have ea: "ec_addr e = ec_addr e0" "ec_fd e = ec_fd e0" using e i(2) by simp_all
  have ev: "ec_events e = bits_of (ec_callbacks e)"
    using bits_of_add[OF t] i(3) by (simp add: e entry_wf_def)
  have wf: "entry_wf (fresh m) e"
    using i(3) t ev by (auto simp: entry_wf_def bits_of_zero e)
  have find: "find_callback_by_fd el' fd' = (if fd' = fd then Some e else find_callback_by_fd el fd')" for fd'
    using find_set_entry[OF e0[unfolded find_callback_by_fd_def] d(2) ea(1)] ea(2) i(2)
    by (simp add: find_callback_by_fd_def el')
  have reg: "k_epoll k fd \<noteq> None" using inv e0 by (simp add: loop_inv_def)
  let ?k = "k\<lparr>k_epoll := (k_epoll k)(fd := Some (ec_events e, ec_addr e))\<rparr>"
  have "loop_inv el' ?k m"
    unfolding loop_inv_def
  proof (intro conjI)
    show "distinct (map ec_fd (el_callbacks_list el'))" "distinct (map ec_addr (el_callbacks_list el'))"
      using d set_entry_maps[OF i(1) d(2) ea] by (simp_all add: el')
    show "\<forall>e \<in> set (el_callbacks_list el'). entry_wf (fresh m) e"
      using inv wf by (auto simp: el' loop_inv_def dest!: set_entry_in)
    show "\<forall>fd. k_epoll ?k fd = map_option (\<lambda>e. (ec_events e, ec_addr e)) (find_callback_by_fd el' fd)"
      using inv by (simp add: find loop_inv_def)
  qed
  moreover have "watches el' = table_add fd t cb (watches el)"
    by (rule ext)+ (simp add: watches_def table_add_def find e0 e)
  ultimately show ?thesis using fd reg by (simp add: epoll_ctl_def)
qed

lemma add_watch_new:
  assumes inv: "loop_inv el k m" and fd: "k_open k fd" and t: "t \<noteq> ELOOP_CALLBACK_MAX"
    and e0: "find_callback_by_fd el fd = None" and p: "memory_create m = (Some a, m')"
    and e: "e = \<lparr>ec_addr = a, ec_fd = fd, ec_events = eloop_callback_type_to_epoll_event t,
                 ec_callbacks = (\<lambda>_. None)(t := Some cb)\<rparr>"
    and el': "el' = el\<lparr>el_callbacks_list := e # el_callbacks_list el\<rparr>"
  shows "\<exists>k'. epoll_ctl EPOLL_CTL_ADD fd (ec_events e, ec_addr e) k = (0, k') \<and> k_open k' = k_open k \<and>
     loop_inv el' k' m' \<and> watches el' = table_add fd t cb (watches el)"
proof -
  have a: "a = fresh m" "fresh m' = Suc a" using memory_create_fresh[OF p] by auto
  have ev: "ec_events e = bits_of (ec_callbacks e)"
    using bits_of_add[OF t, of "\<lambda>_. None" cb] by (simp add: e bits_of_def)
  have wf: "entry_wf (fresh m') e"
    using t ev a by (cases t) (auto simp: entry_wf_def bits_of_zero e)
  have find: "find_callback_by_fd el' fd' = (if fd' = fd then Some e else find_callback_by_fd el fd')" for fd'
    by (simp add: find_callback_by_fd_def el' e)
  have reg: "k_epoll k fd = None" using inv e0 by (simp add: loop_inv_def)
  have old: "\<forall>x \<in> set (el_callbacks_list el). ec_addr x < a \<and> ec_fd x \<noteq> fd"
    using inv a(1) find_None_all[OF e0[unfolded find_callback_by_fd_def]]
    by (auto simp: loop_inv_def entry_wf_def)
  let ?k = "k\<lparr>k_epoll := (k_epoll k)(fd := Some (ec_events e, ec_addr e))\<rparr>"
  have "loop_inv el' ?k m'"
    unfolding loop_inv_def
  proof (intro conjI)
    show "distinct (map ec_fd (el_callbacks_list el'))" "distinct (map ec_addr (el_callbacks_list el'))"
      using inv old by (auto simp: el' e loop_inv_def)
    show "\<forall>e \<in> set (el_callbacks_list el'). entry_wf (fresh m') e"
      using inv wf a entry_wf_mono[of "fresh m" _ "fresh m'"] by (auto simp: el' loop_inv_def)
    show "\<forall>fd. k_epoll ?k fd = map_option (\<lambda>e. (ec_events e, ec_addr e)) (find_callback_by_fd el' fd)"
      using inv by (simp add: find loop_inv_def)
  qed
  moreover have "watches el' = table_add fd t cb (watches el)"
    by (rule ext)+ (simp add: watches_def table_add_def find e0 e)
  ultimately show ?thesis using fd reg by (simp add: epoll_ctl_def)
qed

lemma loop_inv_fresh: "loop_inv el k m \<Longrightarrow> fresh m \<le> fresh m' \<Longrightarrow> loop_inv el k m'"
  by (auto simp: loop_inv_def intro: entry_wf_mono)

text \<open>Adding a watch on an open descriptor: either the entry could not be allocated and nothing
  changed, or the watch is in the table.\<close>

lemma add_watch:
  assumes inv: "loop_inv el k m" and fd: "0 \<le> fd" "k_open k fd" and t: "t \<noteq> ELOOP_CALLBACK_MAX"
  shows "\<exists>ret el' k' m'. event_loop_add_fd_watch fd t cb el k m = Some (ret, el', k', m') \<and>
     k_open k' = k_open k \<and> loop_inv el' k' m' \<and>
     (ret = 0 \<and> watches el' = table_add fd t cb (watches el) \<or>
      ret = -1 \<and> el' = el \<and> k' = k \<and> answers m \<noteq> []) \<and>
     (answers m = [] \<longrightarrow> answers m' = []) \<and>
     blocks m' - int (length (el_callbacks_list el')) = blocks m - int (length (el_callbacks_list el))"
proof (cases "find_callback_by_fd el fd")
  case (Some e0)
  from add_watch_existing[OF inv fd(2) t Some refl refl, of cb] fd(1) t Some show ?thesis
    by (auto simp: event_loop_add_fd_watch_def Let_def set_entry_def)
next
  case None
  obtain p m' where p: "memory_create m = (p, m')" by fastforce
  show ?thesis
  proof (cases p)
    case None
    then have "answers m \<noteq> []" "loop_inv el k m'" "blocks m' = blocks m"
      using p loop_inv_fresh[OF inv memory_create_fresh_mono[OF p]] by (auto simp: mem_simps)
    with \<open>find_callback_by_fd el fd = None\<close> None p fd(1) show ?thesis
      by (simp add: event_loop_add_fd_watch_def Let_def)
  next
    case (Some a)
    note p = p[unfolded Some]
    have old: "\<forall>x \<in> set (el_callbacks_list el). ec_addr x \<noteq> a"
      using inv memory_create_fresh[OF p] by (auto simp: loop_inv_def entry_wf_def)
    let ?e = "\<lparr>ec_addr = a, ec_fd = fd, ec_events = eloop_callback_type_to_epoll_event t,
                 ec_callbacks = (\<lambda>_. None)(t := Some cb)\<rparr>"
    have "set_entry ?e (\<lparr>ec_addr = a, ec_fd = 0, ec_events = 0, ec_callbacks = (\<lambda>_. None)\<rparr> #
        el_callbacks_list el) = ?e # el_callbacks_list el"
      using old by (intro set_entry_Cons_new) auto
    with add_watch_new[OF inv fd(2) t None p refl refl, of cb] None p fd(1) t
    show ?thesis by (auto simp: event_loop_add_fd_watch_def Let_def mem_simps)
  qed
qed

section \<open>Removing a watch\<close>

lemma remove_watch_last:
  assumes inv: "loop_inv el k m" and fd: "k_open k fd" and t: "t \<noteq> ELOOP_CALLBACK_MAX"
    and e0: "find_callback_by_fd el fd = Some e0"
    and z: "bits_of ((ec_callbacks e0)(t := None)) = 0" and f: "fresh m \<le> fresh m'"
    and el': "el' = el\<lparr>el_callbacks_list := filter (\<lambda>x. ec_addr x \<noteq> ec_addr e0) (el_callbacks_list el)\<rparr>"
  shows "\<exists>k'. epoll_ctl EPOLL_CTL_DEL fd ev k = (0, k') \<and> k_open k' = k_open k \<and>
     loop_inv el' k' m' \<and> watches el' = table_remove fd t (watches el)"
proof -
  note i = loop_inv_entry[OF inv e0]
  have d: "distinct (map ec_addr (el_callbacks_list el))" "distinct (map ec_fd (el_callbacks_list el))"
    using inv by (simp_all add: loop_inv_def)
  have find: "find_callback_by_fd el' fd' = (if fd' = fd then None else find_callback_by_fd el fd')" for fd'
    using find_filter_entry[OF e0[unfolded find_callback_by_fd_def] d]
    by (simp add: find_callback_by_fd_def el')
  have reg: "k_epoll k fd \<noteq> None" using inv e0 by (simp add: loop_inv_def)
  let ?k = "k\<lparr>k_epoll := (k_epoll k)(fd := None)\<rparr>"
  have "loop_inv el' ?k m'"
    unfolding loop_inv_def
  proof (intro conjI)
    show "distinct (map ec_fd (el_callbacks_list el'))" "distinct (map ec_addr (el_callbacks_list el'))"
      using d by (simp_all add: el' distinct_map_filter)
    show "\<forall>e \<in> set (el_callbacks_list el'). entry_wf (fresh m') e"
      using inv entry_wf_mono[OF _ f] by (auto simp: el' loop_inv_def)
    show "\<forall>fd. k_epoll ?k fd = map_option (\<lambda>e. (ec_events e, ec_addr e)) (find_callback_by_fd el' fd)"
      using inv by (simp add: find loop_inv_def)
  qed
  moreover have "(ec_callbacks e0)(t := None) = (\<lambda>_. None)"
  proof
    fix u
    show "((ec_callbacks e0)(t := None)) u = None"
      using z i(3) t by (cases u) (auto simp: bits_of_zero entry_wf_def split: if_splits)
  qed
  then have "watches el' = table_remove fd t (watches el)"
    by (intro ext) (auto simp: watches_def table_remove_def find e0 fun_eq_iff split: if_splits)
  ultimately show ?thesis using fd reg by (simp add: epoll_ctl_def)
qed

lemma remove_watch_other:
  assumes inv: "loop_inv el k m" and fd: "k_open k fd" and t: "t \<noteq> ELOOP_CALLBACK_MAX"
    and e0: "find_callback_by_fd el fd = Some e0"
    and e: "e = e0\<lparr>ec_callbacks := (ec_callbacks e0)(t := None),
                ec_events := ec_events e0 AND NOT (eloop_callback_type_to_epoll_event t)\<rparr>"
    and nz: "ec_events e \<noteq> 0"
    and el': "el' = el\<lparr>el_callbacks_list := set_entry e (el_callbacks_list el)\<rparr>"
  shows "\<exists>k'. epoll_ctl EPOLL_CTL_MOD fd (ec_events e, ec_addr e) k = (0, k') \<and> k_open k' = k_open k \<and>
     loop_inv el' k' m \<and> watches el' = table_remove fd t (watches el)"
proof -
  note i = loop_inv_entry[OF inv e0]
  have d: "distinct (map ec_fd (el_callbacks_list el))" "distinct (map ec_addr (el_callbacks_list el))"
    using inv by (simp_all add: loop_inv_def)
  have ea: "ec_addr e = ec_addr e0" "ec_fd e = ec_fd e0" using e by simp_all
  have ev: "ec_events e = bits_of (ec_callbacks e)"
    using bits_of_remove[OF t] i(3) by (simp add: e entry_wf_def)
  have wf: "entry_wf (fresh m) e"
    using i(3) t ev nz by (simp add: entry_wf_def e)
  have find: "find_callback_by_fd el' fd' = (if fd' = fd then Some e else find_callback_by_fd el fd')" for fd'
    using find_set_entry[OF e0[unfolded find_callback_by_fd_def] d(2) ea(1)] ea(2) i(2)
    by (simp add: find_callback_by_fd_def el')
  have reg: "k_epoll k fd \<noteq> None" using inv e0 by (simp add: loop_inv_def)
  let ?k = "k\<lparr>k_epoll := (k_epoll k)(fd := Some (ec_events e, ec_addr e))\<rparr>"
  have "loop_inv el' ?k m"
    unfolding loop_inv_def
  proof (intro conjI)
    show "distinct (map ec_fd (el_callbacks_list el'))" "distinct (map ec_addr (el_callbacks_list el'))"
      using d set_entry_maps[OF i(1) d(2) ea] by (simp_all add: el')
    show "\<forall>e \<in> set (el_callbacks_list el'). entry_wf (fresh m) e"
      using inv wf by (auto simp: el' loop_inv_def dest!: set_entry_in)
    show "\<forall>fd. k_epoll ?k fd = map_option (\<lambda>e. (ec_events e, ec_addr e)) (find_callback_by_fd el' fd)"
      using inv by (simp add: find loop_inv_def)
  qed
  moreover have "watches el' = table_remove fd t (watches el)"
    by (rule ext)+ (simp add: watches_def table_remove_def find e0 e)
  ultimately show ?thesis using fd reg by (simp add: epoll_ctl_def)
qed

lemma length_filter_entry:
  assumes "distinct (map ec_addr es)" "e0 \<in> set es"
  shows "int (length (filter (\<lambda>x. ec_addr x \<noteq> ec_addr e0) es)) = int (length es) - 1"
  using assms
proof (induction es)
  case (Cons x es)
  show ?case
  proof (cases "e0 = x")
    case True
    then have "filter (\<lambda>y. ec_addr y \<noteq> ec_addr e0) es = es"
      using Cons.prems(1) by (intro filter_True) (auto simp: image_iff)
    with True show ?thesis by simp
  next
    case False
    with Cons have "ec_addr x \<noteq> ec_addr e0" by force
    with False Cons show ?thesis by simp
  qed
qed simp

lemma remove_watch:
  assumes inv: "loop_inv el k m" and fd: "0 \<le> fd" "k_open k fd" and t: "t \<noteq> ELOOP_CALLBACK_MAX"
  shows "\<exists>ret el' k' m'. event_loop_remove_fd_watch fd t el k m = Some (ret, el', k', m') \<and>
     k_open k' = k_open k \<and> loop_inv el' k' m' \<and>
     watches el' = table_remove fd t (watches el) \<and>
     (ret = 0 \<longleftrightarrow> find_callback_by_fd el fd \<noteq> None) \<and>
     answers m' = answers m \<and>
     blocks m' - int (length (el_callbacks_list el')) = blocks m - int (length (el_callbacks_list el))"
proof (cases "find_callback_by_fd el fd")
  case None
  then have "watches el = table_remove fd t (watches el)"
    by (intro ext) (auto simp: watches_def table_remove_def)
  with None fd(1) inv show ?thesis by (simp add: event_loop_remove_fd_watch_def)
next
  case (Some e0)
  note i = loop_inv_entry[OF inv Some]
  let ?e = "e0\<lparr>ec_callbacks := (ec_callbacks e0)(t := None),
                ec_events := ec_events e0 AND NOT (eloop_callback_type_to_epoll_event t)\<rparr>"
  have ev: "ec_events ?e = bits_of ((ec_callbacks e0)(t := None))"
    using bits_of_remove[OF t] i(3) by (simp add: entry_wf_def)
  show ?thesis
  proof (cases "ec_events ?e = 0")
    case True
    let ?m = "memory_destroy (Some ?e) m"
    have "fresh m \<le> fresh ?m" by simp
    from remove_watch_last[OF inv fd(2) t Some _ this refl, of "(ec_events ?e, ec_addr ?e)"] True ev
    obtain k' where k': "epoll_ctl EPOLL_CTL_DEL fd (ec_events ?e, ec_addr ?e) k = (0, k')"
      "k_open k' = k_open k"
      "loop_inv (el\<lparr>el_callbacks_list := filter (\<lambda>x. ec_addr x \<noteq> ec_addr e0) (el_callbacks_list el)\<rparr>) k' ?m"
      "watches (el\<lparr>el_callbacks_list := filter (\<lambda>x. ec_addr x \<noteq> ec_addr e0) (el_callbacks_list el)\<rparr>)
         = table_remove fd t (watches el)" by auto
    have "distinct (map ec_addr (el_callbacks_list el))" using inv by (simp add: loop_inv_def)
    from length_filter_entry[OF this i(1)] k' True Some fd(1) t show ?thesis
      by (simp add: event_loop_remove_fd_watch_def)
  next
    case False
    from remove_watch_other[OF inv fd(2) t Some refl False refl] False Some fd(1) t show ?thesis
      by (auto simp: event_loop_remove_fd_watch_def Let_def set_entry_def)
  qed
qed

section \<open>Sequences of watch operations\<close>

datatype 'cb watch_op = Watch int ELoopWatchFdCallbackType 'cb | Unwatch int ELoopWatchFdCallbackType

fun watch_step ::
    "'cb watch_op \<Rightarrow> ('cb, 'f) ELoop \<times> kernel \<times> mem \<Rightarrow> (('cb, 'f) ELoop \<times> kernel \<times> mem) option" where
  "watch_step (Watch fd t cb) (el, k, m) = map_option snd (event_loop_add_fd_watch fd t cb el k m)"
| "watch_step (Unwatch fd t) (el, k, m) = map_option snd (event_loop_remove_fd_watch fd t el k m)"

fun table_step :: "'cb watch_op \<Rightarrow> 'cb watch_table \<Rightarrow> 'cb watch_table" where
  "table_step (Watch fd t cb) w = table_add fd t cb w"
| "table_step (Unwatch fd t) w = table_remove fd t w"

fun watch_ok :: "(int \<Rightarrow> bool) \<Rightarrow> 'cb watch_op \<Rightarrow> bool" where
  "watch_ok opened (Watch fd t cb) \<longleftrightarrow> 0 \<le> fd \<and> opened fd \<and> t \<noteq> ELOOP_CALLBACK_MAX"
| "watch_ok opened (Unwatch fd t) \<longleftrightarrow> 0 \<le> fd \<and> opened fd \<and> t \<noteq> ELOOP_CALLBACK_MAX"

interpretation watch_table:
  simulation watch_step "\<lambda>(el, k, m). loop_inv el k m \<and> answers m = [] \<and> k_open k = opened"
    "watch_ok opened" table_step "\<lambda>(el, k, m). watches el" for opened
proof (unfold_locales, goal_cases)
  case (1 s e)
  obtain el k m where s: "s = (el, k, m)" by (cases s)
  show ?case
  proof (cases e)
    case (Watch fd t cb)
    then show ?thesis using add_watch[of el k m fd t cb] 1 by (auto simp: s)
  next
    case (Unwatch fd t)
    then show ?thesis using remove_watch[of el k m fd t] 1 by (auto simp: s)
  qed
qed

text \<open>The same with allocations that may fail, for the blocks and the collector.\<close>

lemma add_watch_collector:
  "event_loop_add_fd_watch fd t cb el k m = Some (ret, el', k', m') \<Longrightarrow> el_collector el' = el_collector el"
  by (auto simp: event_loop_add_fd_watch_def Let_def split: option.splits prod.splits if_splits)

lemma remove_watch_collector:
  "event_loop_remove_fd_watch fd t el k m = Some (ret, el', k', m') \<Longrightarrow> el_collector el' = el_collector el"
  by (auto simp: event_loop_remove_fd_watch_def Let_def split: option.splits prod.splits if_splits)

interpretation watch_blocks:
  simulation watch_step "\<lambda>(el, k, m). loop_inv el k m \<and> k_open k = opened" "watch_ok opened"
    "\<lambda>_. id" "\<lambda>(el, k, m). (el_collector el, blocks m - int (length (el_callbacks_list el)))" for opened
proof (unfold_locales, goal_cases)
  case (1 s e)
  obtain el k m where s: "s = (el, k, m)" by (cases s)
  show ?case
  proof (cases e)
    case (Watch fd t cb)
    then show ?thesis using add_watch[of el k m fd t cb] add_watch_collector[of fd t cb el k m] 1 by (auto simp: s)
  next
    case (Unwatch fd t)
    then show ?thesis using remove_watch[of el k m fd t] remove_watch_collector[of fd t el k m] 1 by (auto simp: s)
  qed
qed

definition interest :: "(ELoopWatchFdCallbackType \<Rightarrow> 'cb option) \<Rightarrow> 32 word option" where
  "interest w = (if bits_of w = 0 then None else Some (bits_of w))"

lemma interest_list:
  assumes "loop_inv el k m"
  shows "map_option fst (k_epoll k fd) = interest (watches el fd)"
proof (cases "find_callback_by_fd el fd")
  case None
  then have "watches el fd = (\<lambda>_. None)" by (simp add: watches_def fun_eq_iff)
  with None assms show ?thesis by (simp add: loop_inv_def interest_def bits_of_def)
next
  case (Some e)
  then have "watches el fd = ec_callbacks e" by (simp add: watches_def fun_eq_iff)
  with Some loop_inv_entry(3)[OF assms Some] assms show ?thesis
    by (auto simp: loop_inv_def interest_def entry_wf_def)
qed

lemma event_loop_new_inv:
  assumes "event_loop_new epollfd m = (Some el, m1)" "k_epoll k = (\<lambda>_. None)"
  shows "loop_inv el k m1 \<and> watches el = (\<lambda>_ _. None)"
  using assms by (auto simp: event_loop_new_def loop_inv_def watches_def find_callback_by_fd_def
      fun_eq_iff split: prod.splits option.splits if_splits)

lemma event_loop_new_answers:
  "event_loop_new epollfd m = (r, m1) \<Longrightarrow> answers m = [] \<Longrightarrow> answers m1 = []"
  by (auto simp: event_loop_new_def collector_new_def Let_def split: if_splits)

text \<open>
  C12: From a new event loop, after any sequence of adding and removing watches on open
  descriptors (with allocations that succeed) the loop knows for each descriptor exactly the callbacks
  of a table updated by the same operations, and the kernel's interest list holds each descriptor with
  a watch, and only those, with exactly the events watched on it: no event is asked for without a
  callback, none is forgotten.
\<close>

theorem watch_table_mirrored:
  assumes "event_loop_new epollfd m = (Some el, m1)" "answers m = []"
    and "k_epoll k = (\<lambda>_. None)" "list_all (watch_ok (k_open k)) ops"
  shows "\<exists>el' k' m'. run_opt watch_step ops (el, k, m1) = Some (el', k', m') \<and>
     watches el' = fold table_step ops (\<lambda>_ _. None) \<and>
     (\<forall>fd. map_option fst (k_epoll k' fd) = interest (watches el' fd))"
proof -
  have "loop_inv el k m1" "answers m1 = []" "watches el = (\<lambda>_ _. None)"
    using event_loop_new_inv[OF assms(1,3)] event_loop_new_answers[OF assms(1,2)] by auto
  with watch_table.run_sim[of "k_open k" "(el, k, m1)" ops] assms(4) show ?thesis
    by (auto simp: interest_list)
qed

definition all_open :: kernel where
  "all_open = \<lparr>k_open = (\<lambda>fd. 0 \<le> fd), k_epoll = (\<lambda>_. None)\<rparr>"

definition new_loop :: "(nat, unit) ELoop" where
  "new_loop = \<lparr>el_epollfd = 3, el_collector = Some \<lparr>collect_entries_list = []\<rparr>,
     el_callbacks_list = [], el_running = False\<rparr>"

lemma new_loop_made: "\<exists>m1. event_loop_new 3 mem0 = (Some new_loop, m1)"
  by (simp add: event_loop_new_def collector_new_def new_loop_def)

theorem watch_table_mirrored_witness:
  "\<exists>m1 el' k' m'. event_loop_new 3 mem0 = (Some new_loop, m1) \<and>
     run_opt watch_step [Watch 5 ELOOP_CALLBACK_READ 1, Watch 5 ELOOP_CALLBACK_CLOSE 2,
        Watch 7 ELOOP_CALLBACK_READ 3, Unwatch 5 ELOOP_CALLBACK_READ,
        Unwatch 7 ELOOP_CALLBACK_READ] (new_loop, all_open, m1) = Some (el', k', m') \<and>
     map_option fst (k_epoll k' 5) = Some EPOLLRDHUP \<and> k_epoll k' 7 = None"
proof -
  obtain m1 where n: "event_loop_new 3 mem0 = (Some new_loop, m1)" using new_loop_made by blast
  let ?ops = "[Watch 5 ELOOP_CALLBACK_READ 1, Watch 5 ELOOP_CALLBACK_CLOSE 2,
        Watch 7 ELOOP_CALLBACK_READ 3, Unwatch 5 ELOOP_CALLBACK_READ,
        Unwatch 7 ELOOP_CALLBACK_READ]"
  have "\<exists>el' k' m'. run_opt watch_step ?ops (new_loop, all_open, m1) = Some (el', k', m') \<and>
     watches el' = fold table_step ?ops (\<lambda>_ _. None) \<and>
     (\<forall>fd. map_option fst (k_epoll k' fd) = interest (watches el' fd))"
    by (rule watch_table_mirrored[OF n]) (simp_all add: all_open_def)
  then obtain el' k' m' where r: "run_opt watch_step ?ops (new_loop, all_open, m1) = Some (el', k', m')"
    "watches el' = fold table_step ?ops (\<lambda>_ _. None)"
    "\<And>fd. map_option fst (k_epoll k' fd) = interest (watches el' fd)" by blast
  have "map_option fst (k_epoll k' 5) = Some EPOLLRDHUP" "map_option fst (k_epoll k' 7) = None"
    unfolding r(3) r(2) by (simp_all add: table_add_def table_remove_def interest_def bits_of_def)
  with n r(1) show ?thesis by auto
qed

text \<open>
  With any pattern of failing allocations, a loop that was created, had descriptors watched and
  unwatched in any sequence and is then destroyed has given back all its memory except one block for each
  descriptor still watched: \<open>event_loop_destroy\<close> does not free the list of entries.
\<close>

theorem destroyed_loop_leaks_entries:
  assumes "event_loop_new epollfd m = (Some el, m1)" "el_collector el \<noteq> None"
    and "k_epoll k = (\<lambda>_. None)" "list_all (watch_ok (k_open k)) ops"
  shows "\<exists>el' k' m2. run_opt watch_step ops (el, k, m1) = Some (el', k', m2) \<and>
     blocks (snd (event_loop_destroy recorded el' [] m2)) =
       blocks m + int (length (el_callbacks_list el'))"
proof -
  have inv: "loop_inv el k m1" using event_loop_new_inv[OF assms(1,3)] by simp
  from watch_blocks.run_sim[of "k_open k" "(el, k, m1)" ops] inv assms(4)
  obtain el' k' m2 where r: "run_opt watch_step ops (el, k, m1) = Some (el', k', m2)"
    "el_collector el' = el_collector el"
    "blocks m2 - int (length (el_callbacks_list el')) = blocks m1 - int (length (el_callbacks_list el))"
    by (auto simp: fold_id)
  obtain c where c: "el_collector el = Some c" "collect_entries_list c = []"
      "el_callbacks_list el = []" "blocks m1 = blocks m + 2"
    using assms(1,2) by (auto simp: event_loop_new_def collector_new_def mem_simps
        split: prod.splits option.splits if_splits)
  have "blocks (snd (event_loop_destroy recorded el' [] m2)) =
      blocks m + int (length (el_callbacks_list el'))"
    using r(2,3) c by (simp add: event_loop_destroy_def collector_destroy_def collector_collect_recorded)
  with r(1) show ?thesis by blast
qed

theorem destroyed_loop_leaks_entries_witness:
  "\<exists>m1 el' k' m2. event_loop_new 3 mem0 = (Some new_loop, m1) \<and>
     run_opt watch_step [Watch 5 ELOOP_CALLBACK_READ 1, Watch 7 ELOOP_CALLBACK_READ 3,
        Unwatch 7 ELOOP_CALLBACK_READ] (new_loop, all_open, m1) = Some (el', k', m2) \<and>
     blocks (snd (event_loop_destroy recorded el' [] m2)) = int (length (el_callbacks_list el'))"
proof -
  obtain m1 where n: "event_loop_new 3 mem0 = (Some new_loop, m1)" using new_loop_made by blast
  from destroyed_loop_leaks_entries[OF n, of all_open "[Watch 5 ELOOP_CALLBACK_READ 1,
      Watch 7 ELOOP_CALLBACK_READ 3, Unwatch 7 ELOOP_CALLBACK_READ]"] n
  show ?thesis by (simp add: all_open_def new_loop_def)
qed

section \<open>Dispatching\<close>

text \<open>A callback that only notes that it was called, and on which descriptor.\<close>

definition noted :: "'cb \<Rightarrow> int \<Rightarrow> ('cb, 'f, ('cb \<times> int) list) loop_state
    \<Rightarrow> ('cb, 'f, ('cb \<times> int) list) loop_state option" where
  "noted cb fd s = Some (s\<lparr>ls_world := ls_world s @ [(cb, fd)]\<rparr>)"

lemma loop_inv_entry_at:
  assumes inv: "loop_inv (ls_eloop s) k m" and k: "k_epoll k fd = Some (asked, a)"
  shows "\<exists>e. entry_at a s = Some e \<and> ec_fd e = fd \<and> ec_callbacks e = watches (ls_eloop s) fd"
proof -
  obtain e where e: "find_callback_by_fd (ls_eloop s) fd = Some e" "ec_addr e = a"
    using inv k by (auto simp: loop_inv_def)
  note i = loop_inv_entry[OF inv e(1)]
  have "distinct (map ec_addr (el_callbacks_list (ls_eloop s)))" using inv by (simp add: loop_inv_def)
  from find_key_unique[OF this i(1)] e i(2) show ?thesis
    by (simp add: entry_at_def watches_def fun_eq_iff)
qed

lemma dispatch_kind_noted:
  assumes "entry_at a s = Some e"
  shows "dispatch_kind noted t (a, ev) s =
    (case ec_callbacks e t of
       Some cb \<Rightarrow> if ev AND eloop_callback_type_to_epoll_event t = 0 then Some s
                   else Some (s\<lparr>ls_world := ls_world s @ [(cb, ec_fd e)]\<rparr>)
     | None \<Rightarrow> Some s)"
  using assms by (simp add: dispatch_kind_def noted_def split: option.split)

lemma entry_at_world [simp]: "entry_at a (s\<lparr>ls_world := w\<rparr>) = entry_at a s"
  by (simp add: entry_at_def)

text \<open>
  C28: When the kernel reports events on a watched descriptor, with the address it was registered with,
  the loop calls for each reported event the callback the watch table holds for it, with that
  descriptor: first for a closed peer, then for reading, then for writing.  Events without a callback are
  passed over.
\<close>

theorem event_dispatched:
  assumes "loop_inv (ls_eloop s) (ls_kernel s) (ls_mem s)" "k_epoll (ls_kernel s) fd = Some (asked, a)"
  shows "dispatch_event noted (a, ev) s = Some (s\<lparr>ls_world := ls_world s @
    [(cb, fd). t \<leftarrow> [ELOOP_CALLBACK_CLOSE, ELOOP_CALLBACK_READ, ELOOP_CALLBACK_WRITE],
      ev AND eloop_callback_type_to_epoll_event t \<noteq> 0,
      cb \<leftarrow> (case watches (ls_eloop s) fd t of None \<Rightarrow> [] | Some cb \<Rightarrow> [cb])]\<rparr>)"
proof -
  obtain e where e: "entry_at a s = Some e" "ec_fd e = fd" "ec_callbacks e = watches (ls_eloop s) fd"
    using loop_inv_entry_at[OF assms] by blast
  note step = dispatch_kind_noted[of a _ e]
  show ?thesis
    using e by (simp add: dispatch_event_def step split: option.split)
qed

definition watched_entry :: "nat ELoopCallback" where
  "watched_entry = \<lparr>ec_addr = 4, ec_fd = 6, ec_events = EPOLLIN OR EPOLLRDHUP,
     ec_callbacks = (\<lambda>_. None)(ELOOP_CALLBACK_READ := Some 10, ELOOP_CALLBACK_CLOSE := Some 20)\<rparr>"

definition watched_state :: "(nat, unit, (nat \<times> int) list) loop_state" where
  "watched_state =
     \<lparr>ls_eloop = new_loop\<lparr>el_callbacks_list := [watched_entry]\<rparr>,
      ls_kernel = all_open\<lparr>k_epoll := (\<lambda>_. None)(6 := Some (EPOLLIN OR EPOLLRDHUP, 4))\<rparr>,
      ls_world = [], ls_mem = mem0\<lparr>fresh := 5\<rparr>\<rparr>"

theorem event_dispatched_witness:
  "dispatch_event noted (4, EPOLLIN OR EPOLLOUT OR EPOLLRDHUP) watched_state =
     Some (watched_state\<lparr>ls_world := [(20, 6), (10, 6)]\<rparr>)"
proof -
  have inv: "loop_inv (ls_eloop watched_state) (ls_kernel watched_state) (ls_mem watched_state)"
    by (simp add: watched_state_def watched_entry_def loop_inv_def entry_wf_def bits_of_def
        find_callback_by_fd_def new_loop_def EPOLLIN_def EPOLLRDHUP_def)
  have k: "k_epoll (ls_kernel watched_state) 6 = Some (EPOLLIN OR EPOLLRDHUP, 4)"
    by (simp add: watched_state_def)
  show ?thesis
    unfolding event_dispatched[OF inv k]
    by (simp add: watches_def find_callback_by_fd_def watched_state_def watched_entry_def new_loop_def
        eloop_callback_type_to_epoll_event_def EPOLLIN_def EPOLLOUT_def EPOLLRDHUP_def)
qed

end
