(* ===== verification/Config_Commandline.thy ===== *)
theory Config_Commandline
  imports Config_Common Logger ELoop
begin

text \<open>
  The command line (\<open>src/config/commandline.c\<close>): every option of the store becomes an option of the
  command line, in one array for \<open>argp\<close> with a parallel array that maps an entry back to its
  option, and a second parser takes the few options that are needed before the store exists.
  \<open>argp\<close> itself is the C library's: the parameter \<open>argp\<close> gives, for its flags, a table of options and the
  arguments, what it does in turn.  It hands a key with an argument to the parser - beside the keys of the options
  those that mark the beginning and the end of the parse - and stops when the parser returns anything but 0; or it
  ends the process itself, which is what it does for \<open>--help\<close>, \<open>--usage\<close> and \<open>--version\<close> (status 0) and for an
  option it does not know (status 64).  With the flag \<open>ARGP_NO_EXIT\<close> it returns an error there instead.  An array is
  a list, a \<open>NULL\<close> one is empty, and writing outside is undefined (\<open>None\<close>).
\<close>

section \<open>Constants\<close>

definition ARG_INDEX_BASE :: int where "ARG_INDEX_BASE = 128"
definition ARG_LOGLEVEL :: int where "ARG_LOGLEVEL = ARG_INDEX_BASE + 0"
definition ARG_LOGOUTPUT :: int where "ARG_LOGOUTPUT = ARG_INDEX_BASE + 1"
definition ARG_LOGNOCOLOR :: int where "ARG_LOGNOCOLOR = ARG_INDEX_BASE + 2"
definition ARG_LOAD :: int where "ARG_LOAD = ARG_INDEX_BASE + 3"
definition ARG_INDEX_OFFSET :: int where "ARG_INDEX_OFFSET = 150"

definition EINVAL :: int where "EINVAL = 22"
definition ARGP_KEY_END :: int where "ARGP_KEY_END = 0x1000001"
definition ARGP_KEY_NO_ARGS :: int where "ARGP_KEY_NO_ARGS = 0x1000002"
definition ARGP_KEY_INIT :: int where "ARGP_KEY_INIT = 0x1000003"
definition ARGP_KEY_SUCCESS :: int where "ARGP_KEY_SUCCESS = 0x1000004"
definition ARGP_KEY_ERROR :: int where "ARGP_KEY_ERROR = 0x1000005"
definition ARGP_KEY_FINI :: int where "ARGP_KEY_FINI = 0x1000007"

definition ARGP_NO_EXIT :: int where "ARGP_NO_EXIT = 0x20"
definition ARGP_SILENT :: int where "ARGP_SILENT = 0x32"

lemmas key_defs = ARG_INDEX_BASE_def ARG_LOGLEVEL_def ARG_LOGOUTPUT_def ARG_LOGNOCOLOR_def ARG_LOAD_def
  ARG_INDEX_OFFSET_def ARGP_KEY_END_def ARGP_KEY_NO_ARGS_def ARGP_KEY_INIT_def ARGP_KEY_SUCCESS_def
  ARGP_KEY_ERROR_def ARGP_KEY_FINI_def

definition argp_zero :: argp_option where
  "argp_zero = \<lparr>ao_name = None, ao_key = 0, ao_arg = None, ao_doc_only = False, ao_doc = None, ao_group = 0\<rparr>"

definition rappoptions :: "argp_option list" where
  "rappoptions =
     [argp_zero\<lparr>ao_doc_only := True, ao_doc := Some ''Logging:'', ao_group := -3\<rparr>,
      argp_zero\<lparr>ao_name := Some ''log-level'', ao_key := ARG_LOGLEVEL, ao_arg := Some ''LOGLEVEL'',
        ao_doc := Some ''Log level, one of: {CRITICAL, ERROR, WARN, INFO, DEBUG}''\<rparr>,
      argp_zero\<lparr>ao_name := Some ''log-output'', ao_key := ARG_LOGOUTPUT, ao_arg := Some ''OUTPUT'',
        ao_doc := Some ''Log to file, defaults to <stderr>.''\<rparr>,
      argp_zero\<lparr>ao_name := Some ''log-nocolor'', ao_key := ARG_LOGNOCOLOR,
        ao_doc := Some ''Disable colors in logs''\<rparr>,
      argp_zero\<lparr>ao_doc_only := True, ao_doc := Some ''Containers:'', ao_group := -2\<rparr>,
      argp_zero\<lparr>ao_name := Some ''load'', ao_key := ARG_LOAD, ao_arg := Some ''PATH'',
        ao_doc := Some ''Load container .so''\<rparr>,
      argp_zero]"

definition rappoptions_len :: nat where "rappoptions_len = length rappoptions"

section \<open>The table of options\<close>

definition replace_underscores :: "string \<Rightarrow> string" where
  "replace_underscores s = map (\<lambda>c. if c = CHR ''_'' then CHR ''-'' else c) s"

record argp_table =
  at_options :: "argp_option list"
  at_map :: "opt_ref option list"
  at_index :: nat

text \<open>The metavariable and the help text of one option.\<close>

definition option_arg :: "ConfigOption \<Rightarrow> string option \<Rightarrow> mem \<Rightarrow> string option \<times> mem" where
  "option_arg opt arg m =
     (if opt_type opt \<noteq> PARAM_BOOL then
        (case opt_metavar opt of
           None \<Rightarrow> (let (metavar, m) = memory_strdup (opt_name opt) m in (map_option uppercase metavar, m))
         | Some mv \<Rightarrow> memory_strdup mv m)
      else (arg, m))"

definition option_doc :: "ConfigOption \<Rightarrow> string option \<Rightarrow> mem \<Rightarrow> string option \<times> mem" where
  "option_doc opt doc m = (case opt_help opt of None \<Rightarrow> (doc, m) | Some h \<Rightarrow> memory_strdup h m)"

fun argp_options_loop ::
    "string option \<Rightarrow> nat \<Rightarrow> int \<Rightarrow> nat \<Rightarrow> nat \<Rightarrow> ConfigOption list \<Rightarrow> argp_table \<Rightarrow> mem
      \<Rightarrow> (int \<times> argp_table \<times> mem) option" where
  "argp_options_loop pre pre_length grp i j [] tab m = Some (0, tab, m)"
| "argp_options_loop pre pre_length grp i j (opt # opts) tab m =
     (let optname_length = pre_length + length (opt_name opt) + 1;
          (p, m) = memory_create m in
      case p of
        None \<Rightarrow> Some (-1, tab, m)
      | Some _ \<Rightarrow>
         (let optname = replace_underscores (snprintf optname_length
                (case pre of None \<Rightarrow> opt_name opt | Some text \<Rightarrow> text @ opt_name opt));
              index = at_index tab in
          if length (at_options tab) \<le> index \<or> length (at_map tab) \<le> index then None
          else
            (let entry = at_options tab ! index;
                 (arg, m) = option_arg opt (ao_arg entry) m;
                 (doc, m) = option_doc opt (ao_doc entry) m;
                 entry = entry\<lparr>ao_key := int index + ARG_INDEX_OFFSET, ao_name := Some optname,
                               ao_arg := arg, ao_group := grp, ao_doc := doc\<rparr>
             in argp_options_loop pre pre_length grp i (Suc j) opts
                  (tab\<lparr>at_options := (at_options tab)[index := entry],
                       at_map := (at_map tab)[index := Some (i, j)], at_index := Suc index\<rparr>) m)))"

text \<open>The prefix is not released when an option fails.\<close>

definition generate_argp_for_section ::
    "nat \<Rightarrow> ConfigSection \<Rightarrow> int \<Rightarrow> argp_table \<Rightarrow> mem \<Rightarrow> (int \<times> argp_table \<times> mem) option" where
  "generate_argp_for_section i sect grp tab m =
     (if sect_name sect \<noteq> RAPP_CONFIG_SECTION then
        (let prefix_length = length (sect_name sect) + 2;
             (p, m) = memory_create m in
         case p of
           None \<Rightarrow> Some (-1, tab, m)
         | Some _ \<Rightarrow> do {
             (ret, tab, m) \<leftarrow> argp_options_loop (Some (snprintf prefix_length (sect_name sect @ ''-'')))
                                prefix_length grp i 0 (sect_options sect) tab m;
             if ret \<noteq> 0 then Some (ret, tab, m) else Some (0, tab, memory_destroy p m)
           })
      else argp_options_loop None 0 grp i 0 (sect_options sect) tab m)"

definition titlebase :: string where "titlebase = ''Options for ''"

text \<open>The block for a title is written without a check.\<close>

fun generate_sections ::
    "nat \<Rightarrow> int \<Rightarrow> ConfigSection list \<Rightarrow> argp_table \<Rightarrow> mem \<Rightarrow> (int \<times> argp_table \<times> mem) option" where
  "generate_sections i grp [] tab m = Some (0, tab, m)"
| "generate_sections i grp (s # ss) tab m =
     (let index = at_index tab;
          title_len = length (sect_name s) + length titlebase + 4;
          (p, m) = memory_create m in
      if length (at_options tab) \<le> index \<or> p = None then None
      else
        (let doc = snprintf title_len (titlebase @ [CHR 0x27] @ sect_name s @ [CHR 0x27, CHR '':'']);
             tab = tab\<lparr>at_options := (at_options tab)[index := (at_options tab ! index)
                       \<lparr>ao_group := grp, ao_doc_only := True, ao_doc := Some doc\<rparr>],
                     at_index := Suc index\<rparr> in do {
           (ret, tab, m) \<leftarrow> generate_argp_for_section i s grp tab m;
           if ret \<noteq> 0 then Some (-1, tab, m) else generate_sections (Suc i) (grp + 1) ss tab m
         }))"

definition config_generate_commandline :: "RappConfig \<Rightarrow> mem \<Rightarrow> (int \<times> RappConfig \<times> mem) option" where
  "config_generate_commandline conf m =
     (if cf_options conf \<noteq> None then Some (-1, conf, m)
      else
        (let num_options = 1 + sum_list (map (\<lambda>s. sect_num_opts s + 1) (cf_sections conf));
             n = num_options + rappoptions_len;
             (p, m) = memory_create m;
             (q, m) = memory_create m;
             tab = \<lparr>at_options = (if p = None then [] else replicate n argp_zero),
                    at_map = (if q = None then [] else replicate n None), at_index = 0\<rparr> in do {
           (ret, tab, m) \<leftarrow> generate_sections 0 1 (cf_sections conf) tab m;
           let conf = conf\<lparr>cf_options := map_option (\<lambda>_. at_options tab) p,
                           cf_options_map := map_option (\<lambda>_. at_map tab) q\<rparr>;
           if ret \<noteq> 0 then Some (-1, conf, m)
           else Some (0, conf\<lparr>cf_num_argp_options := at_index tab\<rparr>, m)
         }))"

text \<open>Nothing of it is the C library's.\<close>

lemma option_texts_lib:
  "option_arg opt a m = (r, m') \<Longrightarrow> lib_blocks m' = lib_blocks m"
  "option_doc opt d m = (r, m') \<Longrightarrow> lib_blocks m' = lib_blocks m"
  by (auto simp: option_arg_def option_doc_def dest!: lib_kept split: if_splits option.splits prod.splits)

lemma options_loop_lib:
  "argp_options_loop pre l grp i j opts tab m = Some (ret, tab', m') \<Longrightarrow> lib_blocks m' = lib_blocks m"
  by (induction pre l grp i j opts tab m rule: argp_options_loop.induct)
    (auto simp: Let_def dest!: lib_kept option_texts_lib split: prod.splits option.splits if_splits)

lemma generate_sections_lib:
  "generate_sections i grp ss tab m = Some (ret, tab', m') \<Longrightarrow> lib_blocks m' = lib_blocks m"
proof (induction i grp ss tab m rule: generate_sections.induct)
  case (2 i grp s ss tab m)
  then show ?case
    by (auto simp: generate_argp_for_section_def Let_def dest!: lib_kept options_loop_lib
        split: prod.splits option.splits if_splits Option.bind_splits)
qed simp

lemma generate_lib: "config_generate_commandline conf m = Some (ret, conf', m') \<Longrightarrow> lib_blocks m' = lib_blocks m"
  by (auto simp: config_generate_commandline_def Let_def dest!: lib_kept generate_sections_lib
      split: prod.splits if_splits Option.bind_splits)

section \<open>Parsing\<close>

definition parse_commandline_opt ::
    "int \<Rightarrow> string option \<Rightarrow> RappConfig \<times> mem \<Rightarrow> (int \<times> RappConfig \<times> mem) option" where
  "parse_commandline_opt key arg cm =
     (let (conf, m) = cm; index = key - ARG_INDEX_OFFSET in
      if key \<in> {ARGP_KEY_NO_ARGS, ARGP_KEY_INIT, ARGP_KEY_FINI, ARGP_KEY_END, ARGP_KEY_SUCCESS} then Some (0, conf, m)
      else if key = ARGP_KEY_ERROR then Some (EINVAL, conf, m)
      else if ARG_INDEX_BASE \<le> key \<and> key < ARG_INDEX_OFFSET then Some (0, conf, m)
      else if index < 0 \<or> int (cf_num_argp_options conf) < index then Some (EINVAL, conf, m)
      else do {
        options_map \<leftarrow> cf_options_map conf;
        (if length options_map \<le> nat index then None
         else (case options_map ! nat index of
             None \<Rightarrow> Some (EINVAL, conf, m)
           | Some r \<Rightarrow>
              (case arg of
                 None \<Rightarrow> Some (EINVAL, conf, m)
               | Some text \<Rightarrow>
                  (let (ret, opt, m) = config_add_value_from_string text (opt_at conf r) m in
                   if ret \<noteq> 0 then Some (EINVAL, put_opt r opt conf, m)
                   else Some (0, put_opt r (opt\<lparr>opt_no_override := True\<rparr>) conf, m)))))
      })"

text \<open>What \<open>argp_parse\<close> does: it calls the parser, or it ends the process with a status.\<close>

datatype argp_event = Argp_key int "string option" | Argp_exit int

type_synonym argp_lib = "int \<Rightarrow> argp_option list \<Rightarrow> string list \<Rightarrow> argp_event list"

text \<open>A function that may not come back: it returned a number, or the process has ended with a status.\<close>

datatype ending = Returned int | Exited int

text \<open>
  \<open>argp_parse\<close> returns 0 or the parser's error.  After an error it still hands \<open>ARGP_KEY_ERROR\<close> and \<open>ARGP_KEY_FINI\<close>
  to the parser, whose answers it does not look at; both parsers of the program change nothing then.
\<close>

fun argp_run ::
    "int \<Rightarrow> (int \<Rightarrow> string option \<Rightarrow> 's \<Rightarrow> (int \<times> 's) option) \<Rightarrow> argp_event list \<Rightarrow> 's \<Rightarrow> (ending \<times> 's) option" where
  "argp_run flags parser [] s = Some (Returned 0, s)"
| "argp_run flags parser (Argp_key key arg # es) s = do {
     (ret, s) \<leftarrow> parser key arg s;
     if ret \<noteq> 0 then Some (Returned ret, s) else argp_run flags parser es s
   }"
| "argp_run flags parser (Argp_exit status # es) s =
     Some (if flags AND ARGP_NO_EXIT \<noteq> 0 then Returned EINVAL else Exited status, s)"

fun copy_early :: "nat \<Rightarrow> argp_option list \<Rightarrow> argp_option list \<Rightarrow> argp_option list option" where
  "copy_early index [] opts = Some opts"
| "copy_early index (e # es) opts =
     (if length opts \<le> index then None
      else copy_early (Suc index) es
        (opts[index := (opts ! index)\<lparr>ao_name := ao_name e, ao_arg := ao_arg e, ao_key := ao_key e,
                         ao_group := ao_group e, ao_doc := ao_doc e\<rparr>]))"

definition config_parse_commandline ::
    "argp_lib \<Rightarrow> string list \<Rightarrow> RappConfig \<Rightarrow> mem \<Rightarrow> (ending \<times> RappConfig \<times> mem) option" where
  "config_parse_commandline argp argv conf m =
     (let (argp_conf, m) = memory_create m in
      case argp_conf of
        None \<Rightarrow> Some (Returned (-1), conf, m)
      | Some _ \<Rightarrow> do {
          (ret, conf, m) \<leftarrow> config_generate_commandline conf m;
          if ret \<noteq> 0 then Some (Returned (-1), conf, m)
          else do {
            opts \<leftarrow> copy_early (cf_num_argp_options conf) rappoptions
                     (case cf_options conf of None \<Rightarrow> [] | Some opts \<Rightarrow> opts);
            let conf = conf\<lparr>cf_options := Some opts\<rparr>;
            (res, conf, m) \<leftarrow> argp_run 0 parse_commandline_opt (argp 0 opts argv) (conf, m);
            (case res of
               Exited _ \<Rightarrow> Some (res, conf, m)
             | Returned _ \<Rightarrow> Some (res, conf, memory_destroy argp_conf m))
          }
        })"

section \<open>Early options\<close>

datatype log_stream = Stdout | Stderr | Opened string

record RappArguments =
  ra_loglevel :: LogLevel
  ra_logoutput_is_console :: bool
  ra_logoutput :: "log_stream option"
  ra_lognocolor :: bool
  ra_container :: "string option"

definition early_level :: "string \<Rightarrow> LogLevel option" where
  "early_level arg =
     (if strcaseeq arg ''CRITICAL'' then Some LOG_CRITICAL
      else if strcaseeq arg ''ERROR'' then Some LOG_ERROR
      else if strcaseeq arg ''WARN'' then Some LOG_WARNING
      else if strcaseeq arg ''INFO'' then Some LOG_INFO
      else if strcaseeq arg ''DEBUG'' then Some LOG_DEBUG
      else None)"

text \<open>
  \<open>fopen\<close> gives the descriptor of a file that it opens for writing; the stream is the library's object.  Nobody closes
  it: the logger says that the file is not its own.
\<close>

definition parse_early_opt ::
    "(string \<Rightarrow> int option) \<Rightarrow> int \<Rightarrow> string option \<Rightarrow> RappArguments \<times> kernel \<times> mem
      \<Rightarrow> (int \<times> RappArguments \<times> kernel \<times> mem) option" where
  "parse_early_opt fopen key arg akm =
     (let (arguments, k, m) = akm in Some (
      if key = ARG_LOGLEVEL then
        (case arg of
           None \<Rightarrow> (EINVAL, arguments, k, m)
         | Some text \<Rightarrow>
            (case early_level text of
               None \<Rightarrow> (0, arguments, k, m)
             | Some lvl \<Rightarrow> (0, arguments\<lparr>ra_loglevel := lvl\<rparr>, k, m)))
      else if key = ARG_LOGOUTPUT then
        (let arguments = arguments\<lparr>ra_logoutput := None\<rparr> in
         case arg of
           None \<Rightarrow> (EINVAL, arguments, k, m)
         | Some text \<Rightarrow>
             if text = ''-'' then (0, arguments\<lparr>ra_logoutput := Some Stdout\<rparr>, k, m)
             else
               (let arguments = arguments\<lparr>ra_logoutput_is_console := False\<rparr> in
                case fopen text of
                  None \<Rightarrow> (EINVAL, arguments, k, m)
                | Some fd \<Rightarrow> (0, arguments\<lparr>ra_logoutput := Some (Opened text)\<rparr>, open_fd fd k, lib_alloc 1 m)))
      else if key = ARG_LOGNOCOLOR then (0, arguments\<lparr>ra_lognocolor := True\<rparr>, k, m)
      else if key = ARG_LOAD then
        (case arg of
           None \<Rightarrow> (EINVAL, arguments, k, m)
         | Some text \<Rightarrow> (let (s, m) = memory_strdup text m in (0, arguments\<lparr>ra_container := s\<rparr>, k, m)))
      else (0, arguments, k, m)))"

definition config_parse_early_commandline ::
    "argp_lib \<Rightarrow> (string \<Rightarrow> int option) \<Rightarrow> string list \<Rightarrow> RappArguments \<Rightarrow> kernel \<Rightarrow> mem
      \<Rightarrow> (ending \<times> RappArguments \<times> kernel \<times> mem) option" where
  "config_parse_early_commandline argp fopen argv arguments k m =
     (if argv = [] then Some (Returned (-1), arguments, k, m)
      else argp_run ARGP_SILENT (parse_early_opt fopen) (argp ARGP_SILENT rappoptions argv)
        (\<lparr>ra_loglevel = LOG_INFO, ra_logoutput_is_console = True, ra_logoutput = Some Stderr,
          ra_lognocolor = False, ra_container = None\<rparr>, k, m))"

section \<open>The table, as it should be\<close>

definition command_name :: "ConfigSection \<Rightarrow> ConfigOption \<Rightarrow> string" where
  "command_name sect opt = replace_underscores
     ((if sect_name sect = RAPP_CONFIG_SECTION then [] else sect_name sect @ ''-'') @ opt_name opt)"

definition option_entry :: "nat \<Rightarrow> nat \<Rightarrow> ConfigSection \<Rightarrow> ConfigOption \<Rightarrow> argp_option" where
  "option_entry i index sect opt =
     \<lparr>ao_name = Some (command_name sect opt), ao_key = int index + ARG_INDEX_OFFSET,
      ao_arg = (if opt_type opt = PARAM_BOOL then None
                else Some (case opt_metavar opt of None \<Rightarrow> uppercase (opt_name opt) | Some mv \<Rightarrow> mv)),
      ao_doc_only = False, ao_doc = opt_help opt, ao_group = int i + 1\<rparr>"

definition title_entry :: "nat \<Rightarrow> ConfigSection \<Rightarrow> argp_option" where
  "title_entry i sect = argp_zero\<lparr>ao_group := int i + 1, ao_doc_only := True,
     ao_doc := Some (titlebase @ [CHR 0x27] @ sect_name sect @ [CHR 0x27, CHR '':''])\<rparr>"

fun option_rows :: "nat \<Rightarrow> nat \<Rightarrow> nat \<Rightarrow> ConfigSection \<Rightarrow> ConfigOption list \<Rightarrow> (argp_option \<times> opt_ref option) list" where
  "option_rows i j index sect [] = []"
| "option_rows i j index sect (opt # opts) =
     (option_entry i index sect opt, Some (i, j)) # option_rows i (Suc j) (Suc index) sect opts"

fun section_rows :: "nat \<Rightarrow> nat \<Rightarrow> ConfigSection list \<Rightarrow> (argp_option \<times> opt_ref option) list" where
  "section_rows i index [] = []"
| "section_rows i index (s # ss) =
     (title_entry i s, None) # option_rows i 0 (Suc index) s (sect_options s) @
       section_rows (Suc i) (Suc index + length (sect_options s)) ss"

definition entry_owned :: "argp_option \<Rightarrow> int" where
  "entry_owned e = opt_bit (ao_name e) + opt_bit (ao_arg e) + opt_bit (ao_doc e)"

definition rows_owned :: "(argp_option \<times> opt_ref option) list \<Rightarrow> int" where
  "rows_owned rs = sum_list (map (\<lambda>r. entry_owned (fst r)) rs)"

lemma rows_owned_simps [simp]:
  "rows_owned [] = 0" "rows_owned (r # rs) = entry_owned (fst r) + rows_owned rs"
  "rows_owned (rs @ rs') = rows_owned rs + rows_owned rs'"
  by (simp_all add: rows_owned_def)

text \<open>A table filled with the rows \<open>rs\<close>, with \<open>k\<close> free entries left.\<close>

definition filled :: "(argp_option \<times> opt_ref option) list \<Rightarrow> nat \<Rightarrow> argp_table \<Rightarrow> bool" where
  "filled rs k tab \<longleftrightarrow> at_options tab = map fst rs @ replicate k argp_zero \<and>
     at_map tab = map snd rs @ replicate k None \<and> at_index tab = length rs"

lemma filled_entry:
  assumes "filled rs (Suc k) tab"
  shows "at_options tab ! at_index tab = argp_zero" "at_index tab < length (at_options tab)"
    "at_index tab < length (at_map tab)"
  using assms by (simp_all add: filled_def nth_append)

lemma filled_step:
  assumes "filled rs (Suc k) tab"
  shows "filled (rs @ [(e, r)]) k (tab\<lparr>at_options := (at_options tab)[at_index tab := e],
      at_map := (at_map tab)[at_index tab := r], at_index := Suc (at_index tab)\<rparr>)"
  using assms by (simp add: filled_def list_update_append)

lemma filled_title:
  assumes "filled rs (Suc k) tab"
  shows "filled (rs @ [(e, None)]) k (tab\<lparr>at_options := (at_options tab)[at_index tab := e],
      at_index := Suc (at_index tab)\<rparr>)"
  using assms by (simp add: filled_def list_update_append)

lemma option_arg_ok:
  assumes "answers m = []"
  shows "\<exists>m'. option_arg opt None m = ((if opt_type opt = PARAM_BOOL then None
      else Some (case opt_metavar opt of None \<Rightarrow> uppercase (opt_name opt) | Some mv \<Rightarrow> mv)), m') \<and>
    answers m' = [] \<and> blocks m' = blocks m + (if opt_type opt = PARAM_BOOL then 0 else 1)"
  using assms by (simp add: option_arg_def split: option.split)

lemma option_doc_ok:
  assumes "answers m = []"
  shows "\<exists>m'. option_doc opt None m = (opt_help opt, m') \<and> answers m' = [] \<and>
    blocks m' = blocks m + opt_bit (opt_help opt)"
  using assms by (simp add: option_doc_def opt_bit_def split: option.split)

lemma argp_options_loop_rows:
  assumes "filled rs (length opts + k) tab" "answers m = []" "pre_length = (case pre of None \<Rightarrow> 0 | Some p \<Rightarrow> Suc (length p))"
    and "\<And>opt. command_name sect opt =
      replace_underscores ((case pre of None \<Rightarrow> [] | Some p \<Rightarrow> p) @ opt_name opt)"
  shows "\<exists>tab' m'. argp_options_loop pre pre_length (int i + 1) i j opts tab m = Some (0, tab', m') \<and>
    filled (rs @ option_rows i j (length rs) sect opts) k tab' \<and> answers m' = [] \<and>
    blocks m' = blocks m + rows_owned (option_rows i j (length rs) sect opts)"
  using assms(1,2)
proof (induction opts arbitrary: rs tab m j)
  case Nil
  then show ?case by simp
next
  case (Cons opt opts)
  let ?m1 = "m\<lparr>fresh := Suc (fresh m), blocks := blocks m + 1\<rparr>"
  have f: "filled rs (Suc (length opts + k)) tab" using Cons.prems(1) by simp
  obtain m2 where arg: "option_arg opt None ?m1 = ((if opt_type opt = PARAM_BOOL then None
      else Some (case opt_metavar opt of None \<Rightarrow> uppercase (opt_name opt) | Some mv \<Rightarrow> mv)), m2)"
    "answers m2 = []" "blocks m2 = blocks m + 1 + (if opt_type opt = PARAM_BOOL then 0 else 1)"
    using option_arg_ok[of ?m1 opt] Cons.prems(2) by auto
  obtain m3 where doc: "option_doc opt None m2 = (opt_help opt, m3)" "answers m3 = []"
    "blocks m3 = blocks m2 + opt_bit (opt_help opt)" using option_doc_ok[OF arg(2)] by blast
  let ?e = "option_entry i (length rs) sect opt"
  let ?tab = "tab\<lparr>at_options := (at_options tab)[at_index tab := ?e],
      at_map := (at_map tab)[at_index tab := Some (i, j)], at_index := Suc (at_index tab)\<rparr>"
  have name: "snprintf (pre_length + length (opt_name opt) + 1)
      (case pre of None \<Rightarrow> opt_name opt | Some p \<Rightarrow> p @ opt_name opt) =
      (case pre of None \<Rightarrow> [] | Some p \<Rightarrow> p) @ opt_name opt"
    using assms(3) by (cases pre) (simp_all add: snprintf_fits)
  have idx: "at_index tab = length rs" using f by (simp add: filled_def)
  have "argp_options_loop pre pre_length (int i + 1) i j (opt # opts) tab m =
      argp_options_loop pre pre_length (int i + 1) i (Suc j) opts ?tab m3"
    using filled_entry[OF f] Cons.prems(2) arg(1) doc(1) name
    by (simp add: Let_def argp_zero_def option_entry_def idx assms(4))
  moreover from Cons.IH[OF filled_step[OF f, where e = ?e and r = "Some (i, j)"] doc(2), of "Suc j"]
  obtain tab' m' where "argp_options_loop pre pre_length (int i + 1) i (Suc j) opts ?tab m3 = Some (0, tab', m')"
    "filled ((rs @ [(?e, Some (i, j))]) @ option_rows i (Suc j) (length (rs @ [(?e, Some (i, j))])) sect opts) k tab'"
    "answers m' = []"
    "blocks m' = blocks m3 + rows_owned (option_rows i (Suc j) (length (rs @ [(?e, Some (i, j))])) sect opts)"
    by blast
  moreover have "entry_owned ?e = 1 + (if opt_type opt = PARAM_BOOL then 0 else 1) + opt_bit (opt_help opt)"
    by (simp add: entry_owned_def option_entry_def opt_bit_def)
  ultimately show ?case using arg(3) doc(3) by (simp del: argp_options_loop.simps)
qed

lemma generate_section_rows:
  assumes "filled rs (length (sect_options s) + k) tab" "answers m = []"
  shows "\<exists>tab' m'. generate_argp_for_section i s (int i + 1) tab m = Some (0, tab', m') \<and>
    filled (rs @ option_rows i 0 (length rs) s (sect_options s)) k tab' \<and> answers m' = [] \<and>
    blocks m' = blocks m + rows_owned (option_rows i 0 (length rs) s (sect_options s))"
proof (cases "sect_name s = RAPP_CONFIG_SECTION")
  case True
  with argp_options_loop_rows[OF assms, of 0 None s i 0] show ?thesis
    by (simp add: generate_argp_for_section_def command_name_def)
next
  case False
  let ?m1 = "m\<lparr>fresh := Suc (fresh m), blocks := blocks m + 1\<rparr>"
  have p: "snprintf (length (sect_name s) + 2) (sect_name s @ ''-'') = sect_name s @ ''-''"
    by (simp add: snprintf_fits)
  have "answers ?m1 = []" using assms(2) by simp
  from argp_options_loop_rows[OF assms(1) this, of "length (sect_name s) + 2" "Some (sect_name s @ ''-'')" s i 0] False
  obtain tab' m' where r: "argp_options_loop (Some (sect_name s @ ''-'')) (length (sect_name s) + 2) (int i + 1) i 0
      (sect_options s) tab ?m1 = Some (0, tab', m')"
    "filled (rs @ option_rows i 0 (length rs) s (sect_options s)) k tab'" "answers m' = []"
    "blocks m' = blocks m + 1 + rows_owned (option_rows i 0 (length rs) s (sect_options s))"
    by (auto simp: command_name_def)
  then show ?thesis using False assms(2) p by (simp add: generate_argp_for_section_def)
qed

lemma length_option_rows [simp]: "length (option_rows i j index s opts) = length opts"
  by (induction opts arbitrary: j index) simp_all

lemma title_entry_owned [simp]: "entry_owned (title_entry i s) = 1"
  by (simp add: entry_owned_def title_entry_def argp_zero_def opt_bit_def)

lemma generate_sections_rows:
  assumes "filled rs (sum_list (map (\<lambda>s. length (sect_options s) + 1) ss) + k) tab" "answers m = []"
  shows "\<exists>tab' m'. generate_sections i (int i + 1) ss tab m = Some (0, tab', m') \<and>
    filled (rs @ section_rows i (length rs) ss) k tab' \<and> answers m' = [] \<and>
    blocks m' = blocks m + rows_owned (section_rows i (length rs) ss)"
  using assms
proof (induction ss arbitrary: rs tab m i)
  case Nil
  then show ?case by simp
next
  case (Cons s ss)
  let ?m1 = "m\<lparr>fresh := Suc (fresh m), blocks := blocks m + 1\<rparr>"
  let ?k = "sum_list (map (\<lambda>s. length (sect_options s) + 1) ss) + k"
  let ?rs = "rs @ [(title_entry i s, None)]"
  let ?tab = "tab\<lparr>at_options := (at_options tab)[at_index tab := title_entry i s], at_index := Suc (at_index tab)\<rparr>"
  have f: "filled rs (Suc (length (sect_options s) + ?k)) tab" using Cons.prems(1) by (simp add: add.assoc)
  have title: "snprintf (length (sect_name s) + length titlebase + 4)
      (titlebase @ [CHR 0x27] @ sect_name s @ [CHR 0x27, CHR '':'']) =
      titlebase @ [CHR 0x27] @ sect_name s @ [CHR 0x27, CHR '':'']"
    by (simp add: snprintf_fits)
  have "answers ?m1 = []" using Cons.prems(2) by simp
  from generate_section_rows[OF filled_title[OF f, where e = "title_entry i s"] this, of i]
  obtain tab1 m1 where s1: "generate_argp_for_section i s (int i + 1) ?tab ?m1 = Some (0, tab1, m1)"
    "filled (?rs @ option_rows i 0 (length ?rs) s (sect_options s)) ?k tab1" "answers m1 = []"
    "blocks m1 = blocks m + 1 + rows_owned (option_rows i 0 (length ?rs) s (sect_options s))" by auto
  from Cons.IH[OF s1(2,3), of "Suc i"] obtain tab' m' where
    s2: "generate_sections (Suc i) (int (Suc i) + 1) ss tab1 m1 = Some (0, tab', m')"
    "filled (rs @ section_rows i (length rs) (s # ss)) k tab'" "answers m' = []"
    "blocks m' = blocks m1 + rows_owned (section_rows (Suc i) (Suc (length rs) + length (sect_options s)) ss)"
    by auto
  have "generate_sections i (int i + 1) (s # ss) tab m = generate_sections (Suc i) (int (Suc i) + 1) ss tab1 m1"
    using filled_entry[OF f] Cons.prems(2) s1(1) title
    by (simp add: Let_def title_entry_def)
  with s1(4) s2 show ?case by (simp del: generate_sections.simps)
qed

lemma option_rows_nth:
  assumes "j' < length opts"
  shows "option_rows i j index s opts ! j' = (option_entry i (index + j') s (opts ! j'), Some (i, j + j'))"
  using assms
proof (induction opts arbitrary: j index j')
  case (Cons opt opts)
  then show ?case by (cases j') simp_all
qed simp

lemma section_rows_lookup:
  assumes "i' < length ss" "j < length (sect_options (ss ! i'))"
  shows "\<exists>n < length (section_rows i index ss). section_rows i index ss ! n =
    (option_entry (i + i') (index + n) (ss ! i') (sect_options (ss ! i') ! j), Some (i + i', j))"
  using assms
proof (induction ss arbitrary: i' i index)
  case (Cons s ss)
  show ?case
  proof (cases i')
    case 0
    with Cons.prems have "j < length (sect_options s)" by simp
    then show ?thesis using 0 option_rows_nth[of j "sect_options s" i 0 "Suc index" s]
      by (intro exI[of _ "Suc j"]) (simp add: nth_append)
  next
    case (Suc i'')
    let ?k = "length (sect_options s)"
    from Cons.IH[of i'' "Suc i" "Suc index + ?k"] Cons.prems Suc obtain n where
      "n < length (section_rows (Suc i) (Suc index + ?k) ss)"
      "section_rows (Suc i) (Suc index + ?k) ss ! n =
        (option_entry (Suc i + i'') (Suc index + ?k + n) (ss ! i'') (sect_options (ss ! i'') ! j), Some (Suc i + i'', j))"
      by auto
    then show ?thesis using Suc by (intro exI[of _ "Suc (?k + n)"]) (simp add: nth_append add.assoc)
  qed
qed simp

lemma length_section_rows:
  "length (section_rows i index ss) = sum_list (map (\<lambda>s. length (sect_options s) + 1) ss)"
  by (induction ss arbitrary: i index) simp_all

lemma free_entries:
  "blocks (fold free_argp_option es m) = blocks m - sum_list (map entry_owned es)"
proof (induction es arbitrary: m)
  case (Cons e es)
  have "blocks (free_argp_option e m) = blocks m - entry_owned e"
    by (cases "ao_name e"; cases "ao_arg e"; cases "ao_doc e")
      (simp_all add: free_argp_option_def entry_owned_def opt_bit_def)
  then show ?case by (simp add: Cons.IH)
qed simp

text \<open>The number of entries of the generated table.\<close>

definition table_size :: "RappConfig \<Rightarrow> nat" where
  "table_size conf = sum_list (map (\<lambda>s. length (sect_options s) + 1) (cf_sections conf))"

lemma generate_result:
  assumes wf: "config_wf conf" and none: "cf_options conf = None" and mem: "answers m = []"
  shows "\<exists>tab m'. config_generate_commandline conf m = Some (0, conf\<lparr>cf_options := Some (at_options tab),
        cf_options_map := Some (at_map tab), cf_num_argp_options := table_size conf\<rparr>, m') \<and>
    filled (section_rows 0 0 (cf_sections conf)) (1 + rappoptions_len) tab \<and> answers m' = [] \<and>
    blocks m' = blocks m + 2 + rows_owned (section_rows 0 0 (cf_sections conf))"
proof -
  let ?n = "1 + sum_list (map (\<lambda>s. sect_num_opts s + 1) (cf_sections conf)) + rappoptions_len"
  let ?m2 = "m\<lparr>fresh := Suc (Suc (fresh m)), blocks := blocks m + 1 + 1\<rparr>"
  let ?tab = "\<lparr>at_options = replicate ?n argp_zero, at_map = replicate ?n None, at_index = 0\<rparr>"
  have "sum_list (map (\<lambda>s. sect_num_opts s + 1) (cf_sections conf)) = table_size conf"
    unfolding table_size_def
    by (rule arg_cong[of _ _ sum_list]) (use wf in \<open>auto simp: config_wf_def\<close>)
  then have n: "?n = table_size conf + (1 + rappoptions_len)" by simp
  have f: "filled [] (table_size conf + (1 + rappoptions_len)) ?tab" unfolding n filled_def by simp
  have "answers ?m2 = []" using mem by simp
  from generate_sections_rows[OF f[unfolded table_size_def] this, of 0] obtain tab m' where
    g: "generate_sections 0 1 (cf_sections conf) ?tab ?m2 = Some (0, tab, m')"
    "filled (section_rows 0 0 (cf_sections conf)) (1 + rappoptions_len) tab" "answers m' = []"
    "blocks m' = blocks m + 2 + rows_owned (section_rows 0 0 (cf_sections conf))" by auto
  have "at_index tab = table_size conf"
    using g(2) length_section_rows by (simp add: filled_def table_size_def)
  with g none mem show ?thesis
    by (intro exI[of _ tab] exI[of _ m']) (simp add: config_generate_commandline_def Let_def)
qed

lemma filled_lookup:
  assumes "filled rs k tab" "n < length rs"
  shows "at_options tab ! n = fst (rs ! n)" "at_map tab ! n = snd (rs ! n)"
    "n < length (at_map tab)" "n < length (at_options tab)"
  using assms by (simp_all add: filled_def nth_append)

lemma parse_option_result:
  assumes "cf_options_map conf = Some mp" "n < length mp" "mp ! n = Some r" "n \<le> cf_num_argp_options conf"
    and "n + 150 \<le> 0x1000000"
  shows "parse_commandline_opt (int n + ARG_INDEX_OFFSET) arg (conf, m) =
    (case arg of
       None \<Rightarrow> Some (EINVAL, conf, m)
     | Some text \<Rightarrow>
        (let (ret, opt, m) = config_add_value_from_string text (opt_at conf r) m in
         if ret \<noteq> 0 then Some (EINVAL, put_opt r opt conf, m)
         else Some (0, put_opt r (opt\<lparr>opt_no_override := True\<rparr>) conf, m)))"
  using assms by (simp add: parse_commandline_opt_def key_defs)

text \<open>The key leads the parser to the option \<open>r\<close>, which takes the text of the argument.\<close>

definition key_leads_to :: "RappConfig \<Rightarrow> opt_ref \<Rightarrow> int \<Rightarrow> bool" where
  "key_leads_to conf r key \<longleftrightarrow> (\<forall>arg m. parse_commandline_opt key arg (conf, m) =
     (case arg of
        None \<Rightarrow> Some (EINVAL, conf, m)
      | Some text \<Rightarrow>
         (let (ret, opt, m) = config_add_value_from_string text (opt_at conf r) m in
          if ret \<noteq> 0 then Some (EINVAL, put_opt r opt conf, m)
          else Some (0, put_opt r (opt\<lparr>opt_no_override := True\<rparr>) conf, m))))"

abbreviation with_table :: "RappConfig \<Rightarrow> argp_table \<Rightarrow> RappConfig" where
  "with_table conf tab \<equiv> conf\<lparr>cf_options := Some (at_options tab), cf_options_map := Some (at_map tab),
     cf_num_argp_options := table_size conf\<rparr>"

lemma generated_entry:
  assumes f: "filled (section_rows 0 0 (cf_sections conf)) k tab" and size: "table_size conf + 150 \<le> 0x1000000"
    and v: "valid_ref conf r"
  shows "\<exists>n < table_size conf. at_options tab ! n = option_entry (fst r) n (cf_sections conf ! fst r) (opt_at conf r) \<and>
    key_leads_to (with_table conf tab) r (ao_key (at_options tab ! n))"
proof -
  let ?rows = "section_rows 0 0 (cf_sections conf)"
  have len: "length ?rows = table_size conf" by (simp add: length_section_rows table_size_def)
  from section_rows_lookup[of "fst r" "cf_sections conf" "snd r" 0 0] v obtain n where
    n: "n < length ?rows" "?rows ! n = (option_entry (fst r) n (cf_sections conf ! fst r)
       (sect_options (cf_sections conf ! fst r) ! snd r), Some r)"
    by (auto simp: valid_ref_def)
  have entry: "at_options tab ! n = option_entry (fst r) n (cf_sections conf ! fst r) (opt_at conf r)"
    "at_map tab ! n = Some r" "n < length (at_map tab)" "n < table_size conf"
    using filled_lookup[OF f n(1)] n len by (simp_all add: opt_at_def)
  have "n \<le> cf_num_argp_options (with_table conf tab)" "n + 150 \<le> 0x1000000"
    "cf_options_map (with_table conf tab) = Some (at_map tab)"
    using entry(4) size by simp_all
  note parsed = parse_option_result[OF this(3) entry(3,2) this(1,2)]
  have key: "ao_key (at_options tab ! n) = int n + ARG_INDEX_OFFSET" using entry(1) by (simp add: option_entry_def)
  have "key_leads_to (with_table conf tab) r (ao_key (at_options tab ! n))"
    unfolding key_leads_to_def key by (intro allI) (rule parsed)
  with entry(1,4) show ?thesis by blast
qed

lemma generated_destroyed:
  assumes f: "filled (section_rows 0 0 (cf_sections conf)) k tab"
    and b: "blocks m' = blocks m + 2 + rows_owned (section_rows 0 0 (cf_sections conf))"
  shows "\<exists>m2. config_argp_options_destroy (with_table conf tab) m' = Some m2 \<and> blocks m2 = blocks m"
proof -
  let ?rows = "section_rows 0 0 (cf_sections conf)"
  have len: "length ?rows = table_size conf" by (simp add: length_section_rows table_size_def)
  have "take (table_size conf) (at_options tab) = map fst ?rows" "\<not> length (at_options tab) < table_size conf"
    using f len by (simp_all add: filled_def)
  then show ?thesis
    using b len by (cases "table_size conf = 0")
      (simp_all add: config_argp_options_destroy_def free_entries rows_owned_def comp_def)
qed

text \<open>
  C18: For a store with fewer than sixteen million options the command line is generated in full: every option
  of the store has an entry with its section (but for \<open>core\<close>) and name joined by a dash and underscores turned
  into dashes, which takes an argument exactly when the option is not a boolean, and the key of that entry
  leads the parser back to the very option: a text is stored there and protected from being overridden, and a
  missing argument - all that a boolean entry can get - is an error.  Destroying the table afterwards releases
  every block it took.
\<close>

theorem command_line_generated:
  assumes "config_wf conf" "cf_options conf = None" "answers m = []" "table_size conf + 150 \<le> 0x1000000"
  shows "\<exists>conf' opts m' m2. config_generate_commandline conf m = Some (0, conf', m') \<and>
    cf_sections conf' = cf_sections conf \<and> cf_options conf' = Some opts \<and>
    (\<forall>r. valid_ref conf r \<longrightarrow> (\<exists>n < cf_num_argp_options conf'.
       opts ! n = option_entry (fst r) n (cf_sections conf ! fst r) (opt_at conf r) \<and>
       (\<forall>arg m. parse_commandline_opt (ao_key (opts ! n)) arg (conf', m) =
         (case arg of
            None \<Rightarrow> Some (EINVAL, conf', m)
          | Some text \<Rightarrow>
             (let (ret, opt, m) = config_add_value_from_string text (opt_at conf r) m in
              if ret \<noteq> 0 then Some (EINVAL, put_opt r opt conf', m)
              else Some (0, put_opt r (opt\<lparr>opt_no_override := True\<rparr>) conf', m)))))) \<and>
    config_argp_options_destroy conf' m' = Some m2 \<and> blocks m2 = blocks m"
proof -
  from generate_result[OF assms(1-3)] obtain tab m' where
    g: "config_generate_commandline conf m = Some (0, with_table conf tab, m')"
    "filled (section_rows 0 0 (cf_sections conf)) (1 + rappoptions_len) tab"
    "blocks m' = blocks m + 2 + rows_owned (section_rows 0 0 (cf_sections conf))" by blast
  obtain m2 where m2: "config_argp_options_destroy (with_table conf tab) m' = Some m2" "blocks m2 = blocks m"
    using generated_destroyed[OF g(2,3)] by blast
  have same: "opt_at (with_table conf tab) r = opt_at conf r" for r by (simp add: opt_at_def)
  have fields: "cf_sections (with_table conf tab) = cf_sections conf" "cf_options (with_table conf tab) = Some (at_options tab)"
    "cf_num_argp_options (with_table conf tab) = table_size conf" by simp_all
  show ?thesis
    by (intro exI conjI, rule g(1), rule fields(1), rule fields(2), unfold fields(3))
      (use generated_entry[OF g(2) assms(4), unfolded key_leads_to_def same] m2 in blast)+
qed

definition two_sections :: RappConfig where
  "two_sections = \<lparr>cf_num_sections = 0, cf_options_map = None, cf_options = None, cf_num_argp_options = 0,
     cf_sections = [\<lparr>sect_name = ''core'', sect_num_opts = 1, sect_options = [int_option]\<rparr>,
       \<lparr>sect_name = ''hello'', sect_num_opts = 1, sect_options = [bool_option\<lparr>opt_name := ''use_tls''\<rparr>]\<rparr>]\<rparr>"

theorem command_line_generated_witness:
  "\<exists>conf' opts m' m2 n. config_generate_commandline two_sections mem0 = Some (0, conf', m') \<and>
     cf_options conf' = Some opts \<and> ao_name (opts ! n) = Some ''hello-use-tls'' \<and> ao_arg (opts ! n) = None \<and>
     parse_commandline_opt (ao_key (opts ! n)) None (conf', m') = Some (EINVAL, conf', m') \<and>
     config_argp_options_destroy conf' m' = Some m2 \<and> blocks m2 = 0"
proof -
  have wf: "config_wf two_sections" "cf_options two_sections = None" "table_size two_sections + 150 \<le> 0x1000000"
    by (simp_all add: two_sections_def config_wf_def opt_wf_def int_option_def bool_option_def
        default_of_type_def table_size_def)
  have r: "valid_ref two_sections (1, 0)" by (simp add: valid_ref_def two_sections_def)
  from command_line_generated[OF wf(1,2) answers_mem0 wf(3)] obtain conf' opts m' m2 n where g:
    "config_generate_commandline two_sections mem0 = Some (0, conf', m')" "cf_options conf' = Some opts"
    "opts ! n = option_entry 1 n (cf_sections two_sections ! 1) (opt_at two_sections (1, 0))"
    "parse_commandline_opt (ao_key (opts ! n)) None (conf', m') = Some (EINVAL, conf', m')"
    "config_argp_options_destroy conf' m' = Some m2" "blocks m2 = blocks mem0"
    using r by fastforce
  have "ao_name (opts ! n) = Some ''hello-use-tls''" "ao_arg (opts ! n) = None"
    unfolding g(3) by (simp_all add: option_entry_def two_sections_def opt_at_def bool_option_def int_option_def
        command_name_def RAPP_CONFIG_SECTION_def replace_underscores_def)
  moreover have "blocks m2 = 0" using g(6) by simp
  ultimately show ?thesis using g(1,2,4,5) by blast
qed

end
