(* ===== verification/Tcp_Connection.thy ===== *)
theory Tcp_Connection
  imports ELoop
begin

text \<open>
  TCP connections (\<open>src/tcpconnection.c\<close>): a descriptor with up to three callbacks of the layer
  above, wired to the event loop.  The loop's callbacks are the functions the program
  registers, each with the address of the object it is registered with.  The callbacks of the
  layer above are values of type \<open>'h\<close>; the sockets are a parameter.
\<close>

section \<open>State\<close>

datatype loop_callback =
    Connection_ready_read addr
  | Connection_ready_write addr
  | Connection_close addr
  | Server_incoming addr
  | Signal_ready addr

record 'h TcpConnection =
  tc_addr :: addr
  tc_fd :: int
  tc_read_callback :: "'h option"
  tc_write_callback :: "'h option"
  tc_close_callback :: "'h option"
  tc_data :: "addr option"

type_synonym 'f loop = "(loop_callback, 'f) ELoop"

text \<open>What \<open>recv\<close>, \<open>send\<close> and \<open>accept4\<close> on a descriptor return: bytes, a count or a new
  descriptor, or \<open>errno\<close>.\<close>

datatype 'a io_result = Io_done 'a | Io_failed nat

record 'x sockets =
  so_recv :: "int \<Rightarrow> nat \<Rightarrow> 'x \<Rightarrow> bytes io_result \<times> 'x"
  so_send :: "int \<Rightarrow> bytes \<Rightarrow> 'x \<Rightarrow> nat io_result \<times> 'x"
  so_sendfile :: "int \<Rightarrow> int \<Rightarrow> nat \<Rightarrow> 'x \<Rightarrow> nat io_result \<times> 'x"
  so_accept :: "int \<Rightarrow> 'x \<Rightarrow> int io_result \<times> 'x"

definition EAGAIN :: nat where "EAGAIN = 11"

text \<open>The state a callback of the layers above works on: its own objects, the event loop, the
  kernel, the rest of the program and the allocator.\<close>

type_synonym ('w, 'f, 'x) env = "'w \<times> 'f loop \<times> kernel \<times> 'x \<times> mem"

section \<open>Operations\<close>

definition tcp_connection_with_fd :: "int \<Rightarrow> mem \<Rightarrow> ('h TcpConnection option \<times> mem) option" where
  "tcp_connection_with_fd fd m =
     (if fd < 0 then None
      else
        (let (p, m) = memory_create m in
         case p of
           None \<Rightarrow> Some (None, m)
         | Some a \<Rightarrow> Some (Some \<lparr>tc_addr = a, tc_fd = fd, tc_read_callback = None,
                                 tc_write_callback = None, tc_close_callback = None,
                                 tc_data = None\<rparr>, m)))"

definition tcp_connection_close ::
    "'h TcpConnection \<Rightarrow> 'f loop \<Rightarrow> kernel \<Rightarrow> mem \<Rightarrow> ('h TcpConnection \<times> 'f loop \<times> kernel \<times> mem) option" where
  "tcp_connection_close c el k m =
     (if 0 \<le> tc_fd c then do {
        (_, el, k, m) \<leftarrow> event_loop_remove_fd_watch (tc_fd c) ELOOP_CALLBACK_READ el k m;
        (_, el, k, m) \<leftarrow> event_loop_remove_fd_watch (tc_fd c) ELOOP_CALLBACK_WRITE el k m;
        (_, el, k, m) \<leftarrow> event_loop_remove_fd_watch (tc_fd c) ELOOP_CALLBACK_CLOSE el k m;
        Some (c\<lparr>tc_fd := -1\<rparr>, el, close_fd (tc_fd c) k, m)
      } else Some (c, el, k, m))"

definition tcp_connection_destroy ::
    "'h TcpConnection \<Rightarrow> 'f loop \<Rightarrow> kernel \<Rightarrow> mem \<Rightarrow> ('f loop \<times> kernel \<times> mem) option" where
  "tcp_connection_destroy c el k m = do {
     (c, el, k, m) \<leftarrow> (if tc_fd c \<noteq> -1 then tcp_connection_close c el k m else Some (c, el, k, m));
     Some (el, k, memory_destroy (Some c) m)
   }"

text \<open>The functions registered with the loop; \<open>call h c data\<close> is what the callback \<open>h\<close> of the
  layer above does.\<close>

definition on_ready_read ::
    "('h \<Rightarrow> 'h TcpConnection \<Rightarrow> addr option \<Rightarrow> 's \<Rightarrow> 's option) \<Rightarrow> 'h TcpConnection \<Rightarrow> 's \<Rightarrow> (int \<times> 's) option" where
  "on_ready_read call c s =
     (case tc_read_callback c of
        Some h \<Rightarrow> map_option (Pair 0) (call h c (tc_data c) s)
      | None \<Rightarrow> Some (0, s))"

definition on_ready_write ::
    "('h \<Rightarrow> 'h TcpConnection \<Rightarrow> addr option \<Rightarrow> 's \<Rightarrow> 's option) \<Rightarrow> 'h TcpConnection \<Rightarrow> 's \<Rightarrow> (int \<times> 's) option" where
  "on_ready_write call c s =
     (case tc_write_callback c of
        Some h \<Rightarrow> map_option (Pair 0) (call h c (tc_data c) s)
      | None \<Rightarrow> Some (0, s))"

definition on_close ::
    "('h \<Rightarrow> 'h TcpConnection \<Rightarrow> addr option \<Rightarrow> 's \<Rightarrow> 's option) \<Rightarrow> 'h TcpConnection \<Rightarrow> 's \<Rightarrow> (int \<times> 's) option" where
  "on_close call c s =
     (case tc_close_callback c of
        Some h \<Rightarrow> map_option (Pair 0) (call h c (tc_data c) s)
      | None \<Rightarrow> Some (0, s))"

text \<open>Registering a callback that is not \<open>NULL\<close>, and remembering it.\<close>

definition watch_if ::
    "'h option \<Rightarrow> int \<Rightarrow> ELoopWatchFdCallbackType \<Rightarrow> loop_callback \<Rightarrow> 'f loop \<Rightarrow> kernel \<Rightarrow> mem
      \<Rightarrow> (int \<times> 'f loop \<times> kernel \<times> mem) option" where
  "watch_if callback fd t cb el k m =
     (if callback \<noteq> None then event_loop_add_fd_watch fd t cb el k m else Some (0, el, k, m))"

definition put_read_callback :: "'h option \<Rightarrow> 'h TcpConnection \<Rightarrow> 'h TcpConnection" where
  "put_read_callback h c = (if h \<noteq> None then c\<lparr>tc_read_callback := h\<rparr> else c)"

definition put_write_callback :: "'h option \<Rightarrow> 'h TcpConnection \<Rightarrow> 'h TcpConnection" where
  "put_write_callback h c = (if h \<noteq> None then c\<lparr>tc_write_callback := h\<rparr> else c)"

definition put_close_callback :: "'h option \<Rightarrow> 'h TcpConnection \<Rightarrow> 'h TcpConnection" where
  "put_close_callback h c = (if h \<noteq> None then c\<lparr>tc_close_callback := h\<rparr> else c)"

text \<open>The connection is returned updated also when a registration fails half way; the test of
  the third registration is for a result other than 0.\<close>

definition tcp_connection_set_callbacks ::
    "'h TcpConnection \<Rightarrow> 'h option \<Rightarrow> 'h option \<Rightarrow> 'h option \<Rightarrow> addr option
      \<Rightarrow> 'f loop \<Rightarrow> kernel \<Rightarrow> mem \<Rightarrow> (int \<times> 'h TcpConnection \<times> 'f loop \<times> kernel \<times> mem) option" where
  "tcp_connection_set_callbacks c read_callback write_callback close_callback data el k m = do {
     (ret, el, k, m) \<leftarrow> watch_if read_callback (tc_fd c) ELOOP_CALLBACK_READ
                          (Connection_ready_read (tc_addr c)) el k m;
     if ret < 0 then Some (-1, c, el, k, m)
     else do {
       let c = put_read_callback read_callback c;
       (ret, el, k, m) \<leftarrow> watch_if write_callback (tc_fd c) ELOOP_CALLBACK_WRITE
                            (Connection_ready_write (tc_addr c)) el k m;
       if ret < 0 then Some (-1, c, el, k, m)
       else do {
         let c = put_write_callback write_callback c;
         (ret, el, k, m) \<leftarrow> watch_if close_callback (tc_fd c) ELOOP_CALLBACK_CLOSE
                              (Connection_close (tc_addr c)) el k m;
         if ret \<noteq> 0 then Some (-1, c, el, k, m)
         else Some (0, (put_close_callback close_callback c)\<lparr>tc_data := data\<rparr>, el, k, m)
       }
     }
   }"

definition tcp_connection_read_data ::
    "'x sockets \<Rightarrow> 'h TcpConnection \<Rightarrow> nat \<Rightarrow> 'x \<Rightarrow> bytes io_result \<times> 'x" where
  "tcp_connection_read_data so c len x = so_recv so (tc_fd c) len x"

definition tcp_connection_write_data ::
    "'x sockets \<Rightarrow> 'h TcpConnection \<Rightarrow> bytes \<Rightarrow> 'x \<Rightarrow> nat io_result \<times> 'x" where
  "tcp_connection_write_data so c data x = so_send so (tc_fd c) data x"

definition tcp_connection_sendfile ::
    "'x sockets \<Rightarrow> 'h TcpConnection \<Rightarrow> int \<Rightarrow> nat \<Rightarrow> 'x \<Rightarrow> (nat io_result \<times> 'x) option" where
  "tcp_connection_sendfile so c file_fd len x =
     (if file_fd < 0 then None else Some (so_sendfile so (tc_fd c) file_fd len x))"

section \<open>Closing\<close>

lemma watched_fds:
  assumes "loop_inv el k m"
  shows "set (map ec_fd (el_callbacks_list el)) = {fd. watches el fd \<noteq> (\<lambda>_. None)}"
proof (intro set_eqI iffI)
  fix fd assume "fd \<in> set (map ec_fd (el_callbacks_list el))"
  then obtain e where e: "e \<in> set (el_callbacks_list el)" "ec_fd e = fd" by auto
  have "find_callback_by_fd el fd = Some e"
    using find_key_unique[of ec_fd "el_callbacks_list el" e] e assms
    by (simp add: loop_inv_def find_callback_by_fd_def)
  moreover have "bits_of (ec_callbacks e) \<noteq> 0" using e assms by (auto simp: loop_inv_def entry_wf_def)
  ultimately show "fd \<in> {fd. watches el fd \<noteq> (\<lambda>_. None)}"
    by (auto simp: watches_def bits_of_zero fun_eq_iff)
next
  fix fd assume "fd \<in> {fd. watches el fd \<noteq> (\<lambda>_. None)}"
  then obtain e where "find_callback_by_fd el fd = Some e"
    by (auto simp: watches_def fun_eq_iff split: option.splits)
  from loop_inv_entry[OF assms this] show "fd \<in> set (map ec_fd (el_callbacks_list el))" by auto
qed

lemma entry_count:
  "loop_inv el k m \<Longrightarrow> length (el_callbacks_list el) = card {fd. watches el fd \<noteq> (\<lambda>_. None)}"
  using distinct_card[of "map ec_fd (el_callbacks_list el)"] watched_fds[of el k m]
  by (simp add: loop_inv_def)

lemma unwatched_epoll: "loop_inv el k m \<Longrightarrow> watches el fd = (\<lambda>_. None) \<Longrightarrow> k_epoll k fd = None"
  using interest_list[of el k m fd] by (simp add: interest_def bits_of_def)

lemma loop_inv_close:
  assumes "loop_inv el k m" "watches el fd = (\<lambda>_. None)"
  shows "loop_inv el (close_fd fd k) m"
proof -
  have "(k_epoll k)(fd := None) = k_epoll k" using unwatched_epoll[OF assms] by auto
  then show ?thesis using assms(1) by (simp add: loop_inv_def close_fd_def)
qed

lemma watches_max: "loop_inv el k m \<Longrightarrow> watches el fd ELOOP_CALLBACK_MAX = None"
  using loop_inv_entry(3)[of el k m fd] by (auto simp: watches_def entry_wf_def split: option.splits)

text \<open>Closing takes the descriptor out of the watch table and of the interest list.\<close>

lemma close_connection:
  assumes inv: "loop_inv el k m" and fd: "0 \<le> tc_fd c" "k_open k (tc_fd c)"
  shows "\<exists>el' k' m'. tcp_connection_close c el k m = Some (c\<lparr>tc_fd := -1\<rparr>, el', k', m') \<and>
     loop_inv el' k' m' \<and> watches el' = (watches el)(tc_fd c := \<lambda>_. None) \<and>
     k_open k' = (k_open k)(tc_fd c := False) \<and> answers m' = answers m \<and>
     blocks m' - int (length (el_callbacks_list el')) = blocks m - int (length (el_callbacks_list el))"
proof -
  from remove_watch[OF inv fd, of ELOOP_CALLBACK_READ]
  obtain r1 el1 k1 m1 where s1: "event_loop_remove_fd_watch (tc_fd c) ELOOP_CALLBACK_READ el k m = Some (r1, el1, k1, m1)"
    "k_open k1 = k_open k" "loop_inv el1 k1 m1" "watches el1 = table_remove (tc_fd c) ELOOP_CALLBACK_READ (watches el)"
    "answers m1 = answers m"
    "blocks m1 - int (length (el_callbacks_list el1)) = blocks m - int (length (el_callbacks_list el))"
    by auto
  from remove_watch[OF s1(3) fd(1), of ELOOP_CALLBACK_WRITE] fd(2) s1(2)
  obtain r2 el2 k2 m2 where s2: "event_loop_remove_fd_watch (tc_fd c) ELOOP_CALLBACK_WRITE el1 k1 m1 = Some (r2, el2, k2, m2)"
    "k_open k2 = k_open k" "loop_inv el2 k2 m2" "watches el2 = table_remove (tc_fd c) ELOOP_CALLBACK_WRITE (watches el1)"
    "answers m2 = answers m1"
    "blocks m2 - int (length (el_callbacks_list el2)) = blocks m1 - int (length (el_callbacks_list el1))"
    by auto
  from remove_watch[OF s2(3) fd(1), of ELOOP_CALLBACK_CLOSE] fd(2) s2(2)
  obtain r3 el3 k3 m3 where s3: "event_loop_remove_fd_watch (tc_fd c) ELOOP_CALLBACK_CLOSE el2 k2 m2 = Some (r3, el3, k3, m3)"
    "k_open k3 = k_open k" "loop_inv el3 k3 m3" "watches el3 = table_remove (tc_fd c) ELOOP_CALLBACK_CLOSE (watches el2)"
    "answers m3 = answers m2"
    "blocks m3 - int (length (el_callbacks_list el3)) = blocks m2 - int (length (el_callbacks_list el2))"
    by auto
  have none: "watches el3 (tc_fd c) = (\<lambda>_. None)"
  proof
    fix t show "watches el3 (tc_fd c) t = None"
      using watches_max[OF s3(3), of "tc_fd c"] by (cases t) (simp_all add: s1(4) s2(4) s3(4) table_remove_def)
  qed
  moreover have "watches el3 = (watches el)(tc_fd c := \<lambda>_. None)"
    using none by (intro ext) (auto simp: s1(4) s2(4) s3(4) table_remove_def)
  moreover have "k_open (close_fd (tc_fd c) k3) = (k_open k)(tc_fd c := False)"
    using s3(2) by (simp add: close_fd_def)
  ultimately show ?thesis
    using fd(1) s1 s2 s3 loop_inv_close[OF s3(3) none] by (simp add: tcp_connection_close_def)
qed

section \<open>Registering\<close>

definition wanted :: "'h option \<Rightarrow> 'a \<Rightarrow> 'a option" where
  "wanted h cb = (if h = None then None else Some cb)"

lemma put_callback_fields [simp]:
  "tc_fd (put_read_callback r c) = tc_fd c" "tc_addr (put_read_callback r c) = tc_addr c"
  "tc_fd (put_write_callback r c) = tc_fd c" "tc_addr (put_write_callback r c) = tc_addr c"
  "tc_fd (put_close_callback r c) = tc_fd c" "tc_addr (put_close_callback r c) = tc_addr c"
  by (simp_all add: put_read_callback_def put_write_callback_def put_close_callback_def)

lemma put_callbacks_fresh:
  "tc_read_callback c = None \<and> tc_write_callback c = None \<and> tc_close_callback c = None \<Longrightarrow>
     (put_close_callback cl (put_write_callback w (put_read_callback r c)))\<lparr>tc_data := d\<rparr> =
     c\<lparr>tc_read_callback := r, tc_write_callback := w, tc_close_callback := cl, tc_data := d\<rparr>"
  by (cases c) (simp add: put_read_callback_def put_write_callback_def put_close_callback_def)

lemma watch_if_result:
  assumes "loop_inv el k m" "0 \<le> fd" "k_open k fd" "t \<noteq> ELOOP_CALLBACK_MAX"
  obtains ret el' k' m' where "watch_if h fd t cb el k m = Some (ret, el', k', m')"
    "k_open k' = k_open k" "loop_inv el' k' m'" "ret = 0 \<or> ret = -1 \<and> answers m \<noteq> []"
    "ret = 0 \<longrightarrow> watches el' = (if h \<noteq> None then table_add fd t cb (watches el) else watches el)"
    "\<forall>fd'. fd' \<noteq> fd \<longrightarrow> watches el' fd' = watches el fd'" "answers m = [] \<longrightarrow> answers m' = []"
    "blocks m' - int (length (el_callbacks_list el')) = blocks m - int (length (el_callbacks_list el))"
proof (cases "h = None")
  case True
  show ?thesis by (rule that[of 0 el k m]) (use True assms in \<open>auto simp: watch_if_def\<close>)
next
  case False
  from add_watch[OF assms, of cb] obtain ret el' k' m' where
    a: "event_loop_add_fd_watch fd t cb el k m = Some (ret, el', k', m')" "k_open k' = k_open k"
     "loop_inv el' k' m'"
     "ret = 0 \<and> watches el' = table_add fd t cb (watches el) \<or> ret = -1 \<and> el' = el \<and> k' = k \<and> answers m \<noteq> []"
     "answers m = [] \<longrightarrow> answers m' = []"
     "blocks m' - int (length (el_callbacks_list el')) = blocks m - int (length (el_callbacks_list el))"
    by blast
  show ?thesis
    by (rule that[of ret el' k' m']) (use False a in \<open>auto simp: table_add_def watch_if_def\<close>)
qed

text \<open>\<open>registered\<close> is what the loop should know of the connection afterwards.\<close>

definition registered ::
    "'h TcpConnection \<Rightarrow> 'h option \<Rightarrow> 'h option \<Rightarrow> 'h option \<Rightarrow> ELoopWatchFdCallbackType \<Rightarrow> loop_callback option" where
  "registered c r w cl t =
     (case t of
        ELOOP_CALLBACK_READ \<Rightarrow> wanted r (Connection_ready_read (tc_addr c))
      | ELOOP_CALLBACK_WRITE \<Rightarrow> wanted w (Connection_ready_write (tc_addr c))
      | ELOOP_CALLBACK_CLOSE \<Rightarrow> wanted cl (Connection_close (tc_addr c))
      | ELOOP_CALLBACK_MAX \<Rightarrow> None)"

text \<open>A change that concerns the watches of one descriptor only; such changes compose.\<close>

definition watches_only :: "int \<Rightarrow> 'f loop \<Rightarrow> kernel \<Rightarrow> mem \<Rightarrow> 'f loop \<Rightarrow> kernel \<Rightarrow> mem \<Rightarrow> bool" where
  "watches_only fd el k m el' k' m' \<longleftrightarrow> k_open k' = k_open k \<and> loop_inv el' k' m' \<and>
     (\<forall>fd'. fd' \<noteq> fd \<longrightarrow> watches el' fd' = watches el fd') \<and> (answers m = [] \<longrightarrow> answers m' = []) \<and>
     blocks m' - int (length (el_callbacks_list el')) = blocks m - int (length (el_callbacks_list el))"

lemma watches_only_trans:
  "watches_only fd el k m el1 k1 m1 \<Longrightarrow> watches_only fd el1 k1 m1 el' k' m' \<Longrightarrow> watches_only fd el k m el' k' m'"
  by (simp add: watches_only_def)

lemma watch_if_only:
  assumes "loop_inv el k m" "0 \<le> fd" "k_open k fd" "t \<noteq> ELOOP_CALLBACK_MAX"
  obtains ret el' k' m' where "watch_if h fd t cb el k m = Some (ret, el', k', m')" "watches_only fd el k m el' k' m'"
    "ret = 0 \<or> ret = -1 \<and> answers m \<noteq> []" "loop_inv el' k' m'" "k_open k' fd"
    "ret = 0 \<longrightarrow> watches el' = (if h \<noteq> None then table_add fd t cb (watches el) else watches el)"
proof -
  obtain ret el' k' m' where w: "watch_if h fd t cb el k m = Some (ret, el', k', m')" "k_open k' = k_open k"
    "loop_inv el' k' m'" "ret = 0 \<or> ret = -1 \<and> answers m \<noteq> []"
    "ret = 0 \<longrightarrow> watches el' = (if h \<noteq> None then table_add fd t cb (watches el) else watches el)"
    "\<forall>fd'. fd' \<noteq> fd \<longrightarrow> watches el' fd' = watches el fd'" "answers m = [] \<longrightarrow> answers m' = []"
    "blocks m' - int (length (el_callbacks_list el')) = blocks m - int (length (el_callbacks_list el))"
    using watch_if_result[OF assms(1-3), of t h cb] assms(4) by blast
  then have "watches_only fd el k m el' k' m'" "k_open k' fd" using assms(3) by (simp_all add: watches_only_def)
  with w(1,3-5) show thesis using that by blast
qed

lemma callbacks_registered:
  assumes "watches el (tc_fd c) = (\<lambda>_. None)"
    and "watches el1 = (if r \<noteq> None then table_add (tc_fd c) ELOOP_CALLBACK_READ
      (Connection_ready_read (tc_addr c)) (watches el) else watches el)"
    and "watches el2 = (if w \<noteq> None then table_add (tc_fd c) ELOOP_CALLBACK_WRITE
      (Connection_ready_write (tc_addr c)) (watches el1) else watches el1)"
    and "watches el3 = (if cl \<noteq> None then table_add (tc_fd c) ELOOP_CALLBACK_CLOSE
      (Connection_close (tc_addr c)) (watches el2) else watches el2)"
  shows "watches el3 = (watches el)(tc_fd c := registered c r w cl)"
proof (intro ext)
  fix fd t show "watches el3 fd t = ((watches el)(tc_fd c := registered c r w cl)) fd t"
    using assms by (cases t) (auto simp: table_add_def registered_def wanted_def)
qed

text \<open>The three registrations, were each to be tried.\<close>

lemma three_watches:
  assumes inv: "loop_inv el k m" and fd: "0 \<le> h" "k_open k h"
  obtains r1 el1 k1 m1 r2 el2 k2 m2 r3 el3 k3 m3 where
    "watch_if r h ELOOP_CALLBACK_READ rc el k m = Some (r1, el1, k1, m1)"
    "watch_if w h ELOOP_CALLBACK_WRITE wc el1 k1 m1 = Some (r2, el2, k2, m2)"
    "watch_if cl h ELOOP_CALLBACK_CLOSE cc el2 k2 m2 = Some (r3, el3, k3, m3)"
    "watches_only h el k m el1 k1 m1"
    "watches_only h el k m el2 k2 m2"
    "watches_only h el k m el3 k3 m3"
    "r1 = 0 \<or> r1 = -1 \<and> answers m \<noteq> []"
    "r2 = 0 \<or> r2 = -1 \<and> answers m \<noteq> []"
    "r3 = 0 \<or> r3 = -1 \<and> answers m \<noteq> []"
    "r1 = 0 \<longrightarrow> watches el1 = (if r \<noteq> None then table_add h ELOOP_CALLBACK_READ rc (watches el) else watches el)"
    "r2 = 0 \<longrightarrow> watches el2 = (if w \<noteq> None then table_add h ELOOP_CALLBACK_WRITE wc (watches el1) else watches el1)"
    "r3 = 0 \<longrightarrow> watches el3 = (if cl \<noteq> None then table_add h ELOOP_CALLBACK_CLOSE cc (watches el2) else watches el2)"
proof -
  have t: "ELOOP_CALLBACK_READ \<noteq> ELOOP_CALLBACK_MAX" "ELOOP_CALLBACK_WRITE \<noteq> ELOOP_CALLBACK_MAX"
    "ELOOP_CALLBACK_CLOSE \<noteq> ELOOP_CALLBACK_MAX" by simp_all
  obtain r1 el1 k1 m1 where s1: "watch_if r h ELOOP_CALLBACK_READ rc el k m = Some (r1, el1, k1, m1)"
    "watches_only h el k m el1 k1 m1" "r1 = 0 \<or> r1 = -1 \<and> answers m \<noteq> []" "loop_inv el1 k1 m1" "k_open k1 h"
    "r1 = 0 \<longrightarrow> watches el1 = (if r \<noteq> None then table_add h ELOOP_CALLBACK_READ rc (watches el) else watches el)"
    using watch_if_only[OF inv fd t(1), where h = r and cb = rc] by blast
  obtain r2 el2 k2 m2 where s2: "watch_if w h ELOOP_CALLBACK_WRITE wc el1 k1 m1 = Some (r2, el2, k2, m2)"
    "watches_only h el1 k1 m1 el2 k2 m2" "r2 = 0 \<or> r2 = -1 \<and> answers m1 \<noteq> []" "loop_inv el2 k2 m2" "k_open k2 h"
    "r2 = 0 \<longrightarrow> watches el2 = (if w \<noteq> None then table_add h ELOOP_CALLBACK_WRITE wc (watches el1) else watches el1)"
    using watch_if_only[OF s1(4) fd(1) s1(5) t(2), where h = w and cb = wc] by blast
  obtain r3 el3 k3 m3 where s3: "watch_if cl h ELOOP_CALLBACK_CLOSE cc el2 k2 m2 = Some (r3, el3, k3, m3)"
    "watches_only h el2 k2 m2 el3 k3 m3" "r3 = 0 \<or> r3 = -1 \<and> answers m2 \<noteq> []" "loop_inv el3 k3 m3" "k_open k3 h"
    "r3 = 0 \<longrightarrow> watches el3 = (if cl \<noteq> None then table_add h ELOOP_CALLBACK_CLOSE cc (watches el2) else watches el2)"
    using watch_if_only[OF s2(4) fd(1) s2(5) t(3), where h = cl and cb = cc] by blast
  note both = watches_only_trans[OF s1(2) s2(2)]
  note all = watches_only_trans[OF both s3(2)]
  have "answers m1 \<noteq> [] \<Longrightarrow> answers m \<noteq> []" "answers m2 \<noteq> [] \<Longrightarrow> answers m \<noteq> []"
    using s1(2) both unfolding watches_only_def by blast+
  with s2(3) s3(3) have "r2 = 0 \<or> r2 = -1 \<and> answers m \<noteq> []" "r3 = 0 \<or> r3 = -1 \<and> answers m \<noteq> []" by blast+
  then show thesis by (rule that[OF s1(1) s2(1) s3(1) s1(2) both all s1(3) _ _ s1(6) s2(6) s3(6)])
qed

lemma set_callbacks_result:
  assumes inv: "loop_inv el k m" and fd: "0 \<le> tc_fd c" "k_open k (tc_fd c)"
    and none: "watches el (tc_fd c) = (\<lambda>_. None)"
  shows "\<exists>ret c' el' k' m'. tcp_connection_set_callbacks c r w cl d el k m = Some (ret, c', el', k', m') \<and>
     tc_fd c' = tc_fd c \<and> k_open k' = k_open k \<and> loop_inv el' k' m' \<and>
     (ret = 0 \<and> watches el' = (watches el)(tc_fd c := registered c r w cl) \<or> ret = -1 \<and> answers m \<noteq> []) \<and>
     (ret = 0 \<and> tc_read_callback c = None \<and> tc_write_callback c = None \<and> tc_close_callback c = None \<longrightarrow>
        c' = c\<lparr>tc_read_callback := r, tc_write_callback := w, tc_close_callback := cl, tc_data := d\<rparr>) \<and>
     (\<forall>fd. fd \<noteq> tc_fd c \<longrightarrow> watches el' fd = watches el fd) \<and>
     (answers m = [] \<longrightarrow> answers m' = []) \<and>
     blocks m' - int (length (el_callbacks_list el')) = blocks m - int (length (el_callbacks_list el))"
proof -
  let ?rc = "Connection_ready_read (tc_addr c)" and ?wc = "Connection_ready_write (tc_addr c)"
    and ?cc = "Connection_close (tc_addr c)"
  note def = tcp_connection_set_callbacks_def
  obtain r1 el1 k1 m1 r2 el2 k2 m2 r3 el3 k3 m3 where
    s: "watch_if r (tc_fd c) ELOOP_CALLBACK_READ ?rc el k m = Some (r1, el1, k1, m1)"
      "watch_if w (tc_fd c) ELOOP_CALLBACK_WRITE ?wc el1 k1 m1 = Some (r2, el2, k2, m2)"
      "watch_if cl (tc_fd c) ELOOP_CALLBACK_CLOSE ?cc el2 k2 m2 = Some (r3, el3, k3, m3)"
    and only: "watches_only (tc_fd c) el k m el1 k1 m1" "watches_only (tc_fd c) el k m el2 k2 m2"
      "watches_only (tc_fd c) el k m el3 k3 m3"
    and ret: "r1 = 0 \<or> r1 = -1 \<and> answers m \<noteq> []" "r2 = 0 \<or> r2 = -1 \<and> answers m \<noteq> []" "r3 = 0 \<or> r3 = -1 \<and> answers m \<noteq> []"
    and table: "r1 = 0 \<longrightarrow> watches el1 = (if r \<noteq> None then table_add (tc_fd c) ELOOP_CALLBACK_READ ?rc (watches el) else watches el)"
      "r2 = 0 \<longrightarrow> watches el2 = (if w \<noteq> None then table_add (tc_fd c) ELOOP_CALLBACK_WRITE ?wc (watches el1) else watches el1)"
      "r3 = 0 \<longrightarrow> watches el3 = (if cl \<noteq> None then table_add (tc_fd c) ELOOP_CALLBACK_CLOSE ?cc (watches el2) else watches el2)"
    using three_watches[OF inv fd, of r ?rc w ?wc cl ?cc] by blast
  show ?thesis
  proof (cases "r1 = 0 \<and> r2 = 0 \<and> r3 = 0")
    case True
    with callbacks_registered[OF none, of el1 r el2 w el3 cl] table
    have "watches el3 = (watches el)(tc_fd c := registered c r w cl)" by blast
    moreover have "tcp_connection_set_callbacks c r w cl d el k m = Some (0,
        (put_close_callback cl (put_write_callback w (put_read_callback r c)))\<lparr>tc_data := d\<rparr>, el3, k3, m3)"
      using s True by (simp add: def)
    moreover note put_callbacks_fresh[of c d cl w r] only(3)
    ultimately show ?thesis by (simp add: watches_only_def)
  next
    case False
    then consider (one) "r1 = -1" | (two) "r1 = 0" "r2 = -1" | (three) "r1 = 0" "r2 = 0" "r3 = -1"
      using ret by blast
    then show ?thesis
    proof cases
      case one
      then have "tcp_connection_set_callbacks c r w cl d el k m = Some (-1, c, el1, k1, m1)" "answers m \<noteq> []"
        using s(1) ret(1) by (simp_all add: def)
      with only(1) show ?thesis by (simp add: watches_only_def)
    next
      case two
      then have "tcp_connection_set_callbacks c r w cl d el k m = Some (-1, put_read_callback r c, el2, k2, m2)"
        "answers m \<noteq> []" using s(1,2) ret(2) by (simp_all add: def)
      with only(2) show ?thesis by (simp add: watches_only_def)
    next
      case three
      then have "tcp_connection_set_callbacks c r w cl d el k m =
          Some (-1, put_write_callback w (put_read_callback r c), el3, k3, m3)" "answers m \<noteq> []"
        using s ret(3) by (simp_all add: def)
      with only(3) show ?thesis by (simp add: watches_only_def)
    qed
  qed
qed

lemma loop_inv_same_count:
  assumes "loop_inv el k m" "loop_inv el' k' m'" "watches el' = watches el"
  shows "length (el_callbacks_list el') = length (el_callbacks_list el)"
  by (simp add: entry_count[OF assms(1)] entry_count[OF assms(2)] assms(3))

text \<open>
  C20: Whatever callbacks a connection registers on its open descriptor, and even when an allocation fails
  in the middle of it, closing the connection afterwards leaves the loop watching what it watched
  before, the kernel asked for the same events on every descriptor, the descriptor closed, and no
  block of the registration allocated.
\<close>

theorem connection_open_close:
  assumes "loop_inv el k m" "0 \<le> tc_fd c" "k_open k (tc_fd c)" "watches el (tc_fd c) = (\<lambda>_. None)"
  shows "\<exists>ret c1 el1 k1 m1 c2 el2 k2 m2.
     tcp_connection_set_callbacks c r w cl d el k m = Some (ret, c1, el1, k1, m1) \<and>
     (answers m = [] \<longrightarrow> ret = 0 \<and> watches el1 = (watches el)(tc_fd c := registered c r w cl)) \<and>
     tcp_connection_close c1 el1 k1 m1 = Some (c2, el2, k2, m2) \<and>
     tc_fd c2 = -1 \<and> watches el2 = watches el \<and> \<not> k_open k2 (tc_fd c) \<and>
     (\<forall>fd. map_option fst (k_epoll k2 fd) = map_option fst (k_epoll k fd)) \<and>
     blocks m2 = blocks m"
proof -
  from set_callbacks_result[OF assms, of r w cl d] obtain ret c1 el1 k1 m1 where
    s: "tcp_connection_set_callbacks c r w cl d el k m = Some (ret, c1, el1, k1, m1)"
    "tc_fd c1 = tc_fd c" "k_open k1 = k_open k" "loop_inv el1 k1 m1"
    "ret = 0 \<and> watches el1 = (watches el)(tc_fd c := registered c r w cl) \<or> ret = -1 \<and> answers m \<noteq> []"
    "\<forall>fd. fd \<noteq> tc_fd c \<longrightarrow> watches el1 fd = watches el fd"
    "blocks m1 - int (length (el_callbacks_list el1)) = blocks m - int (length (el_callbacks_list el))"
    by blast
  from close_connection[OF s(4), of c1] s(2,3) assms(2,3) obtain el2 k2 m2 where
    cl: "tcp_connection_close c1 el1 k1 m1 = Some (c1\<lparr>tc_fd := -1\<rparr>, el2, k2, m2)" "loop_inv el2 k2 m2"
    "watches el2 = (watches el1)(tc_fd c := \<lambda>_. None)" "k_open k2 = (k_open k1)(tc_fd c := False)"
    "blocks m2 - int (length (el_callbacks_list el2)) = blocks m1 - int (length (el_callbacks_list el1))"
    by auto
  have w: "watches el2 = watches el"
    using cl(3) s(6) assms(4) by (auto simp: fun_eq_iff)
  then have "\<forall>fd. map_option fst (k_epoll k2 fd) = map_option fst (k_epoll k fd)"
    by (simp add: interest_list[OF cl(2)] interest_list[OF assms(1)])
  moreover have "blocks m2 = blocks m"
    using loop_inv_same_count[OF assms(1) cl(2) w] cl(5) s(7) by simp
  moreover have "tc_fd (c1\<lparr>tc_fd := -1\<rparr>) = -1" "\<not> k_open k2 (tc_fd c)" using cl(4) by simp_all
  moreover have "answers m = [] \<longrightarrow> ret = 0 \<and> watches el1 = (watches el)(tc_fd c := registered c r w cl)"
    using s(5) by blast
  ultimately show ?thesis using s(1) cl(1) w by blast
qed

definition fresh_connection :: "nat TcpConnection" where
  "fresh_connection = \<lparr>tc_addr = 9, tc_fd = 5, tc_read_callback = None, tc_write_callback = None,
     tc_close_callback = None, tc_data = None\<rparr>"

definition empty_loop :: "unit loop" where
  "empty_loop = \<lparr>el_epollfd = 3, el_collector = Some \<lparr>collect_entries_list = []\<rparr>,
     el_callbacks_list = [], el_running = True\<rparr>"

lemma empty_loop_simps [simp]:
  "loop_inv empty_loop all_open m" "watches empty_loop = (\<lambda>_ _. None)" "k_open all_open fd \<longleftrightarrow> 0 \<le> fd"
  by (simp_all add: loop_inv_def find_callback_by_fd_def empty_loop_def all_open_def watches_def fun_eq_iff)

theorem connection_open_close_witness:
  "\<exists>ret c1 el1 k1 m1 c2 el2 k2 m2.
     tcp_connection_set_callbacks fresh_connection (Some 1) (Some 2) None (Some 8) empty_loop all_open
       (mem0\<lparr>answers := [False]\<rparr>) = Some (ret, c1, el1, k1, m1) \<and>
     tcp_connection_close c1 el1 k1 m1 = Some (c2, el2, k2, m2) \<and>
     tc_fd c2 = -1 \<and> \<not> k_open k2 5 \<and> blocks m2 = 0"
proof -
  have c: "0 \<le> tc_fd fresh_connection" "tc_fd fresh_connection = 5" by (simp_all add: fresh_connection_def)
  from connection_open_close[of empty_loop all_open "mem0\<lparr>answers := [False]\<rparr>" fresh_connection
      "Some 1" "Some 2" None "Some 8"] c
  show ?thesis by (simp add: mem0_def) blast
qed

end
