(* ===== verification/Tcp_Server.thy ===== *)
theory Tcp_Server
  imports Tcp_Connection C_Strings
begin

text \<open>
  The listening socket (\<open>src/tcpserver.c\<close>): opening it step by step, accepting connections from
  it, and closing it.  What the system calls return is a parameter; a socket that was opened is
  an open descriptor of the kernel.
\<close>

section \<open>State\<close>

definition BACKLOG :: nat where "BACKLOG = 1024"
definition PORT_S_LEN :: nat where "PORT_S_LEN = 6"

record 'a TcpServer =
  ts_addr :: addr
  ts_listen_fd :: int
  ts_accept_callback :: "'a option"
  ts_data :: "addr option"

text \<open>What each call of \<open>tcp_server_start_listen\<close> returns; \<open>sys_reuseport\<close> is \<open>None\<close> when the program
  is built without that option.\<close>

record listen_calls =
  sys_getaddrinfo :: "string \<Rightarrow> string \<Rightarrow> int"
  sys_socket :: int
  sys_reuseaddr :: int
  sys_reuseport :: "int option"
  sys_fcntl :: int
  sys_bind :: int
  sys_listen :: int

section \<open>Operations\<close>

definition tcp_server_new :: "mem \<Rightarrow> 'a TcpServer option \<times> mem" where
  "tcp_server_new m =
     (let (p, m) = memory_create m in
      case p of
        None \<Rightarrow> (None, m)
      | Some a \<Rightarrow> (Some \<lparr>ts_addr = a, ts_listen_fd = -1, ts_accept_callback = None, ts_data = None\<rparr>, m))"

definition tcp_server_destroy ::
    "'a TcpServer \<Rightarrow> 'f loop \<Rightarrow> kernel \<Rightarrow> mem \<Rightarrow> ('f loop \<times> kernel \<times> mem) option" where
  "tcp_server_destroy server el k m = do {
     (el, k, m) \<leftarrow> (if 0 \<le> ts_listen_fd server then do {
          (_, el, k, m) \<leftarrow> event_loop_remove_fd_watch (ts_listen_fd server) ELOOP_CALLBACK_READ el k m;
          Some (el, close_fd (ts_listen_fd server) k, m)
        } else Some (el, k, m));
     Some (el, k, memory_destroy (Some server) m)
   }"

definition tcp_server_set_accept_callback :: "'a \<Rightarrow> addr \<Rightarrow> 'a TcpServer \<Rightarrow> 'a TcpServer" where
  "tcp_server_set_accept_callback callback data server =
     server\<lparr>ts_accept_callback := Some callback, ts_data := Some data\<rparr>"

definition on_incoming_connection ::
    "'x sockets \<Rightarrow> ('a \<Rightarrow> 'h TcpConnection \<Rightarrow> addr option \<Rightarrow> ('w, 'f, 'x) env \<Rightarrow> ('w, 'f, 'x) env option)
      \<Rightarrow> int \<Rightarrow> 'a TcpServer \<Rightarrow> ('w, 'f, 'x) env \<Rightarrow> (int \<times> ('w, 'f, 'x) env) option" where
  "on_incoming_connection so call server_fd server = (\<lambda>(w, el, k, x, m).
     case so_accept so server_fd x of
       (Io_failed errno, x) \<Rightarrow> Some (if errno \<noteq> EAGAIN then -1 else 0, w, el, k, x, m)
     | (Io_done client_fd, x) \<Rightarrow> do {
         (connection, m) \<leftarrow> tcp_connection_with_fd client_fd m;
         (case connection of
            None \<Rightarrow> Some (-1, w, el, close_fd client_fd k, x, m)
          | Some c \<Rightarrow>
              (case ts_accept_callback server of
                 None \<Rightarrow> Some (0, w, el, open_fd client_fd k, x, m)
               | Some callback \<Rightarrow>
                   map_option (Pair 0) (call callback c (ts_data server) (w, el, open_fd client_fd k, x, m))))
       })"

text \<open>\<open>port\<close> is a 16 bit number.  From the second call on \<open>listen_fd\<close> is set, so that a failure leaves
  the socket to \<open>tcp_server_destroy\<close>.\<close>

definition tcp_server_start_listen ::
    "listen_calls \<Rightarrow> 'a TcpServer \<Rightarrow> string \<Rightarrow> 16 word \<Rightarrow> 'f loop \<Rightarrow> kernel \<Rightarrow> mem
      \<Rightarrow> (int \<times> 'a TcpServer \<times> 'f loop \<times> kernel \<times> mem) option" where
  "tcp_server_start_listen sys server host port el k m =
     (let port_s = snprintf PORT_S_LEN (dec (unat port)) in
      if sys_getaddrinfo sys host port_s \<noteq> 0 then Some (-1, server, el, k, m)
      else
        (let server = server\<lparr>ts_listen_fd := sys_socket sys\<rparr> in
         if sys_socket sys < 0 then Some (-1, server, el, k, m)
         else
           (let k = open_fd (sys_socket sys) k in
            if sys_reuseaddr sys < 0 then Some (-1, server, el, k, m)
            else if (case sys_reuseport sys of None \<Rightarrow> False | Some r \<Rightarrow> r < 0) then Some (-1, server, el, k, m)
            else if sys_fcntl sys < 0 then Some (-1, server, el, k, m)
            else if sys_bind sys < 0 then Some (-1, server, el, k, m)
            else if sys_listen sys < 0 then Some (-1, server, el, k, m)
            else do {
              (ret, el, k, m) \<leftarrow> event_loop_add_fd_watch (ts_listen_fd server) ELOOP_CALLBACK_READ
                                   (Server_incoming (ts_addr server)) el k m;
              Some (ret, server, el, k, m)
            })))"

section \<open>Opening and closing\<close>

lemma port_text_complete: "snprintf PORT_S_LEN (dec (unat (port :: 16 word))) = dec (unat port)"
proof (rule snprintf_fits)
  have "unat port < 2 ^ 16" using unsigned_less[of port] by simp
  then have "unat port < 10 ^ 5" by simp
  then show "length (dec (unat port)) < PORT_S_LEN"
    using length_dec_bound[of 5 "unat port"] by (simp add: PORT_S_LEN_def)
qed

text \<open>All calls succeed for this host and port.\<close>

definition can_listen :: "listen_calls \<Rightarrow> string \<Rightarrow> 16 word \<Rightarrow> bool" where
  "can_listen sys host port \<longleftrightarrow> sys_getaddrinfo sys host (dec (unat port)) = 0 \<and> 0 \<le> sys_socket sys \<and>
     0 \<le> sys_reuseaddr sys \<and> (\<forall>r \<in> set_option (sys_reuseport sys). 0 \<le> r) \<and> 0 \<le> sys_fcntl sys \<and>
     0 \<le> sys_bind sys \<and> 0 \<le> sys_listen sys"

lemma loop_inv_open: "loop_inv el k m \<Longrightarrow> loop_inv el (open_fd fd k) m"
  by (simp add: loop_inv_def open_fd_def)

lemma start_listen_fails:
  assumes "\<not> can_listen sys host port"
  shows "tcp_server_start_listen sys server host port el k m = Some (-1, server, el, k, m) \<or>
    tcp_server_start_listen sys server host port el k m =
      Some (-1, server\<lparr>ts_listen_fd := sys_socket sys\<rparr>, el,
        if sys_socket sys < 0 then k else open_fd (sys_socket sys) k, m)"
  using assms by (auto simp: tcp_server_start_listen_def can_listen_def port_text_complete Let_def
      split: option.splits)

lemma start_listen_registers:
  "can_listen sys host port \<Longrightarrow>
    tcp_server_start_listen sys server host port el k m =
      Option.bind (event_loop_add_fd_watch (sys_socket sys) ELOOP_CALLBACK_READ
          (Server_incoming (ts_addr server)) el (open_fd (sys_socket sys) k) m)
        (\<lambda>(ret, el, k, m). Some (ret, server\<lparr>ts_listen_fd := sys_socket sys\<rparr>, el, k, m))"
  by (auto simp: tcp_server_start_listen_def can_listen_def port_text_complete Let_def
      split: option.splits)

text \<open>What a server that tried to listen holds, beside what was open and watched before.\<close>

definition server_holds ::
    "'a TcpServer \<Rightarrow> (int \<Rightarrow> bool) \<Rightarrow> loop_callback watch_table \<Rightarrow> 'f loop \<Rightarrow> kernel \<Rightarrow> bool" where
  "server_holds s opened w el k \<longleftrightarrow>
     (if ts_listen_fd s < 0 then k_open k = opened \<and> watches el = w
      else \<not> opened (ts_listen_fd s) \<and> w (ts_listen_fd s) = (\<lambda>_. None) \<and>
        k_open k = opened(ts_listen_fd s := True) \<and>
        (watches el = w \<or>
           watches el = table_add (ts_listen_fd s) ELOOP_CALLBACK_READ (Server_incoming (ts_addr s)) w))"

lemma loop_inv_blocks [simp]: "loop_inv el k (m\<lparr>blocks := b\<rparr>) = loop_inv el k m"
  by (simp add: loop_inv_def)

lemma start_listen_holds:
  assumes "loop_inv el k m" "answers m = []" "ts_listen_fd server = -1"
    and "\<not> k_open k (sys_socket sys)" "watches el (sys_socket sys) = (\<lambda>_. None)"
  shows "\<exists>ret s1 el1 k1 m1. tcp_server_start_listen sys server host port el k m = Some (ret, s1, el1, k1, m1) \<and>
     (ret = 0 \<longleftrightarrow> can_listen sys host port) \<and> server_holds s1 (k_open k) (watches el) el1 k1 \<and>
     (ret = 0 \<longrightarrow> watches el1 =
        table_add (sys_socket sys) ELOOP_CALLBACK_READ (Server_incoming (ts_addr server)) (watches el)) \<and>
     (ts_listen_fd s1 = -1 \<or> ts_listen_fd s1 = sys_socket sys) \<and>
     loop_inv el1 k1 m1 \<and> answers m1 = [] \<and> el_collector el1 = el_collector el \<and>
     blocks m1 - int (length (el_callbacks_list el1)) = blocks m - int (length (el_callbacks_list el))"
proof (cases "can_listen sys host port")
  case True
  let ?fd = "sys_socket sys" and ?s = "server\<lparr>ts_listen_fd := sys_socket sys\<rparr>"
  let ?k = "open_fd ?fd k" and ?cb = "Server_incoming (ts_addr server)"
  have fd: "0 \<le> ?fd" "k_open ?k ?fd" using True by (simp_all add: can_listen_def open_fd_def)
  from add_watch[OF loop_inv_open[OF assms(1)] fd, of ELOOP_CALLBACK_READ ?cb] assms(2)
  obtain el1 k1 m1 where a:
    "event_loop_add_fd_watch ?fd ELOOP_CALLBACK_READ ?cb el ?k m = Some (0, el1, k1, m1)"
    "k_open k1 = k_open ?k" "loop_inv el1 k1 m1" "answers m1 = []"
    "watches el1 = table_add ?fd ELOOP_CALLBACK_READ ?cb (watches el)"
    "blocks m1 - int (length (el_callbacks_list el1)) = blocks m - int (length (el_callbacks_list el))"
    by auto
  have "tcp_server_start_listen sys server host port el k m = Some (0, ?s, el1, k1, m1)"
    using a(1) by (simp add: start_listen_registers[OF True])
  moreover have "server_holds ?s (k_open k) (watches el) el1 k1"
    using fd a(2,5) assms(4,5) by (auto simp: server_holds_def open_fd_def)
  ultimately show ?thesis using True a add_watch_collector[OF a(1)] by auto
next
  case False
  have holds: "server_holds server (k_open k) (watches el) el k"
    "server_holds (server\<lparr>ts_listen_fd := sys_socket sys\<rparr>) (k_open k) (watches el) el
       (if sys_socket sys < 0 then k else open_fd (sys_socket sys) k)"
    using assms(3-5) by (auto simp: server_holds_def open_fd_def)
  from start_listen_fails[OF False, of server el k m] show ?thesis
  proof
    assume "tcp_server_start_listen sys server host port el k m = Some (-1, server, el, k, m)"
    with holds False assms(1-3) show ?thesis by simp
  next
    assume "tcp_server_start_listen sys server host port el k m =
      Some (-1, server\<lparr>ts_listen_fd := sys_socket sys\<rparr>, el,
        if sys_socket sys < 0 then k else open_fd (sys_socket sys) k, m)"
    with holds False assms(1,2) loop_inv_open show ?thesis by auto
  qed
qed

lemma start_listen_same:
  "tcp_server_start_listen sys s host port el k m = Some (ret, s1, el1, k1, m1) \<Longrightarrow>
     ts_addr s1 = ts_addr s \<and> ts_accept_callback s1 = ts_accept_callback s \<and> ts_data s1 = ts_data s"
  by (auto simp: tcp_server_start_listen_def Let_def split: if_splits option.splits Option.bind_splits)

lemma destroy_holds:
  assumes inv: "loop_inv el k m" and holds: "server_holds server opened w el k"
  shows "\<exists>el' k' m'. tcp_server_destroy server el k m = Some (el', k', m') \<and> watches el' = w \<and> k_open k' = opened \<and>
     loop_inv el' k' m' \<and> answers m' = answers m \<and> el_collector el' = el_collector el \<and>
     blocks m' + 1 - int (length (el_callbacks_list el')) = blocks m - int (length (el_callbacks_list el))"
proof (cases "ts_listen_fd server < 0")
  case True
  with assms show ?thesis by (simp add: tcp_server_destroy_def server_holds_def)
next
  case False
  let ?fd = "ts_listen_fd server"
  have fd: "0 \<le> ?fd" "k_open k ?fd" "w ?fd = (\<lambda>_. None)" "opened(?fd := False) = opened"
    "k_open k = opened(?fd := True)"
    using False holds by (auto simp: server_holds_def fun_eq_iff)
  from remove_watch[OF inv fd(1,2), of ELOOP_CALLBACK_READ] obtain ret el' k' m' where
    r: "event_loop_remove_fd_watch ?fd ELOOP_CALLBACK_READ el k m = Some (ret, el', k', m')"
    "k_open k' = k_open k" "loop_inv el' k' m'" "watches el' = table_remove ?fd ELOOP_CALLBACK_READ (watches el)"
    "answers m' = answers m"
    "blocks m' - int (length (el_callbacks_list el')) = blocks m - int (length (el_callbacks_list el))"
    by auto
  have w: "watches el' = w"
    using holds False fd(3) by (auto simp: r(4) server_holds_def table_add_def table_remove_def fun_eq_iff)
  have "loop_inv el' (close_fd ?fd k') m'" using loop_inv_close[OF r(3)] w fd(3) by simp
  moreover have "k_open (close_fd ?fd k') = opened" using r(2) fd(4,5) by (simp add: close_fd_def)
  ultimately show ?thesis using r w fd(1) remove_watch_collector[OF r(1)]
    by (simp add: tcp_server_destroy_def)
qed

text \<open>
  C21: Listening succeeds exactly when every system call does, with the port passed on in
  full as decimal text, and then the loop watches the socket for incoming connections.  Whichever call
  fails, destroying the server afterwards leaves the loop, the open descriptors and the allocator as they
  were before listening, less the server itself.
\<close>

theorem server_open_close:
  assumes "loop_inv el k m" "answers m = []" "ts_listen_fd server = -1"
    and "\<not> k_open k (sys_socket sys)" "watches el (sys_socket sys) = (\<lambda>_. None)"
  shows "\<exists>ret s1 el1 k1 m1 el2 k2 m2.
     tcp_server_start_listen sys server host port el k m = Some (ret, s1, el1, k1, m1) \<and>
     (ret = 0 \<longleftrightarrow> can_listen sys host port) \<and>
     (ret = 0 \<longrightarrow> watches el1 =
        table_add (sys_socket sys) ELOOP_CALLBACK_READ (Server_incoming (ts_addr server)) (watches el)) \<and>
     tcp_server_destroy s1 el1 k1 m1 = Some (el2, k2, m2) \<and>
     watches el2 = watches el \<and> k_open k2 = k_open k \<and> blocks m2 = blocks m - 1"
proof -
  from start_listen_holds[OF assms, of host port] obtain ret s1 el1 k1 m1 where a:
    "tcp_server_start_listen sys server host port el k m = Some (ret, s1, el1, k1, m1)"
    "ret = 0 \<longleftrightarrow> can_listen sys host port" "server_holds s1 (k_open k) (watches el) el1 k1"
    "ret = 0 \<longrightarrow> watches el1 =
        table_add (sys_socket sys) ELOOP_CALLBACK_READ (Server_incoming (ts_addr server)) (watches el)"
    "loop_inv el1 k1 m1"
    "blocks m1 - int (length (el_callbacks_list el1)) = blocks m - int (length (el_callbacks_list el))"
    by blast
  from destroy_holds[OF a(5,3)] obtain el2 k2 m2 where d:
    "tcp_server_destroy s1 el1 k1 m1 = Some (el2, k2, m2)" "watches el2 = watches el" "k_open k2 = k_open k"
    "loop_inv el2 k2 m2"
    "blocks m2 + 1 - int (length (el_callbacks_list el2)) = blocks m1 - int (length (el_callbacks_list el1))"
    by blast
  have "blocks m2 = blocks m - 1" using d(5) a(6) loop_inv_same_count[OF assms(1) d(4,2)] by simp
  with a(1,2,4) d(1-3) show ?thesis by blast
qed

definition busy_port :: listen_calls where
  "busy_port = \<lparr>sys_getaddrinfo = (\<lambda>host port. if port = ''8080'' then 0 else -1), sys_socket = 6,
     sys_reuseaddr = 0, sys_reuseport = None, sys_fcntl = 0, sys_bind = -1, sys_listen = 0\<rparr>"

definition idle_server :: "unit TcpServer" where
  "idle_server = \<lparr>ts_addr = 2, ts_listen_fd = -1, ts_accept_callback = Some (), ts_data = Some 7\<rparr>"

theorem server_open_close_witness:
  "\<exists>ret s1 el1 k1 m1 el2 k2 m2.
     tcp_server_start_listen busy_port idle_server ''::1'' 8080 empty_loop
       (all_open\<lparr>k_open := \<lambda>fd. fd = 3\<rparr>) mem0 = Some (ret, s1, el1, k1, m1) \<and> ret \<noteq> 0 \<and>
     tcp_server_destroy s1 el1 k1 m1 = Some (el2, k2, m2) \<and> \<not> k_open k2 6 \<and> blocks m2 = -1"
proof -
  let ?k = "all_open\<lparr>k_open := \<lambda>fd. fd = 3\<rparr>"
  have "loop_inv empty_loop ?k mem0"
    using empty_loop_simps(1)[of mem0] by (simp add: loop_inv_def)
  from server_open_close[OF this, of idle_server busy_port "''::1''" 8080]
  show ?thesis by (auto simp: busy_port_def idle_server_def can_listen_def)
qed

end
