(* ===== verification/Http_Connection.thy ===== *)
theory Http_Connection
  imports Tcp_Connection Http_Request_Queue Http_Response Http_Router
begin

text \<open>
  HTTP connections (\<open>src/httpconnection.c\<close>): a TCP connection, the request queue its bytes are
  appended to, and the response that is written back.  A connection owns these three, so they
  are held by value.  Handlers work on the connection, the event loop, the kernel, the rest of the
  program \<open>'x\<close> (sockets, the data of the containers) and the allocator; calling the finish callback
  when none is set is undefined.  Containers serve on a response, the rest and the allocator,
  \<open>None\<close> being undefined behaviour inside the container.
\<close>

section \<open>State\<close>

definition BUFSIZE :: nat where "BUFSIZE = 80 * 1024"

datatype http_handler = Http_on_read | Http_on_write | Http_on_close

record ('ps, 'f) HTTPConnection =
  hc_addr :: addr
  hc_tcp_connection :: "http_handler TcpConnection"
  hc_finish_callback :: "(addr \<Rightarrow> 'f loop \<Rightarrow> mem \<Rightarrow> ('f loop \<times> mem) option) option"
  hc_request_queue :: "('ps, addr) HTTPRequestQueue"
  hc_response :: HTTPResponse

type_synonym ('ps, 'f, 'x) connection_state = "(('ps, 'f) HTTPConnection, 'f, 'x) env"

section \<open>Handlers\<close>

definition finish ::
    "('ps, 'f, 'x) connection_state \<Rightarrow> ('ps, 'f, 'x) connection_state option" where
  "finish = (\<lambda>(hc, el, k, x, m). do {
     callback \<leftarrow> hc_finish_callback hc;
     (el, m) \<leftarrow> callback (hc_addr hc) el m;
     Some (hc, el, k, x, m)
   })"

text \<open>\<open>http_request_is_last\<close> asserts a request before the test for \<open>NULL\<close>, so the error branch
  of the source is never reached.\<close>

definition on_new_request ::
    "('h, 'x served, 'c) HTTPRouter \<Rightarrow> addr \<Rightarrow> ('ps, addr) HTTPRequestQueue \<Rightarrow> HTTPResponse \<times> 'x \<Rightarrow> mem
      \<Rightarrow> (('ps, addr) HTTPRequestQueue \<times> (HTTPResponse \<times> 'x) \<times> mem) option" where
  "on_new_request router data request_queue w m = do {
     let (response, x) = w;
     (next, request_queue) \<leftarrow> http_request_queue_get_next_request request_queue;
     request \<leftarrow> next;
     let response = http_response_set_last (http_request_is_last request) response;
     (ret, served) \<leftarrow> http_router_serve router request (Some (response, x, m));
     (response, x, m) \<leftarrow> served;
     Some (request_queue, (response, x), http_request_destroy request m)
   }"

definition on_read ::
    "('h, 'x served, 'c) HTTPRouter \<Rightarrow> 'ps parser_lib \<Rightarrow> 'x sockets
      \<Rightarrow> ('ps, 'f, 'x) connection_state \<Rightarrow> ('ps, 'f, 'x) connection_state option" where
  "on_read router lib so = (\<lambda>(hc, el, k, x, m).
     case tcp_connection_read_data so (hc_tcp_connection hc) BUFSIZE x of
       (Io_failed errno, x) \<Rightarrow>
         if errno \<noteq> EAGAIN then finish (hc, el, k, x, m) else Some (hc, el, k, x, m)
     | (Io_done buffer, x) \<Rightarrow>
         if buffer = [] then Some (hc, el, k, x, m)
         else do {
           (ret, queue, (response, x), m) \<leftarrow>
             http_request_queue_append_data lib (on_new_request router) buffer
               (hc_request_queue hc) (hc_response hc, x) m;
           let hc = hc\<lparr>hc_request_queue := queue, hc_response := response\<rparr>;
           if ret < 0 then finish (hc, el, k, x, m) else Some (hc, el, k, x, m)
         })"

text \<open>What \<open>send\<close> returns is looked at only to log an error.\<close>

definition on_write ::
    "'x sockets \<Rightarrow> ('ps, 'f, 'x) connection_state \<Rightarrow> ('ps, 'f, 'x) connection_state option" where
  "on_write so = (\<lambda>(hc, el, k, x, m). do {
     (got, buffer, response, m) \<leftarrow> http_response_read_data BUFSIZE (hc_response hc) m;
     let hc = hc\<lparr>hc_response := response\<rparr>;
     if 0 < got then
       (let (sent, x) = tcp_connection_write_data so (hc_tcp_connection hc) buffer x
        in Some (hc, el, k, x, m))
     else if http_response_is_last response \<noteq> 0 then do {
       (tcp, el, k, m) \<leftarrow> tcp_connection_close (hc_tcp_connection hc) el k m;
       finish (hc\<lparr>hc_tcp_connection := tcp\<rparr>, el, k, x, m)
     }
     else Some (hc, el, k, x, m)
   })"

definition on_peer_close ::
    "('ps, 'f, 'x) connection_state \<Rightarrow> ('ps, 'f, 'x) connection_state option" where
  "on_peer_close = (\<lambda>(hc, el, k, x, m). do {
     (tcp, el, k, m) \<leftarrow> tcp_connection_close (hc_tcp_connection hc) el k m;
     finish (hc\<lparr>hc_tcp_connection := tcp\<rparr>, el, k, x, m)
   })"

text \<open>The three callbacks assert the data they were registered with.\<close>

definition http_callback ::
    "('h, 'x served, 'c) HTTPRouter \<Rightarrow> 'ps parser_lib \<Rightarrow> 'x sockets \<Rightarrow> http_handler
      \<Rightarrow> http_handler TcpConnection \<Rightarrow> addr option
      \<Rightarrow> ('ps, 'f, 'x) connection_state \<Rightarrow> ('ps, 'f, 'x) connection_state option" where
  "http_callback router lib so h tcp data s =
     (if data \<noteq> Some (hc_addr (fst s)) then None
      else (case h of
          Http_on_read \<Rightarrow> on_read router lib so s
        | Http_on_write \<Rightarrow> on_write so s
        | Http_on_close \<Rightarrow> on_peer_close s))"

section \<open>Life cycle\<close>

definition http_connection_new ::
    "'ps parser_lib \<Rightarrow> string \<Rightarrow> http_handler TcpConnection \<Rightarrow> 'f loop \<Rightarrow> kernel \<Rightarrow> mem
      \<Rightarrow> (('ps, 'f) HTTPConnection option \<times> 'f loop \<times> kernel \<times> mem) option" where
  "http_connection_new lib banner tcp el k m =
     (let (p, m) = memory_create m in
      case p of
        None \<Rightarrow> Some (None, el, k, m)
      | Some a \<Rightarrow>
         (let (q, m) = http_request_queue_new lib m in
          case q of
            None \<Rightarrow> Some (None, el, k, memory_destroy p m)
          | Some queue \<Rightarrow>
             (let queue = http_request_queue_set_new_request_callback a queue;
                  (r, m) = http_response_new banner m in
              case r of
                None \<Rightarrow> Some (None, el, k, memory_destroy p (memory_destroy q m))
              | Some response \<Rightarrow> do {
                  (ret, tcp, el, k, m) \<leftarrow> tcp_connection_set_callbacks tcp (Some Http_on_read)
                     (Some Http_on_write) (Some Http_on_close) (Some a) el k m;
                  Some (Some \<lparr>hc_addr = a, hc_tcp_connection = tcp, hc_finish_callback = None,
                              hc_request_queue = queue, hc_response = response\<rparr>, el, k, m)
                })))"

definition http_connection_destroy ::
    "('ps, 'f) HTTPConnection \<Rightarrow> 'f loop \<Rightarrow> kernel \<Rightarrow> mem \<Rightarrow> ('f loop \<times> kernel \<times> mem) option" where
  "http_connection_destroy hc el k m = do {
     (el, k, m) \<leftarrow> tcp_connection_destroy (hc_tcp_connection hc) el k m;
     let m = http_request_queue_destroy (hc_request_queue hc) m;
     let m = http_response_destroy (hc_response hc) m;
     Some (el, k, memory_destroy (Some hc) m)
   }"

definition http_connection_set_finish_callback ::
    "(addr \<Rightarrow> 'f loop \<Rightarrow> mem \<Rightarrow> ('f loop \<times> mem) option) \<Rightarrow> ('ps, 'f) HTTPConnection \<Rightarrow> ('ps, 'f) HTTPConnection" where
  "http_connection_set_finish_callback callback hc = hc\<lparr>hc_finish_callback := Some callback\<rparr>"

section \<open>Writing a response back\<close>

text \<open>
  A socket that takes from each \<open>send\<close> at most as many bytes as the next number of a list says; once the
  list is used up it refuses everything.  Its state is what the peer has received, and the
  numbers left.
\<close>

definition counting_sockets :: "(bytes \<times> nat list) sockets" where
  "counting_sockets =
     \<lparr>so_recv = (\<lambda>fd n x. (Io_failed EAGAIN, x)),
      so_send = (\<lambda>fd data (rcv, ns). case ns of
         [] \<Rightarrow> (Io_failed EAGAIN, (rcv, []))
       | n # ns \<Rightarrow> (Io_done (min n (length data)), (rcv @ take n data, ns))),
      so_sendfile = (\<lambda>fd file n x. (Io_failed EAGAIN, x)),
      so_accept = (\<lambda>fd x. (Io_failed EAGAIN, x))\<rparr>"

text \<open>What reaches the peer of the bytes \<open>d\<close> when \<open>send\<close> takes \<open>ns\<close>.\<close>

fun reaching :: "nat list \<Rightarrow> bytes \<Rightarrow> bytes" where
  "reaching [] d = []"
| "reaching (n # ns) d = take n (take BUFSIZE d) @ reaching ns (drop BUFSIZE d)"

lemma BUFSIZE_pos: "0 < BUFSIZE" by (simp add: BUFSIZE_def)

lemma resp_contents_empty: "resp_wf r \<Longrightarrow> resp_contents r = [] \<longleftrightarrow> resp_buffer r = None"
  by (auto simp: resp_wf_def resp_contents_def split: option.splits)

lemma read_data_last:
  "http_response_read_data len r m = Some (ret, data, r', m') \<Longrightarrow> resp_is_last r' = resp_is_last r"
  by (auto simp: http_response_read_data_def Let_def split: if_splits option.splits prod.splits)

lemma read_data_fresh:
  "http_response_read_data len r m = Some (ret, data, r', m') \<Longrightarrow> fresh m \<le> fresh m'"
  by (auto simp: http_response_read_data_def memory_resize_def take_answer_def memory_destroy_def Let_def
      split: if_splits option.splits prod.splits list.splits)

lemma on_write_sends:
  assumes wf: "resp_wf (hc_response hc)" "answers m = []" and d: "resp_contents (hc_response hc) \<noteq> []"
  shows "\<exists>r m'. on_write counting_sockets (hc, el, k, (rcv, n # ns), m) =
      Some (hc\<lparr>hc_response := r\<rparr>, el, k, (rcv @ take n (take BUFSIZE (resp_contents (hc_response hc))), ns), m') \<and>
    resp_wf r \<and> resp_contents r = drop BUFSIZE (resp_contents (hc_response hc)) \<and>
    resp_is_last r = resp_is_last (hc_response hc) \<and> answers m' = [] \<and> fresh m \<le> fresh m' \<and>
    blocks m' - resp_owned r = blocks m - resp_owned (hc_response hc)"
proof -
  let ?r = "hc_response hc"
  obtain ret data r m' where rd: "http_response_read_data BUFSIZE ?r m = Some (ret, data, r, m')"
    "data = take BUFSIZE (resp_contents ?r)" "ret = int (length data)" "resp_wf r"
    "resp_contents r = drop BUFSIZE (resp_contents ?r)"
    "blocks m' - resp_owned r = blocks m - resp_owned ?r" "answers m' = []"
    using read_data_result[OF wf(1) BUFSIZE_pos, of m] wf(2) by blast
  have "0 < ret" using rd(2,3) d BUFSIZE_pos by simp
  with rd read_data_last[OF rd(1)] read_data_fresh[OF rd(1)] show ?thesis
    by (intro exI[of _ r] exI[of _ m']) (simp add: on_write_def tcp_connection_write_data_def counting_sockets_def)
qed

lemma on_write_last:
  assumes wf: "resp_wf (hc_response hc)" "answers m = []" and d: "resp_contents (hc_response hc) = []"
    and l: "resp_is_last (hc_response hc) \<noteq> 0"
  shows "on_write so (hc, el, k, x, m) = on_peer_close (hc, el, k, x, m)"
proof -
  let ?r = "hc_response hc"
  have n: "resp_buffer ?r = None" "resp_buffer_length ?r = 0"
    using resp_contents_empty[OF wf(1)] d wf(1) by (auto simp: resp_wf_def split: option.splits)
  have "http_response_read_data BUFSIZE ?r m = Some (0, [], ?r, m)"
    using n BUFSIZE_pos by (simp add: http_response_read_data_def)
  with l show ?thesis by (cases hc) (simp add: on_write_def on_peer_close_def http_response_is_last_def)
qed

text \<open>Enough calls for the response to be read out: one for each started \<open>BUFSIZE\<close> bytes.\<close>

lemma writes_until_empty:
  assumes "resp_wf (hc_response hc)" "answers m = []"
    and "length ns * BUFSIZE < length (resp_contents (hc_response hc)) + BUFSIZE"
  shows "\<exists>r m'. run_opt (\<lambda>_. on_write counting_sockets) ns (hc, el, k, (rcv, ns @ left), m) =
      Some (hc\<lparr>hc_response := r\<rparr>, el, k, (rcv @ reaching ns (resp_contents (hc_response hc)), left), m') \<and>
    resp_wf r \<and> resp_contents r = drop (length ns * BUFSIZE) (resp_contents (hc_response hc)) \<and>
    resp_is_last r = resp_is_last (hc_response hc) \<and> answers m' = [] \<and> fresh m \<le> fresh m' \<and>
    blocks m' - resp_owned r = blocks m - resp_owned (hc_response hc)"
  using assms
proof (induction ns arbitrary: hc rcv m)
  case Nil
  then show ?case by (auto intro!: exI[of _ "hc_response hc"] exI[of _ m])
next
  case (Cons n ns)
  have ne: "resp_contents (hc_response hc) \<noteq> []" using Cons.prems(3) by auto
  from on_write_sends[OF Cons.prems(1,2) ne] obtain r m' where w:
    "on_write counting_sockets (hc, el, k, (rcv, n # ns @ left), m) =
      Some (hc\<lparr>hc_response := r\<rparr>, el, k, (rcv @ take n (take BUFSIZE (resp_contents (hc_response hc))), ns @ left), m')"
    "resp_wf r" "resp_contents r = drop BUFSIZE (resp_contents (hc_response hc))"
    "resp_is_last r = resp_is_last (hc_response hc)" "answers m' = []" "fresh m \<le> fresh m'"
    "blocks m' - resp_owned r = blocks m - resp_owned (hc_response hc)" by blast
  let ?hc = "hc\<lparr>hc_response := r\<rparr>"
  have "resp_wf (hc_response ?hc)" "length ns * BUFSIZE < length (resp_contents (hc_response ?hc)) + BUFSIZE"
    using w(2,3) Cons.prems(3) ne by (auto simp: BUFSIZE_def)
  from Cons.IH[OF this(1) w(5) this(2), of "rcv @ take n (take BUFSIZE (resp_contents (hc_response hc)))"] w
  show ?case by (auto simp: add.commute intro: le_trans)
qed

lemma reaching_all:
  assumes "length d \<le> length ns * BUFSIZE"
  shows "length (reaching ns d) \<le> length d \<and> (reaching ns d = d \<longleftrightarrow>
    (\<forall>i < length ns. length (take BUFSIZE (drop (i * BUFSIZE) d)) \<le> ns ! i))"
  using assms
proof (induction ns d rule: reaching.induct)
  case (1 d)
  then show ?case by simp
next
  case (2 n ns d)
  let ?b = "take BUFSIZE d" and ?e = "drop BUFSIZE d"
  have "length ?e \<le> length ns * BUFSIZE" using "2.prems" by simp
  with "2.IH" have IH: "length (reaching ns ?e) \<le> length ?e" "reaching ns ?e = ?e \<longleftrightarrow>
    (\<forall>i < length ns. length (take BUFSIZE (drop (i * BUFSIZE) ?e)) \<le> ns ! i)" by auto
  have len: "length d = length ?b + length ?e" by simp
  have le: "length (reaching (n # ns) d) \<le> length d"
    using IH(1) unfolding len by simp
  have "reaching (n # ns) d = d \<longleftrightarrow> take n ?b @ reaching ns ?e = ?b @ ?e" by simp
  also have "\<dots> \<longleftrightarrow> take n ?b = ?b \<and> reaching ns ?e = ?e"
  proof
    assume h: "take n ?b @ reaching ns ?e = ?b @ ?e"
    then have "length (take n ?b) + length (reaching ns ?e) = length ?b + length ?e"
      by (metis length_append)
    then have "length (take n ?b) = length ?b" using IH(1) by simp
    then show "take n ?b = ?b \<and> reaching ns ?e = ?e" using h by (metis append_eq_append_conv)
  qed simp
  also have "take n ?b = ?b \<longleftrightarrow> length ?b \<le> n"
    by (metis length_take min.cobounded2 take_all)
  also have "length ?b \<le> n \<and> reaching ns ?e = ?e \<longleftrightarrow>
      (\<forall>i < length (n # ns). length (take BUFSIZE (drop (i * BUFSIZE) d)) \<le> (n # ns) ! i)"
    unfolding IH(2) by (simp add: All_less_Suc2 add.commute del: length_take)
  finally show ?case using le by blast
qed

end
