(* ===== verification/Http_Server.thy ===== *)
theory Http_Server
  imports Http_Connection Tcp_Server
begin

text \<open>
  The HTTP server (\<open>src/httpserver.c\<close>) and the wiring of the event loop to it: accepting a
  connection makes an HTTP connection, and finishing one hands it to the collector of the loop, which
  destroys it after the current batch of events.  The connections alive are a list; the address
  of one that is not in it is a dangling pointer, and using it is undefined.
\<close>

section \<open>State\<close>

datatype free_func = Free_http_connection

datatype accept_handler = Http_on_accept

type_synonym 'ps connection = "('ps, free_func) HTTPConnection"

record HTTPServer =
  hs_addr :: addr
  hs_tcp_server :: "accept_handler TcpServer"

record ('ps, 'x) server_world =
  sw_server :: HTTPServer
  sw_conns :: "'ps connection list"
  sw_rest :: 'x

type_synonym ('ps, 'x) server_state = "(loop_callback, free_func, ('ps, 'x) server_world) loop_state"

section \<open>Operations\<close>

definition on_request_finish :: "addr \<Rightarrow> free_func loop \<Rightarrow> mem \<Rightarrow> (free_func loop \<times> mem) option" where
  "on_request_finish http_connection el m =
     event_loop_schedule_free Free_http_connection http_connection el m"

text \<open>When no HTTP connection can be made, the TCP connection is left as it is.\<close>

definition on_accept ::
    "'ps parser_lib \<Rightarrow> string \<Rightarrow> accept_handler \<Rightarrow> http_handler TcpConnection \<Rightarrow> addr option
      \<Rightarrow> ('ps connection list, free_func, 'x) env \<Rightarrow> ('ps connection list, free_func, 'x) env option" where
  "on_accept lib banner h tcp data = (\<lambda>(conns, el, k, x, m).
     if data = None then None
     else do {
       (hc, el, k, m) \<leftarrow> http_connection_new lib banner tcp el k m;
       (case hc of
          None \<Rightarrow> Some (conns, el, k, x, m)
        | Some hc \<Rightarrow> Some (http_connection_set_finish_callback on_request_finish hc # conns, el, k, x, m))
     })"

definition http_server_new :: "mem \<Rightarrow> HTTPServer option \<times> mem" where
  "http_server_new m =
     (let (p, m) = memory_create m in
      case p of
        None \<Rightarrow> (None, m)
      | Some a \<Rightarrow>
         (let (s, m) = tcp_server_new m in
          case s of
            None \<Rightarrow> (None, memory_destroy p m)
          | Some tcp \<Rightarrow>
              (Some \<lparr>hs_addr = a, hs_tcp_server = tcp_server_set_accept_callback Http_on_accept a tcp\<rparr>, m)))"

definition http_server_destroy ::
    "HTTPServer \<Rightarrow> 'f loop \<Rightarrow> kernel \<Rightarrow> mem \<Rightarrow> ('f loop \<times> kernel \<times> mem) option" where
  "http_server_destroy server el k m = do {
     (el, k, m) \<leftarrow> tcp_server_destroy (hs_tcp_server server) el k m;
     Some (el, k, memory_destroy (Some server) m)
   }"

definition http_server_start ::
    "listen_calls \<Rightarrow> HTTPServer \<Rightarrow> string \<Rightarrow> 16 word \<Rightarrow> 'f loop \<Rightarrow> kernel \<Rightarrow> mem
      \<Rightarrow> (int \<times> HTTPServer \<times> 'f loop \<times> kernel \<times> mem) option" where
  "http_server_start sys server host port el k m = do {
     (ret, tcp, el, k, m) \<leftarrow> tcp_server_start_listen sys (hs_tcp_server server) host port el k m;
     Some (ret, server\<lparr>hs_tcp_server := tcp\<rparr>, el, k, m)
   }"

section \<open>Callbacks of the loop\<close>

definition find_connection :: "addr \<Rightarrow> 'ps connection list \<Rightarrow> 'ps connection option" where
  "find_connection tcp conns = find (\<lambda>hc. tc_addr (hc_tcp_connection hc) = tcp) conns"

definition put_connection :: "'ps connection \<Rightarrow> 'ps connection list \<Rightarrow> 'ps connection list" where
  "put_connection hc conns = map (\<lambda>c. if hc_addr c = hc_addr hc then hc else c) conns"

definition connection_event ::
    "('ps connection \<Rightarrow> ('ps, free_func, 'x) connection_state
        \<Rightarrow> (int \<times> ('ps, free_func, 'x) connection_state) option)
      \<Rightarrow> addr \<Rightarrow> ('ps, 'x) server_state \<Rightarrow> ('ps, 'x) server_state option" where
  "connection_event handler tcp s = do {
     hc \<leftarrow> find_connection tcp (sw_conns (ls_world s));
     (ret, hc, el, k, x, m) \<leftarrow> handler hc (hc, ls_eloop s, ls_kernel s, sw_rest (ls_world s), ls_mem s);
     Some (s\<lparr>ls_eloop := el, ls_kernel := k, ls_mem := m,
             ls_world := (ls_world s)\<lparr>sw_conns := put_connection hc (sw_conns (ls_world s)), sw_rest := x\<rparr>\<rparr>)
   }"

text \<open>\<open>fire\<close> is what the loop runs: the functions of the TCP layer on the connection they were
  registered with, which call those of the HTTP layer; \<open>on_signal\<close> is the signal handler's.\<close>

definition fire ::
    "('h, 'x served, 'c) HTTPRouter \<Rightarrow> 'ps parser_lib \<Rightarrow> 'x sockets \<Rightarrow> string
      \<Rightarrow> (addr \<Rightarrow> int \<Rightarrow> ('ps, 'x) server_state \<Rightarrow> ('ps, 'x) server_state option)
      \<Rightarrow> loop_callback \<Rightarrow> int \<Rightarrow> ('ps, 'x) server_state \<Rightarrow> ('ps, 'x) server_state option" where
  "fire router lib so banner on_signal cb fd s =
     (case cb of
        Connection_ready_read a \<Rightarrow>
          connection_event (\<lambda>hc. on_ready_read (http_callback router lib so) (hc_tcp_connection hc)) a s
      | Connection_ready_write a \<Rightarrow>
          connection_event (\<lambda>hc. on_ready_write (http_callback router lib so) (hc_tcp_connection hc)) a s
      | Connection_close a \<Rightarrow>
          connection_event (\<lambda>hc. on_close (http_callback router lib so) (hc_tcp_connection hc)) a s
      | Server_incoming a \<Rightarrow>
         if a \<noteq> ts_addr (hs_tcp_server (sw_server (ls_world s))) then None
         else do {
          (ret, conns, el, k, x, m) \<leftarrow>
            on_incoming_connection so (on_accept lib banner) fd (hs_tcp_server (sw_server (ls_world s)))
              (sw_conns (ls_world s), ls_eloop s, ls_kernel s, sw_rest (ls_world s), ls_mem s);
          Some (s\<lparr>ls_eloop := el, ls_kernel := k, ls_mem := m,
                  ls_world := (ls_world s)\<lparr>sw_conns := conns, sw_rest := x\<rparr>\<rparr>)
        }
      | Signal_ready a \<Rightarrow> on_signal a fd s)"

text \<open>The free function the collector runs; a connection that is not alive is freed twice.\<close>

definition free_object ::
    "free_func \<Rightarrow> addr \<Rightarrow> (loop_callback, free_func, ('ps, 'x) server_world) free_world \<Rightarrow> mem
      \<Rightarrow> (loop_callback, free_func, ('ps, 'x) server_world) free_world \<times> mem" where
  "free_object f a fw m =
     (case (do {
        (el, k, w) \<leftarrow> fw;
        hc \<leftarrow> find (\<lambda>hc. hc_addr hc = a) (sw_conns w);
        (el, k, m) \<leftarrow> http_connection_destroy hc el k m;
        Some ((el, k, w\<lparr>sw_conns := filter (\<lambda>hc. hc_addr hc \<noteq> a) (sw_conns w)\<rparr>), m)
      }) of
        None \<Rightarrow> (None, m)
      | Some (fw, m) \<Rightarrow> (Some fw, m))"

section \<open>A peer that hangs up\<close>

lemma remove_watch_kernel:
  "event_loop_remove_fd_watch fd t el k m = Some (ret, el', k', m') \<Longrightarrow> fd' \<noteq> fd \<Longrightarrow>
     k_epoll k' fd' = k_epoll k fd'"
  by (auto simp: event_loop_remove_fd_watch_def epoll_ctl_def Let_def
      split: option.splits prod.splits if_splits)

lemma close_connection_kernel:
  assumes "tcp_connection_close c el k m = Some (c', el', k', m')" "fd' \<noteq> tc_fd c"
  shows "k_epoll k' fd' = k_epoll k fd'"
  using assms
  by (auto simp: tcp_connection_close_def close_fd_def dest!: remove_watch_kernel[of _ _ _ _ _ _ _ _ _ fd']
      split: if_splits Option.bind_splits)

lemma schedule_free_list:
  "event_loop_schedule_free f d el m = Some (el', m') \<Longrightarrow> el_callbacks_list el' = el_callbacks_list el"
  by (auto simp: event_loop_schedule_free_def split: option.splits prod.splits)

text \<open>After closing, the entry the kernel knew for the descriptor is no longer in the list.\<close>

lemma closed_entry_gone:
  assumes inv: "loop_inv el k m" and fd: "0 \<le> tc_fd c" "k_open k (tc_fd c)"
    and e: "k_epoll k (tc_fd c) = Some (asked, a)"
    and cl: "tcp_connection_close c el k m = Some (c', el', k', m')"
  shows "find (\<lambda>e. ec_addr e = a) (el_callbacks_list el') = None"
proof (rule ccontr)
  assume "find (\<lambda>e. ec_addr e = a) (el_callbacks_list el') \<noteq> None"
  then obtain x where x: "x \<in> set (el_callbacks_list el')" "ec_addr x = a"
    using find_Some_in[of "\<lambda>e. ec_addr e = a" "el_callbacks_list el'"] by auto
  from close_connection[OF inv fd] cl have inv': "loop_inv el' k' m'"
    and w: "watches el' = (watches el)(tc_fd c := \<lambda>_. None)" by auto
  have "ec_fd x \<in> {fd. watches el' fd \<noteq> (\<lambda>_. None)}" using watched_fds[OF inv'] x(1) by auto
  then have other: "ec_fd x \<noteq> tc_fd c" using w by auto
  have "find_callback_by_fd el' (ec_fd x) = Some x"
    using find_key_unique[of ec_fd "el_callbacks_list el'" x] x(1) inv'
    by (simp add: loop_inv_def find_callback_by_fd_def)
  then have "k_epoll k' (ec_fd x) = Some (ec_events x, a)" using inv' x(2) by (simp add: loop_inv_def)
  then have "k_epoll k (ec_fd x) = Some (ec_events x, a)"
    using close_connection_kernel[OF cl other] by simp
  then obtain y where y: "find_callback_by_fd el (ec_fd x) = Some y" "ec_addr y = a"
    using inv by (auto simp: loop_inv_def)
  obtain z where z: "find_callback_by_fd el (tc_fd c) = Some z" "ec_addr z = a"
    using inv e by (auto simp: loop_inv_def)
  have "distinct (map ec_addr (el_callbacks_list el))" using inv by (simp add: loop_inv_def)
  then have "y = z"
    using distinct_addr_eq[of "el_callbacks_list el" y z] loop_inv_entry(1)[OF inv y(1)]
      loop_inv_entry(1)[OF inv z(1)] y(2) z(2) by simp
  then show False using loop_inv_entry(2)[OF inv y(1)] loop_inv_entry(2)[OF inv z(1)] other by simp
qed

text \<open>A connection as \<open>on_accept\<close> leaves it.\<close>

definition serving :: "'ps connection \<Rightarrow> bool" where
  "serving hc \<longleftrightarrow> 0 \<le> tc_fd (hc_tcp_connection hc) \<and>
     tc_read_callback (hc_tcp_connection hc) = Some Http_on_read \<and>
     tc_write_callback (hc_tcp_connection hc) = Some Http_on_write \<and>
     tc_close_callback (hc_tcp_connection hc) = Some Http_on_close \<and>
     tc_data (hc_tcp_connection hc) = Some (hc_addr hc) \<and>
     hc_finish_callback hc = Some on_request_finish"

lemma peer_close_entry_gone:
  assumes inv: "loop_inv (ls_eloop s) (ls_kernel s) (ls_mem s)" and hc: "serving hc"
    and conn: "find_connection a (sw_conns (ls_world s)) = Some hc"
    and opened: "k_open (ls_kernel s) (tc_fd (hc_tcp_connection hc))"
    and e: "k_epoll (ls_kernel s) (tc_fd (hc_tcp_connection hc)) = Some (asked, ea)"
    and f: "fire router lib so banner on_signal (Connection_close a) fd s = Some s'"
  shows "entry_at ea s' = None"
proof -
  let ?tcp = "hc_tcp_connection hc" and ?st = "(ls_eloop s, ls_kernel s, sw_rest (ls_world s), ls_mem s)"
  have fd: "0 \<le> tc_fd ?tcp" using hc by (simp add: serving_def)
  obtain tcp el k m where cl: "tcp_connection_close ?tcp (ls_eloop s) (ls_kernel s) (ls_mem s) = Some (tcp, el, k, m)"
    using close_connection[OF inv fd opened] by blast
  from closed_entry_gone[OF inv fd opened e cl]
  have gone: "find (\<lambda>e. ec_addr e = ea) (el_callbacks_list el) = None" .
  have "on_close (http_callback router lib so) ?tcp (hc, ?st) =
      map_option (Pair 0) (finish (hc\<lparr>hc_tcp_connection := tcp\<rparr>, el, k, sw_rest (ls_world s), m))"
    using hc cl by (simp add: on_close_def http_callback_def serving_def on_peer_close_def)
  moreover have "finish (hc\<lparr>hc_tcp_connection := tcp\<rparr>, el, k, sw_rest (ls_world s), m) =
      map_option (\<lambda>(el, m). (hc\<lparr>hc_tcp_connection := tcp\<rparr>, el, k, sw_rest (ls_world s), m))
        (event_loop_schedule_free Free_http_connection (hc_addr hc) el m)"
    using hc by (auto simp: finish_def serving_def on_request_finish_def split: Option.bind_split)
  ultimately obtain el' m' where "event_loop_schedule_free Free_http_connection (hc_addr hc) el m = Some (el', m')"
    "ls_eloop s' = el'"
    using f conn by (cases "event_loop_schedule_free Free_http_connection (hc_addr hc) el m")
      (auto simp: fire_def connection_event_def)
  with schedule_free_list gone show ?thesis unfolding entry_at_def by metis
qed

section \<open>Accepting a connection\<close>

definition new_queue :: "'ps parser_lib \<Rightarrow> addr \<Rightarrow> ('ps, addr) HTTPRequestQueue" where
  "new_queue lib a =
     \<lparr>rq_parser = hp_init lib, rq_current_header = 0, rq_requests = replicate MAX_REQUESTS None,
      rq_incoming_index = 0, rq_outgoing_index = 0, rq_buffer = None, rq_buffer_length = 0,
      rq_data = Some a\<rparr>"

definition new_response :: "string \<Rightarrow> HTTPResponse" where
  "new_response banner = \<lparr>resp_buffer = None, resp_buffer_length = 0, resp_server_name = banner,
     resp_is_last = 0\<rparr>"

definition no_callbacks :: "'h TcpConnection \<Rightarrow> bool" where
  "no_callbacks c \<longleftrightarrow> tc_read_callback c = None \<and> tc_write_callback c = None \<and> tc_close_callback c = None"

definition http_registered :: "http_handler TcpConnection \<Rightarrow> ELoopWatchFdCallbackType \<Rightarrow> loop_callback option" where
  "http_registered tcp = registered tcp (Some Http_on_read) (Some Http_on_write) (Some Http_on_close)"

lemma http_connection_new_ok:
  assumes inv: "loop_inv el k m" and fd: "0 \<le> tc_fd tcp" "k_open k (tc_fd tcp)"
    and none: "watches el (tc_fd tcp) = (\<lambda>_. None)" "no_callbacks tcp" and mem: "answers m = []"
  shows "\<exists>hc el' k' m'. http_connection_new lib banner tcp el k m = Some (Some hc, el', k', m') \<and>
     loop_inv el' k' m' \<and> watches el' = (watches el)(tc_fd tcp := http_registered tcp) \<and>
     k_open k' = k_open k \<and> answers m' = [] \<and>
     hc_tcp_connection hc = tcp\<lparr>tc_read_callback := Some Http_on_read, tc_write_callback := Some Http_on_write,
       tc_close_callback := Some Http_on_close, tc_data := Some (hc_addr hc)\<rparr> \<and>
     hc_request_queue hc = new_queue lib (hc_addr hc) \<and> hc_response hc = new_response banner \<and>
     blocks m' - int (length (el_callbacks_list el')) = blocks m + 3 - int (length (el_callbacks_list el))"
proof -
  let ?a = "fresh m"
  let ?m = "m\<lparr>fresh := fresh m + 3, blocks := 3 + blocks m\<rparr>"
  have m: "loop_inv el k ?m" "answers ?m = []"
    using loop_inv_fresh[OF inv, of ?m] mem by simp_all
  from set_callbacks_result[OF m(1) fd none(1), of "Some Http_on_read" "Some Http_on_write"
      "Some Http_on_close" "Some ?a"] m(2) none(2)
  obtain el' k' m' where s: "tcp_connection_set_callbacks tcp (Some Http_on_read) (Some Http_on_write)
      (Some Http_on_close) (Some ?a) el k ?m = Some (0, tcp\<lparr>tc_read_callback := Some Http_on_read,
        tc_write_callback := Some Http_on_write, tc_close_callback := Some Http_on_close,
        tc_data := Some ?a\<rparr>, el', k', m')"
    "k_open k' = k_open k" "loop_inv el' k' m'" "watches el' = (watches el)(tc_fd tcp := http_registered tcp)"
    "answers m' = []"
    "blocks m' - int (length (el_callbacks_list el')) = blocks ?m - int (length (el_callbacks_list el))"
    by (auto simp: no_callbacks_def http_registered_def)
  have three: "Suc (Suc (Suc (fresh m))) = fresh m + 3" by simp
  show ?thesis
    using s mem by (simp add: http_connection_new_def http_request_queue_new_def http_response_new_def
        http_request_queue_set_new_request_callback_def new_queue_def new_response_def three
        numeral_3_eq_3[symmetric])
qed

lemma loop_inv_opened:
  fixes m :: mem
  assumes "loop_inv el k m"
  shows "loop_inv el (open_fd fd k) (m\<lparr>fresh := Suc (fresh m), blocks := n\<rparr>)"
proof -
  have "fresh m \<le> fresh (m\<lparr>fresh := Suc (fresh m), blocks := n\<rparr>)" by simp
  from loop_inv_fresh[OF loop_inv_open[OF assms] this] show ?thesis .
qed

lemma accept_result:
  assumes "loop_inv (ls_eloop s) (ls_kernel s) (ls_mem s)" "answers (ls_mem s) = []"
    and "so_accept so sfd (sw_rest (ls_world s)) = (Io_done fd, x)" "0 \<le> fd"
    and "watches (ls_eloop s) fd = (\<lambda>_. None)"
    and "ts_accept_callback (hs_tcp_server (sw_server (ls_world s))) = Some Http_on_accept"
    and "ts_data (hs_tcp_server (sw_server (ls_world s))) = Some d"
  shows "\<exists>hc s'. fire router lib so banner on_signal
        (Server_incoming (ts_addr (hs_tcp_server (sw_server (ls_world s))))) sfd s = Some s' \<and>
     sw_conns (ls_world s') = hc # sw_conns (ls_world s) \<and> serving hc \<and>
     tc_fd (hc_tcp_connection hc) = fd \<and> k_open (ls_kernel s') fd \<and>
     hc_request_queue hc = new_queue lib (hc_addr hc) \<and> hc_response hc = new_response banner \<and>
     watches (ls_eloop s') = (watches (ls_eloop s))(fd := http_registered (hc_tcp_connection hc)) \<and>
     loop_inv (ls_eloop s') (ls_kernel s') (ls_mem s')"
proof -
  let ?el = "ls_eloop s" and ?k = "open_fd fd (ls_kernel s)" and ?m = "ls_mem s"
  let ?tcp = "\<lparr>tc_addr = fresh ?m, tc_fd = fd, tc_read_callback = None, tc_write_callback = None,
      tc_close_callback = None, tc_data = None\<rparr> :: http_handler TcpConnection"
  let ?m1 = "?m\<lparr>fresh := Suc (fresh ?m), blocks := blocks ?m + 1\<rparr>"
  have tcp: "tcp_connection_with_fd fd ?m = Some (Some ?tcp, ?m1)"
    using assms(2,4) by (simp add: tcp_connection_with_fd_def)
  have pre: "loop_inv ?el ?k ?m1" "0 \<le> tc_fd ?tcp" "k_open ?k (tc_fd ?tcp)"
    "watches ?el (tc_fd ?tcp) = (\<lambda>_. None)" "no_callbacks ?tcp" "answers ?m1 = []"
    using loop_inv_opened[OF assms(1)] assms(2,4,5) by (simp_all add: open_fd_def no_callbacks_def)
  from http_connection_new_ok[OF pre, of lib banner] obtain hc el' k' m' where new:
    "http_connection_new lib banner ?tcp ?el ?k ?m1 = Some (Some hc, el', k', m')" "loop_inv el' k' m'"
    "watches el' = (watches ?el)(fd := http_registered ?tcp)" "k_open k' = k_open ?k"
    "hc_tcp_connection hc = ?tcp\<lparr>tc_read_callback := Some Http_on_read, tc_write_callback := Some Http_on_write,
       tc_close_callback := Some Http_on_close, tc_data := Some (hc_addr hc)\<rparr>"
    "hc_request_queue hc = new_queue lib (hc_addr hc)" "hc_response hc = new_response banner"
    by auto
  let ?hc = "http_connection_set_finish_callback on_request_finish hc"
  have "http_registered ?tcp = http_registered (hc_tcp_connection ?hc)"
    using new(5) by (simp add: http_registered_def registered_def fun_eq_iff
        http_connection_set_finish_callback_def split: ELoopWatchFdCallbackType.split)
  moreover have "serving ?hc" using new(5) assms(4)
    by (simp add: serving_def http_connection_set_finish_callback_def)
  moreover have "k_open k' fd" using new(4) by (simp add: open_fd_def)
  moreover have "tc_fd (hc_tcp_connection ?hc) = fd" "hc_request_queue ?hc = new_queue lib (hc_addr ?hc)"
    "hc_response ?hc = new_response banner"
    using new(5-7) by (simp_all add: http_connection_set_finish_callback_def)
  ultimately show ?thesis
    using assms(3,6,7) tcp new(1-3)
    by (auto simp: fire_def on_incoming_connection_def on_accept_def intro!: exI[of _ ?hc])
qed

definition one_client :: "nat sockets" where
  "one_client =
     \<lparr>so_recv = (\<lambda>fd n x. (Io_failed EAGAIN, x)), so_send = (\<lambda>fd data x. (Io_failed EAGAIN, x)),
      so_sendfile = (\<lambda>fd file n x. (Io_failed EAGAIN, x)),
      so_accept = (\<lambda>fd x. if x = 0 then (Io_done 9, 1) else (Io_failed EAGAIN, x))\<rparr>"

definition listening :: "(unit, nat) server_state" where
  "listening =
     \<lparr>ls_eloop = \<lparr>el_epollfd = 3, el_collector = Some \<lparr>collect_entries_list = []\<rparr>,
        el_callbacks_list = [], el_running = True\<rparr>,
      ls_kernel = all_open\<lparr>k_open := (\<lambda>fd. fd = 4)\<rparr>,
      ls_world = \<lparr>sw_server = \<lparr>hs_addr = 1, hs_tcp_server = \<lparr>ts_addr = 2, ts_listen_fd = 4,
          ts_accept_callback = Some Http_on_accept, ts_data = Some 1\<rparr>\<rparr>,
        sw_conns = [], sw_rest = 0\<rparr>,
      ls_mem = mem0\<lparr>fresh := 5\<rparr>\<rparr>"

lemma listening_simps:
  "loop_inv (ls_eloop listening) (ls_kernel listening) (ls_mem listening)"
  "answers (ls_mem listening) = []" "watches (ls_eloop listening) = (\<lambda>_ _. None)"
  "so_accept one_client 4 (sw_rest (ls_world listening)) = (Io_done 9, 1)"
  "ts_accept_callback (hs_tcp_server (sw_server (ls_world listening))) = Some Http_on_accept"
  "ts_data (hs_tcp_server (sw_server (ls_world listening))) = Some 1"
  "ts_addr (hs_tcp_server (sw_server (ls_world listening))) = 2" "sw_conns (ls_world listening) = []"
  by (simp_all add: listening_def one_client_def loop_inv_def find_callback_by_fd_def all_open_def
      watches_def fun_eq_iff)

definition null_router :: "(unit, nat served, unit) HTTPRouter" where
  "null_router = \<lparr>rt_packs = [[]], rt_last = 0,
     rt_null = \<lparr>cont_plugin = None, cont_handle = (), cont_name = ''default'', cont_serve = null_serve,
       cont_destroy = null_destroy, cont_init = null_init\<rparr>,
     rt_starter = None, rt_match_mode = ROUTE_MATCH_FIRST\<rparr>"

definition silent_parser :: "unit parser_lib" where
  "silent_parser = \<lparr>hp_init = (), hp_execute = (\<lambda>ps data. ([], length data, ())),
     hp_stopped = (\<lambda>ps data k. ()), hp_parse_url = (\<lambda>u. None)\<rparr>"

lemma http_registered_simps [simp]:
  "http_registered tcp ELOOP_CALLBACK_CLOSE = Some (Connection_close (tc_addr tcp))"
  "interest (http_registered tcp) = Some (EPOLLIN OR EPOLLOUT OR EPOLLRDHUP)"
  by (simp_all add: http_registered_def registered_def wanted_def interest_def bits_of_def
      EPOLLIN_def EPOLLOUT_def EPOLLRDHUP_def)

text \<open>
  C37: A connection that is being served is watched for its peer closing; when the kernel reports that together
  with readable or writable bytes - what it does when a peer sends its last bytes and closes - the loop calls
  the close callback, which frees the entry the event points to, and then reads it again: undefined
  behaviour, whatever the parser, the containers and the rest of the program do.
\<close>

theorem hangup_with_data_undefined:
  assumes "loop_inv (ls_eloop s) (ls_kernel s) (ls_mem s)" "serving hc"
    and "find_connection a (sw_conns (ls_world s)) = Some hc"
    and "k_open (ls_kernel s) (tc_fd (hc_tcp_connection hc))"
    and "k_epoll (ls_kernel s) (tc_fd (hc_tcp_connection hc)) = Some (asked, ea)"
    and "watches (ls_eloop s) (tc_fd (hc_tcp_connection hc)) ELOOP_CALLBACK_CLOSE = Some (Connection_close a)"
    and "ev AND EPOLLRDHUP \<noteq> 0" "ev AND EPOLLIN \<noteq> 0 \<or> ev AND EPOLLOUT \<noteq> 0"
  shows "dispatch_event (fire router lib so banner on_signal) (ea, ev) s = None"
proof -
  let ?fire = "fire router lib so banner on_signal"
  obtain e where e: "entry_at ea s = Some e" "ec_fd e = tc_fd (hc_tcp_connection hc)"
    "ec_callbacks e = watches (ls_eloop s) (tc_fd (hc_tcp_connection hc))"
    using loop_inv_entry_at[OF assms(1,5)] by blast
  have close: "dispatch_kind ?fire ELOOP_CALLBACK_CLOSE (ea, ev) s = ?fire (Connection_close a) (ec_fd e) s"
    using e assms(6,7) by (simp add: dispatch_kind_def eloop_callback_type_to_epoll_event_def)
  show ?thesis
  proof (cases "?fire (Connection_close a) (ec_fd e) s")
    case None
    with close show ?thesis by (simp add: dispatch_event_def)
  next
    case (Some s')
    have "entry_at ea s' = None" by (rule peer_close_entry_gone[OF assms(1-5) Some])
    with close Some assms(8) show ?thesis
      by (auto simp: dispatch_event_def dispatch_kind_def eloop_callback_type_to_epoll_event_def
          split: Option.bind_split)
  qed
qed

theorem hangup_with_data_undefined_witness:
  "\<exists>s ea. fire null_router silent_parser one_client ''RApp'' (\<lambda>a fd s. None) (Server_incoming 2) 4 listening = Some s \<and>
     k_epoll (ls_kernel s) 9 = Some (EPOLLIN OR EPOLLOUT OR EPOLLRDHUP, ea) \<and>
     dispatch_event (fire null_router silent_parser one_client ''RApp'' (\<lambda>a fd s. None)) (ea, EPOLLIN OR EPOLLRDHUP) s = None"
proof -
  from accept_result[OF listening_simps(1,2,4) _ _ listening_simps(5,6), of null_router silent_parser
      "''RApp''" "\<lambda>a fd s. None"]
  obtain hc s where s: "fire null_router silent_parser one_client ''RApp'' (\<lambda>a fd s. None) (Server_incoming 2) 4 listening = Some s"
    "sw_conns (ls_world s) = [hc]" "serving hc" "tc_fd (hc_tcp_connection hc) = 9" "k_open (ls_kernel s) 9"
    "watches (ls_eloop s) 9 = http_registered (hc_tcp_connection hc)"
    "loop_inv (ls_eloop s) (ls_kernel s) (ls_mem s)"
    by (auto simp: listening_simps)
  obtain ea where ea: "k_epoll (ls_kernel s) 9 = Some (EPOLLIN OR EPOLLOUT OR EPOLLRDHUP, ea)"
    using interest_list[OF s(7), of 9] s(6) by auto
  have "dispatch_event (fire null_router silent_parser one_client ''RApp'' (\<lambda>a fd s. None))
      (ea, EPOLLIN OR EPOLLRDHUP) s = None"
    by (rule hangup_with_data_undefined[OF s(7,3), where a = "tc_addr (hc_tcp_connection hc)"
          and asked = "EPOLLIN OR EPOLLOUT OR EPOLLRDHUP"])
      (use s ea in \<open>simp_all add: find_connection_def EPOLLIN_def EPOLLRDHUP_def\<close>)
  with s(1) ea show ?thesis by blast
qed

section \<open>A response that is the last\<close>

lemma finish_schedules:
  assumes "el_collector el = Some c" "answers m = []"
  shows "\<exists>c' m'. on_request_finish a el m = Some (el\<lparr>el_collector := Some c'\<rparr>, m') \<and>
    collector_pending c' = (if a \<in> set (collector_pending c) then collector_pending c else a # collector_pending c) \<and>
    answers m' = []"
proof -
  obtain r c' m' where r: "collector_schedule_free Free_http_connection a c m = (r, c', m')"
    by (cases "collector_schedule_free Free_http_connection a c m")
  from schedule_free_ok[OF assms(2) r] schedule_free_pending[OF r] show ?thesis
    using assms(1) r by (auto simp: on_request_finish_def event_loop_schedule_free_def)
qed

lemma close_connection_collector:
  "tcp_connection_close c el k m = Some (c', el', k', m') \<Longrightarrow> el_collector el' = el_collector el"
  by (auto simp: tcp_connection_close_def dest!: remove_watch_collector
      split: if_splits Option.bind_splits)

lemma peer_close_result:
  assumes hc: "serving hc" and inv: "loop_inv el k m" "k_open k (tc_fd (hc_tcp_connection hc))"
    and c: "el_collector el = Some c" "answers m = []"
  shows "\<exists>hc' el' k' m' c'. on_peer_close (hc, el, k, x, m) = Some (hc', el', k', x, m') \<and>
    tc_fd (hc_tcp_connection hc') = -1 \<and> \<not> k_open k' (tc_fd (hc_tcp_connection hc)) \<and>
    watches el' = (watches el)(tc_fd (hc_tcp_connection hc) := \<lambda>_. None) \<and> el_collector el' = Some c' \<and>
    collector_pending c' = (if hc_addr hc \<in> set (collector_pending c) then collector_pending c
                            else hc_addr hc # collector_pending c)"
proof -
  let ?tcp = "hc_tcp_connection hc"
  have fd: "0 \<le> tc_fd ?tcp" using hc by (simp add: serving_def)
  from close_connection[OF inv(1) fd inv(2)] obtain el1 k1 m1 where cl:
    "tcp_connection_close ?tcp el k m = Some (?tcp\<lparr>tc_fd := -1\<rparr>, el1, k1, m1)"
    "watches el1 = (watches el)(tc_fd ?tcp := \<lambda>_. None)" "k_open k1 = (k_open k)(tc_fd ?tcp := False)"
    "answers m1 = answers m" by blast
  have c1: "el_collector el1 = Some c" using close_connection_collector[OF cl(1)] c(1) by simp
  from finish_schedules[OF c1, of m1 "hc_addr hc"] cl(4) c(2) obtain c' m' where f:
    "on_request_finish (hc_addr hc) el1 m1 = Some (el1\<lparr>el_collector := Some c'\<rparr>, m')"
    "collector_pending c' = (if hc_addr hc \<in> set (collector_pending c) then collector_pending c
                             else hc_addr hc # collector_pending c)" by auto
  have w: "watches (el1\<lparr>el_collector := Some c'\<rparr>) = watches el1"
    by (simp add: watches_def find_callback_by_fd_def fun_eq_iff)
  have r: "on_peer_close (hc, el, k, x, m) =
      Some (hc\<lparr>hc_tcp_connection := ?tcp\<lparr>tc_fd := -1\<rparr>\<rparr>, el1\<lparr>el_collector := Some c'\<rparr>, k1, x, m')"
    using hc cl(1) f(1) by (simp add: on_peer_close_def finish_def serving_def)
  show ?thesis
    by (intro exI conjI, rule r) (use cl(2,3) f(2) w in simp_all)
qed

lemma last_response_written:
  assumes "serving hc" "resp_wf (hc_response hc)" "resp_is_last (hc_response hc) \<noteq> 0"
    and "loop_inv el k m" "answers m = []" "el_collector el = Some c" "k_open k (tc_fd (hc_tcp_connection hc))"
    and "resp_contents (hc_response hc) = d"
    and "length d \<le> length ns * BUFSIZE" "length ns * BUFSIZE < length d + BUFSIZE"
  shows "\<exists>hc' el' k' m' c'. run_opt (\<lambda>_. on_write counting_sockets) (ns @ [0]) (hc, el, k, ([], ns), m) =
        Some (hc', el', k', (reaching ns d, []), m') \<and>
     (reaching ns d = d \<longleftrightarrow> (\<forall>i < length ns. length (take BUFSIZE (drop (i * BUFSIZE) d)) \<le> ns ! i)) \<and>
     tc_fd (hc_tcp_connection hc') = -1 \<and> \<not> k_open k' (tc_fd (hc_tcp_connection hc)) \<and>
     watches el' = (watches el)(tc_fd (hc_tcp_connection hc) := \<lambda>_. None) \<and> el_collector el' = Some c' \<and>
     collector_pending c' = (if hc_addr hc \<in> set (collector_pending c) then collector_pending c
                             else hc_addr hc # collector_pending c)"
proof -
  from writes_until_empty[OF assms(2,5), of ns el k "[]" "[]"] assms(8,10) obtain r m1 where w:
    "run_opt (\<lambda>_. on_write counting_sockets) ns (hc, el, k, ([], ns), m) =
      Some (hc\<lparr>hc_response := r\<rparr>, el, k, (reaching ns d, []), m1)"
    "resp_wf r" "resp_contents r = []" "resp_is_last r \<noteq> 0" "answers m1 = []" "fresh m \<le> fresh m1"
    using assms(3,9) by auto
  let ?hc = "hc\<lparr>hc_response := r\<rparr>"
  have hc: "serving ?hc" "resp_wf (hc_response ?hc)" "resp_contents (hc_response ?hc) = []"
    "resp_is_last (hc_response ?hc) \<noteq> 0" "k_open k (tc_fd (hc_tcp_connection ?hc))"
    using assms(1,7) w(2-4) by (simp_all add: serving_def)
  have "loop_inv el k m1" by (rule loop_inv_fresh[OF assms(4) w(6)])
  from peer_close_result[OF hc(1) this hc(5) assms(6) w(5), of "(reaching ns d, [])"]
  have "\<exists>hc' el' k' m' c'. on_peer_close (?hc, el, k, (reaching ns d, [] :: nat list), m1) =
      Some (hc', el', k', (reaching ns d, []), m') \<and>
    tc_fd (hc_tcp_connection hc') = -1 \<and> \<not> k_open k' (tc_fd (hc_tcp_connection hc)) \<and>
    watches el' = (watches el)(tc_fd (hc_tcp_connection hc) := \<lambda>_. None) \<and> el_collector el' = Some c' \<and>
    collector_pending c' = (if hc_addr hc \<in> set (collector_pending c) then collector_pending c
                            else hc_addr hc # collector_pending c)"
    by (simp cong: if_cong)
  then obtain hc' el' k' m' c' where p: "on_peer_close (?hc, el, k, (reaching ns d, [] :: nat list), m1) =
      Some (hc', el', k', (reaching ns d, []), m')"
    "tc_fd (hc_tcp_connection hc') = -1" "\<not> k_open k' (tc_fd (hc_tcp_connection hc))"
    "watches el' = (watches el)(tc_fd (hc_tcp_connection hc) := \<lambda>_. None)" "el_collector el' = Some c'"
    "collector_pending c' = (if hc_addr hc \<in> set (collector_pending c) then collector_pending c
                             else hc_addr hc # collector_pending c)" by blast
  have "run_opt (\<lambda>_. on_write counting_sockets) (ns @ [0]) (hc, el, k, ([], ns), m) =
      Some (hc', el', k', (reaching ns d, []), m')"
    using w(1) p(1) on_write_last[OF hc(2) w(5) hc(3,4), of counting_sockets el k "(reaching ns d, [])"]
    by (simp add: run_opt_append)
  with p(2-6) conjunct2[OF reaching_all[OF assms(9)]] show ?thesis by blast
qed

text \<open>
  C14: A response marked as the last, of any length, is written back by as many calls of \<open>on_write\<close> as it has
  started buffers of \<open>BUFSIZE\<close> bytes; one more call closes the connection, takes it out of the loop
  and schedules it to be freed exactly once.  What the peer has then received is the whole response exactly
  when every \<open>send\<close> took all it was offered; bytes a \<open>send\<close> did not take are never sent again.
\<close>

theorem response_reaches_peer:
  assumes "serving hc" "resp_wf (hc_response hc)" "resp_is_last (hc_response hc) \<noteq> 0"
    and "loop_inv el k m" "answers m = []" "el_collector el = Some c" "k_open k (tc_fd (hc_tcp_connection hc))"
    and "resp_contents (hc_response hc) = d"
    and "length d \<le> length ns * BUFSIZE" "length ns * BUFSIZE < length d + BUFSIZE"
  shows "\<exists>hc' el' k' m' c'. run_opt (\<lambda>_. on_write counting_sockets) (ns @ [0]) (hc, el, k, ([], ns), m) =
        Some (hc', el', k', (reaching ns d, []), m') \<and>
     (reaching ns d = d \<longleftrightarrow> (\<forall>i < length ns. length (take BUFSIZE (drop (i * BUFSIZE) d)) \<le> ns ! i)) \<and>
     tc_fd (hc_tcp_connection hc') = -1 \<and> \<not> k_open k' (tc_fd (hc_tcp_connection hc)) \<and>
     watches el' = (watches el)(tc_fd (hc_tcp_connection hc) := \<lambda>_. None) \<and> el_collector el' = Some c' \<and>
     collector_pending c' = (if hc_addr hc \<in> set (collector_pending c) then collector_pending c
                             else hc_addr hc # collector_pending c)"
  by (rule last_response_written[OF assms])

definition answering :: "unit connection" where
  "answering = \<lparr>hc_addr = 7,
     hc_tcp_connection = \<lparr>tc_addr = 6, tc_fd = 9, tc_read_callback = Some Http_on_read,
       tc_write_callback = Some Http_on_write, tc_close_callback = Some Http_on_close, tc_data = Some 7\<rparr>,
     hc_finish_callback = Some on_request_finish, hc_request_queue = new_queue silent_parser 7,
     hc_response = \<lparr>resp_buffer = Some ''HTTP/1.1 200 OK'', resp_buffer_length = 15,
       resp_server_name = ''RApp'', resp_is_last = 1\<rparr>\<rparr>"

lemma answering_simps:
  "serving answering" "resp_wf (hc_response answering)" "resp_is_last (hc_response answering) \<noteq> 0"
  "resp_contents (hc_response answering) = ''HTTP/1.1 200 OK''"
  "hc_addr answering = 7" "tc_fd (hc_tcp_connection answering) = 9"
  by (simp_all add: answering_def serving_def resp_wf_def resp_contents_def)

definition idle_loop :: "free_func loop" where
  "idle_loop = \<lparr>el_epollfd = 3, el_collector = Some \<lparr>collect_entries_list = []\<rparr>,
     el_callbacks_list = [], el_running = True\<rparr>"

theorem response_reaches_peer_witness:
  "\<exists>hc' el' k' m' c'. run_opt (\<lambda>_. on_write counting_sockets) ([5] @ [0 :: nat]) (answering, idle_loop, all_open, ([], [5]), mem0) =
        Some (hc', el', k', (''HTTP/'', []), m') \<and>
     tc_fd (hc_tcp_connection hc') = -1 \<and> el_collector el' = Some c' \<and> collector_pending c' = [7]"
proof -
  have "loop_inv idle_loop all_open mem0"
    by (simp add: loop_inv_def idle_loop_def find_callback_by_fd_def all_open_def)
  moreover have "el_collector idle_loop = Some \<lparr>collect_entries_list = []\<rparr>" by (simp add: idle_loop_def)
  moreover have "reaching [5] ''HTTP/1.1 200 OK'' = ''HTTP/''" by (simp add: BUFSIZE_def)
  ultimately obtain hc' el' k' m' c' where
    "run_opt (\<lambda>_. on_write counting_sockets) ([5] @ [0 :: nat]) (answering, idle_loop, all_open, ([], [5]), mem0) =
        Some (hc', el', k', (''HTTP/'', []), m')"
    "tc_fd (hc_tcp_connection hc') = -1" "el_collector el' = Some c'" "collector_pending c' = [7]"
    using response_reaches_peer[OF answering_simps(1-3), of idle_loop all_open mem0
        "\<lparr>collect_entries_list = []\<rparr>" "''HTTP/1.1 200 OK''" "[5]"]
    by (auto simp: answering_simps all_open_def BUFSIZE_def collector_pending_def simp del: run_opt.simps)
  then show ?thesis by blast
qed

end
