(* ===== verification/Signal_Handler.thy ===== *)
theory Signal_Handler
  imports Tcp_Connection
begin

text \<open>
  The signal handler (\<open>src/signalhandler.c\<close>): a signalfd watched by the event loop, the set of
  signals it takes, and for each signal the callback to run and its data.  The process keeps a set of blocked signals
  and the kernel the set the signalfd reports; what the system calls return is a parameter.
  A callback is a value of type \<open>'s\<close>.
\<close>

section \<open>State\<close>

definition NSIG :: nat where "NSIG = 65"

record 's SignalHandler =
  sh_addr :: addr
  sh_fd :: int
  sh_sigmask :: "nat set"
  sh_callbacks :: "'s option list"
  sh_data :: "addr option list"

record signal_state =
  sg_blocked :: "nat set"
  sg_reported :: "nat set"

text \<open>
  The kernel never blocks \<open>SIGKILL\<close> and \<open>SIGSTOP\<close>; signal 0 does not exist, and the C library keeps the first two
  real-time signals for itself: its set operations refuse them.
\<close>

definition unblockable :: "nat set" where "unblockable = {9, 19}"

definition reserved_signals :: "nat set" where "reserved_signals = {32, 33}"

definition sigaddset :: "nat \<Rightarrow> nat set \<Rightarrow> nat set" where
  "sigaddset sig sigs = (if sig = 0 \<or> sig \<in> reserved_signals then sigs else insert sig sigs)"

definition sigdelset :: "nat \<Rightarrow> nat set \<Rightarrow> nat set" where
  "sigdelset sig sigs = (if sig = 0 \<or> sig \<in> reserved_signals then sigs else sigs - {sig})"

section \<open>Operations\<close>

text \<open>\<open>fd\<close> is what \<open>signalfd\<close> returns.\<close>

definition signal_handler_new ::
    "int \<Rightarrow> 'f loop \<Rightarrow> kernel \<Rightarrow> mem \<Rightarrow> ('s SignalHandler option \<times> 'f loop \<times> kernel \<times> mem) option" where
  "signal_handler_new fd el k m =
     (let (p, m) = memory_create m in
      case p of
        None \<Rightarrow> Some (None, el, k, m)
      | Some a \<Rightarrow>
          if fd < 0 then Some (None, el, k, memory_destroy p m)
          else
            (let k = k\<lparr>k_open := (k_open k)(fd := True)\<rparr> in do {
               (ret, el, k, m) \<leftarrow> event_loop_add_fd_watch fd ELOOP_CALLBACK_READ (Signal_ready a) el k m;
               if ret < 0 then Some (None, el, close_fd fd k, memory_destroy p m)
               else Some (Some \<lparr>sh_addr = a, sh_fd = fd, sh_sigmask = {},
                                sh_callbacks = replicate NSIG None, sh_data = replicate NSIG None\<rparr>, el, k, m)
             }))"

text \<open>Descriptor 0 is not closed.\<close>

definition signal_handler_destroy ::
    "'s SignalHandler \<Rightarrow> 'f loop \<Rightarrow> kernel \<Rightarrow> mem \<Rightarrow> ('f loop \<times> kernel \<times> mem) option" where
  "signal_handler_destroy sh el k m = do {
     (el, k, m) \<leftarrow> (if 0 < sh_fd sh then do {
          (_, el, k, m) \<leftarrow> event_loop_remove_fd_watch (sh_fd sh) ELOOP_CALLBACK_READ el k m;
          Some (el, close_fd (sh_fd sh) k, m)
        } else Some (el, k, m));
     Some (el, k, memory_destroy (Some sh) m)
   }"

definition signal_handler_setup ::
    "int \<times> int \<Rightarrow> nat \<Rightarrow> 's option \<Rightarrow> addr option \<Rightarrow> 's SignalHandler \<Rightarrow> signal_state
      \<Rightarrow> int \<times> 's SignalHandler \<times> signal_state" where
  "signal_handler_setup calls sig callback data sh sg =
     (let (procmask, sigfd) = calls in
      if procmask \<noteq> 0 then (-1, sh, sg)
      else
        (let sg = sg\<lparr>sg_blocked := sh_sigmask sh - unblockable\<rparr> in
         if sigfd < 0 then (-1, sh, sg)
         else (0, sh\<lparr>sh_callbacks := (sh_callbacks sh)[sig := callback], sh_data := (sh_data sh)[sig := data]\<rparr>,
               sg\<lparr>sg_reported := sh_sigmask sh - unblockable\<rparr>)))"

definition signal_handler_add_signal_callback ::
    "int \<times> int \<Rightarrow> nat \<Rightarrow> 's \<Rightarrow> addr option \<Rightarrow> 's SignalHandler \<Rightarrow> signal_state
      \<Rightarrow> (int \<times> 's SignalHandler \<times> signal_state) option" where
  "signal_handler_add_signal_callback calls sig callback data sh sg =
     (if sig < NSIG then
        Some (signal_handler_setup calls sig (Some callback) data
          (sh\<lparr>sh_sigmask := sigaddset sig (sh_sigmask sh)\<rparr>) sg)
      else None)"

definition signal_handler_remove_signal_callback ::
    "int \<times> int \<Rightarrow> nat \<Rightarrow> 's SignalHandler \<Rightarrow> signal_state \<Rightarrow> (int \<times> 's SignalHandler \<times> signal_state) option" where
  "signal_handler_remove_signal_callback calls sig sh sg =
     (if sig < NSIG then
        Some (signal_handler_setup calls sig None None (sh\<lparr>sh_sigmask := sigdelset sig (sh_sigmask sh)\<rparr>) sg)
      else None)"

text \<open>The read gives the number of a signal, or fails; \<open>call\<close> runs a callback on its data.\<close>

definition on_signal_ready ::
    "nat option \<Rightarrow> ('s \<Rightarrow> addr option \<Rightarrow> 'w \<Rightarrow> 'w option) \<Rightarrow> 's SignalHandler \<Rightarrow> 'w \<Rightarrow> (int \<times> 'w) option" where
  "on_signal_ready got call sh w =
     (case got of
        None \<Rightarrow> Some (-1, w)
      | Some sig \<Rightarrow>
          if length (sh_callbacks sh) \<le> sig then None
          else (case sh_callbacks sh ! sig of
              None \<Rightarrow> Some (0, w)
            | Some callback \<Rightarrow> map_option (Pair 0) (call callback (sh_data sh ! sig) w)))"

section \<open>The table of callbacks\<close>

text \<open>What the handler stands for: for each signal the callback and its data.\<close>

type_synonym 's signal_table = "nat \<Rightarrow> ('s \<times> addr option) option"

definition signal_table :: "'s SignalHandler \<Rightarrow> 's signal_table" where
  "signal_table sh sig =
     (if sig < NSIG then map_option (\<lambda>cb. (cb, sh_data sh ! sig)) (sh_callbacks sh ! sig) else None)"

datatype 's signal_op = Add_signal nat 's "addr option" | Remove_signal nat

fun signal_step ::
    "(int \<times> int) \<times> 's signal_op \<Rightarrow> 's SignalHandler \<times> signal_state \<Rightarrow> ('s SignalHandler \<times> signal_state) option" where
  "signal_step (calls, Add_signal sig cb d) (sh, sg) =
     map_option snd (signal_handler_add_signal_callback calls sig cb d sh sg)"
| "signal_step (calls, Remove_signal sig) (sh, sg) =
     map_option snd (signal_handler_remove_signal_callback calls sig sh sg)"

fun table_update :: "(int \<times> int) \<times> 's signal_op \<Rightarrow> 's signal_table \<Rightarrow> 's signal_table" where
  "table_update (calls, Add_signal sig cb d) tab = tab(sig := Some (cb, d))"
| "table_update (calls, Remove_signal sig) tab = tab(sig := None)"

text \<open>A real signal, and system calls that succeed.\<close>

fun signal_ok :: "(int \<times> int) \<times> 's signal_op \<Rightarrow> bool" where
  "signal_ok ((procmask, sigfd), Add_signal sig cb d) \<longleftrightarrow> procmask = 0 \<and> 0 \<le> sigfd \<and> 0 < sig \<and> sig < NSIG"
| "signal_ok ((procmask, sigfd), Remove_signal sig) \<longleftrightarrow> procmask = 0 \<and> 0 \<le> sigfd \<and> 0 < sig \<and> sig < NSIG"

definition handler_inv :: "'s SignalHandler \<times> signal_state \<Rightarrow> bool" where
  "handler_inv s \<longleftrightarrow> length (sh_callbacks (fst s)) = NSIG \<and> length (sh_data (fst s)) = NSIG \<and>
     sh_sigmask (fst s) = {sig. signal_table (fst s) sig \<noteq> None} - reserved_signals"

definition masks_set :: "'s SignalHandler \<times> signal_state \<Rightarrow> bool" where
  "masks_set s \<longleftrightarrow> sg_blocked (snd s) = sh_sigmask (fst s) - unblockable \<and>
     sg_reported (snd s) = sh_sigmask (fst s) - unblockable"

lemma setup_table:
  assumes "length (sh_callbacks sh) = NSIG" "length (sh_data sh) = NSIG" "sig < NSIG"
  shows "signal_table (sh\<lparr>sh_sigmask := sigs, sh_callbacks := (sh_callbacks sh)[sig := cb],
      sh_data := (sh_data sh)[sig := d]\<rparr>) = (signal_table sh)(sig := map_option (\<lambda>cb. (cb, d)) cb)"
  using assms by (auto simp: signal_table_def fun_eq_iff nth_list_update)

lemma signal_step_result:
  assumes inv: "handler_inv s" and ok: "signal_ok e"
  shows "\<exists>t. signal_step e s = Some t \<and> (handler_inv t \<and> masks_set t) \<and>
    signal_table (fst t) = table_update e (signal_table (fst s))"
proof -
  obtain sh sg where s: "s = (sh, sg)" by (cases s)
  obtain a b sop where e: "e = ((a, b), sop)" by (metis surj_pair)
  have len: "length (sh_callbacks sh) = NSIG" "length (sh_data sh) = NSIG"
    and sigs: "sh_sigmask sh = {sig. signal_table sh sig \<noteq> None} - reserved_signals"
    using inv by (simp_all add: s handler_inv_def)
  show ?thesis
  proof (cases sop)
    case (Add_signal sig cb d)
    then have c: "a = 0" "0 \<le> b" "0 < sig" "sig < NSIG" using ok by (simp_all add: e)
    show ?thesis
      using setup_table[OF len c(4), where sigs = "sigaddset sig (sh_sigmask sh)" and cb = "Some cb" and d = d] c len sigs
      by (auto simp: e s Add_signal signal_handler_add_signal_callback_def signal_handler_setup_def
          sigaddset_def handler_inv_def masks_set_def)
  next
    case (Remove_signal sig)
    then have c: "a = 0" "0 \<le> b" "0 < sig" "sig < NSIG" using ok by (simp_all add: e)
    show ?thesis
      using setup_table[OF len c(4), where sigs = "sigdelset sig (sh_sigmask sh)" and cb = None and d = None] c len sigs
      by (auto simp: e s Remove_signal signal_handler_remove_signal_callback_def signal_handler_setup_def
          sigdelset_def handler_inv_def masks_set_def)
  qed
qed

lemma signal_step_keeps:
  "handler_inv s \<Longrightarrow> signal_ok e \<Longrightarrow> signal_step e s = Some t \<Longrightarrow>
     handler_inv t \<and> masks_set t \<and> signal_table (fst t) = table_update e (signal_table (fst s))"
  using signal_step_result[of s e] by auto

interpretation signals:
  simulation signal_step "\<lambda>s. handler_inv s \<and> masks_set s" signal_ok table_update
    "\<lambda>s. signal_table (fst s)"
  by unfold_locales (rule signal_step_result, simp_all)

lemma signal_run_result:
  assumes "handler_inv s" "list_all signal_ok es" "es \<noteq> []"
  shows "\<exists>t. run_opt signal_step es s = Some t \<and> (handler_inv t \<and> masks_set t) \<and>
    signal_table (fst t) = fold table_update es (signal_table (fst s))"
proof -
  obtain e es' where es: "es = e # es'" using assms(3) by (cases es) auto
  obtain u where u: "signal_step e s = Some u" "handler_inv u \<and> masks_set u"
    "signal_table (fst u) = table_update e (signal_table (fst s))"
    using signal_step_result[OF assms(1), of e] assms(2) unfolding es list.pred_inject(2) by blast
  from signals.run_sim[OF u(2)] assms(2) es u(1,3) show ?thesis by auto
qed

lemma on_signal_ready_table:
  assumes "handler_inv (sh, sg)" "sig < NSIG"
  shows "on_signal_ready (Some sig) call sh w =
    (case signal_table sh sig of None \<Rightarrow> Some (0, w) | Some (cb, d) \<Rightarrow> map_option (Pair 0) (call cb d w))"
  using assms by (simp add: on_signal_ready_def handler_inv_def signal_table_def split: option.split)

lemma signal_handler_new_inv:
  assumes "signal_handler_new fd el k m = Some (Some sh, el', k', m')"
  shows "handler_inv (sh, sg) \<and> signal_table sh = (\<lambda>_. None)"
  using assms by (auto simp: signal_handler_new_def handler_inv_def signal_table_def fun_eq_iff Let_def
      split: option.splits prod.splits if_splits Option.bind_splits)

text \<open>
  C19: From a new handler, after any sequence of adding and removing callbacks for real signals with
  system calls that succeed, exactly the signals that have a callback are blocked in the
  process and reported by the signalfd (whatever was blocked before) - but for those that nobody can
  block and the two the C library keeps for itself -, and a signal that is read runs the
  callback last added for it on its data, and nothing once it was removed.
\<close>

theorem signals_follow_table:
  assumes "signal_handler_new fd el k m = Some (Some sh, el', k', m')"
    and "list_all signal_ok ops" "ops \<noteq> []"
  shows "\<exists>sh' sg' tab. run_opt signal_step ops (sh, sg) = Some (sh', sg') \<and>
     tab = fold table_update ops (\<lambda>_. None) \<and>
     sg_blocked sg' = {sig. tab sig \<noteq> None} - reserved_signals - unblockable \<and> sg_reported sg' = sg_blocked sg' \<and>
     (\<forall>sig < NSIG. on_signal_ready (Some sig) call sh' w =
        (case tab sig of None \<Rightarrow> Some (0, w) | Some (cb, d) \<Rightarrow> map_option (Pair 0) (call cb d w)))"
proof -
  have new: "handler_inv (sh, sg)" "signal_table sh = (\<lambda>_. None)"
    using signal_handler_new_inv[OF assms(1)] by blast+
  from signal_run_result[OF new(1) assms(2,3)] obtain sh' sg' where r:
    "run_opt signal_step ops (sh, sg) = Some (sh', sg')" "handler_inv (sh', sg')" "masks_set (sh', sg')"
    "signal_table sh' = fold table_update ops (\<lambda>_. None)"
    using new(2) by auto
  have "sh_sigmask sh' = {sig. signal_table sh' sig \<noteq> None} - reserved_signals" using r(2) by (simp add: handler_inv_def)
  then have "sg_blocked sg' = {sig. signal_table sh' sig \<noteq> None} - reserved_signals - unblockable" "sg_reported sg' = sg_blocked sg'"
    using r(3) by (simp_all add: masks_set_def)
  with r(1,4) on_signal_ready_table[OF r(2)] show ?thesis by auto
qed

theorem signals_follow_table_witness:
  "\<exists>sh el' k' m' sh' sg'. signal_handler_new 8 empty_loop all_open mem0 = Some (Some sh, el', k', m') \<and>
     run_opt signal_step [((0, 8), Add_signal 2 ''stop'' None), ((0, 8), Add_signal 15 ''stop'' (Some 3)),
        ((0, 8), Remove_signal 2)] (sh, \<lparr>sg_blocked = {1}, sg_reported = {}\<rparr>) = Some (sh', sg') \<and>
     sg_blocked sg' = {15} \<and>
     on_signal_ready (Some 15) (\<lambda>cb d w. Some (w @ [(cb, d)])) sh' [] = Some (0, [(''stop'', Some 3)])"
proof -
  let ?ops = "[((0, 8), Add_signal 2 ''stop'' None), ((0, 8), Add_signal 15 ''stop'' (Some 3)),
        ((0, 8), Remove_signal 2)]"
  let ?k = "all_open\<lparr>k_open := (k_open all_open)(8 := True)\<rparr>"
    and ?m = "mem0\<lparr>fresh := Suc (fresh mem0), blocks := blocks mem0 + 1\<rparr>"
  have inv: "loop_inv empty_loop ?k ?m"
    using empty_loop_simps(1)[of ?m] by (simp add: loop_inv_def)
  obtain el' k' m' where w:
    "event_loop_add_fd_watch 8 ELOOP_CALLBACK_READ (Signal_ready (fresh mem0)) empty_loop ?k ?m = Some (0, el', k', m')"
    using add_watch[OF inv, of 8 ELOOP_CALLBACK_READ "Signal_ready (fresh mem0)"] by auto
  obtain sh :: "string SignalHandler" where n:
    "signal_handler_new 8 empty_loop all_open mem0 = Some (Some sh, el', k', m')"
    using w by (simp add: signal_handler_new_def Let_def)
  have ok: "list_all signal_ok ?ops" "?ops \<noteq> []" by (simp_all add: NSIG_def)
  from signals_follow_table[OF n ok, of "\<lparr>sg_blocked = {1}, sg_reported = {}\<rparr>"
      "\<lambda>cb d w. Some (w @ [(cb, d)])" "[]"]
  obtain sh' sg' where r: "run_opt signal_step ?ops (sh, \<lparr>sg_blocked = {1}, sg_reported = {}\<rparr>) = Some (sh', sg')"
    "sg_blocked sg' = {sig. fold table_update ?ops (\<lambda>_. None) sig \<noteq> None} - reserved_signals - unblockable"
    "\<forall>sig < NSIG. on_signal_ready (Some sig) (\<lambda>cb d w. Some (w @ [(cb, d)])) sh' [] =
        (case fold table_update ?ops (\<lambda>_. None) sig of None \<Rightarrow> Some (0, [])
         | Some (cb, d) \<Rightarrow> Some (0, [(cb, d)]))"
    by auto
  have "sg_blocked sg' = {15}" unfolding r(2) by (auto simp: unblockable_def reserved_signals_def split: if_splits)
  moreover have "on_signal_ready (Some 15) (\<lambda>cb d w. Some (w @ [(cb, d)])) sh' [] = Some (0, [(''stop'', Some 3)])"
    using r(3)[rule_format, of 15] by (simp add: NSIG_def)
  ultimately show ?thesis using n r(1) by blast
qed

section \<open>With the loop\<close>

lemma signal_handler_new_result:
  assumes "loop_inv el k m" "answers m = []" "0 \<le> fd" "watches el fd = (\<lambda>_. None)"
  shows "\<exists>sh el' k' m'. signal_handler_new fd el k m = Some (Some sh, el', k', m') \<and> sh_fd sh = fd \<and>
     loop_inv el' k' m' \<and> k_open k' = (k_open k)(fd := True) \<and>
     watches el' = table_add fd ELOOP_CALLBACK_READ (Signal_ready (sh_addr sh)) (watches el) \<and>
     answers m' = [] \<and> el_collector el' = el_collector el \<and>
     blocks m' - int (length (el_callbacks_list el')) = blocks m + 1 - int (length (el_callbacks_list el))"
proof -
  let ?k = "k\<lparr>k_open := (k_open k)(fd := True)\<rparr>"
    and ?m = "m\<lparr>fresh := Suc (fresh m), blocks := blocks m + 1\<rparr>"
  have "loop_inv el ?k m" using assms(1) by (simp add: loop_inv_def)
  then have inv: "loop_inv el ?k ?m" by (rule loop_inv_fresh) simp
  from add_watch[OF inv assms(3), of ELOOP_CALLBACK_READ "Signal_ready (fresh m)"] assms(2) obtain el' k' m' where
    r: "event_loop_add_fd_watch fd ELOOP_CALLBACK_READ (Signal_ready (fresh m)) el ?k ?m = Some (0, el', k', m')"
    "k_open k' = k_open ?k" "loop_inv el' k' m'" "answers m' = []"
    "watches el' = table_add fd ELOOP_CALLBACK_READ (Signal_ready (fresh m)) (watches el)"
    "blocks m' - int (length (el_callbacks_list el')) = blocks ?m - int (length (el_callbacks_list el))"
    by auto
  with assms(2,3) add_watch_collector[OF r(1)] show ?thesis by (simp add: signal_handler_new_def)
qed

lemma signal_handler_destroy_result:
  assumes "loop_inv el k m" "0 < sh_fd sh" "k_open k (sh_fd sh)" "w (sh_fd sh) = (\<lambda>_. None)"
    and "watches el = table_add (sh_fd sh) ELOOP_CALLBACK_READ cb w"
  shows "\<exists>el' k' m'. signal_handler_destroy sh el k m = Some (el', k', m') \<and> watches el' = w \<and>
     k_open k' = (k_open k)(sh_fd sh := False) \<and> loop_inv el' k' m' \<and> el_collector el' = el_collector el \<and>
     blocks m' + 1 - int (length (el_callbacks_list el')) = blocks m - int (length (el_callbacks_list el))"
proof -
  have "0 \<le> sh_fd sh" using assms(2) by simp
  from remove_watch[OF assms(1) this assms(3), of ELOOP_CALLBACK_READ] obtain ret el' k' m' where
    r: "event_loop_remove_fd_watch (sh_fd sh) ELOOP_CALLBACK_READ el k m = Some (ret, el', k', m')"
    "k_open k' = k_open k" "loop_inv el' k' m'"
    "watches el' = table_remove (sh_fd sh) ELOOP_CALLBACK_READ (watches el)"
    "blocks m' - int (length (el_callbacks_list el')) = blocks m - int (length (el_callbacks_list el))"
    by auto
  have w: "watches el' = w" using assms(4) by (auto simp: r(4) assms(5) table_add_def table_remove_def fun_eq_iff)
  have "loop_inv el' (close_fd (sh_fd sh) k') m'" using loop_inv_close[OF r(3)] w assms(4) by simp
  with r w assms(2) remove_watch_collector[OF r(1)] show ?thesis
    by (simp add: signal_handler_destroy_def close_fd_def loop_inv_def)
qed

end
