(* ===== verification/Hello_Plugin.thy ===== *)
theory Hello_Plugin
  imports Container Http_Response Config_Api
begin

text \<open>
  The container that comes with the program (\<open>containers/hello/rapp_plugin.c\<close>): it answers every request with
  a configured text.  It serves on a response, the rest of the program and the allocator, where
  \<open>None\<close> is undefined behaviour; \<open>clock\<close> is what \<open>time\<close> returns.  The results of the response
  writers are not looked at.  When \<open>asprintf\<close> fails, the length is \<open>NULL\<close> and the assertion of
  \<open>http_response_write_header\<close> ends the program, which is \<open>None\<close> too.
\<close>

section \<open>State and operations\<close>

record RappContainer =
  message :: "string option"

definition rapp_get_abi_version :: int where "rapp_get_abi_version = ABI_VERSION"

definition write_hello :: "int \<Rightarrow> string \<Rightarrow> HTTPResponse \<Rightarrow> mem \<Rightarrow> (HTTPResponse \<times> mem) option" where
  "write_hello clock msg response m = do {
     let len = length msg;
     (_, response, m) \<leftarrow> http_response_write_status_line_by_code 200 response m;
     (_, response, m) \<leftarrow> http_response_write_header ''Content-Type'' ''text/plain; charset=utf-8'' response m;
     let (_, len_s, m) = memory_asprintf (dec len) m;
     length_text \<leftarrow> len_s;
     (_, response, m) \<leftarrow> http_response_write_header ''Content-Length'' length_text response m;
     let m = memory_destroy len_s m;
     (_, response, m) \<leftarrow> http_response_end_headers clock response m;
     (_, response, m) \<leftarrow> http_response_append_data msg response m;
     Some (response, m)
   }"

definition rapp_serve ::
    "int \<Rightarrow> RappContainer option \<Rightarrow> HTTPRequest \<Rightarrow> 'x served \<Rightarrow> int \<times> 'x served" where
  "rapp_serve clock handle request w =
     (case handle of
        None \<Rightarrow> (-1, w)
      | Some h \<Rightarrow>
         (0, do {
            (response, x, m) \<leftarrow> w;
            msg \<leftarrow> message h;
            (response, m) \<leftarrow> write_hello clock msg response m;
            Some (response, x, m)
          }))"

definition rapp_destroy :: "RappContainer \<Rightarrow> mem \<Rightarrow> int \<times> mem" where
  "rapp_destroy handle m = (0, memory_destroy (Some handle) (memory_destroy (message handle) m))"

definition rapp_init :: "RappContainer \<Rightarrow> RappConfig \<Rightarrow> mem \<Rightarrow> (int \<times> RappContainer \<times> mem) option" where
  "rapp_init handle config m =
     map_option (\<lambda>(ret, v, m). (ret, handle\<lparr>message := v\<rparr>, m))
       (rapp_config_get_nth_string config ''hello'' ''message'' 0 m)"

definition rapp_create :: "RappConfig \<Rightarrow> mem \<Rightarrow> RappContainer option \<times> int \<times> RappConfig \<times> mem" where
  "rapp_create config m =
     (let (p, m) = memory_create m in
      case p of
        None \<Rightarrow> (None, -1, config, m)
      | Some _ \<Rightarrow>
         (let (_, config, m) = rapp_config_opt_add ''hello'' ''message'' PARAM_STRING
                (Some ''Hello world message'') (Some ''MESSAGE'') config m;
              (_, config, m) = rapp_config_opt_set_default_string ''hello'' ''message''
                (Some ''Hello world!'') config m
          in (Some \<lparr>message = None\<rparr>, 0, config, m)))"

text \<open>
  The library as the loader sees it.  The world of its callbacks is the response, the rest of the program and the
  plugin's own allocator; a handle is what the pointer points to, \<open>None\<close> for \<open>NULL\<close>.
\<close>

definition plugin_create ::
    "RappConfig \<Rightarrow> 'x served \<Rightarrow> RappContainer option option \<times> RappConfig \<times> 'x served" where
  "plugin_create config w =
     (case w of
        None \<Rightarrow> (None, config, None)
      | Some (response, x, m) \<Rightarrow>
         (let (handle, _, config, m) = rapp_create config m
          in (map_option Some handle, config, Some (response, x, m))))"

definition plugin_init ::
    "RappContainer option \<Rightarrow> RappConfig \<Rightarrow> 'x served \<Rightarrow> int \<times> RappContainer option \<times> 'x served" where
  "plugin_init handle config w =
     (case do {
        (response, x, m) \<leftarrow> w;
        h \<leftarrow> handle;
        (ret, h, m) \<leftarrow> rapp_init h config m;
        Some (ret, h, response, x, m)
      } of
        None \<Rightarrow> (-1, handle, None)
      | Some (ret, h, r) \<Rightarrow> (ret, Some h, Some r))"

definition plugin_destroy :: "RappContainer option \<Rightarrow> 'x served \<Rightarrow> int \<times> 'x served" where
  "plugin_destroy handle w =
     (0, do {
        (response, x, m) \<leftarrow> w;
        h \<leftarrow> handle;
        let (_, m) = rapp_destroy h m;
        Some (response, x, m)
      })"

definition rapp_plugin :: "int \<Rightarrow> (RappContainer option, 'x served, RappConfig) plugin_lib" where
  "rapp_plugin clock = \<lparr>sym_abi_version = Some rapp_get_abi_version, sym_create = Some plugin_create,
     sym_serve = Some (rapp_serve clock), sym_destroy = Some plugin_destroy, sym_init = Some plugin_init\<rparr>"

section \<open>The response\<close>

definition hello_text :: "nat \<Rightarrow> string \<Rightarrow> HTTPResponse \<Rightarrow> string" where
  "hello_text now msg r =
     ''HTTP/1.1 200 OK'' @ HTTP_EOL @
     header_line ''Content-Type'' ''text/plain; charset=utf-8'' @
     header_line ''Content-Length'' (dec (length msg)) @
     end_headers_text now r @ msg"

text \<open>With an allocator that does not fail, a writer emits its bytes whatever is done with its result.\<close>

lemma outcome_emits:
  assumes "outcome d r m res" "answers m = []"
  shows "\<exists>ret r' m'. res = Some (ret, r', m') \<and> emitted 0 d r m r' m' \<and> answers m' = [] \<and> resp_wf r'"
  using assms by (auto simp: outcome_def emitted_def)

lemma write_hello_emits:
  assumes wf: "resp_wf r" and mem: "answers m = []" and clock: "0 \<le> clock" "nat clock < 86400 * (365 * 8030)"
    and msg: "msg \<noteq> []"
  shows "\<exists>r' m'. write_hello clock msg r m = Some (r', m') \<and>
    emitted 0 (hello_text (nat clock) msg r) r m r' m'"
proof -
  have s: "status_message_by_code 200 = Some ''OK''"
    by (simp add: status_message_by_code_def http_statuses_def)
  obtain ret1 r1 m1 where 1: "http_response_write_status_line_by_code 200 r m = Some (ret1, r1, m1)"
    "emitted 0 (''HTTP/1.1 '' @ (dec 200 @ '' '' @ ''OK'') @ HTTP_EOL) r m r1 m1" "answers m1 = []" "resp_wf r1"
    using outcome_emits[OF write_status_line_by_code_outcome[OF wf s] mem] by blast
  obtain ret2 r2 m2 where 2: "http_response_write_header ''Content-Type'' ''text/plain; charset=utf-8'' r1 m1 = Some (ret2, r2, m2)"
    "emitted 0 (header_line ''Content-Type'' ''text/plain; charset=utf-8'') r1 m1 r2 m2" "answers m2 = []" "resp_wf r2"
    using outcome_emits[OF write_header_line_outcome[OF 1(4)] 1(3)] by blast
  let ?m2 = "m2\<lparr>fresh := Suc (fresh m2), blocks := blocks m2 + 1\<rparr>"
  have m2: "answers ?m2 = []" using 2(3) by simp
  obtain ret3 r3 m3 where 3: "http_response_write_header ''Content-Length'' (dec (length msg)) r2 ?m2 = Some (ret3, r3, m3)"
    "emitted 0 (header_line ''Content-Length'' (dec (length msg))) r2 ?m2 r3 m3" "answers m3 = []" "resp_wf r3"
    using outcome_emits[OF write_header_line_outcome[OF 2(4)] m2] by blast
  let ?m3 = "memory_destroy (Some (dec (length msg))) m3"
  have m3: "answers ?m3 = []" using 3(3) by simp
  obtain ret4 r4 m4 where 4: "http_response_end_headers clock r3 ?m3 = Some (ret4, r4, m4)"
    "emitted 0 (end_headers_text (nat clock) r3) r3 ?m3 r4 m4" "answers m4 = []" "resp_wf r4"
    using outcome_emits[OF end_headers_outcome[OF 3(4) clock] m3] by blast
  obtain ret5 r5 m5 where 5: "http_response_append_data msg r4 m4 = Some (ret5, r5, m5)"
    "emitted 0 msg r4 m4 r5 m5"
    using outcome_emits[OF append_data_outcome[OF 4(4) msg] 4(3)] by blast
  have "write_hello clock msg r m = Some (r5, m5)"
    using 1(1) 2(1,3) 3(1) 4(1) 5(1) by (simp add: write_hello_def)
  moreover have "end_headers_text (nat clock) r3 = end_headers_text (nat clock) r"
    using 1(2) 2(2) 3(2) by (simp add: emitted_def end_headers_text_def)
  then have "emitted 0 (hello_text (nat clock) msg r) r m r5 m5"
    using 1(2) 2(2) 3(2) 4(2) 5(2) by (simp add: emitted_def hello_text_def dec.simps)
  ultimately show ?thesis by blast
qed

end
