(* ===== verification/Config_Map.thy ===== *)
theory Config_Map
  imports Config_Api
begin

text \<open>
  The configuration store as a map: what a section and a name lead to.  Declaring an option and changing the
  settings of one are updates of this map, whatever lists and positions the store keeps, and reading values
  depends on the store through the map only.
\<close>

section \<open>The map of a store\<close>

definition options_of :: "RappConfig \<Rightarrow> string \<times> string \<rightharpoonup> ConfigOption" where
  "options_of conf key = map_option (opt_at conf) (GET_OPTION conf (fst key) (snd key))"

lemma options_of_put:
  assumes "GET_OPTION conf s n = Some r" "opt_name opt = n"
  shows "options_of (put_opt r opt conf) = (options_of conf)((s, n) \<mapsto> opt)"
proof (rule ext)
  fix key :: "string \<times> string"
  obtain s' n' where key: "key = (s', n')" by fastforce
  note r = GET_OPTION_valid[OF assms(1)] GET_OPTION_name[OF assms(1)]
  have get: "GET_OPTION (put_opt r opt conf) s' n' = GET_OPTION conf s' n'"
    using r assms(2) by (intro GET_OPTION_put) simp_all
  show "options_of (put_opt r opt conf) key = ((options_of conf)((s, n) \<mapsto> opt)) key"
  proof (cases "GET_OPTION conf s' n' = Some r")
    case True
    then have "(s', n') = (s, n)" using GET_OPTION_name[OF True] r(2) by auto
    with True r(1) get show ?thesis by (simp add: options_of_def key)
  next
    case False
    then have "(s', n') \<noteq> (s, n)" using assms(1) by auto
    moreover have "opt_at (put_opt r opt conf) r' = opt_at conf r'" if "GET_OPTION conf s' n' = Some r'" for r'
      using False that by (intro opt_at_put_other[OF _ r(1)]) auto
    ultimately show ?thesis using get
      by (cases "GET_OPTION conf s' n'") (auto simp: options_of_def key)
  qed
qed

section \<open>Declaring\<close>

text \<open>A new option, as \<open>rapp_config_opt_add\<close> sets it up when nothing fails.\<close>

definition declared :: "RappConfigParamType \<Rightarrow> string option \<Rightarrow> string \<Rightarrow> string option \<Rightarrow> ConfigOption" where
  "declared ty help name metavar = opt_setup_values ty
     \<lparr>opt_type = ty, opt_help = help, opt_name = name, opt_range_set = False, opt_value_min = 0,
      opt_value_max = 0, opt_multivalued = 0, opt_num_values = 0, opt_default_value = DefInt 0,
      opt_default_set = False, opt_metavar = (if ty = PARAM_BOOL then None else metavar),
      opt_no_override = False, opt_values = []\<rparr>"

lemma declared_name [simp]: "opt_name (declared ty help name metavar) = name"
  by (cases ty) (simp_all add: declared_def opt_setup_values_def)

lemma new_option_ok:
  "answers m = [] \<Longrightarrow> \<exists>m'. new_option ty help name metavar m = (Some (declared ty help name metavar), m') \<and> answers m' = []"
  by (auto simp: new_option_def strdup_if_def declared_def split: option.split)

lemma config_section_ok:
  assumes "answers m = []"
  shows "\<exists>i conf1 m1. (case config_section_get conf s of Some i \<Rightarrow> (Some i, conf, m) | None \<Rightarrow> config_section_create s conf m) =
      (Some i, conf1, m1) \<and> answers m1 = [] \<and> config_section_find conf1 s = Some i \<and> options_of conf1 = options_of conf \<and>
    i < length (cf_sections conf1)"
proof (cases "config_section_get conf s")
  case (Some i)
  with assms show ?thesis
    by (auto simp: config_section_get_def config_section_find_def dest: index_of_Some)
next
  case None
  let ?conf = "conf\<lparr>cf_sections := cf_sections conf @ [\<lparr>sect_name = s, sect_num_opts = 0, sect_options = []\<rparr>]\<rparr>"
  have new: "\<exists>m1. config_section_create s conf m = (Some (length (cf_sections conf)), ?conf, m1) \<and> answers m1 = []"
    using assms by (simp add: config_section_create_def)
  have none: "index_of (\<lambda>x. sect_name x = s) (cf_sections conf) = None" using None by (simp add: config_section_get_def)
  have "options_of ?conf key = options_of conf key" for key
    by (cases "index_of (\<lambda>x. sect_name x = fst key) (cf_sections conf)")
      (auto simp: options_of_def GET_OPTION_def config_section_find_def index_of_append GET_OPTION_FROM_SECT_def
        opt_at_def nth_append option.map_comp comp_def dest: index_of_Some)
  then have "options_of ?conf = options_of conf" by (rule ext)
  with new none None show ?thesis
    by (auto simp: config_section_find_def index_of_append)
qed

lemma options_of_append:
  assumes i: "config_section_find conf s = Some i"
  shows "options_of (conf\<lparr>cf_sections := (cf_sections conf)[i := (cf_sections conf ! i)
      \<lparr>sect_options := sect_options (cf_sections conf ! i) @ [opt], sect_num_opts := k\<rparr>]\<rparr>) =
    (if (s, opt_name opt) \<in> dom (options_of conf) then options_of conf else (options_of conf)((s, opt_name opt) \<mapsto> opt))"
    (is "options_of ?conf = ?rhs")
proof (rule ext)
  fix key :: "string \<times> string"
  obtain s' n where key: "key = (s', n)" by fastforce
  let ?sect = "cf_sections conf ! i"
  have len: "i < length (cf_sections conf)" "sect_name ?sect = s"
    using i by (auto simp: config_section_find_def dest: index_of_Some)
  have "map sect_name (cf_sections ?conf) = map sect_name (cf_sections conf)"
    using map_update_id[OF len(1), of sect_name] by simp
  from index_of_map[OF this] have find: "config_section_find ?conf s' = config_section_find conf s'"
    by (simp add: config_section_find_def)
  show "options_of ?conf key = ?rhs key"
  proof (cases "config_section_find conf s' = Some i")
    case True
    then have "s' = s" using len by (auto simp: config_section_find_def dest: index_of_Some)
    with True find len i show ?thesis
      by (cases "index_of (\<lambda>x. opt_name x = n) (sect_options ?sect)"; cases "opt_name opt = n")
        (auto simp: options_of_def GET_OPTION_def GET_OPTION_FROM_SECT_def key index_of_append opt_at_def
          nth_append dom_def dest: index_of_Some)
  next
    case False
    then have "s' \<noteq> s" using i by auto
    with False find show ?thesis
      by (cases "config_section_find conf s'")
        (auto simp: options_of_def GET_OPTION_def GET_OPTION_FROM_SECT_def key opt_at_def option.map_comp comp_def
          intro!: option.map_cong0)
  qed
qed

lemma opt_add_ok:
  assumes "answers m = []" "validate_name s = 0" "validate_name name = 0"
  shows "\<exists>conf' m'. rapp_config_opt_add s name ty help metavar conf m = (0, conf', m') \<and> answers m' = [] \<and>
    options_of conf' = (if (s, name) \<in> dom (options_of conf) then options_of conf
      else (options_of conf)((s, name) \<mapsto> declared ty help name metavar))"
proof -
  obtain i conf1 m1 where one: "(case config_section_get conf s of Some i \<Rightarrow> (Some i, conf, m)
       | None \<Rightarrow> config_section_create s conf m) = (Some i, conf1, m1)" "answers m1 = []"
    "config_section_find conf1 s = Some i" "options_of conf1 = options_of conf"
    using config_section_ok[OF assms(1), of s conf] by blast
  obtain m2 where two: "new_option ty help name metavar m1 = (Some (declared ty help name metavar), m2)" "answers m2 = []"
    using new_option_ok[OF one(2)] by blast
  show ?thesis
    using options_of_append[OF one(3), where opt = "declared ty help name metavar"] assms(2,3) one two
    by (simp add: rapp_config_opt_add_def Let_def)
qed

section \<open>Settings\<close>

lemma options_of_Some:
  "options_of conf (s, n) = Some opt \<Longrightarrow>
     \<exists>r. GET_OPTION conf s n = Some r \<and> opt_at conf r = opt \<and> opt_name opt = n"
  by (auto simp: options_of_def dest: GET_OPTION_name)

lemma set_default_string_ok:
  assumes "options_of conf (s, n) = Some opt" "answers m = []"
  shows "\<exists>conf' m'. rapp_config_opt_set_default_string s n (Some v) conf m = (0, conf', m') \<and> answers m' = [] \<and>
    options_of conf' = (options_of conf)((s, n) \<mapsto> opt\<lparr>opt_default_value := DefStr (Some v), opt_default_set := True\<rparr>)"
proof -
  obtain r where r: "GET_OPTION conf s n = Some r" "opt_at conf r = opt" "opt_name opt = n"
    using options_of_Some[OF assms(1)] by blast
  with options_of_put[OF r(1)] assms(2) show ?thesis by (simp add: rapp_config_opt_set_default_string_def)
qed

lemma set_default_int_ok:
  assumes "options_of conf (s, n) = Some opt"
  shows "\<exists>conf'. rapp_config_opt_set_default_int s n v conf = (0, conf') \<and>
    options_of conf' = (options_of conf)((s, n) \<mapsto> opt\<lparr>opt_default_value := DefInt v, opt_default_set := True\<rparr>)"
proof -
  obtain r where r: "GET_OPTION conf s n = Some r" "opt_at conf r = opt" "opt_name opt = n"
    using options_of_Some[OF assms(1)] by blast
  with options_of_put[OF r(1)] show ?thesis by (simp add: rapp_config_opt_set_default_int_def)
qed

lemma set_range_ok:
  assumes "options_of conf (s, n) = Some opt" "opt_type opt = PARAM_INT" "lo < hi"
  shows "\<exists>conf'. rapp_config_opt_set_range_int s n lo hi conf = (0, conf') \<and>
    options_of conf' = (options_of conf)((s, n) \<mapsto>
      opt\<lparr>opt_value_min := lo, opt_value_max := hi, opt_range_set := True\<rparr>)"
proof -
  obtain r where r: "GET_OPTION conf s n = Some r" "opt_at conf r = opt" "opt_name opt = n"
    using options_of_Some[OF assms(1)] by blast
  with options_of_put[OF r(1)] assms(2,3) show ?thesis by (simp add: rapp_config_opt_set_range_int_def)
qed

lemma set_multivalued_ok:
  assumes "options_of conf (s, n) = Some opt"
  shows "\<exists>conf'. rapp_config_opt_set_multivalued s n flag conf = (0, conf') \<and>
    options_of conf' = (options_of conf)((s, n) \<mapsto> opt\<lparr>opt_multivalued := flag\<rparr>)"
proof -
  obtain r where r: "GET_OPTION conf s n = Some r" "opt_at conf r = opt" "opt_name opt = n"
    using options_of_Some[OF assms(1)] by blast
  with options_of_put[OF r(1)] show ?thesis by (simp add: rapp_config_opt_set_multivalued_def)
qed

section \<open>Reading\<close>

text \<open>Stores that agree on an option give the same values for it.\<close>

lemma same_option_read:
  assumes "options_of conf' (s, n) = options_of conf (s, n)"
  shows "rapp_config_get_nth_int conf' s n i = rapp_config_get_nth_int conf s n i"
    "rapp_config_get_nth_string conf' s n i m = rapp_config_get_nth_string conf s n i m"
    "rapp_config_get_num_values conf' s n = rapp_config_get_num_values conf s n"
  using assms
  by (cases "GET_OPTION conf s n"; cases "GET_OPTION conf' s n";
      simp add: options_of_def rapp_config_get_nth_int_def rapp_config_get_nth_string_def rapp_config_get_num_values_def)+

lemma default_int_read:
  assumes "options_of conf (s, n) = Some opt" "opt_type opt = PARAM_INT" "opt_num_values opt = 0"
    and "opt_default_set opt" "opt_default_value opt = DefInt v"
  shows "rapp_config_get_nth_int conf s n 0 = Some (0, Some v)"
  using options_of_Some[OF assms(1)] assms(2-5) by (auto simp: rapp_config_get_nth_int_def)

lemma default_string_read:
  assumes "options_of conf (s, n) = Some opt" "opt_type opt = PARAM_STRING" "opt_num_values opt = 0"
    and "opt_default_set opt" "opt_default_value opt = DefStr (Some v)"
  shows "rapp_config_get_nth_string conf s n 0 m = (let (v, m) = memory_strdup v m in Some (0, v, m))"
  using options_of_Some[OF assms(1)] assms(2-5) by (auto simp: rapp_config_get_nth_string_def)

end
