(* ===== verification/Config_Sources.thy ===== *)
theory Config_Sources
  imports Config_Map Config_Env Config_Yaml Config_Commandline
begin

text \<open>
  Where the values of options come from, in the order \<open>src/main.c\<close> reads them: the command line, the
  environment, the files of the configured directories, the configured files.  An option that was set on
  the command line or in the environment is not overridden by what is read after it.
\<close>

section \<open>Reading the sources\<close>

text \<open>What the C library and libyaml contribute.\<close>

record config_world =
  cw_argp :: argp_lib
  cw_getenv :: "string \<Rightarrow> string option"
  cw_yaml :: yaml_world

text \<open>The options of the section \<open>core\<close>; no result is looked at.\<close>

definition declare_core_options :: "RappConfig \<Rightarrow> mem \<Rightarrow> RappConfig \<times> mem" where
  "declare_core_options conf m =
     (let (_, conf, m) = rapp_config_opt_add ''core'' ''address'' PARAM_STRING (Some ''Address to listen to'') None conf m;
          (_, conf, m) = rapp_config_opt_add ''core'' ''port'' PARAM_INT (Some ''Port'') None conf m;
          (_, conf, m) = rapp_config_opt_add ''core'' ''config'' PARAM_STRING (Some ''Path to yaml config'')
                           (Some ''FILE'') conf m;
          (_, conf, m) = rapp_config_opt_add ''core'' ''confd'' PARAM_STRING
                           (Some ''Path to directory to scan for config'') (Some ''DIR'') conf m;
          (_, conf) = rapp_config_opt_set_range_int ''core'' ''port'' 0 65535 conf;
          (_, conf, m) = rapp_config_opt_set_default_string ''core'' ''address'' (Some ''127.0.0.1'') conf m;
          (_, conf) = rapp_config_opt_set_default_int ''core'' ''port'' 8080 conf;
          (_, conf) = rapp_config_opt_set_multivalued ''core'' ''config'' 1 conf;
          (_, conf) = rapp_config_opt_set_multivalued ''core'' ''confd'' 1 conf
      in (conf, m))"

text \<open>
  The loops over the configured directories and files.  The number of positions is read before the loop, the
  paths are read as it goes on, from a store that each file may change.  A result other than 0 is the status
  the program exits with.  A path that could not be copied is a \<open>NULL\<close> pointer (\<open>None\<close>).
\<close>

fun read_paths ::
    "(string \<Rightarrow> RappConfig \<Rightarrow> mem \<Rightarrow> (int \<times> RappConfig \<times> mem) option) \<Rightarrow> string \<Rightarrow> nat list
      \<Rightarrow> RappConfig \<Rightarrow> mem \<Rightarrow> (int \<times> RappConfig \<times> mem) option" where
  "read_paths parse name [] conf m = Some (0, conf, m)"
| "read_paths parse name (i # is) conf m = do {
     (ret, confpath, m) \<leftarrow> rapp_config_get_nth_string conf ''core'' name (int i) m;
     (if ret \<noteq> 0 then Some (1, conf, m)
      else do {
        path \<leftarrow> confpath;
        (res, conf, m) \<leftarrow> parse path conf m;
        let m = memory_destroy confpath m;
        (if res \<noteq> 0 then Some (1, conf, m) else read_paths parse name is conf m)
      })
   }"

text \<open>\<open>num\<close> is not initialised: without the option \<open>confd\<close> its value is undefined.\<close>

definition read_files :: "yaml_world \<Rightarrow> RappConfig \<Rightarrow> mem \<Rightarrow> (int \<times> RappConfig \<times> mem) option" where
  "read_files yw conf m = do {
     num \<leftarrow> snd (rapp_config_get_num_values conf ''core'' ''confd'');
     (ret, conf, m) \<leftarrow> read_paths (\<lambda>path. config_scan_directory yw path (Some ''.yaml'')) ''confd'' [0..<nat num] conf m;
     (if ret \<noteq> 0 then Some (ret, conf, m)
      else
        (let num = (case snd (rapp_config_get_num_values conf ''core'' ''config'') of None \<Rightarrow> num | Some n \<Rightarrow> n) in
         read_paths (config_parse yw) ''config'' [0..<nat num] conf m))
   }"

text \<open>\<open>Returned 0\<close>: all sources were read and \<open>main\<close> goes on; otherwise the process has ended, by \<open>main\<close> or by \<open>argp\<close>.\<close>

definition read_sources ::
    "config_world \<Rightarrow> string list \<Rightarrow> RappConfig \<Rightarrow> mem \<Rightarrow> (ending \<times> RappConfig \<times> mem) option" where
  "read_sources cw argv conf m = do {
     (res, conf, m) \<leftarrow> config_parse_commandline (cw_argp cw) argv conf m;
     (case res of
        Exited status \<Rightarrow> Some (Exited status, conf, m)
      | Returned res \<Rightarrow>
          if res \<noteq> 0 then Some (Exited 1, conf, m)
          else
            (let (res, conf, m) = config_read_env (cw_getenv cw) conf m in
             if res \<noteq> 0 then Some (Exited 1, conf, m)
             else do {
               (res, conf, m) \<leftarrow> read_files (cw_yaml cw) conf m;
               (if res \<noteq> 0 then Some (Exited res, conf, m) else Some (Returned 0, conf, m))
             }))
   }"

text \<open>The address and the port to listen on; a variable that was not written is undefined.\<close>

definition listen_address :: "RappConfig \<Rightarrow> mem \<Rightarrow> (string \<times> 16 word \<times> mem) option" where
  "listen_address conf m = do {
     (_, address, m) \<leftarrow> rapp_config_get_nth_string conf ''core'' ''address'' 0 m;
     (_, port) \<leftarrow> rapp_config_get_nth_int conf ''core'' ''port'' 0;
     address \<leftarrow> address;
     port \<leftarrow> port;
     Some (address, word_of_int port, m)
   }"

section \<open>The declared options\<close>

definition core_options :: "string \<times> string \<rightharpoonup> ConfigOption" where
  "core_options =
     [(''core'', ''address'') \<mapsto> (declared PARAM_STRING (Some ''Address to listen to'') ''address'' None)
        \<lparr>opt_default_value := DefStr (Some ''127.0.0.1''), opt_default_set := True\<rparr>,
      (''core'', ''port'') \<mapsto> (declared PARAM_INT (Some ''Port'') ''port'' None)
        \<lparr>opt_value_min := 0, opt_value_max := 65535, opt_range_set := True, opt_default_value := DefInt 8080,
         opt_default_set := True\<rparr>,
      (''core'', ''config'') \<mapsto> (declared PARAM_STRING (Some ''Path to yaml config'') ''config'' (Some ''FILE''))
        \<lparr>opt_multivalued := 1\<rparr>,
      (''core'', ''confd'') \<mapsto> (declared PARAM_STRING (Some ''Path to directory to scan for config'') ''confd''
         (Some ''DIR''))\<lparr>opt_multivalued := 1\<rparr>]"

lemma core_names: "validate_name ''core'' = 0" "validate_name ''address'' = 0" "validate_name ''port'' = 0"
  "validate_name ''config'' = 0" "validate_name ''confd'' = 0"
  by code_simp+

lemma declared_type: "opt_type (declared ty help n mv) = ty" "\<not> opt_default_set (declared ty help n mv)"
  by (cases ty; simp add: declared_def opt_setup_values_def)+

text \<open>One declaration: the store as a map becomes \<open>mp\<close>, and what it owns is accounted for.\<close>

definition declares :: "RappConfig \<Rightarrow> mem \<Rightarrow> (string \<times> string \<rightharpoonup> ConfigOption) \<Rightarrow> RappConfig \<Rightarrow> mem \<Rightarrow> bool" where
  "declares conf m mp conf' m' \<longleftrightarrow> answers m' = [] \<and> options_of conf' = mp \<and> argp_of conf' = argp_of conf \<and>
     (config_wf conf \<longrightarrow> config_wf conf' \<and> blocks m' - config_owned conf' = blocks m - config_owned conf) \<and>
     lib_cost (conf, m) (conf', m')"

lemma declares_trans:
  "declares conf m mp conf1 m1 \<Longrightarrow> declares conf1 m1 mp' conf' m' \<Longrightarrow> declares conf m mp' conf' m'"
  by (auto simp: declares_def intro: lib_cost_trans)

lemma declaresD: "declares conf m mp conf' m' \<Longrightarrow> answers m' = [] \<and> options_of conf' = mp"
  by (simp add: declares_def)

lemma add_declares:
  assumes "answers m = [] \<and> options_of conf = mp" "validate_name s = 0" "validate_name n = 0" "(s, n) \<notin> dom mp"
  obtains conf' m' where "rapp_config_opt_add s n ty hlp mv conf m = (0, conf', m')"
    "declares conf m (mp((s, n) \<mapsto> declared ty hlp n mv)) conf' m'"
proof -
  obtain conf' m' where "rapp_config_opt_add s n ty hlp mv conf m = (0, conf', m')" "answers m' = []"
    "options_of conf' = mp((s, n) \<mapsto> declared ty hlp n mv)"
    using opt_add_ok[OF _ assms(2,3), of m ty hlp mv conf] assms(1,4) by auto
  with opt_add_argp[OF this(1)] opt_add_keeps[OF this(1)] opt_add_cost[OF this(1)] show thesis
    by (intro that[of conf' m']) (simp_all add: declares_def)
qed

lemma range_declares:
  assumes "answers m = [] \<and> options_of conf = mp" "mp (s, n) = Some opt" "opt_type opt = PARAM_INT" "lo < hi"
  obtains conf' where "rapp_config_opt_set_range_int s n lo hi conf = (0, conf')"
    "declares conf m (mp((s, n) \<mapsto> opt\<lparr>opt_value_min := lo, opt_value_max := hi, opt_range_set := True\<rparr>)) conf' m"
proof -
  obtain conf' where c: "rapp_config_opt_set_range_int s n lo hi conf = (0, conf')"
    "options_of conf' = mp((s, n) \<mapsto> opt\<lparr>opt_value_min := lo, opt_value_max := hi, opt_range_set := True\<rparr>)"
    using set_range_ok[of conf s n opt lo hi] assms by auto
  with setters_argp(1)[OF c(1)] set_range_keeps[OF c(1)] setters_cost(1)[OF c(1)] assms(1) show thesis
    by (intro that[of conf']) (simp_all add: declares_def)
qed

lemma default_string_declares:
  assumes "answers m = [] \<and> options_of conf = mp" "mp (s, n) = Some opt" "opt_type opt = PARAM_STRING" "\<not> opt_default_set opt"
  obtains conf' m' where "rapp_config_opt_set_default_string s n (Some v) conf m = (0, conf', m')"
    "declares conf m (mp((s, n) \<mapsto> opt\<lparr>opt_default_value := DefStr (Some v), opt_default_set := True\<rparr>)) conf' m'"
proof -
  obtain conf' m' where c: "rapp_config_opt_set_default_string s n (Some v) conf m = (0, conf', m')" "answers m' = []"
    "options_of conf' = mp((s, n) \<mapsto> opt\<lparr>opt_default_value := DefStr (Some v), opt_default_set := True\<rparr>)"
    using set_default_string_ok[of conf s n opt m v] assms by auto
  obtain r where r: "GET_OPTION conf s n = Some r" "opt_at conf r = opt"
    using options_of_Some assms(1,2) by metis
  then have "takes_default_text (opt_at conf r')" if "GET_OPTION conf s n = Some r'" for r'
    using that assms(3,4) by (simp add: takes_default_text_def)
  with c setters_argp(2)[OF c(1)] default_text_keeps[OF c(1)] setters_cost(2)[OF c(1)] assms(1) show thesis
    by (intro that[of conf' m']) (simp_all add: declares_def)
qed

lemma default_int_declares:
  assumes "answers m = [] \<and> options_of conf = mp" "mp (s, n) = Some opt" "opt_type opt \<noteq> PARAM_STRING"
  obtains conf' where "rapp_config_opt_set_default_int s n v conf = (0, conf')"
    "declares conf m (mp((s, n) \<mapsto> opt\<lparr>opt_default_value := DefInt v, opt_default_set := True\<rparr>)) conf' m"
proof -
  obtain conf' where c: "rapp_config_opt_set_default_int s n v conf = (0, conf')"
    "options_of conf' = mp((s, n) \<mapsto> opt\<lparr>opt_default_value := DefInt v, opt_default_set := True\<rparr>)"
    using set_default_int_ok[of conf s n opt v] assms by auto
  obtain r where r: "GET_OPTION conf s n = Some r" "opt_at conf r = opt"
    using options_of_Some assms(1,2) by metis
  then have "opt_type (opt_at conf r') \<noteq> PARAM_STRING" if "GET_OPTION conf s n = Some r'" for r'
    using that assms(3) by simp
  with c setters_argp(3)[OF c(1)] default_number_keeps[OF c(1)] setters_cost(3)[OF c(1)] assms(1) show thesis
    by (intro that[of conf']) (simp_all add: declares_def)
qed

lemma multivalued_declares:
  assumes "answers m = [] \<and> options_of conf = mp" "mp (s, n) = Some opt"
  obtains conf' where "rapp_config_opt_set_multivalued s n f conf = (0, conf')"
    "declares conf m (mp((s, n) \<mapsto> opt\<lparr>opt_multivalued := f\<rparr>)) conf' m"
proof -
  obtain conf' where c: "rapp_config_opt_set_multivalued s n f conf = (0, conf')"
    "options_of conf' = mp((s, n) \<mapsto> opt\<lparr>opt_multivalued := f\<rparr>)"
    using set_multivalued_ok[of conf s n opt f] assms by auto
  with setters_argp(4)[OF c(1)] set_multivalued_keeps[OF c(1)] setters_cost(4)[OF c(1)] assms(1) show thesis
    by (intro that[of conf']) (simp_all add: declares_def)
qed

text \<open>First the four options are added, then they are given their range, defaults and multiplicity.\<close>

definition core_added :: "string \<times> string \<rightharpoonup> ConfigOption" where
  "core_added =
     [(''core'', ''address'') \<mapsto> declared PARAM_STRING (Some ''Address to listen to'') ''address'' None,
      (''core'', ''port'') \<mapsto> declared PARAM_INT (Some ''Port'') ''port'' None,
      (''core'', ''config'') \<mapsto> declared PARAM_STRING (Some ''Path to yaml config'') ''config'' (Some ''FILE''),
      (''core'', ''confd'') \<mapsto> declared PARAM_STRING (Some ''Path to directory to scan for config'') ''confd''
         (Some ''DIR'')]"

lemma core_options_added:
  assumes mem: "answers m = []" and new: "dom (options_of conf) \<inter> dom core_options = {}"
  obtains c1 m1 c2 m2 c3 m3 c4 m4 where
    "rapp_config_opt_add ''core'' ''address'' PARAM_STRING (Some ''Address to listen to'') None conf m = (0, c1, m1)"
    "rapp_config_opt_add ''core'' ''port'' PARAM_INT (Some ''Port'') None c1 m1 = (0, c2, m2)"
    "rapp_config_opt_add ''core'' ''config'' PARAM_STRING (Some ''Path to yaml config'') (Some ''FILE'') c2 m2 = (0, c3, m3)"
    "rapp_config_opt_add ''core'' ''confd'' PARAM_STRING (Some ''Path to directory to scan for config'') (Some ''DIR'') c3 m3 =
      (0, c4, m4)"
    "declares conf m (options_of conf ++ core_added) c4 m4"
proof -
  have n: "(''core'', ''address'') \<notin> dom (options_of conf)" "(''core'', ''port'') \<notin> dom (options_of conf)"
    "(''core'', ''config'') \<notin> dom (options_of conf)" "(''core'', ''confd'') \<notin> dom (options_of conf)"
    using new by (auto simp: core_options_def)
  let ?at = "\<lambda>mp n x. mp((''core'', n) \<mapsto> x) :: string \<times> string \<rightharpoonup> ConfigOption"
  let ?m1 = "?at (options_of conf) ''address'' (declared PARAM_STRING (Some ''Address to listen to'') ''address'' None)"
  let ?m2 = "?at ?m1 ''port'' (declared PARAM_INT (Some ''Port'') ''port'' None)"
  let ?m3 = "?at ?m2 ''config'' (declared PARAM_STRING (Some ''Path to yaml config'') ''config'' (Some ''FILE''))"
  let ?m4 = "?at ?m3 ''confd'' (declared PARAM_STRING (Some ''Path to directory to scan for config'') ''confd'' (Some ''DIR''))"
  have n': "(''core'', ''port'') \<notin> dom ?m1" "(''core'', ''config'') \<notin> dom ?m2" "(''core'', ''confd'') \<notin> dom ?m3"
    using n by simp_all
  have start: "answers m = [] \<and> options_of conf = options_of conf" using mem by simp
  obtain c1 m1 where 1: "rapp_config_opt_add ''core'' ''address'' PARAM_STRING (Some ''Address to listen to'') None conf m = (0, c1, m1)"
    "declares conf m ?m1 c1 m1"
    using add_declares[OF start core_names(1,2) n(1), where hlp = "Some ''Address to listen to''" and mv = None] by blast
  obtain c2 m2 where 2: "rapp_config_opt_add ''core'' ''port'' PARAM_INT (Some ''Port'') None c1 m1 = (0, c2, m2)"
    "declares c1 m1 ?m2 c2 m2"
    using add_declares[OF declaresD[OF 1(2)] core_names(1,3) n'(1), where hlp = "Some ''Port''" and mv = None] by blast
  obtain c3 m3 where 3: "rapp_config_opt_add ''core'' ''config'' PARAM_STRING (Some ''Path to yaml config'') (Some ''FILE'') c2 m2 = (0, c3, m3)"
    "declares c2 m2 ?m3 c3 m3"
    using add_declares[OF declaresD[OF 2(2)] core_names(1,4) n'(2), where hlp = "Some ''Path to yaml config''" and mv = "Some ''FILE''"] by blast
  obtain c4 m4 where 4: "rapp_config_opt_add ''core'' ''confd'' PARAM_STRING (Some ''Path to directory to scan for config'') (Some ''DIR'') c3 m3 = (0, c4, m4)"
    "declares c3 m3 ?m4 c4 m4"
    using add_declares[OF declaresD[OF 3(2)] core_names(1,5) n'(3), where hlp = "Some ''Path to directory to scan for config''" and mv = "Some ''DIR''"] by blast
  have all: "?m4 = options_of conf ++ core_added" unfolding core_added_def by (rule ext) (simp add: map_add_def)
  show thesis
    by (rule that[OF 1(1) 2(1) 3(1) 4(1)], unfold all[symmetric])
      (rule declares_trans[OF 1(2) declares_trans[OF 2(2) declares_trans[OF 3(2) 4(2)]]])
qed

lemma core_declared:
  assumes mem: "answers m = []" and new: "dom (options_of conf) \<inter> dom core_options = {}"
  obtains conf' m' where "declare_core_options conf m = (conf', m')"
    "declares conf m (options_of conf ++ core_options) conf' m'"
proof -
  let ?a = "declared PARAM_STRING (Some ''Address to listen to'') ''address'' None"
    and ?p = "declared PARAM_INT (Some ''Port'') ''port'' None"
    and ?c = "declared PARAM_STRING (Some ''Path to yaml config'') ''config'' (Some ''FILE'')"
    and ?d = "declared PARAM_STRING (Some ''Path to directory to scan for config'') ''confd'' (Some ''DIR'')"
  let ?range = "\<lambda>x :: ConfigOption. x\<lparr>opt_value_min := 0, opt_value_max := 65535, opt_range_set := True\<rparr>"
  let ?at = "\<lambda>mp n x. mp((''core'', n) \<mapsto> x) :: string \<times> string \<rightharpoonup> ConfigOption"
  let ?m4 = "options_of conf ++ core_added"
  let ?m5 = "?at ?m4 ''port'' (?range ?p)"
  let ?m6 = "?at ?m5 ''address'' (?a\<lparr>opt_default_value := DefStr (Some ''127.0.0.1''), opt_default_set := True\<rparr>)"
  let ?m7 = "?at ?m6 ''port'' ((?range ?p)\<lparr>opt_default_value := DefInt 8080, opt_default_set := True\<rparr>)"
  let ?m8 = "?at ?m7 ''config'' (?c\<lparr>opt_multivalued := 1\<rparr>)"
  let ?m9 = "?at ?m8 ''confd'' (?d\<lparr>opt_multivalued := 1\<rparr>)"
  have at: "?m4 (''core'', ''port'') = Some ?p" "?m5 (''core'', ''address'') = Some ?a"
    "?m7 (''core'', ''config'') = Some ?c" "?m8 (''core'', ''confd'') = Some ?d"
    by (simp_all add: core_added_def)
  from core_options_added[OF assms] obtain c1 m1 c2 m2 c3 m3 c4 m4 where added:
    "rapp_config_opt_add ''core'' ''address'' PARAM_STRING (Some ''Address to listen to'') None conf m = (0, c1, m1)"
    "rapp_config_opt_add ''core'' ''port'' PARAM_INT (Some ''Port'') None c1 m1 = (0, c2, m2)"
    "rapp_config_opt_add ''core'' ''config'' PARAM_STRING (Some ''Path to yaml config'') (Some ''FILE'') c2 m2 = (0, c3, m3)"
    "rapp_config_opt_add ''core'' ''confd'' PARAM_STRING (Some ''Path to directory to scan for config'') (Some ''DIR'') c3 m3 =
      (0, c4, m4)" and 4: "declares conf m ?m4 c4 m4" by blast
  obtain c5 where 5: "rapp_config_opt_set_range_int ''core'' ''port'' 0 65535 c4 = (0, c5)" "declares c4 m4 ?m5 c5 m4"
    using range_declares[OF declaresD[OF 4] at(1) declared_type(1), of 0 65535] by auto
  obtain c6 m6 where 6: "rapp_config_opt_set_default_string ''core'' ''address'' (Some ''127.0.0.1'') c5 m4 = (0, c6, m6)"
    "declares c5 m4 ?m6 c6 m6"
    using default_string_declares[OF declaresD[OF 5(2)] at(2) declared_type(1,2), of "''127.0.0.1''"] by blast
  obtain c7 where 7: "rapp_config_opt_set_default_int ''core'' ''port'' 8080 c6 = (0, c7)" "declares c6 m6 ?m7 c7 m6"
    using default_int_declares[OF declaresD[OF 6(2)], of "''core''" "''port''" "?range ?p" 8080]
    by (auto simp: declared_type)
  obtain c8 where 8: "rapp_config_opt_set_multivalued ''core'' ''config'' 1 c7 = (0, c8)" "declares c7 m6 ?m8 c8 m6"
    using multivalued_declares[OF declaresD[OF 7(2)] at(3), of 1] by blast
  obtain c9 where 9: "rapp_config_opt_set_multivalued ''core'' ''confd'' 1 c8 = (0, c9)" "declares c8 m6 ?m9 c9 m6"
    using multivalued_declares[OF declaresD[OF 8(2)] at(4), of 1] by blast
  have all: "?m9 = options_of conf ++ core_options"
    unfolding core_options_def core_added_def by (rule ext) (simp add: map_add_def)
  have "declare_core_options conf m = (c9, m6)"
    by (simp add: declare_core_options_def added 5(1) 6(1) 7(1) 8(1) 9(1))
  moreover have "declares conf m ?m9 c9 m6"
    by (rule declares_trans[OF 4 declares_trans[OF 5(2) declares_trans[OF 6(2) declares_trans[OF 7(2)
      declares_trans[OF 8(2) 9(2)]]]]])
  ultimately show thesis unfolding all by (rule that)
qed

text \<open>Without values, the program listens where the defaults say.\<close>

lemma listen_default:
  assumes at: "options_of conf (''core'', ''port'') = core_options (''core'', ''port'')"
    "options_of conf (''core'', ''address'') = core_options (''core'', ''address'')" and mem: "answers m = []"
  shows "\<exists>m'. listen_address conf m = Some (''127.0.0.1'', 8080, m')"
proof -
  note lookup = at[unfolded core_options_def, simplified]
  have port: "rapp_config_get_nth_int conf ''core'' ''port'' 0 = Some (0, Some 8080)"
    by (rule default_int_read[OF lookup(1)]) (simp_all add: declared_def opt_setup_values_def)
  have "rapp_config_get_nth_string conf ''core'' ''address'' 0 m =
      (let (v, m) = memory_strdup ''127.0.0.1'' m in Some (0, v, m))"
    by (rule default_string_read[OF lookup(2)]) (simp_all add: declared_def opt_setup_values_def)
  with port mem show ?thesis by (simp add: listen_address_def)
qed

text \<open>
  C24: The options of the program are declared beside those of the container, whatever these are: as a map from
  section and name, the store afterwards is the store before extended by exactly the four options of
  \<open>core\<close>, with their types, ranges and defaults.  Until a source gives a value the program would listen on
  127.0.0.1, port 8080.
\<close>

theorem core_options_declared:
  assumes "answers m = []" "dom (options_of conf) \<inter> dom core_options = {}"
  shows "\<exists>conf' m' m''. declare_core_options conf m = (conf', m') \<and>
    options_of conf' = options_of conf ++ core_options \<and>
    listen_address conf' m' = Some (''127.0.0.1'', 8080, m'')"
proof -
  obtain conf' m' where d: "declare_core_options conf m = (conf', m')" "answers m' = []"
    "options_of conf' = options_of conf ++ core_options"
    using core_declared[OF assms] declaresD by metis
  have "options_of conf' (''core'', ''port'') = core_options (''core'', ''port'')"
    "options_of conf' (''core'', ''address'') = core_options (''core'', ''address'')"
    by (simp_all add: d(3) core_options_def)
  from listen_default[OF this d(2)] d show ?thesis by blast
qed

theorem core_options_declared_witness:
  "\<exists>conf' m' m''. declare_core_options \<lparr>cf_num_sections = 0, cf_options_map = None, cf_options = None,
      cf_num_argp_options = 0, cf_sections = []\<rparr> mem0 = (conf', m') \<and>
    listen_address conf' m' = Some (''127.0.0.1'', 8080, m'')"
proof -
  let ?conf = "\<lparr>cf_num_sections = 0, cf_options_map = None, cf_options = None,
      cf_num_argp_options = 0, cf_sections = []\<rparr>"
  have "dom (options_of ?conf) \<inter> dom core_options = {}"
    by (simp add: options_of_def GET_OPTION_def config_section_find_def dom_def)
  from core_options_declared[OF answers_mem0 this] show ?thesis by blast
qed

section \<open>What a source must keep\<close>

text \<open>An option is fixed when it has its one value and is marked as not to be overridden.\<close>

definition fixed :: "ConfigOption \<Rightarrow> bool" where
  "fixed opt \<longleftrightarrow> opt_no_override opt \<and> opt_multivalued opt = 0 \<and> 0 < opt_num_values opt"

definition keeps_fixed :: "RappConfig \<Rightarrow> RappConfig \<Rightarrow> bool" where
  "keeps_fixed conf conf' \<longleftrightarrow> (\<forall>s n. GET_OPTION conf' s n = GET_OPTION conf s n) \<and>
     (\<forall>r. valid_ref conf r \<longrightarrow> valid_ref conf' r \<and> (fixed (opt_at conf r) \<longrightarrow> opt_at conf' r = opt_at conf r))"

lemma keeps_fixed_refl [simp, intro]: "keeps_fixed conf conf" by (simp add: keeps_fixed_def)

lemma keeps_fixed_trans [trans]:
  "keeps_fixed conf conf1 \<Longrightarrow> keeps_fixed conf1 conf2 \<Longrightarrow> keeps_fixed conf conf2"
  by (auto simp: keeps_fixed_def)

lemma keeps_fixedD:
  "keeps_fixed conf conf' \<Longrightarrow> GET_OPTION conf' s n = GET_OPTION conf s n"
  "keeps_fixed conf conf' \<Longrightarrow> valid_ref conf r \<Longrightarrow> valid_ref conf' r"
  "keeps_fixed conf conf' \<Longrightarrow> valid_ref conf r \<Longrightarrow> fixed (opt_at conf r) \<Longrightarrow> opt_at conf' r = opt_at conf r"
  unfolding keeps_fixed_def by blast+

lemma keeps_fixed_put:
  assumes "valid_ref conf r" "opt_name opt = opt_name (opt_at conf r)" "fixed (opt_at conf r) \<Longrightarrow> opt = opt_at conf r"
  shows "keeps_fixed conf (put_opt r opt conf)"
  using assms by (auto simp: keeps_fixed_def GET_OPTION_put) (metis opt_at_put opt_at_put_other)

definition keeps_store :: "RappConfig \<Rightarrow> RappConfig \<Rightarrow> bool" where
  "keeps_store conf conf' \<longleftrightarrow> keeps_fixed conf conf' \<and> config_wf conf' \<and>
     length (cf_sections conf') = length (cf_sections conf)"

lemma keeps_store_refl [simp]: "keeps_store conf conf \<longleftrightarrow> config_wf conf" by (auto simp: keeps_store_def)

lemma keeps_store_trans: "keeps_store conf conf1 \<Longrightarrow> keeps_store conf1 conf2 \<Longrightarrow> keeps_store conf conf2"
  by (auto simp: keeps_store_def intro: keeps_fixed_trans)

lemma keeps_store_put:
  assumes "config_wf conf" "valid_ref conf r" "opt_wf opt" "opt_name opt = opt_name (opt_at conf r)"
    and "fixed (opt_at conf r) \<Longrightarrow> opt = opt_at conf r"
  shows "keeps_store conf (put_opt r opt conf)"
  using keeps_fixed_put[OF assms(2,4,5)] put_opt_wf[OF assms(1,3,2)]
  by (simp add: keeps_store_def put_opt_def Let_def)

text \<open>A source of values for a store.\<close>

locale value_source =
  fixes source :: "RappConfig \<Rightarrow> mem \<Rightarrow> (int \<times> RappConfig \<times> mem) option"
  assumes source_keeps: "config_wf conf \<Longrightarrow> source conf m = Some (ret, conf', m') \<Longrightarrow> keeps_store conf conf'"
begin

text \<open>A fixed option reads the same after the source, whatever the source says and however it ends.\<close>

lemma read_after_source:
  assumes "config_wf conf" "source conf m = Some (ret, conf', m')"
    and "GET_OPTION conf s n = Some r" "fixed (opt_at conf r)"
  shows "rapp_config_get_nth_int conf' s n i = rapp_config_get_nth_int conf s n i"
    "rapp_config_get_nth_string conf' s n i m1 = rapp_config_get_nth_string conf s n i m1"
proof -
  have same: "GET_OPTION conf' s n = Some r" "opt_at conf' r = opt_at conf r"
    using keeps_fixedD source_keeps[OF assms(1,2)] assms(3,4) GET_OPTION_valid[OF assms(3)]
    unfolding keeps_store_def by metis+
  show "rapp_config_get_nth_int conf' s n i = rapp_config_get_nth_int conf s n i"
    by (simp add: rapp_config_get_nth_int_def assms(3) same)
  show "rapp_config_get_nth_string conf' s n i m1 = rapp_config_get_nth_string conf s n i m1"
    by (simp add: rapp_config_get_nth_string_def assms(3) same)
qed

end

section \<open>The environment\<close>

definition same_option :: "ConfigOption \<Rightarrow> ConfigOption \<Rightarrow> bool" where
  "same_option opt opt' \<longleftrightarrow> opt_name opt' = opt_name opt \<and> (opt_no_override opt \<longrightarrow> opt' = opt)"

definition same_section :: "ConfigSection \<Rightarrow> ConfigSection \<Rightarrow> bool" where
  "same_section sect sect' \<longleftrightarrow> sect_name sect' = sect_name sect \<and>
     list_all2 same_option (sect_options sect) (sect_options sect')"

lemma index_of_list_all2:
  "list_all2 R xs ys \<Longrightarrow> (\<And>x y. R x y \<Longrightarrow> P y = P x) \<Longrightarrow> index_of P ys = index_of P xs"
  by (induction rule: list_all2_induct) auto

lemma same_sections_keep:
  assumes "list_all2 same_section (cf_sections conf) (cf_sections conf')"
  shows "keeps_fixed conf conf'"
proof -
  let ?ss = "cf_sections conf" and ?ss' = "cf_sections conf'"
  have len: "length ?ss' = length ?ss" using assms by (simp add: list_all2_lengthD)
  have sect: "same_section (?ss ! i) (?ss' ! i)" if "i < length ?ss" for i
    using list_all2_nthD[OF assms that] .
  have find: "config_section_find conf' s = config_section_find conf s" for s
    unfolding config_section_find_def by (rule index_of_list_all2[OF assms]) (simp add: same_section_def)
  have "GET_OPTION_FROM_SECT (?ss' ! i) n = GET_OPTION_FROM_SECT (?ss ! i) n" if "i < length ?ss" for i n
    unfolding GET_OPTION_FROM_SECT_def
    by (rule index_of_list_all2[of same_option]) (use sect[OF that] in \<open>auto simp: same_section_def same_option_def\<close>)
  then have get: "GET_OPTION conf' s n = GET_OPTION conf s n" for s n
    unfolding GET_OPTION_def find
    by (auto simp: config_section_find_def dest: index_of_Some split: option.split)
  have "valid_ref conf' r \<and> (fixed (opt_at conf r) \<longrightarrow> opt_at conf' r = opt_at conf r)"
    if "valid_ref conf r" for r
  proof -
    have r: "fst r < length ?ss" "snd r < length (sect_options (?ss ! fst r))"
      using that by (simp_all add: valid_ref_def)
    then have "list_all2 same_option (sect_options (?ss ! fst r)) (sect_options (?ss' ! fst r))"
      using sect by (simp add: same_section_def)
    from list_all2_nthD[OF this r(2)] list_all2_lengthD[OF this] r len show ?thesis
      by (simp add: valid_ref_def opt_at_def same_option_def fixed_def)
  qed
  with get show ?thesis unfolding keeps_fixed_def by blast
qed

lemma read_env_options_same:
  "read_env_options getenv sect opts m = (opts', m') \<Longrightarrow> \<forall>opt \<in> set opts. opt_wf opt \<Longrightarrow>
     list_all2 same_option opts opts'"
proof (induction opts arbitrary: opts' m m')
  case (Cons opt opts)
  obtain r opt1 m1 where o: "get_env_for_opt getenv sect opt m = (r, opt1, m1)"
    by (cases "get_env_for_opt getenv sect opt m")
  obtain opts1 m2 where os: "read_env_options getenv sect opts m1 = (opts1, m2)" by fastforce
  have "opt_name opt1 = opt_name opt"
    using env_opt_balanced[OF _ o] Cons.prems(2) by (simp add: balanced_option_def)
  moreover have "opt_no_override opt \<longrightarrow> opt1 = opt" using o by (auto simp: get_env_for_opt_def)
  ultimately show ?case using Cons.IH[OF os] Cons.prems o os by (auto simp: same_option_def)
qed simp

lemma read_env_sections_same:
  "read_env_sections getenv ss m = (ss', m') \<Longrightarrow> \<forall>sect \<in> set ss. section_wf sect \<Longrightarrow>
     list_all2 same_section ss ss'"
proof (induction ss arbitrary: ss' m m')
  case (Cons s ss)
  obtain opts m1 where o: "read_env_options getenv (sect_name s) (sect_options s) m = (opts, m1)" by fastforce
  obtain ss1 m2 where rest: "read_env_sections getenv ss m1 = (ss1, m2)" by fastforce
  have "\<forall>opt \<in> set (sect_options s). opt_wf opt" using Cons.prems(2) by (simp add: section_wf_def)
  from read_env_options_same[OF o this] Cons.IH[OF rest] Cons.prems o rest show ?case
    by (auto simp: same_section_def)
qed simp

lemma read_env_keeps_store:
  assumes wf: "config_wf conf" and read: "config_read_env getenv conf m = (ret, conf', m')"
  shows "keeps_store conf conf'"
proof -
  obtain ss where ss: "read_env_sections getenv (cf_sections conf) m = (ss, m')" "conf' = conf\<lparr>cf_sections := ss\<rparr>"
    using read by (auto simp: config_read_env_def split: prod.splits)
  have "list_all2 same_section (cf_sections conf) (cf_sections conf')"
    using read_env_sections_same[OF ss(1)] wf ss(2) by (simp add: config_wf_sections)
  with read_env_keeps[OF wf read] show ?thesis
    by (simp add: keeps_store_def same_sections_keep list_all2_lengthD)
qed

interpretation environment: value_source "\<lambda>conf m. Some (config_read_env getenv conf m)" for getenv
  by unfold_locales (simp add: read_env_keeps_store)

section \<open>Configuration files\<close>

lemma yaml_scalar_fixed:
  "opt_no_override opt \<Longrightarrow> config_set_value_from_yaml_scalar v opt m = (0, opt, m)"
  by (simp add: config_set_value_from_yaml_scalar_def)

lemma yaml_list_fixed:
  "opt_no_override opt \<Longrightarrow> yaml_list_loop t ts opt m = (ret, opt', m', ts') \<Longrightarrow> opt' = opt"
proof (induction t ts opt m rule: yaml_list_loop.induct)
  case (1 t ts opt m)
  show ?case
  proof (cases "list_token t")
    case True
    obtain t1 ts1 where t1: "(if \<not> is_scalar t then yaml_parser_scan ts else (t, ts)) = (t1, ts1)" by fastforce
    obtain t2 ts2 where t2: "yaml_parser_scan ts1 = (t2, ts2)" by fastforce
    note s = yaml_scalar_fixed[OF 1(2), of "scalar_value t1" m]
    show ?thesis
    proof (cases "is_scalar t1")
      case False
      with 1(3) True t1 show ?thesis by (simp add: yaml_list_loop.simps[of t])
    next
      case sc: True
      then have "yaml_list_loop t2 ts2 opt m = (ret, opt', m', ts')"
        using 1(3) True t1 s t2 by (simp add: yaml_list_loop.simps[of t])
      then show ?thesis
        using 1(1)[OF True t1[symmetric] refl _ s[symmetric] refl refl _ t2[symmetric] refl] sc 1(2) by simp
    qed
  next
    case False
    with 1(3) show ?thesis by (auto simp: yaml_list_loop.simps[of t] split: if_splits)
  qed
qed

lemma yaml_value_keeps:
  assumes "opt_wf opt" "yaml_parse_value opt ts m = Some (ret, opt', m', ts')"
  shows "balanced_option opt m opt' m' \<and> (opt_no_override opt \<longrightarrow> opt' = opt)"
proof -
  obtain t us where t: "yaml_parser_scan ts = (t, us)" by fastforce
  show ?thesis
  proof (cases "\<not> is_scalar t \<and> t \<noteq> YAML_BLOCK_SEQUENCE_START_TOKEN \<and> t \<noteq> YAML_FLOW_SEQUENCE_START_TOKEN")
    case True
    with assms t show ?thesis by (auto simp: yaml_parse_value_def balanced_option_def)
  next
    case False
    let ?remove = "if \<not> opt_no_override opt then config_option_remove_all_values opt m else Some (opt, m)"
    obtain opt1 m1 where one: "?remove = Some (opt1, m1)" "balanced_option opt m opt1 m1"
      "opt_no_override opt \<longrightarrow> opt1 = opt"
      using remove_all_result[OF assms(1), of m] assms(1)
      by (cases "opt_no_override opt") (auto simp: balanced_option_def)
    then have wf: "opt_wf opt1" by (simp add: balanced_option_def)
    let ?list = "t = YAML_BLOCK_SEQUENCE_START_TOKEN \<or> t = YAML_FLOW_SEQUENCE_START_TOKEN"
    have res: "(if ?list
        then (let (ret, opt, m, ts) = config_set_value_from_yaml_list opt1 us m1 in (if ret \<noteq> 0 then -1 else 0, opt, m, ts))
        else (let (ret, opt, m) = config_set_value_from_yaml_scalar (scalar_value t) opt1 m1 in
          (if ret \<noteq> 0 then -1 else 0, opt, m, us))) = (ret, opt', m', ts')"
      using assms(2) False t one(1) by (simp add: yaml_parse_value_def split del: if_split)
    have "balanced_option opt1 m1 opt' m' \<and> (opt_no_override opt1 \<longrightarrow> opt' = opt1)"
    proof (cases ?list)
      case True
      obtain a b where "yaml_parser_scan us = (a, b)" by fastforce
      with res True wf show ?thesis
        by (auto simp: config_set_value_from_yaml_list_def balanced_option_def
            dest: list_loop_balanced[unfolded balanced_option_def] yaml_list_fixed split: if_splits prod.splits)
    next
      case False
      obtain r opt2 m2 where s: "config_set_value_from_yaml_scalar (scalar_value t) opt1 m1 = (r, opt2, m2)"
        by (cases "config_set_value_from_yaml_scalar (scalar_value t) opt1 m1")
      from scalar_balanced[OF wf s] yaml_scalar_fixed[of opt1 "scalar_value t" m1] res False s show ?thesis by auto
    qed
    with one(2,3) show ?thesis by (metis balanced_trans)
  qed
qed

lemma yaml_key_value_keeps:
  assumes wf: "config_wf conf" and i: "i < length (cf_sections conf)"
    and res: "yaml_parse_key_value i conf ts m = Some (ret, is_end, conf', m', ts')"
  shows "keeps_store conf conf'"
proof (cases "conf' = conf")
  case False
  obtain nm j us m1 ret1 opt m2 where r: "GET_OPTION_FROM_SECT (cf_sections conf ! i) nm = Some j"
    "yaml_parse_value (opt_at conf (i, j)) us m1 = Some (ret1, opt, m2, ts')" "conf' = put_opt (i, j) opt conf"
    using res False
    by (auto simp: yaml_parse_key_value_def Let_def split: prod.splits if_splits option.splits Option.bind_splits)
  have v: "valid_ref conf (i, j)"
    using r(1) i by (auto simp: valid_ref_def GET_OPTION_FROM_SECT_def dest: index_of_Some)
  from yaml_value_keeps[OF opt_at_wf[OF wf v] r(2)] show ?thesis
    unfolding r(3) by (intro keeps_store_put[OF wf v]) (simp_all add: balanced_option_def fixed_def)
qed (simp add: wf)

lemma yaml_section_loop_keeps:
  assumes loop: "yaml_section_loop i conf ts m = Some res"
  shows "config_wf conf \<longrightarrow> i < length (cf_sections conf) \<longrightarrow> keeps_store conf (fst (snd res))"
proof (rule yaml_section_loop.raw_induct
    [where P = "\<lambda>i conf ts m res. config_wf conf \<longrightarrow> i < length (cf_sections conf) \<longrightarrow> keeps_store conf (fst (snd res))",
     OF _ loop], intro impI, goal_cases)
  case (1 f i conf ts m res)
  obtain ret is_end conf1 m1 ts1 where kv: "yaml_parse_key_value i conf ts m = Some (ret, is_end, conf1, m1, ts1)"
    using 1(2) by (cases "yaml_parse_key_value i conf ts m") auto
  have k: "keeps_store conf conf1" by (rule yaml_key_value_keeps[OF 1(3,4) kv])
  show ?case
  proof (cases "ret = 0")
    case True
    then have "f i conf1 ts1 m1 = Some res" using 1(2) kv by simp
    from 1(1)[OF this] k 1(4) show ?thesis by (auto simp: keeps_store_def intro: keeps_fixed_trans)
  next
    case False
    then show ?thesis using 1(2) kv k by auto
  qed
qed

lemma yaml_section_keeps:
  assumes "config_wf conf" "yaml_parse_section s conf ts m = Some (ret, conf', m', ts')"
  shows "keeps_store conf conf'"
proof (cases "conf' = conf")
  case False
  obtain i us where "config_section_get conf s = Some i" "yaml_section_loop i conf us m = Some (ret, conf', m', ts')"
    using assms(2) False
    by (auto simp: yaml_parse_section_def Let_def split: prod.splits if_splits option.splits)
  with assms(1) show ?thesis
    using yaml_section_loop_keeps[of i conf us m] by (force simp: config_section_get_def dest: index_of_Some)
qed (simp add: assms(1))

lemma yaml_main_loop_keeps:
  assumes loop: "yaml_main_loop conf ts m = Some res"
  shows "config_wf conf \<longrightarrow> keeps_store conf (fst (snd res))"
proof (rule yaml_main_loop.raw_induct
    [where P = "\<lambda>conf ts m res. config_wf conf \<longrightarrow> keeps_store conf (fst (snd res))", OF _ loop],
    intro impI, goal_cases)
  case (1 f conf ts m res)
  obtain t us where t: "yaml_parser_scan ts = (t, us)" by fastforce
  obtain u vs where u: "yaml_parser_scan us = (u, vs)" by fastforce
  show ?case
  proof (cases "fst (snd res) = conf")
    case False
    obtain ret conf1 m1 ts1 where s: "yaml_parse_section (scalar_value u) conf vs m = Some (ret, conf1, m1, ts1)"
      "if ret \<noteq> 0 then fst (snd res) = conf1 else f conf1 ts1 m1 = Some res"
      using 1(2) t u False by (auto split: if_splits option.splits)
    note k = yaml_section_keeps[OF 1(3) s(1)]
    then show ?thesis using s(2) 1(1)[of conf1 ts1 m1]
      by (auto simp: keeps_store_def intro: keeps_fixed_trans split: if_splits)
  qed (simp add: 1(3))
qed

lemma config_parse_keeps:
  assumes "config_wf conf" "config_parse yw path conf m = Some (ret, conf', m')"
  shows "keeps_store conf conf'"
proof -
  have "keeps_store conf conf'" if "config_parse_main conf ts m = Some (ret, conf', m')" for ts
    using that assms(1) yaml_main_loop_keeps[of conf _ m "(ret, conf', m')"]
    by (auto simp: config_parse_main_def split: prod.splits if_splits)
  with assms show ?thesis by (auto simp: config_parse_def split: option.splits)
qed

lemma scan_entries_keeps:
  "scan_entries yw dir ext names conf m = Some (ret, conf', m') \<Longrightarrow> config_wf conf \<Longrightarrow> keeps_store conf conf'"
proof (induction names arbitrary: conf m)
  case (Cons d ds)
  show ?case
  proof (cases "endswith d ext = 0")
    case True
    obtain r conf1 m1 where p: "config_parse yw (snprintf (length dir + length d + 2) (dir @ ''/'' @ d)) conf m = Some (r, conf1, m1)"
      using Cons.prems(1) True by (auto simp: Let_def split: if_splits Option.bind_splits)
    have k: "keeps_store conf conf1" by (rule config_parse_keeps[OF Cons.prems(2) p])
    show ?thesis
    proof (cases "r = 0")
      case r0: True
      then have "scan_entries yw dir ext ds conf1 (lib_free 1 m1) = Some (ret, conf', m')"
        using Cons.prems(1) True p by (simp add: Let_def split: if_splits)
      from Cons.IH[OF this] k show ?thesis using keeps_store_trans by (auto simp: keeps_store_def)
    next
      case False
      then show ?thesis using Cons.prems(1) True p k by (simp add: Let_def split: if_splits)
    qed
  next
    case False
    then show ?thesis using Cons by simp
  qed
qed simp

lemma scan_directory_keeps:
  "config_wf conf \<Longrightarrow> config_scan_directory yw dir ext conf m = Some (ret, conf', m') \<Longrightarrow> keeps_store conf conf'"
  by (auto simp: config_scan_directory_def dest: scan_entries_keeps split: option.splits)

text \<open>A source for every path, read one path after the other.\<close>

locale path_source =
  fixes parse :: "string \<Rightarrow> RappConfig \<Rightarrow> mem \<Rightarrow> (int \<times> RappConfig \<times> mem) option"
  assumes each_path: "value_source (parse path)"
begin

lemma read_paths_keeps:
  "read_paths parse name is conf m = Some (ret, conf', m') \<Longrightarrow> config_wf conf \<Longrightarrow> keeps_store conf conf'"
proof (induction "is" arbitrary: conf m)
  case (Cons i "is")
  obtain r confpath m1 where n: "rapp_config_get_nth_string conf ''core'' name (int i) m = Some (r, confpath, m1)"
    using Cons.prems(1) by (auto split: Option.bind_splits)
  show ?case
  proof (cases "r = 0")
    case True
    obtain path res conf1 m2 where p: "parse path conf m1 = Some (res, conf1, m2)"
      "if res \<noteq> 0 then conf' = conf1
       else read_paths parse name is conf1 (memory_destroy confpath m2) = Some (ret, conf', m')"
      using Cons.prems(1) n True by (auto simp: Let_def split: Option.bind_splits if_splits)
    note k = value_source.source_keeps[OF each_path Cons.prems(2) p(1)]
    then show ?thesis using p(2) Cons.IH[of conf1 "memory_destroy confpath m2"]
      by (auto simp: keeps_store_def intro: keeps_fixed_trans split: if_splits)
  next
    case False
    then show ?thesis using Cons.prems n by simp
  qed
qed simp

end

interpretation config_file: path_source "config_parse yw" for yw
  by unfold_locales (rule config_parse_keeps)

interpretation config_directory: path_source "\<lambda>path. config_scan_directory yw path ext" for yw ext
  by unfold_locales (rule scan_directory_keeps)

lemma read_files_keeps:
  assumes "config_wf conf" "read_files yw conf m = Some (ret, conf', m')"
  shows "keeps_store conf conf'"
proof -
  obtain num where num: "snd (rapp_config_get_num_values conf ''core'' ''confd'') = Some num"
    using assms(2) by (auto simp: read_files_def split: Option.bind_splits)
  let ?dirs = "read_paths (\<lambda>path. config_scan_directory yw path (Some ''.yaml'')) ''confd'' [0..<nat num] conf m"
  obtain r conf1 m1 where dirs: "?dirs = Some (r, conf1, m1)"
    using assms(2) num by (cases ?dirs) (auto simp: read_files_def)
  have rest: "conf' = conf1 \<or> (\<exists>n. read_paths (config_parse yw) ''config'' [0..<n] conf1 m1 = Some (ret, conf', m'))"
    using assms(2) num dirs by (auto simp: read_files_def Let_def split: if_splits)
  have k: "keeps_store conf conf1"
    by (rule config_directory.read_paths_keeps[OF dirs assms(1)])
  then have "config_wf conf1" by (simp add: keeps_store_def)
  with rest k show ?thesis
    using config_file.read_paths_keeps keeps_store_trans by blast
qed

interpretation config_files: value_source "read_files yw" for yw
  by unfold_locales (rule read_files_keeps)

section \<open>The command line\<close>

text \<open>The table the second parser gets, and the key of an option in it.\<close>

definition command_table :: "RappConfig \<Rightarrow> argp_option list" where
  "command_table conf = map fst (section_rows 0 0 (cf_sections conf)) @
     map (\<lambda>e. e\<lparr>ao_doc_only := False\<rparr>) rappoptions @ [argp_zero]"

definition option_position :: "ConfigSection list \<Rightarrow> opt_ref \<Rightarrow> nat" where
  "option_position ss r = sum_list (map (\<lambda>s. length (sect_options s) + 1) (take (fst r) ss)) + 1 + snd r"

definition option_key :: "RappConfig \<Rightarrow> opt_ref \<Rightarrow> int" where
  "option_key conf r = int (option_position (cf_sections conf) r) + ARG_INDEX_OFFSET"

lemma option_rows_ref:
  "n < length opts \<Longrightarrow> snd (option_rows i j index s opts ! n) = Some (i, j + n)"
  by (simp add: option_rows_nth)

lemma section_rows_ref:
  "n < length (section_rows i index ss) \<Longrightarrow> snd (section_rows i index ss ! n) = Some r \<Longrightarrow>
     i \<le> fst r \<and> fst r - i < length ss \<and> snd r < length (sect_options (ss ! (fst r - i))) \<and>
     n = option_position ss (fst r - i, snd r)"
proof (induction ss arbitrary: i index n)
  case (Cons s ss)
  let ?k = "length (sect_options s)"
  have "n \<noteq> 0" using Cons.prems(2) by (cases n) auto
  then obtain n' where n: "n = Suc n'" by (cases n) auto
  show ?case
  proof (cases "n' < ?k")
    case True
    then have "r = (i, n')" using Cons.prems(2) n by (simp add: nth_append option_rows_ref)
    then show ?thesis using True n by (simp add: option_position_def)
  next
    case False
    let ?rest = "section_rows (Suc i) (Suc index + ?k) ss"
    have "n' - ?k < length ?rest" "snd (?rest ! (n' - ?k)) = Some r"
      using Cons.prems n False by (auto simp: nth_append)
    from Cons.IH[OF this] have r: "Suc i \<le> fst r" "fst r - Suc i < length ss"
      "snd r < length (sect_options (ss ! (fst r - Suc i)))" "n' - ?k = option_position ss (fst r - Suc i, snd r)"
      by auto
    then have "fst r - i = Suc (fst r - Suc i)" by simp
    with r n False show ?thesis by (simp add: option_position_def)
  qed
qed simp

lemma from_string_fixed:
  "fixed opt \<Longrightarrow> config_add_value_from_string v opt m = (ret, opt', m') \<Longrightarrow> opt' = opt"
  by (auto simp: fixed_def config_add_value_from_string_def opt_add_value_int_def opt_add_value_string_def Let_def
      split: RappConfigParamType.splits prod.splits if_splits)

lemma fixed_again: "fixed opt \<Longrightarrow> opt\<lparr>opt_no_override := True\<rparr> = opt"
  by (simp add: fixed_def)

definition parsing :: "opt_ref option list \<Rightarrow> nat \<Rightarrow> RappConfig \<Rightarrow> bool" where
  "parsing mp num conf \<longleftrightarrow> config_wf conf \<and> cf_options_map conf = Some mp \<and> cf_num_argp_options conf = num \<and>
     (\<forall>r. Some r \<in> set mp \<longrightarrow> valid_ref conf r)"

lemma put_opt_fields [simp]:
  "cf_options_map (put_opt r opt conf) = cf_options_map conf"
  "cf_num_argp_options (put_opt r opt conf) = cf_num_argp_options conf"
  by (simp_all add: put_opt_def Let_def)

lemma parsing_put:
  assumes "parsing mp num conf" "Some r \<in> set mp" "opt_wf opt" "opt_name opt = opt_name (opt_at conf r)"
    and "fixed (opt_at conf r) \<Longrightarrow> opt = opt_at conf r"
  shows "parsing mp num (put_opt r opt conf) \<and> keeps_store conf (put_opt r opt conf)"
proof -
  have "config_wf conf" "valid_ref conf r" using assms(1,2) unfolding parsing_def by blast+
  from keeps_store_put[OF this assms(3,4,5)] show ?thesis
    using assms(1) by (simp add: parsing_def keeps_store_def)
qed

text \<open>One key of the command line.\<close>

lemma parse_key_keeps:
  assumes inv: "parsing mp num conf" and res: "parse_commandline_opt key arg (conf, m) = Some (ret, conf', m')"
  shows "parsing mp num conf' \<and> keeps_store conf conf' \<and>
    (\<forall>r. \<not> (\<exists>n < length mp. mp ! n = Some r \<and> key = int n + ARG_INDEX_OFFSET) \<longrightarrow>
       opt_at conf' r = opt_at conf r)"
proof (cases "conf' = conf")
  case True
  then show ?thesis using inv by (simp add: parsing_def)
next
  case False
  let ?n = "nat (key - ARG_INDEX_OFFSET)"
  obtain r v ret1 opt m1 where c: "?n < length mp" "mp ! ?n = Some r" "0 \<le> key - ARG_INDEX_OFFSET"
    "config_add_value_from_string v (opt_at conf r) m = (ret1, opt, m1)"
    "conf' = put_opt r opt conf \<or> conf' = put_opt r (opt\<lparr>opt_no_override := True\<rparr>) conf"
    using res False inv
    by (auto simp: parse_commandline_opt_def parsing_def Let_def split: if_splits option.splits prod.splits)
  have mem: "Some r \<in> set mp" using c(1,2) nth_mem by metis
  then have v: "valid_ref conf r" and wf: "opt_wf (opt_at conf r)"
    using inv opt_at_wf unfolding parsing_def by blast+
  have opt: "opt_wf opt" "opt_name opt = opt_name (opt_at conf r)"
    using text_balanced[OF wf c(4)] by (simp_all add: balanced_option_def)
  have same: "opt = opt_at conf r" if "fixed (opt_at conf r)" using from_string_fixed[OF that c(4)] .
  have "parsing mp num conf' \<and> keeps_store conf conf'"
    using c(5) parsing_put[OF inv mem opt same]
      parsing_put[OF inv mem, of "opt\<lparr>opt_no_override := True\<rparr>"] opt same fixed_again by auto
  moreover have "opt_at conf' r' = opt_at conf r'"
    if "\<not> (\<exists>n < length mp. mp ! n = Some r' \<and> key = int n + ARG_INDEX_OFFSET)" for r'
  proof -
    have other: "r' \<noteq> r" using that c(1-3) by auto
    from c(5) show ?thesis using opt_at_put_other[OF other v] by (elim disjE) simp_all
  qed
  ultimately show ?thesis by blast
qed

text \<open>The keys that are handed to the parser.\<close>

fun event_keys :: "argp_event list \<Rightarrow> int list" where
  "event_keys [] = []"
| "event_keys (Argp_key key arg # es) = key # event_keys es"
| "event_keys (Argp_exit status # es) = event_keys es"

lemma parse_keys_keep:
  "argp_run fl parse_commandline_opt es (conf, m) = Some (res, conf', m') \<Longrightarrow> parsing mp num conf \<Longrightarrow>
     parsing mp num conf' \<and> keeps_store conf conf' \<and>
     (\<forall>r. (\<forall>n < length mp. mp ! n = Some r \<longrightarrow> int n + ARG_INDEX_OFFSET \<notin> set (event_keys es)) \<longrightarrow>
       opt_at conf' r = opt_at conf r)"
proof (induction es arbitrary: conf m rule: event_keys.induct)
  case 1
  then show ?case by (simp add: parsing_def)
next
  case (3 status es)
  then show ?case by (simp add: parsing_def)
next
  case Cons: (2 key arg es)
  obtain r1 conf1 m1 where k: "parse_commandline_opt key arg (conf, m) = Some (r1, conf1, m1)"
    using Cons.prems(1) by (auto split: Option.bind_splits)
  note kept = parse_key_keeps[OF Cons.prems(2) k]
  show ?case
  proof (cases "r1 = 0")
    case True
    then have "argp_run fl parse_commandline_opt es (conf1, m1) = Some (res, conf', m')"
      using Cons.prems(1) k by simp
    note rest = Cons.IH[OF this kept[THEN conjunct1]]
    have "opt_at conf' r = opt_at conf r"
      if "\<forall>n < length mp. mp ! n = Some r \<longrightarrow> int n + ARG_INDEX_OFFSET \<notin> set (event_keys (Argp_key key arg # es))" for r
    proof -
      have "\<not> (\<exists>n < length mp. mp ! n = Some r \<and> key = int n + ARG_INDEX_OFFSET)"
        "\<forall>n < length mp. mp ! n = Some r \<longrightarrow> int n + ARG_INDEX_OFFSET \<notin> set (event_keys es)"
        using that by auto
      with kept rest show ?thesis by metis
    qed
    with kept rest keeps_store_trans show ?thesis by blast
  next
    case False
    then have "conf' = conf1" using Cons.prems(1) k by simp
    with kept show ?thesis by auto
  qed
qed

lemma argp_run_append:
  "argp_run fl parser (es @ fs) s = Option.bind (argp_run fl parser es s)
     (\<lambda>(res, s). if res \<noteq> Returned 0 then Some (res, s) else argp_run fl parser fs s)"
proof (induction es arbitrary: s rule: event_keys.induct)
  case (2 key arg es)
  then show ?case by (cases "parser key arg s") auto
qed (simp_all add: EINVAL_def)

lemma parse_key_answers:
  "parse_commandline_opt key arg (conf, m) = Some (ret, conf', m') \<Longrightarrow> answers m = [] \<Longrightarrow> answers m' = []"
  by (auto simp: parse_commandline_opt_def Let_def dest: from_string_answers
      split: if_splits option.splits prod.splits Option.bind_splits)

lemma parse_keys_answers:
  "argp_run fl parse_commandline_opt es (conf, m) = Some (res, conf', m') \<Longrightarrow> answers m = [] \<Longrightarrow> answers m' = []"
proof (induction es arbitrary: conf m rule: event_keys.induct)
  case Cons: (2 key arg es)
  obtain r1 conf1 m1 where k: "parse_commandline_opt key arg (conf, m) = Some (r1, conf1, m1)"
    using Cons.prems(1) by (auto split: Option.bind_splits)
  show ?case
    using Cons.IH[of conf1 m1] Cons.prems k parse_key_answers[OF k] by (auto split: if_splits)
qed simp_all

text \<open>An option that can take a number as its one value.\<close>

definition takes_number :: "ConfigOption \<Rightarrow> int \<Rightarrow> bool" where
  "takes_number opt p \<longleftrightarrow> opt_type opt = PARAM_INT \<and> opt_multivalued opt = 0 \<and> opt_num_values opt = 0 \<and>
     opt_values opt = [] \<and> LONG_MIN \<le> p \<and> p \<le> LONG_MAX \<and> opt_value_min opt \<le> p \<and> p \<le> opt_value_max opt"

lemma number_stored:
  assumes "takes_number opt p" "config_add_value_from_string (dec_int p) opt m = (ret, opt', m')" "answers m = []"
  shows "ret = 0 \<and> opt' = opt\<lparr>opt_num_values := 1, opt_values := [IntValue p]\<rparr>"
  using assms strtol_dec_int[of p]
  by (auto simp: takes_number_def config_add_value_from_string_def opt_add_value_int_def)

lemma parse_first_number:
  assumes inv: "parsing mp num conf" and n: "n < length mp" "mp ! n = Some r" "n \<le> num" "n + 150 \<le> 0x1000000"
    and inj: "\<And>i. i < length mp \<Longrightarrow> mp ! i = Some r \<Longrightarrow> i = n"
    and before: "int n + ARG_INDEX_OFFSET \<notin> set (event_keys es)" and num: "takes_number (opt_at conf r) p"
    and run: "argp_run fl parse_commandline_opt (es @ Argp_key (int n + ARG_INDEX_OFFSET) (Some (dec_int p)) # fs) (conf, m) =
      Some (Returned 0, conf', m')"
    and mem: "answers m = []"
  shows "keeps_store conf conf' \<and>
    opt_at conf' r = (opt_at conf r)\<lparr>opt_num_values := 1, opt_values := [IntValue p], opt_no_override := True\<rparr>"
proof -
  let ?key = "int n + ARG_INDEX_OFFSET"
  obtain conf1 m1 where one: "argp_run fl parse_commandline_opt es (conf, m) = Some (Returned 0, conf1, m1)"
    "argp_run fl parse_commandline_opt (Argp_key ?key (Some (dec_int p)) # fs) (conf1, m1) = Some (Returned 0, conf', m')"
    using run unfolding argp_run_append by (auto split: Option.bind_splits if_splits)
  have "\<forall>i < length mp. mp ! i = Some r \<longrightarrow> int i + ARG_INDEX_OFFSET \<notin> set (event_keys es)" using inj before by blast
  with parse_keys_keep[OF one(1) inv] have k: "parsing mp num conf1" "keeps_store conf conf1"
    "opt_at conf1 r = opt_at conf r" by blast+
  obtain ret opt m2 where add: "config_add_value_from_string (dec_int p) (opt_at conf1 r) m1 = (ret, opt, m2)"
    by (cases "config_add_value_from_string (dec_int p) (opt_at conf1 r) m1")
  have stored: "ret = 0" "opt = (opt_at conf r)\<lparr>opt_num_values := 1, opt_values := [IntValue p]\<rparr>"
    using number_stored[of "opt_at conf1 r" p m1 ret opt m2] num add parse_keys_answers[OF one(1) mem] k(3) by auto
  let ?opt = "opt\<lparr>opt_no_override := True\<rparr>"
  have "parse_commandline_opt ?key (Some (dec_int p)) (conf1, m1) = Some (0, put_opt r ?opt conf1, m2)"
    using parse_option_result[of conf1 mp n r "Some (dec_int p)" m1] k(1) n add stored(1)
    by (simp add: parsing_def)
  then have two: "argp_run fl parse_commandline_opt fs (put_opt r ?opt conf1, m2) = Some (Returned 0, conf', m')"
    and key: "parse_commandline_opt ?key (Some (dec_int p)) (conf1, m1) = Some (0, put_opt r ?opt conf1, m2)"
    using one(2) by simp_all
  note kept = parse_key_keeps[OF k(1) key]
  note rest = parse_keys_keep[OF two kept[THEN conjunct1]]
  have v: "valid_ref conf1 r" using k(1) n(1,2) nth_mem[OF n(1)] unfolding parsing_def by metis
  then have at: "opt_at (put_opt r ?opt conf1) r = ?opt" "valid_ref (put_opt r ?opt conf1) r" by simp_all
  have "fixed ?opt" using num stored(2) by (simp add: fixed_def takes_number_def)
  then have "opt_at conf' r = ?opt"
    using keeps_fixedD(3)[of "put_opt r ?opt conf1" conf' r] rest at unfolding keeps_store_def by metis
  with k(2) kept rest stored(2) keeps_store_trans show ?thesis by blast
qed

lemma copy_early_result:
  "length pre = index \<Longrightarrow> copy_early index es (pre @ replicate (length es + k) argp_zero) =
     Some (pre @ map (\<lambda>e. e\<lparr>ao_doc_only := False\<rparr>) es @ replicate k argp_zero)"
proof (induction es arbitrary: pre index)
  case (Cons e es)
  have "argp_zero\<lparr>ao_name := ao_name e, ao_arg := ao_arg e, ao_key := ao_key e, ao_group := ao_group e,
      ao_doc := ao_doc e\<rparr> = e\<lparr>ao_doc_only := False\<rparr>"
    by (simp add: argp_zero_def)
  with Cons.IH[of "pre @ [e\<lparr>ao_doc_only := False\<rparr>]" "Suc index"] Cons.prems show ?case
    by (simp add: nth_append list_update_append)
qed simp

lemma filled_map_bound:
  "filled rs k tab \<Longrightarrow> n < length (at_map tab) \<Longrightarrow> at_map tab ! n = Some r \<Longrightarrow> n < length rs"
  by (auto simp: filled_def nth_append split: if_splits)

lemma option_position_bound:
  assumes "valid_ref conf r"
  shows "option_position (cf_sections conf) r < table_size conf \<and>
    snd (section_rows 0 0 (cf_sections conf) ! option_position (cf_sections conf) r) = Some r"
proof -
  let ?rows = "section_rows 0 0 (cf_sections conf)"
  from section_rows_lookup[of "fst r" "cf_sections conf" "snd r" 0 0] assms obtain n where
    n: "n < length ?rows" "snd (?rows ! n) = Some r"
    by (auto simp: valid_ref_def)
  with section_rows_ref[OF n] show ?thesis by (simp add: length_section_rows table_size_def)
qed

text \<open>
  The second parser runs over the generated table and the early options.  What was allocated for it is released, unless
  the process ends there.
\<close>

definition argp_released :: "ending \<Rightarrow> mem \<Rightarrow> mem" where
  "argp_released res m = (case res of Exited _ \<Rightarrow> m | Returned _ \<Rightarrow> m\<lparr>blocks := blocks m - 1\<rparr>)"

lemma argp_released_simps [simp]:
  "argp_released (Returned i) m = m\<lparr>blocks := blocks m - 1\<rparr>" "argp_released (Exited i) m = m"
  "answers (argp_released res m) = answers m" "lib_blocks (argp_released res m) = lib_blocks m"
  by (simp_all add: argp_released_def split: ending.split)

lemma commandline_result:
  assumes wf: "config_wf conf" and none: "cf_options conf = None" and mem: "answers m = []"
  shows "\<exists>conf1 mp m1. config_parse_commandline argp argv conf m =
      map_option (\<lambda>(res, conf, m). (res, conf, argp_released res m))
        (argp_run 0 parse_commandline_opt (argp 0 (command_table conf) argv) (conf1, m1)) \<and>
    parsing mp (table_size conf) conf1 \<and> cf_sections conf1 = cf_sections conf \<and> answers m1 = [] \<and>
    (\<forall>n r. n < length mp \<and> mp ! n = Some r \<longleftrightarrow> valid_ref conf r \<and> n = option_position (cf_sections conf) r) \<and>
    cf_options conf1 = Some (command_table conf) \<and>
    blocks m1 = blocks m + 3 + rows_owned (section_rows 0 0 (cf_sections conf)) \<and> lib_blocks m1 = lib_blocks m"
proof -
  let ?rows = "section_rows 0 0 (cf_sections conf)" and ?k = "1 + rappoptions_len"
  have "answers (m\<lparr>fresh := Suc (fresh m), blocks := blocks m + 1\<rparr>) = []" using mem by simp
  from generate_result[OF wf none this] obtain tab m1 where g:
    "config_generate_commandline conf (m\<lparr>fresh := Suc (fresh m), blocks := blocks m + 1\<rparr>) =
      Some (0, conf\<lparr>cf_options := Some (at_options tab), cf_options_map := Some (at_map tab),
        cf_num_argp_options := table_size conf\<rparr>, m1)"
    "filled ?rows ?k tab" "answers m1 = []" "blocks m1 = blocks m + 3 + rows_owned ?rows" by auto
  let ?mp = "at_map tab"
  let ?conf = "conf\<lparr>cf_options_map := Some ?mp, cf_num_argp_options := table_size conf,
      cf_options := Some (command_table conf)\<rparr>"
  have len: "length ?rows = table_size conf" by (simp add: length_section_rows table_size_def)
  have "copy_early (table_size conf) rappoptions (at_options tab) = Some (command_table conf)"
    using copy_early_result[of "map fst ?rows" "table_size conf" rappoptions 1] len g(2)
    by (simp add: filled_def rappoptions_len_def command_table_def add.commute)
  with g(1) have parse: "config_parse_commandline argp argv conf m =
      map_option (\<lambda>(res, conf, m). (res, conf, argp_released res m))
        (argp_run 0 parse_commandline_opt (argp 0 (command_table conf) argv) (?conf, m1))"
    using mem
    by (cases "argp_run 0 parse_commandline_opt (argp 0 (command_table conf) argv) (?conf, m1)")
      (auto simp: config_parse_commandline_def split: ending.split)
  have mp: "n < length ?mp \<and> ?mp ! n = Some r \<longleftrightarrow> valid_ref conf r \<and> n = option_position (cf_sections conf) r" for n r
  proof
    assume a: "n < length ?mp \<and> ?mp ! n = Some r"
    then have "n < length ?rows" using filled_map_bound[OF g(2)] by blast
    with a section_rows_ref[of n 0 0 "cf_sections conf" r] filled_lookup(2)[OF g(2)]
    show "valid_ref conf r \<and> n = option_position (cf_sections conf) r" by (simp add: valid_ref_def)
  next
    assume a: "valid_ref conf r \<and> n = option_position (cf_sections conf) r"
    with option_position_bound[of conf r] len filled_lookup(2,3)[OF g(2)]
    show "n < length ?mp \<and> ?mp ! n = Some r" by simp
  qed
  have "valid_ref ?conf r" if "Some r \<in> set ?mp" for r
    using that mp[of _ r] by (auto simp: in_set_conv_nth valid_ref_def)
  then have "parsing ?mp (table_size conf) ?conf" using wf by (simp add: parsing_def config_wf_def)
  with parse mp g(3,4) generate_lib[OF g(1)] show ?thesis
    by (intro exI[of _ ?conf] exI[of _ ?mp] exI[of _ m1]) simp
qed

section \<open>The command line wins\<close>

lemma number_given:
  assumes "config_wf conf" "cf_options conf = None" "answers m = []" "table_size conf + 150 \<le> 0x1000000"
    and "GET_OPTION conf s n = Some r" "takes_number (opt_at conf r) p"
    and "argp 0 (command_table conf) argv = es @ Argp_key (option_key conf r) (Some (dec_int p)) # fs"
    and "option_key conf r \<notin> set (event_keys es)"
    and "config_parse_commandline argp argv conf m = Some (Returned 0, conf2, m2)"
  shows "config_wf conf2 \<and> GET_OPTION conf2 s n = Some r \<and>
    opt_at conf2 r = (opt_at conf r)\<lparr>opt_num_values := 1, opt_values := [IntValue p], opt_no_override := True\<rparr>"
proof -
  let ?pos = "option_position (cf_sections conf) r"
  obtain conf1 mp m1 where cl: "config_parse_commandline argp argv conf m =
      map_option (\<lambda>(res, conf, m). (res, conf, argp_released res m))
        (argp_run 0 parse_commandline_opt (es @ Argp_key (option_key conf r) (Some (dec_int p)) # fs) (conf1, m1))"
    "parsing mp (table_size conf) conf1" "cf_sections conf1 = cf_sections conf" "answers m1 = []"
    "\<forall>n r. n < length mp \<and> mp ! n = Some r \<longleftrightarrow> valid_ref conf r \<and> n = option_position (cf_sections conf) r"
    using commandline_result[OF assms(1-3), of argp argv] unfolding assms(7)
    by (elim exE conjE) (rule that, assumption+)
  have same: "GET_OPTION conf1 s n = Some r" "opt_at conf1 r = opt_at conf r"
    using assms(5) unfolding GET_OPTION_def config_section_find_def opt_at_def cl(3) by simp_all
  have v: "valid_ref conf r" using assms(5) by (rule GET_OPTION_valid)
  obtain m3 where run: "argp_run 0 parse_commandline_opt (es @ Argp_key (option_key conf r) (Some (dec_int p)) # fs) (conf1, m1) =
      Some (Returned 0, conf2, m3)"
    using assms(9) cl(1) by auto
  have pos: "?pos < length mp" "mp ! ?pos = Some r" using cl(5) v by blast+
  have bound: "?pos < table_size conf" using option_position_bound[OF v] by blast
  have "keeps_store conf1 conf2 \<and> opt_at conf2 r = (opt_at conf1 r)
      \<lparr>opt_num_values := 1, opt_values := [IntValue p], opt_no_override := True\<rparr>"
    using cl(2) pos _ _ _ _ _ run[unfolded option_key_def] cl(4)
  proof (rule parse_first_number)
    show "?pos \<le> table_size conf" "?pos + 150 \<le> 0x1000000" using bound assms(4) by simp_all
    show "\<And>i. i < length mp \<Longrightarrow> mp ! i = Some r \<Longrightarrow> i = ?pos" using cl(5) by blast
    show "int ?pos + ARG_INDEX_OFFSET \<notin> set (event_keys es)" using assms(8) by (simp add: option_key_def)
    show "takes_number (opt_at conf1 r) p" using assms(6) same(2) by simp
  qed
  with same keeps_fixedD(1) show ?thesis unfolding keeps_store_def by metis
qed

text \<open>What comes after the command line.\<close>

lemma rest_keeps:
  assumes "config_parse_commandline (cw_argp cw) argv conf m = Some (Returned 0, conf2, m2)" "config_wf conf2"
    and "read_sources cw argv conf m = Some (Returned 0, conf', m')"
  shows "keeps_store conf2 conf'"
proof -
  obtain conf3 m3 where env: "config_read_env (cw_getenv cw) conf2 m2 = (0, conf3, m3)"
    using read_env_keeps[OF assms(2)] by (metis prod_cases3)
  have k: "keeps_store conf2 conf3" by (rule read_env_keeps_store[OF assms(2) env])
  have "read_files (cw_yaml cw) conf3 m3 = Some (0, conf', m')" using assms(1,3) env
    by (auto simp: read_sources_def split: Option.bind_splits if_splits)
  then show ?thesis using read_files_keeps[of conf3 "cw_yaml cw" m3] k keeps_store_trans by (auto simp: keeps_store_def)
qed

text \<open>
  C10: Whatever the environment and the configuration files say, and however reading them went on, a number given on
  the command line for an option without a value is the one that is read back.  The option is addressed by the key
  it has in the generated table, its first occurrence counts, and the program only goes on when the
  text was accepted.  For \<open>core\<close> and \<open>port\<close> this is the port the program listens on.
\<close>

theorem command_line_wins:
  assumes "config_wf conf" "cf_options conf = None" "answers m = []" "table_size conf + 150 \<le> 0x1000000"
    and "GET_OPTION conf s n = Some r" "takes_number (opt_at conf r) p"
    and "cw_argp cw 0 (command_table conf) argv = es @ Argp_key (option_key conf r) (Some (dec_int p)) # fs"
    and "option_key conf r \<notin> set (event_keys es)"
    and "read_sources cw argv conf m = Some (Returned 0, conf', m')"
  shows "rapp_config_get_nth_int conf' s n 0 = Some (0, Some p) \<and> opt_values (opt_at conf' r) = [IntValue p] \<and>
    (s = ''core'' \<and> n = ''port'' \<longrightarrow> (\<forall>m1 address port m2. listen_address conf' m1 = Some (address, port, m2) \<longrightarrow>
       port = word_of_int p))"
proof -
  obtain conf2 m2 where cl: "config_parse_commandline (cw_argp cw) argv conf m = Some (Returned 0, conf2, m2)"
    using assms(9) by (auto simp: read_sources_def split: Option.bind_splits if_splits ending.splits)
  note g = number_given[OF assms(1-8) cl]
  have k: "keeps_fixed conf2 conf'" using rest_keeps[OF cl _ assms(9)] g by (simp add: keeps_store_def)
  let ?opt = "(opt_at conf r)\<lparr>opt_num_values := 1, opt_values := [IntValue p], opt_no_override := True\<rparr>"
  have "fixed ?opt" using assms(6) by (simp add: fixed_def takes_number_def)
  then have at: "opt_at conf' r = ?opt" using k g keeps_fixedD(3) GET_OPTION_valid by metis
  have "GET_OPTION conf' s n = Some r" using k g keeps_fixedD(1) by metis
  then have "rapp_config_get_nth_int conf' s n 0 = Some (0, Some p)" using assms(6)
    by (simp add: at rapp_config_get_nth_int_def takes_number_def nth_value_def)
  then show ?thesis by (auto simp: at listen_address_def split: Option.bind_splits)
qed

text \<open>A store with the port and the directories; \<open>--port 9000\<close>, with another port in the environment.\<close>

definition port_store :: RappConfig where
  "port_store = \<lparr>cf_num_sections = 0, cf_options_map = None, cf_options = None, cf_num_argp_options = 0,
     cf_sections = [\<lparr>sect_name = ''core'', sect_num_opts = 2, sect_options =
       [int_option, int_option\<lparr>opt_type := PARAM_STRING, opt_name := ''confd'', opt_multivalued := 1,
          opt_default_value := DefStr None\<rparr>]\<rparr>]\<rparr>"

definition port_given :: config_world where
  "port_given = \<lparr>cw_argp = \<lambda>flags opts argv. [Argp_key ARGP_KEY_INIT None, Argp_key 151 (Some (dec_int 9000)),
       Argp_key ARGP_KEY_NO_ARGS None, Argp_key ARGP_KEY_END None, Argp_key ARGP_KEY_SUCCESS None, Argp_key ARGP_KEY_FINI None],
     cw_getenv = \<lambda>n. if n = ''RAPP_PORT'' then Some ''80'' else None,
     cw_yaml = \<lparr>yw_realpath = Some, yw_file = \<lambda>_. None, yw_string = \<lambda>_. None, yw_scandir = \<lambda>_. None\<rparr>\<rparr>"

lemma port_store_simps:
  "config_wf port_store" "cf_options port_store = None" "table_size port_store = 3"
  "GET_OPTION port_store ''core'' ''port'' = Some (0, 0)" "takes_number (opt_at port_store (0, 0)) 9000"
  "option_key port_store (0, 0) = 151"
  by (simp_all add: port_store_def config_wf_def opt_wf_def int_option_def default_of_type_def table_size_def
      GET_OPTION_def config_section_find_def GET_OPTION_FROM_SECT_def opt_at_def takes_number_def LONG_MIN_def
      LONG_MAX_def option_key_def option_position_def key_defs)

lemma parse_marker:
  "key \<in> {ARGP_KEY_NO_ARGS, ARGP_KEY_INIT, ARGP_KEY_FINI, ARGP_KEY_END, ARGP_KEY_SUCCESS} \<Longrightarrow>
     parse_commandline_opt key arg (conf, m) = Some (0, conf, m)"
  by (simp add: parse_commandline_opt_def)

lemma port_given_line:
  "answers m = [] \<Longrightarrow> \<exists>conf' m'. config_parse_commandline (cw_argp port_given) [] port_store m = Some (Returned 0, conf', m') \<and> answers m' = [] \<and>
     cf_sections conf' = cf_sections (put_opt (0, 0) (int_option\<lparr>opt_num_values := 1, opt_values := [IntValue 9000],
       opt_no_override := True\<rparr>) port_store)"
proof -
  assume mem: "answers m = []"
  let ?opt = "int_option\<lparr>opt_num_values := 1, opt_values := [IntValue 9000]\<rparr>"
  obtain conf1 mp m1 where cl: "config_parse_commandline (cw_argp port_given) [] port_store m =
      map_option (\<lambda>(res, conf, m). (res, conf, argp_released res m))
        (argp_run 0 parse_commandline_opt (cw_argp port_given 0 (command_table port_store) []) (conf1, m1))"
    "parsing mp (table_size port_store) conf1" "cf_sections conf1 = cf_sections port_store" "answers m1 = []"
    "\<forall>n r. n < length mp \<and> mp ! n = Some r \<longleftrightarrow> valid_ref port_store r \<and> n = option_position (cf_sections port_store) r"
    using commandline_result[OF port_store_simps(1,2) mem, of "cw_argp port_given" "[]"]
    by (elim exE conjE) (rule that, assumption+)
  have at: "opt_at conf1 (0, 0) = int_option" by (simp add: opt_at_def cl(3)) (simp add: port_store_def)
  obtain ret opt m2 where add: "config_add_value_from_string (dec_int 9000) int_option m1 = (ret, opt, m2)"
    by (cases "config_add_value_from_string (dec_int 9000) int_option m1")
  have num: "takes_number int_option 9000"
    by (simp add: takes_number_def int_option_def LONG_MIN_def LONG_MAX_def)
  have stored: "ret = 0" "opt = ?opt" "answers m2 = []"
    using number_stored[OF num add cl(4)] from_string_answers[OF cl(4) add] by auto
  have "1 < length mp" "mp ! 1 = Some (0, 0)"
    using cl(5)[rule_format, of 1 "(0, 0)"] by (simp_all add: valid_ref_def port_store_def option_position_def)
  then have key: "parse_commandline_opt 151 (Some (dec_int 9000)) (conf1, m1) =
      Some (0, put_opt (0, 0) (?opt\<lparr>opt_no_override := True\<rparr>) conf1, m2)"
    using parse_option_result[of conf1 mp 1 "(0, 0)" "Some (dec_int 9000)" m1] cl(2) add stored at port_store_simps(3)
    by (simp add: parsing_def key_defs)
  have "argp_run 0 parse_commandline_opt (cw_argp port_given 0 (command_table port_store) []) (conf1, m1) =
      Some (Returned 0, put_opt (0, 0) (?opt\<lparr>opt_no_override := True\<rparr>) conf1, m2)"
    by (simp add: port_given_def key parse_marker)
  with cl(1) stored(3) show ?thesis
    by (intro exI[of _ "put_opt (0, 0) (?opt\<lparr>opt_no_override := True\<rparr>) conf1"]) (simp add: put_opt_def cl(3) Let_def)
qed

lemma port_given_read:
  "answers m = [] \<Longrightarrow> \<exists>conf' m'. read_sources port_given [] port_store m = Some (Returned 0, conf', m')"
proof -
  assume mem: "answers m = []"
  let ?port = "int_option\<lparr>opt_num_values := 1, opt_values := [IntValue 9000], opt_no_override := True\<rparr>"
    and ?confd = "int_option\<lparr>opt_type := PARAM_STRING, opt_name := ''confd'', opt_multivalued := 1,
          opt_default_value := DefStr None\<rparr>"
  obtain conf1 m1 where cl: "config_parse_commandline (cw_argp port_given) [] port_store m = Some (Returned 0, conf1, m1)"
    "answers m1 = []" "cf_sections conf1 = cf_sections (put_opt (0, 0) ?port port_store)"
    using port_given_line[OF mem] by blast
  then have ss: "cf_sections conf1 = [\<lparr>sect_name = ''core'', sect_num_opts = 2, sect_options = [?port, ?confd]\<rparr>]"
    by (simp add: put_opt_def port_store_def)
  obtain r e m2 where e: "get_env_name ''core'' ''confd'' m1 = (r, e, m2)" by (cases "get_env_name ''core'' ''confd'' m1")
  have "env_name ''core'' ''confd'' \<noteq> ''RAPP_PORT''" by code_simp
  with get_env_name_result[OF e] have none: "r = 0 \<longrightarrow> cw_getenv port_given (the e) = None"
    by (auto simp: port_given_def)
  have "\<exists>r3 m3. get_env_for_opt (cw_getenv port_given) ''core'' ?confd m1 = (r3, ?confd, m3)"
    using e none by (cases "r = 0") (simp_all add: get_env_for_opt_def int_option_def)
  then obtain m3 r3 where env: "get_env_for_opt (cw_getenv port_given) ''core'' ?confd m1 = (r3, ?confd, m3)" by blast
  have port: "get_env_for_opt (cw_getenv port_given) ''core'' ?port m1 = (0, ?port, m1)"
    by (simp add: get_env_for_opt_def)
  have same: "config_read_env (cw_getenv port_given) conf1 m1 = (0, conf1, m3)"
    by (simp add: config_read_env_def ss port env)
  have num: "rapp_config_get_num_values conf1 ''core'' ''confd'' = (0, Some 0)"
    "rapp_config_get_num_values conf1 ''core'' ''config'' = (1, None)"
    by (simp_all add: rapp_config_get_num_values_def GET_OPTION_def config_section_find_def GET_OPTION_FROM_SECT_def ss
        opt_at_def int_option_def)
  show ?thesis using cl(1) by (simp add: read_sources_def same read_files_def num)
qed

theorem command_line_wins_witness:
  "\<exists>conf' m'. read_sources port_given [] port_store mem0 = Some (Returned 0, conf', m') \<and>
     rapp_config_get_nth_int conf' ''core'' ''port'' 0 = Some (0, Some 9000)"
proof -
  obtain conf' m' where read: "read_sources port_given [] port_store mem0 = Some (Returned 0, conf', m')"
    using port_given_read[OF answers_mem0] by blast
  have events: "cw_argp port_given 0 (command_table port_store) [] =
      [Argp_key ARGP_KEY_INIT None] @ Argp_key (option_key port_store (0, 0)) (Some (dec_int 9000)) #
        map (\<lambda>key. Argp_key key None) [ARGP_KEY_NO_ARGS, ARGP_KEY_END, ARGP_KEY_SUCCESS, ARGP_KEY_FINI]"
    by (simp add: port_given_def port_store_simps)
  have new: "option_key port_store (0, 0) \<notin> set (event_keys [Argp_key ARGP_KEY_INIT None])"
    by (simp add: port_store_simps key_defs)
  have small: "table_size port_store + 150 \<le> 0x1000000" by (simp add: port_store_simps)
  from command_line_wins[OF port_store_simps(1,2) answers_mem0 small port_store_simps(4,5) events new read] read
  show ?thesis by blast
qed

end
