(* ===== verification/Main_Program.thy ===== *)
theory Main_Program
  imports Http_Server Signal_Handler Config_Sources
begin

text \<open>
  The program (\<open>src/main.c\<close>): the configuration is read, the loop, the signal handler, the router and the
  server are made, the loop runs until a signal, everything is destroyed.  \<open>main\<close> is composed of the
  operations of the other theories; a check that fails ends the process with status 1, an \<open>assert\<close> that
  fails is \<open>None\<close>, and where the source does not look at a result neither does the model.  What the
  world answers is the record \<open>main_world\<close>.  The container's callbacks act on their own world, the
  response with the rest of the program's state.
\<close>

section \<open>Signals\<close>

definition SIGINT :: nat where "SIGINT = 2"
definition SIGTERM :: nat where "SIGTERM = 15"

datatype signal_callback = Stop_loop

text \<open>\<open>data\<close> is the address of the loop.\<close>

definition on_signal :: "addr option \<Rightarrow> ('cb, 'f) ELoop \<Rightarrow> ('cb, 'f) ELoop option" where
  "on_signal data eloop = (if data = None then None else Some (event_loop_stop eloop))"

text \<open>The watch of the signal handler: the number is read from the descriptor, its callback is run.\<close>

definition run_signal ::
    "('x \<Rightarrow> nat option \<times> 'x) \<Rightarrow> signal_callback SignalHandler \<Rightarrow> addr \<Rightarrow> int \<Rightarrow> ('ps, 'x) server_state
      \<Rightarrow> ('ps, 'x) server_state option" where
  "run_signal read_signal sh a fd s =
     (if a \<noteq> sh_addr sh then None
      else
        (let (got, x) = read_signal (sw_rest (ls_world s));
             s = s\<lparr>ls_world := (ls_world s)\<lparr>sw_rest := x\<rparr>\<rparr>
         in map_option snd (on_signal_ready got
              (\<lambda>cb data s. map_option (\<lambda>el. s\<lparr>ls_eloop := el\<rparr>) (on_signal data (ls_eloop s))) sh s)))"

section \<open>The world\<close>

record ('h, 'ps, 'x) main_world =
  mw_config :: config_world
  mw_fopen :: "string \<Rightarrow> int option"
  mw_dlopen :: "string \<Rightarrow> ('h, 'x served, RappConfig) plugin_lib option"
  mw_parser :: "'ps parser_lib"
  mw_sockets :: "'x sockets"
  mw_banner :: string
  mw_epollfd :: int
  mw_signalfd :: int
  mw_masks :: "(int \<times> int) \<times> (int \<times> int)"
  mw_listen :: listen_calls
  mw_read_signal :: "'x \<Rightarrow> nat option \<times> 'x"
  mw_batches :: "(addr \<times> 32 word) list list"

section \<open>Starting\<close>

text \<open>What runs: the signal handler with the signals of the process, the router and the state of the loop.\<close>

record ('h, 'ps, 'x) program =
  pg_signals :: "signal_callback SignalHandler"
  pg_process :: signal_state
  pg_router :: "('h, 'x served, RappConfig) HTTPRouter"
  pg_state :: "('ps, 'x) server_state"

text \<open>
  Making the loop, the handler, the router and the server.  A \<open>NULL\<close> from one of them fails an \<open>assert\<close>
  later on; that the server cannot listen is not noticed.  The address of the loop is the next one of the
  allocator; \<open>logger\<close> is the handle of the router's null container.
\<close>

definition main_start ::
    "('h, 'ps, 'x) main_world \<Rightarrow> 'h \<Rightarrow> ('h, 'x served, RappConfig) Container \<Rightarrow> string \<Rightarrow> 16 word
      \<Rightarrow> signal_state \<Rightarrow> 'x \<Rightarrow> kernel \<Rightarrow> mem \<Rightarrow> ('h, 'ps, 'x) program option" where
  "main_start mw logger container address port sg x k m = do {
     let eloop_addr = Some (fresh m);
     let (eloop, m) = event_loop_new (mw_epollfd mw) m;
     eloop \<leftarrow> eloop;
     (sh, eloop, k, m) \<leftarrow> signal_handler_new (mw_signalfd mw) eloop k m;
     sh \<leftarrow> sh;
     (_, sh, sg) \<leftarrow> signal_handler_add_signal_callback (fst (mw_masks mw)) SIGINT Stop_loop eloop_addr sh sg;
     (_, sh, sg) \<leftarrow> signal_handler_add_signal_callback (snd (mw_masks mw)) SIGTERM Stop_loop eloop_addr sh sg;
     (router, m) \<leftarrow> http_router_new logger ROUTE_MATCH_FIRST m;
     router \<leftarrow> router;
     (_, router, m) \<leftarrow> http_router_bind ''/'' container router m;
     let (server, m) = http_server_new m;
     server \<leftarrow> server;
     (_, server, eloop, k, m) \<leftarrow> http_server_start (mw_listen mw) server address port eloop k m;
     Some \<lparr>pg_signals = sh, pg_process = sg, pg_router = router,
           pg_state = \<lparr>ls_eloop = eloop, ls_kernel = k,
             ls_world = \<lparr>sw_server = server, sw_conns = [], sw_rest = x\<rparr>, ls_mem = m\<rparr>\<rparr>
   }"

section \<open>Running and stopping\<close>

definition main_fire ::
    "('h, 'ps, 'x) main_world \<Rightarrow> ('h, 'ps, 'x) program \<Rightarrow> loop_callback \<Rightarrow> int \<Rightarrow> ('ps, 'x) server_state
      \<Rightarrow> ('ps, 'x) server_state option" where
  "main_fire mw pg = fire (pg_router pg) (mw_parser mw) (mw_sockets mw) (mw_banner mw)
     (run_signal (mw_read_signal mw) (pg_signals pg))"

definition main_run :: "('h, 'ps, 'x) main_world \<Rightarrow> ('h, 'ps, 'x) program \<Rightarrow> ('h, 'ps, 'x) program option" where
  "main_run mw pg = map_option (\<lambda>(_, s). pg\<lparr>pg_state := s\<rparr>)
     (event_loop_run (main_fire mw pg) free_object (mw_batches mw) (pg_state pg))"

text \<open>Destroying them; \<open>w\<close> is the world of the containers.  The connections that are still alive are left.\<close>

definition main_stop ::
    "('h, 'ps, 'x) program \<Rightarrow> 'x served \<Rightarrow> int \<Rightarrow> ('x served \<times> kernel \<times> loader) option" where
  "main_stop pg w ld = do {
     let s = pg_state pg;
     (el, k, m) \<leftarrow> http_server_destroy (sw_server (ls_world s)) (ls_eloop s) (ls_kernel s) (ls_mem s);
     let (w, l) = http_router_destroy (pg_router pg) w \<lparr>ld_mem = m, ld_open = ld\<rparr>;
     (el, k, m) \<leftarrow> signal_handler_destroy (pg_signals pg) el k (ld_mem l);
     let (fw, m) = event_loop_destroy free_object el (Some (el, k, ls_world s)) m;
     (el, k, _) \<leftarrow> fw;
     Some (w, k, l\<lparr>ld_mem := m\<rparr>)
   }"

section \<open>A program that was started\<close>

text \<open>The descriptors open before were \<open>opened\<close>, and \<open>b\<close> blocks were live.\<close>

definition program_ready :: "(int \<Rightarrow> bool) \<Rightarrow> int \<Rightarrow> ('h, 'ps, 'x) program \<Rightarrow> bool" where
  "program_ready opened b pg \<longleftrightarrow>
     (let sh = pg_signals pg; s = pg_state pg; el = ls_eloop s in
      loop_inv el (ls_kernel s) (ls_mem s) \<and> el_collector el = Some \<lparr>collect_entries_list = []\<rparr> \<and>
      0 < sh_fd sh \<and> \<not> opened (sh_fd sh) \<and> handler_inv (sh, pg_process pg) \<and>
      (\<forall>sig \<in> {SIGINT, SIGTERM}. \<exists>d. signal_table sh sig = Some (Stop_loop, Some d)) \<and>
      server_holds (hs_tcp_server (sw_server (ls_world s))) (opened(sh_fd sh := True))
        (table_add (sh_fd sh) ELOOP_CALLBACK_READ (Signal_ready (sh_addr sh)) (\<lambda>_ _. None)) el (ls_kernel s) \<and>
      router_wf (pg_router pg) \<and> cont_destroy (rt_null (pg_router pg)) = null_destroy \<and>
      cont_plugin (rt_null (pg_router pg)) = None \<and>
      blocks (ls_mem s) - int (length (el_callbacks_list el)) = b + 5 + router_owned (pg_router pg))"

text \<open>The system calls of the signal handler succeed.\<close>

definition signals_work :: "('h, 'ps, 'x) main_world \<Rightarrow> bool" where
  "signals_work mw \<longleftrightarrow> 0 < mw_signalfd mw \<and> fst (fst (mw_masks mw)) = 0 \<and> 0 \<le> snd (fst (mw_masks mw)) \<and>
     fst (snd (mw_masks mw)) = 0 \<and> 0 \<le> snd (snd (mw_masks mw))"

lemma new_loop_result:
  assumes "0 \<le> epollfd" "answers m = []" "k_epoll k = (\<lambda>_. None)"
  shows "\<exists>el m1. event_loop_new epollfd m = (Some el, m1) \<and> loop_inv el k m1 \<and> watches el = (\<lambda>_ _. None) \<and>
    answers m1 = [] \<and> el_collector el = Some \<lparr>collect_entries_list = []\<rparr> \<and>
    blocks m1 - int (length (el_callbacks_list el)) = blocks m + 2"
proof -
  obtain el :: "('a, 'b) ELoop" and m1 where new: "event_loop_new epollfd m = (Some el, m1)"
    "el_collector el = Some \<lparr>collect_entries_list = []\<rparr>" "el_callbacks_list el = []" "blocks m1 = blocks m + 2"
    using assms(1,2) by (simp add: event_loop_new_def collector_new_def)
  with event_loop_new_inv[OF new(1) assms(3)] event_loop_new_answers[OF new(1) assms(2)] show ?thesis by auto
qed

text \<open>Both signals are registered on the loop.\<close>

lemma signals_added:
  assumes "signals_work mw" "handler_inv (sh, sg)"
  shows "\<exists>sh1 sg1 sh2 sg2.
     signal_handler_add_signal_callback (fst (mw_masks mw)) SIGINT Stop_loop (Some d) sh sg = Some (0, sh1, sg1) \<and>
     signal_handler_add_signal_callback (snd (mw_masks mw)) SIGTERM Stop_loop (Some d) sh1 sg1 = Some (0, sh2, sg2) \<and>
     handler_inv (sh2, sg2) \<and> sh_fd sh2 = sh_fd sh \<and> sh_addr sh2 = sh_addr sh \<and>
     (\<forall>sig \<in> {SIGINT, SIGTERM}. signal_table sh2 sig = Some (Stop_loop, Some d))"
proof -
  obtain a b c e where masks: "mw_masks mw = ((a, b), (c, e))" by (metis surj_pair)
  then have ok: "a = 0" "0 \<le> b" "c = 0" "0 \<le> e" using assms(1) by (simp_all add: signals_work_def)
  obtain sh1 sg1 where one: "signal_handler_add_signal_callback (a, b) SIGINT Stop_loop (Some d) sh sg = Some (0, sh1, sg1)"
    "sh_fd sh1 = sh_fd sh" "sh_addr sh1 = sh_addr sh"
    using ok by (simp add: signal_handler_add_signal_callback_def signal_handler_setup_def SIGINT_def NSIG_def)
  obtain sh2 sg2 where two: "signal_handler_add_signal_callback (c, e) SIGTERM Stop_loop (Some d) sh1 sg1 = Some (0, sh2, sg2)"
    "sh_fd sh2 = sh_fd sh1" "sh_addr sh2 = sh_addr sh1"
    using ok by (simp add: signal_handler_add_signal_callback_def signal_handler_setup_def SIGTERM_def NSIG_def)
  have sigs: "0 < SIGINT" "SIGINT < NSIG" "0 < SIGTERM" "SIGTERM < NSIG" "SIGINT \<noteq> SIGTERM"
    by (simp_all add: SIGINT_def SIGTERM_def NSIG_def)
  have step1: "signal_step ((a, b), Add_signal SIGINT Stop_loop (Some d)) (sh, sg) = Some (sh1, sg1)" using one(1) by simp
  have step2: "signal_step ((c, e), Add_signal SIGTERM Stop_loop (Some d)) (sh1, sg1) = Some (sh2, sg2)" using two(1) by simp
  from signal_step_keeps[OF assms(2) _ step1] ok sigs
  have t1: "handler_inv (sh1, sg1)" "signal_table sh1 = (signal_table sh)(SIGINT := Some (Stop_loop, Some d))" by simp_all
  from signal_step_keeps[OF t1(1) _ step2] ok sigs
  have t2: "handler_inv (sh2, sg2)" "signal_table sh2 = (signal_table sh1)(SIGTERM := Some (Stop_loop, Some d))" by simp_all
  have "\<forall>sig \<in> {SIGINT, SIGTERM}. signal_table sh2 sig = Some (Stop_loop, Some d)"
    using sigs(5) by (simp add: t2(2) t1(2))
  with one two t2(1) show ?thesis unfolding masks by auto
qed

lemma router_made:
  fixes container :: "('h, 'w, 'c) Container"
  assumes "answers m = []"
  shows "\<exists>router m1 router' m2. http_router_new logger ROUTE_MATCH_FIRST m = Some (Some router, m1) \<and>
     http_router_bind ''/'' container router m1 = Some (0, router', m2) \<and> answers m2 = [] \<and>
     router_wf router' \<and> cont_destroy (rt_null router') = null_destroy \<and> cont_plugin (rt_null router') = None \<and>
     routes router' = [(Some ''/'', container)] \<and> rt_starter router' = None \<and> fresh m \<le> fresh m2 \<and>
     cont_serve (rt_null router') = null_serve \<and>
     blocks m2 = blocks m + router_owned router'"
proof -
  obtain router :: "('h, 'w, 'c) HTTPRouter" and m1 where
    new: "http_router_new logger ROUTE_MATCH_FIRST m = Some (Some router, m1)" "answers m1 = []" "fresh m \<le> fresh m1"
    "rt_packs router = [[]]" "rt_last router = 0" "rt_starter router = None" "cont_serve (rt_null router) = null_serve"
    using assms by (simp add: http_router_new_def container_new_null_def container_new_custom_def)
  have slash: "length ''/'' \<le> ROUTE_MAX_LEN" "is_cstr ''/''" "\<not> ROUTE_BASE_LEN \<le> length ''/''"
    by (simp_all add: is_cstr_def NUL_def ROUTE_MAX_LEN_def ROUTE_BASE_LEN_def)
  note owned = router_new_owned[OF new(1)]
  from router_bind_ok[OF _ slash(1,2) new(2), of router container] owned obtain router' m2 where
    bind: "http_router_bind ''/'' container router m1 = Some (0, router', m2)" by blast
  have "m2 = m1"
    using bind new(4,5) by (simp add: http_router_bind_def route_pack_bind.simps make_binding_def
        ROUTE_GROUP_LEN_def ROUTE_BASE_LEN_def ROUTE_MAX_LEN_def)
  with router_bind_result[OF _ slash(1,2) bind] owned new bind slash(3) show ?thesis
    by (auto simp: routes_def)
qed

lemma server_made:
  assumes "answers m = []"
  shows "\<exists>server m'. http_server_new m = (Some server, m') \<and> ts_listen_fd (hs_tcp_server server) = -1 \<and>
     ts_accept_callback (hs_tcp_server server) = Some Http_on_accept \<and> ts_data (hs_tcp_server server) \<noteq> None \<and>
     answers m' = [] \<and> fresh m \<le> fresh m' \<and> blocks m' = blocks m + 2"
  using assms by (simp add: http_server_new_def tcp_server_new_def tcp_server_set_accept_callback_def)

text \<open>The loop with the signal handler on it, both signals registered.\<close>

lemma signals_started:
  fixes mw :: "('h, 'ps, 'x) main_world"
  assumes work: "signals_work mw" "0 \<le> mw_epollfd mw" and mem: "answers m = []" "k_epoll k = (\<lambda>_. None)"
  shows "\<exists>(el :: free_func loop) m1 (sh :: signal_callback SignalHandler) el2 k2 m2 sh1 sg1 sh2 sg2.
     event_loop_new (mw_epollfd mw) m = (Some el, m1) \<and>
     signal_handler_new (mw_signalfd mw) el k m1 = Some (Some sh, el2, k2, m2) \<and>
     signal_handler_add_signal_callback (fst (mw_masks mw)) SIGINT Stop_loop (Some (fresh m)) sh sg = Some (0, sh1, sg1) \<and>
     signal_handler_add_signal_callback (snd (mw_masks mw)) SIGTERM Stop_loop (Some (fresh m)) sh1 sg1 = Some (0, sh2, sg2) \<and>
     handler_inv (sh2, sg2) \<and> sh_fd sh2 = mw_signalfd mw \<and>
     (\<forall>sig \<in> {SIGINT, SIGTERM}. signal_table sh2 sig = Some (Stop_loop, Some (fresh m))) \<and>
     loop_inv el2 k2 m2 \<and> k_open k2 = (k_open k)(mw_signalfd mw := True) \<and>
     watches el2 = table_add (mw_signalfd mw) ELOOP_CALLBACK_READ (Signal_ready (sh_addr sh2)) (\<lambda>_ _. None) \<and>
     answers m2 = [] \<and> el_collector el2 = Some \<lparr>collect_entries_list = []\<rparr> \<and>
     blocks m2 - int (length (el_callbacks_list el2)) = blocks m + 3"
proof -
  let ?sig = "mw_signalfd mw"
  obtain el :: "free_func loop" and m1 where loop: "event_loop_new (mw_epollfd mw) m = (Some el, m1)" "loop_inv el k m1"
    "watches el = (\<lambda>_ _. None)" "answers m1 = []" "el_collector el = Some \<lparr>collect_entries_list = []\<rparr>"
    "blocks m1 - int (length (el_callbacks_list el)) = blocks m + 2"
    using new_loop_result[OF work(2) mem] by blast
  have sig0: "0 \<le> ?sig" "watches el ?sig = (\<lambda>_. None)" using work(1) loop(3) by (simp_all add: signals_work_def)
  obtain sh :: "signal_callback SignalHandler" and el2 k2 m2 where
    sh: "signal_handler_new ?sig el k m1 = Some (Some sh, el2, k2, m2)" "sh_fd sh = ?sig" "loop_inv el2 k2 m2"
    "k_open k2 = (k_open k)(?sig := True)"
    "watches el2 = table_add ?sig ELOOP_CALLBACK_READ (Signal_ready (sh_addr sh)) (watches el)"
    "answers m2 = []" "el_collector el2 = el_collector el"
    "blocks m2 - int (length (el_callbacks_list el2)) = blocks m1 + 1 - int (length (el_callbacks_list el))"
    using signal_handler_new_result[OF loop(2,4) sig0] by blast
  have hinv: "handler_inv (sh, sg)" using signal_handler_new_inv[OF sh(1)] by blast
  obtain sh1 sg1 sh2 sg2 where add:
    "signal_handler_add_signal_callback (fst (mw_masks mw)) SIGINT Stop_loop (Some (fresh m)) sh sg = Some (0, sh1, sg1)"
    "signal_handler_add_signal_callback (snd (mw_masks mw)) SIGTERM Stop_loop (Some (fresh m)) sh1 sg1 = Some (0, sh2, sg2)"
    "handler_inv (sh2, sg2)" "sh_fd sh2 = ?sig" "sh_addr sh2 = sh_addr sh"
    "\<forall>sig \<in> {SIGINT, SIGTERM}. signal_table sh2 sig = Some (Stop_loop, Some (fresh m))"
    using signals_added[OF work(1) hinv] sh(2) by metis
  have "watches el2 = table_add ?sig ELOOP_CALLBACK_READ (Signal_ready (sh_addr sh2)) (\<lambda>_ _. None)"
    "el_collector el2 = Some \<lparr>collect_entries_list = []\<rparr>" "blocks m2 - int (length (el_callbacks_list el2)) = blocks m + 3"
    using sh(5,7,8) add(5) loop(3,5,6) by simp_all
  then show ?thesis by (intro exI conjI) (rule loop(1) sh(1,3,4,6) add(1-4,6) | assumption)+
qed

lemma server_started:
  fixes el :: "free_func loop"
  assumes "loop_inv el k m" "answers m = []" "\<not> k_open k (sys_socket sc)" "watches el (sys_socket sc) = (\<lambda>_. None)"
  shows "\<exists>server m5 ret server' el' k' m'. http_server_new m = (Some server, m5) \<and>
     http_server_start sc server address port el k m5 = Some (ret, server', el', k', m') \<and>
     server_holds (hs_tcp_server server') (k_open k) (watches el) el' k' \<and> loop_inv el' k' m' \<and> answers m' = [] \<and>
     el_collector el' = el_collector el \<and>
     blocks m' - int (length (el_callbacks_list el')) = blocks m + 2 - int (length (el_callbacks_list el)) \<and>
     ts_accept_callback (hs_tcp_server server') = Some Http_on_accept \<and> ts_data (hs_tcp_server server') \<noteq> None \<and>
     (can_listen sc address port \<longrightarrow> watches el' (sys_socket sc) ELOOP_CALLBACK_READ \<noteq> None)"
proof -
  obtain server m5 where srv: "http_server_new m = (Some server, m5)" "ts_listen_fd (hs_tcp_server server) = -1"
    "answers m5 = []" "fresh m \<le> fresh m5" "blocks m5 = blocks m + 2"
    "ts_accept_callback (hs_tcp_server server) = Some Http_on_accept" "ts_data (hs_tcp_server server) \<noteq> None"
    using server_made[OF assms(2)] by blast
  have inv5: "loop_inv el k m5" by (rule loop_inv_fresh[OF assms(1) srv(4)])
  from start_listen_holds[OF inv5 srv(3,2) assms(3,4), of address port] obtain ret tcp el6 k6 m6 where l:
    "tcp_server_start_listen sc (hs_tcp_server server) address port el k m5 = Some (ret, tcp, el6, k6, m6)"
    "ret = 0 \<longleftrightarrow> can_listen sc address port" "server_holds tcp (k_open k) (watches el) el6 k6"
    "ret = 0 \<longrightarrow> watches el6 =
        table_add (sys_socket sc) ELOOP_CALLBACK_READ (Server_incoming (ts_addr (hs_tcp_server server))) (watches el)"
    "loop_inv el6 k6 m6" "answers m6 = []" "el_collector el6 = el_collector el"
    "blocks m6 - int (length (el_callbacks_list el6)) = blocks m5 - int (length (el_callbacks_list el))"
    by blast
  have "http_server_start sc server address port el k m5 = Some (ret, server\<lparr>hs_tcp_server := tcp\<rparr>, el6, k6, m6)"
    by (simp add: http_server_start_def l(1))
  with srv(1,5-7) l(2-8) start_listen_same[OF l(1)] show ?thesis
    by (intro exI[of _ server] exI[of _ m5] exI[of _ ret] exI[of _ "server\<lparr>hs_tcp_server := tcp\<rparr>"] exI[of _ el6] exI[of _ k6]
        exI[of _ m6]) (simp add: table_add_def)
qed

lemma main_start_ready:
  fixes container :: "('h, 'x served, RappConfig) Container" and mw :: "('h, 'ps, 'x) main_world"
  assumes work: "signals_work mw" "0 \<le> mw_epollfd mw" and mem: "answers m = []" "k_epoll k = (\<lambda>_. None)"
    and fds: "\<not> k_open k (mw_signalfd mw)" "\<not> k_open k (sys_socket (mw_listen mw))"
      "sys_socket (mw_listen mw) \<noteq> mw_signalfd mw"
  shows "\<exists>pg. main_start mw logger container address port sg x k m = Some pg \<and>
     program_ready (k_open k) (blocks m) pg \<and> sh_fd (pg_signals pg) = mw_signalfd mw \<and>
     sw_conns (ls_world (pg_state pg)) = [] \<and> sw_rest (ls_world (pg_state pg)) = x \<and>
     routes (pg_router pg) = [(Some ''/'', container)] \<and> rt_starter (pg_router pg) = None \<and>
     cont_serve (rt_null (pg_router pg)) = null_serve \<and> answers (ls_mem (pg_state pg)) = [] \<and>
     ts_accept_callback (hs_tcp_server (sw_server (ls_world (pg_state pg)))) = Some Http_on_accept \<and>
     ts_data (hs_tcp_server (sw_server (ls_world (pg_state pg)))) \<noteq> None \<and>
     (can_listen (mw_listen mw) address port \<longrightarrow>
        watches (ls_eloop (pg_state pg)) (sys_socket (mw_listen mw)) ELOOP_CALLBACK_READ \<noteq> None)"
proof -
  let ?sig = "mw_signalfd mw" and ?sock = "sys_socket (mw_listen mw)"
  obtain el :: "free_func loop" and m1 and sh :: "signal_callback SignalHandler" and el2 k2 m2 sh1 sg1 sh2 sg2 where
    add: "event_loop_new (mw_epollfd mw) m = (Some el, m1)" "signal_handler_new ?sig el k m1 = Some (Some sh, el2, k2, m2)"
    "signal_handler_add_signal_callback (fst (mw_masks mw)) SIGINT Stop_loop (Some (fresh m)) sh sg = Some (0, sh1, sg1)"
    "signal_handler_add_signal_callback (snd (mw_masks mw)) SIGTERM Stop_loop (Some (fresh m)) sh1 sg1 = Some (0, sh2, sg2)"
    and handler: "handler_inv (sh2, sg2)" "sh_fd sh2 = ?sig"
    "\<forall>sig \<in> {SIGINT, SIGTERM}. signal_table sh2 sig = Some (Stop_loop, Some (fresh m))"
    and sh: "loop_inv el2 k2 m2" "k_open k2 = (k_open k)(?sig := True)"
    "watches el2 = table_add ?sig ELOOP_CALLBACK_READ (Signal_ready (sh_addr sh2)) (\<lambda>_ _. None)"
    "answers m2 = []" "el_collector el2 = Some \<lparr>collect_entries_list = []\<rparr>"
    "blocks m2 - int (length (el_callbacks_list el2)) = blocks m + 3"
    using signals_started[OF work mem, of sg] by (elim exE conjE) (rule that, assumption+)
  obtain router m3 router' m4 where rt: "http_router_new logger ROUTE_MATCH_FIRST m2 = Some (Some router, m3)"
    "http_router_bind ''/'' container router m3 = Some (0, router', m4)" "answers m4 = []" "router_wf router'"
    "cont_destroy (rt_null router') = null_destroy" "cont_plugin (rt_null router') = None"
    "routes router' = [(Some ''/'', container)]" "rt_starter router' = None" "fresh m2 \<le> fresh m4"
    "blocks m4 = blocks m2 + router_owned router'" "cont_serve (rt_null router') = null_serve"
    using router_made[OF sh(4), of logger container] by blast
  have inv4: "loop_inv el2 k2 m4" by (rule loop_inv_fresh[OF sh(1) rt(9)])
  have sock: "\<not> k_open k2 ?sock" "watches el2 ?sock = (\<lambda>_. None)"
    using sh(2,3) fds(2,3) by (simp_all add: table_add_def)
  obtain server m5 ret server' el6 k6 m6 where srv: "http_server_new m4 = (Some server, m5)"
    "http_server_start (mw_listen mw) server address port el2 k2 m5 = Some (ret, server', el6, k6, m6)"
    "server_holds (hs_tcp_server server') (k_open k2) (watches el2) el6 k6" "loop_inv el6 k6 m6" "answers m6 = []"
    "el_collector el6 = el_collector el2"
    "blocks m6 - int (length (el_callbacks_list el6)) = blocks m4 + 2 - int (length (el_callbacks_list el2))"
    "ts_accept_callback (hs_tcp_server server') = Some Http_on_accept" "ts_data (hs_tcp_server server') \<noteq> None"
    "can_listen (mw_listen mw) address port \<longrightarrow> watches el6 ?sock ELOOP_CALLBACK_READ \<noteq> None"
    using server_started[OF inv4 rt(3) sock, of address port] by (elim exE conjE) (rule that, assumption+)
  let ?pg = "\<lparr>pg_signals = sh2, pg_process = sg2, pg_router = router',
     pg_state = \<lparr>ls_eloop = el6, ls_kernel = k6,
       ls_world = \<lparr>sw_server = server', sw_conns = [], sw_rest = x\<rparr>, ls_mem = m6\<rparr>\<rparr>"
  have "main_start mw logger container address port sg x k m = Some ?pg"
    by (simp add: main_start_def add rt(1,2) srv(1,2))
  moreover have "program_ready (k_open k) (blocks m) ?pg"
    using srv(3,4,6,7) sh(2,3,5,6) rt(4-6,10) handler work(1) fds(1) by (simp add: program_ready_def signals_work_def)
  ultimately show ?thesis using handler(2) rt(7,8,11) srv(5,8-10) by (intro exI[of _ ?pg]) simp
qed

section \<open>A signal ends the program\<close>

lemma loop_inv_running [simp]: "loop_inv (el\<lparr>el_running := r\<rparr>) k m = loop_inv el k m"
  by (simp add: loop_inv_def find_callback_by_fd_def)

lemma watches_running [simp]: "watches (el\<lparr>el_running := r\<rparr>) = watches el"
  by (simp add: watches_def find_callback_by_fd_def fun_eq_iff)

lemma server_holds_running [simp]: "server_holds s opened w (el\<lparr>el_running := r\<rparr>) k = server_holds s opened w el k"
  by (simp add: server_holds_def)

lemma program_ready_signal:
  assumes "program_ready opened b pg"
  shows "watches (ls_eloop (pg_state pg)) (sh_fd (pg_signals pg)) =
     (\<lambda>_. None)(ELOOP_CALLBACK_READ := Some (Signal_ready (sh_addr (pg_signals pg))))"
  using assms by (auto simp: program_ready_def server_holds_def table_add_def Let_def split: if_splits)

lemma signal_dispatched:
  assumes ready: "program_ready opened b pg" and a: "k_epoll (ls_kernel (pg_state pg)) (sh_fd (pg_signals pg)) = Some (asked, a)"
    and read: "mw_read_signal mw (sw_rest (ls_world (pg_state pg))) = (Some sig, x)" "sig \<in> {SIGINT, SIGTERM}"
    and s: "s = (pg_state pg)\<lparr>ls_eloop := (ls_eloop (pg_state pg))\<lparr>el_running := True\<rparr>\<rparr>"
  shows "dispatch_event (main_fire mw pg) (a, EPOLLIN) s =
    Some (s\<lparr>ls_eloop := (ls_eloop s)\<lparr>el_running := False\<rparr>, ls_world := (ls_world s)\<lparr>sw_rest := x\<rparr>\<rparr>)"
proof -
  let ?sh = "pg_signals pg"
  have inv: "loop_inv (ls_eloop s) (ls_kernel s) (ls_mem s)" and hinv: "handler_inv (?sh, pg_process pg)"
    using ready by (simp_all add: program_ready_def s Let_def)
  have "k_epoll (ls_kernel s) (sh_fd ?sh) = Some (asked, a)" using a by (simp add: s)
  from loop_inv_entry_at[OF inv this] obtain e where e: "entry_at a s = Some e" "ec_fd e = sh_fd ?sh"
    "ec_callbacks e ELOOP_CALLBACK_READ = Some (Signal_ready (sh_addr ?sh))"
    using program_ready_signal[OF ready] by (auto simp: s)
  obtain d where tab: "signal_table ?sh sig = Some (Stop_loop, Some d)"
    using ready read(2) by (auto simp: program_ready_def Let_def)
  have "sig < NSIG" using read(2) by (auto simp: SIGINT_def SIGTERM_def NSIG_def)
  from on_signal_ready_table[OF hinv this] tab
  have ran: "on_signal_ready (Some sig) call ?sh w = map_option (Pair 0) (call Stop_loop (Some d) w)" for call and w :: "('ps, 'x) server_state"
    by simp
  have "main_fire mw pg (Signal_ready (sh_addr ?sh)) (sh_fd ?sh) s =
      Some (s\<lparr>ls_eloop := (ls_eloop s)\<lparr>el_running := False\<rparr>, ls_world := (ls_world s)\<lparr>sw_rest := x\<rparr>\<rparr>)"
    using read(1) by (simp add: main_fire_def fire_def run_signal_def ran on_signal_def event_loop_stop_def s)
  with e show ?thesis
    by (simp add: dispatch_event_def dispatch_kind_def eloop_callback_type_to_epoll_event_def EPOLLIN_def EPOLLOUT_def
        EPOLLRDHUP_def)
qed

lemma signal_run:
  assumes ready: "program_ready opened b pg" and a: "k_epoll (ls_kernel (pg_state pg)) (sh_fd (pg_signals pg)) = Some (asked, a)"
    and read: "mw_read_signal mw (sw_rest (ls_world (pg_state pg))) = (Some sig, x)" "sig \<in> {SIGINT, SIGTERM}"
    and batches: "mw_batches mw = [(a, EPOLLIN)] # rest"
  shows "\<exists>pg'. main_run mw pg = Some pg' \<and> program_ready opened b pg' \<and> pg_signals pg' = pg_signals pg \<and>
    pg_router pg' = pg_router pg \<and> \<not> el_running (ls_eloop (pg_state pg')) \<and> sw_rest (ls_world (pg_state pg')) = x"
proof -
  let ?s = "pg_state pg"
  let ?s0 = "?s\<lparr>ls_eloop := (ls_eloop ?s)\<lparr>el_running := True\<rparr>\<rparr>"
  let ?s1 = "?s0\<lparr>ls_eloop := (ls_eloop ?s0)\<lparr>el_running := False\<rparr>, ls_world := (ls_world ?s0)\<lparr>sw_rest := x\<rparr>\<rparr>"
  have d: "dispatch_event (main_fire mw pg) (a, EPOLLIN) ?s0 = Some ?s1"
    by (rule signal_dispatched[OF ready a read refl])
  have c: "el_collector (ls_eloop ?s) = Some \<lparr>collect_entries_list = []\<rparr>"
    using ready by (simp add: program_ready_def Let_def)
  then have "collect_step free_object ?s1 = Some ?s1" by (simp add: collect_step_def collector_collect_def)
  then have run: "loop_batches (main_fire mw pg) free_object (mw_batches mw) ?s0 = Some ?s1"
    using d by (cases rest) (simp_all add: batches)
  have "program_ready opened b (pg\<lparr>pg_state := ?s1\<rparr>)" using ready by (simp add: program_ready_def Let_def)
  with run show ?thesis by (simp add: main_run_def event_loop_run_def)
qed

lemma route_pack_clean_fresh: "fresh (route_pack_clean pack m) = fresh m"
  unfolding route_pack_clean_def by (induction pack arbitrary: m) (simp_all split: route_ptr.split)

lemma route_pack_destroy_fresh: "fresh (route_pack_destroy packs m) = fresh m"
  by (induction packs arbitrary: m) (simp_all add: route_pack_clean_fresh)

lemma router_destroy_fresh:
  "cont_destroy (rt_null rt) = null_destroy \<Longrightarrow> http_router_destroy rt w l = (w', l') \<Longrightarrow>
     fresh (ld_mem l') = fresh (ld_mem l)"
  by (auto simp: http_router_destroy_def container_destroy_def null_destroy_def dlclose_def Let_def
      route_pack_clean_fresh route_pack_destroy_fresh split: if_splits)

lemma router_destroy_world:
  "cont_destroy (rt_null rt) = null_destroy \<Longrightarrow> http_router_destroy rt w l = (w', l') \<Longrightarrow> w' = w"
  by (auto simp: http_router_destroy_def container_destroy_def null_destroy_def Let_def split: if_splits)

lemma main_stop_ready:
  assumes ready: "program_ready opened b pg"
  shows "\<exists>k' l'. main_stop pg w ld = Some (w, k', l') \<and> k_open k' = opened \<and> k_epoll k' = (\<lambda>_. None) \<and>
    blocks (ld_mem l') = b \<and> ld_open l' = ld"
proof -
  let ?s = "pg_state pg" and ?sh = "pg_signals pg"
  let ?tab = "table_add (sh_fd ?sh) ELOOP_CALLBACK_READ (Signal_ready (sh_addr ?sh)) (\<lambda>_ _. None) :: loop_callback watch_table"
  let ?el = "ls_eloop ?s"
  have r: "loop_inv ?el (ls_kernel ?s) (ls_mem ?s)" "el_collector ?el = Some \<lparr>collect_entries_list = []\<rparr>"
    "0 < sh_fd ?sh" "\<not> opened (sh_fd ?sh)"
    "server_holds (hs_tcp_server (sw_server (ls_world ?s))) (opened(sh_fd ?sh := True)) ?tab ?el (ls_kernel ?s)"
    "router_wf (pg_router pg)" "cont_destroy (rt_null (pg_router pg)) = null_destroy"
    "cont_plugin (rt_null (pg_router pg)) = None"
    "blocks (ls_mem ?s) - int (length (el_callbacks_list ?el)) = b + 5 + router_owned (pg_router pg)"
    using ready by (simp_all add: program_ready_def Let_def)
  from destroy_holds[OF r(1,5)] obtain el1 k1 m1 where one:
    "tcp_server_destroy (hs_tcp_server (sw_server (ls_world ?s))) ?el (ls_kernel ?s) (ls_mem ?s) = Some (el1, k1, m1)"
    "watches el1 = ?tab" "k_open k1 = opened(sh_fd ?sh := True)" "loop_inv el1 k1 m1" "el_collector el1 = el_collector ?el"
    "blocks m1 + 1 - int (length (el_callbacks_list el1)) = blocks (ls_mem ?s) - int (length (el_callbacks_list ?el))"
    by blast
  let ?m2 = "m1\<lparr>blocks := blocks m1 - 1\<rparr>"
  obtain l1 where two: "http_router_destroy (pg_router pg) w \<lparr>ld_mem = ?m2, ld_open = ld\<rparr> = (w, l1)"
    using router_destroy_world[OF r(7)] by (metis surj_pair)
  note l1 = router_destroy_blocks[OF r(6-8) two]
  have "fresh m1 \<le> fresh (ld_mem l1)" using router_destroy_fresh[OF r(7) two] by simp
  then have inv1: "loop_inv el1 k1 (ld_mem l1)" by (rule loop_inv_fresh[OF one(4)])
  have open1: "k_open k1 (sh_fd ?sh)" by (simp add: one(3))
  from signal_handler_destroy_result[OF inv1 r(3) open1 _ one(2)] obtain el3 k3 m3 where three:
    "signal_handler_destroy ?sh el1 k1 (ld_mem l1) = Some (el3, k3, m3)" "watches el3 = (\<lambda>_ _. None)"
    "k_open k3 = (k_open k1)(sh_fd ?sh := False)" "loop_inv el3 k3 m3" "el_collector el3 = el_collector el1"
    "blocks m3 + 1 - int (length (el_callbacks_list el3)) = blocks (ld_mem l1) - int (length (el_callbacks_list el1))"
    by auto
  have none: "el_callbacks_list el3 = []" "k_epoll k3 = (\<lambda>_. None)"
    using entry_count[OF three(4)] unwatched_epoll[OF three(4)] by (simp_all add: three(2) fun_eq_iff)
  have "k_open k3 = opened" using three(3) one(3) r(4) by (auto simp: fun_eq_iff)
  moreover have "event_loop_destroy free_object el3 (Some (el3, k3, ls_world ?s)) m3 =
      (Some (el3, k3, ls_world ?s), m3\<lparr>blocks := blocks m3 - 2\<rparr>)"
    using r(2) one(5) three(5) by (simp add: event_loop_destroy_def collector_destroy_def collector_collect_def)
  moreover have "blocks m3 - 2 = b" using l1 one(6) three(6) none(1) r(9) by simp
  ultimately show ?thesis using l1 none(2)
    by (simp add: main_stop_def http_server_destroy_def one(1) two three(1))
qed

text \<open>
  C6: A program that starts with allocations and signal system calls that succeed is ready whether or not it can
  listen on the address (nothing tells it when it cannot), and then stops on its own: when \<open>SIGINT\<close> or
  \<open>SIGTERM\<close> is the event the loop gets, it returns after this batch, whatever events would have come later.
  Destroying everything then leaves the descriptors open that were open before the start, an empty interest list,
  every block released that starting took, and the libraries as they were.
\<close>

theorem signal_stops_program:
  fixes container :: "('h, 'x served, RappConfig) Container" and mw :: "('h, 'ps, 'x) main_world"
  assumes "signals_work mw" "0 \<le> mw_epollfd mw" "answers m = []" "k_epoll k = (\<lambda>_. None)"
    and "\<not> k_open k (mw_signalfd mw)" "\<not> k_open k (sys_socket (mw_listen mw))"
    and "sys_socket (mw_listen mw) \<noteq> mw_signalfd mw"
    and "mw_read_signal mw x = (Some sig, x')" "sig \<in> {SIGINT, SIGTERM}"
  shows "\<exists>pg bits a. main_start mw logger container address port sg x k m = Some pg \<and>
     routes (pg_router pg) = [(Some ''/'', container)] \<and>
     (can_listen (mw_listen mw) address port \<longrightarrow>
        watches (ls_eloop (pg_state pg)) (sys_socket (mw_listen mw)) ELOOP_CALLBACK_READ \<noteq> None) \<and>
     k_epoll (ls_kernel (pg_state pg)) (mw_signalfd mw) = Some (bits, a) \<and>
     (\<forall>rest. \<exists>pg' w' k' l'. main_run (mw\<lparr>mw_batches := [(a, EPOLLIN)] # rest\<rparr>) pg = Some pg' \<and>
        main_stop pg' w ld = Some (w', k', l') \<and> k_open k' = k_open k \<and> k_epoll k' = (\<lambda>_. None) \<and>
        blocks (ld_mem l') = blocks m \<and> ld_open l' = ld)"
proof -
  obtain pg where pg: "main_start mw logger container address port sg x k m = Some pg"
    "program_ready (k_open k) (blocks m) pg" "sh_fd (pg_signals pg) = mw_signalfd mw"
    "sw_rest (ls_world (pg_state pg)) = x" "routes (pg_router pg) = [(Some ''/'', container)]"
    "can_listen (mw_listen mw) address port \<longrightarrow>
        watches (ls_eloop (pg_state pg)) (sys_socket (mw_listen mw)) ELOOP_CALLBACK_READ \<noteq> None"
    using main_start_ready[OF assms(1-7)] by blast
  have "k_epoll (ls_kernel (pg_state pg)) (mw_signalfd mw) \<noteq> None"
    using interest_list[of "ls_eloop (pg_state pg)" "ls_kernel (pg_state pg)" "ls_mem (pg_state pg)" "mw_signalfd mw"]
      program_ready_signal[OF pg(2)] pg(2,3)
    by (auto simp: program_ready_def Let_def interest_def bits_of_def)
  then obtain bits a where a: "k_epoll (ls_kernel (pg_state pg)) (mw_signalfd mw) = Some (bits, a)" by auto
  have "\<exists>pg' w' k' l'. main_run (mw\<lparr>mw_batches := [(a, EPOLLIN)] # rest\<rparr>) pg = Some pg' \<and>
        main_stop pg' w ld = Some (w', k', l') \<and> k_open k' = k_open k \<and> k_epoll k' = (\<lambda>_. None) \<and>
        blocks (ld_mem l') = blocks m \<and> ld_open l' = ld" for rest
  proof -
    let ?mw = "mw\<lparr>mw_batches := [(a, EPOLLIN)] # rest\<rparr>"
    have "mw_read_signal ?mw (sw_rest (ls_world (pg_state pg))) = (Some sig, x')" using assms(8) pg(4) by simp
    from signal_run[OF pg(2) a[folded pg(3)] this assms(9), of rest] obtain pg' where
      "main_run ?mw pg = Some pg'" "program_ready (k_open k) (blocks m) pg'" by auto
    with main_stop_ready[of "k_open k" "blocks m" pg' w ld] show ?thesis by blast
  qed
  with pg(1,5,6) a show ?thesis by blast
qed

definition busy_world :: "(unit, unit, nat) main_world" where
  "busy_world = \<lparr>mw_config = port_given, mw_fopen = \<lambda>_. None, mw_dlopen = \<lambda>_. None, mw_parser = silent_parser,
     mw_sockets = one_client, mw_banner = ''RApp'', mw_epollfd = 3, mw_signalfd = 4, mw_masks = ((0, 4), (0, 4)),
     mw_listen = busy_port, mw_read_signal = (\<lambda>n. (Some SIGTERM, Suc n)), mw_batches = []\<rparr>"

definition silent_container :: "(unit, nat served, RappConfig) Container" where
  "silent_container = \<lparr>cont_plugin = None, cont_handle = (), cont_name = ''silent'', cont_serve = null_serve,
     cont_destroy = null_destroy, cont_init = null_init\<rparr>"

definition only_std :: kernel where "only_std = \<lparr>k_open = \<lambda>fd. fd \<in> {0, 1, 2}, k_epoll = \<lambda>_. None\<rparr>"

text \<open>The port is in use; the program starts all the same, and stops when it is told to.\<close>

theorem signal_stops_program_witness:
  "\<exists>pg a. main_start busy_world () silent_container ''::1'' 8080 \<lparr>sg_blocked = {}, sg_reported = {}\<rparr> 0 only_std mem0 = Some pg \<and>
     (\<forall>rest. \<exists>pg' w' k' l'. main_run (busy_world\<lparr>mw_batches := [(a, EPOLLIN)] # rest\<rparr>) pg = Some pg' \<and>
        main_stop pg' None 0 = Some (w', k', l') \<and> k_open k' = k_open only_std \<and> k_epoll k' = (\<lambda>_. None) \<and>
        blocks (ld_mem l') = 0 \<and> ld_open l' = 0)"
proof -
  have w: "signals_work busy_world" "0 \<le> mw_epollfd busy_world" "k_epoll only_std = (\<lambda>_. None)"
    "\<not> k_open only_std (mw_signalfd busy_world)" "\<not> k_open only_std (sys_socket (mw_listen busy_world))"
    "sys_socket (mw_listen busy_world) \<noteq> mw_signalfd busy_world"
    "mw_read_signal busy_world 0 = (Some SIGTERM, 1)" "SIGTERM \<in> {SIGINT, SIGTERM}"
    by (simp_all add: busy_world_def signals_work_def only_std_def busy_port_def)
  obtain pg bits a where
    "main_start busy_world () silent_container ''::1'' 8080 \<lparr>sg_blocked = {}, sg_reported = {}\<rparr> 0 only_std mem0 = Some pg"
    "\<forall>rest. \<exists>pg' w' k' l'. main_run (busy_world\<lparr>mw_batches := [(a, EPOLLIN)] # rest\<rparr>) pg = Some pg' \<and>
        main_stop pg' None 0 = Some (w', k', l') \<and> k_open k' = k_open only_std \<and> k_epoll k' = (\<lambda>_. None) \<and>
        blocks (ld_mem l') = 0 \<and> ld_open l' = 0"
    using signal_stops_program[OF w(1,2) answers_mem0 w(3-8)] unfolding mem0_simps(2) by blast
  then show ?thesis by blast
qed

section \<open>The whole program\<close>

definition main_logger ::
    "RappArguments \<Rightarrow> (log_stream, 'a) log_io \<Rightarrow> (log_stream, 'a) Logger option \<times> (log_stream, 'a) log_io" where
  "main_logger arguments io =
     (case ra_logoutput arguments of
        None \<Rightarrow> (None, io)
      | Some sink \<Rightarrow>
         (let (logger, io) = (if ra_logoutput_is_console arguments
            then logger_new_console (level_code (ra_loglevel arguments)) sink io
            else logger_new_file (level_code (ra_loglevel arguments)) sink io)
          in case logger of
               None \<Rightarrow> (None, snd (logger_panic ''failed to initialize the logger!'' io))
             | Some lg \<Rightarrow> (Some lg, io)))"

text \<open>The container named on the command line, if any; the flag tells whether the program goes on.\<close>

definition main_container ::
    "('h, 'ps, 'x) main_world \<Rightarrow> RappArguments \<Rightarrow> RappConfig \<Rightarrow> 'x served \<Rightarrow> loader
      \<Rightarrow> bool \<times> ('h, 'x served, RappConfig) Container option \<times> RappConfig \<times> 'x served \<times> loader" where
  "main_container mw arguments config w l =
     (case ra_container arguments of
        None \<Rightarrow> (True, None, config, w, l)
      | Some name \<Rightarrow>
         (let (container, config, w, l) = container_new (mw_dlopen mw) name config w l
          in (container \<noteq> None, container, config, w, l)))"

text \<open>From the address to the end: the result is the world outside the program, that of the containers, the kernel and the
  allocator when \<open>main\<close> returns 0.\<close>

definition main_serve ::
    "('h, 'ps, 'x) main_world \<Rightarrow> 'h \<Rightarrow> ('h, 'x served, RappConfig) Container \<Rightarrow> RappArguments \<Rightarrow> RappConfig
      \<Rightarrow> signal_state \<Rightarrow> 'x \<Rightarrow> 'x served \<Rightarrow> kernel \<Rightarrow> loader \<Rightarrow> ('x \<times> 'x served \<times> kernel \<times> loader) option" where
  "main_serve mw logger container arguments config sg x w k l = do {
     let (_, container, w) = container_init container config w;
     (address, port, m) \<leftarrow> listen_address config (ld_mem l);
     pg \<leftarrow> main_start mw logger container address port sg x k m;
     let s = pg_state pg;
     let m = memory_destroy (ra_container arguments) (memory_destroy (Some address) (ls_mem s));
     pg \<leftarrow> main_run mw (pg\<lparr>pg_state := s\<lparr>ls_mem := m\<rparr>\<rparr>);
     let x = sw_rest (ls_world (pg_state pg));
     (w, k, l) \<leftarrow> main_stop pg w (ld_open l);
     let (w, l) = container_destroy container w l;
     m \<leftarrow> config_destroy config (ld_mem l);
     Some (x, w, k, l\<lparr>ld_mem := m\<rparr>)
   }"

text \<open>
  \<open>main\<close>: the exit status, the world outside the program, that of the containers, what is open, and the log.  \<open>uninit\<close> is what the variable \<open>arguments\<close> holds before it is
  written, \<open>handle\<close> what the null container gets for a handle.
\<close>

definition rapp_main ::
    "('h, 'ps, 'x) main_world \<Rightarrow> 'h \<Rightarrow> RappArguments \<Rightarrow> string list \<Rightarrow> signal_state \<Rightarrow> 'x \<Rightarrow> 'x served \<Rightarrow> kernel \<Rightarrow> int
      \<Rightarrow> (log_stream, 'a) log_io \<Rightarrow> (int \<times> 'x \<times> 'x served \<times> kernel \<times> int \<times> (log_stream, 'a) log_io) option" where
  "rapp_main mw handle uninit argv sg x w k ld io = do {
     (_, arguments, k, m) \<leftarrow> config_parse_early_commandline (cw_argp (mw_config mw)) (mw_fopen mw) argv uninit k (io_mem io);
     let (logger, io) = main_logger arguments (io\<lparr>io_mem := m\<rparr>);
     (case logger of
        None \<Rightarrow> Some (1, x, w, k, ld, io)
      | Some lg \<Rightarrow>
         (let (config, m) = config_new (io_mem io) in
          case config of
            None \<Rightarrow> Some (1, x, w, k, ld, logger_destroy lg (io\<lparr>io_mem := m\<rparr>))
          | Some config \<Rightarrow>
             (let (goes_on, container, config, w, l) =
                    main_container mw arguments config w \<lparr>ld_mem = m, ld_open = ld\<rparr> in
              if \<not> goes_on then
                map_option (\<lambda>m. (1, x, w, k, ld_open l, logger_destroy lg (io\<lparr>io_mem := m\<rparr>))) (config_destroy config (ld_mem l))
              else do {
                let (config, m) = declare_core_options config (ld_mem l);
                (res, config, m) \<leftarrow> read_sources (mw_config mw) argv config m;
                (case res of
                   Exited status \<Rightarrow> Some (status, x, w, k, ld_open l, io\<lparr>io_mem := m\<rparr>)
                 | Returned _ \<Rightarrow>
                     (case container of
                        None \<Rightarrow> Some (1, x, w, k, ld_open l, io\<lparr>io_mem := m\<rparr>)
                      | Some c \<Rightarrow> do {
                          (x, w, k, l) \<leftarrow> main_serve mw handle c arguments config sg x w k (l\<lparr>ld_mem := m\<rparr>);
                          Some (0, x, w, k, ld_open l, logger_destroy lg (io\<lparr>io_mem := ld_mem l\<rparr>))
                        }))
              })))
   }"

end
