(* ===== verification/Connection_Steps.thy ===== *)
theory Connection_Steps
  imports Http_Server Hello_Plugin
begin

text \<open>
  What a handler of a connection can change, whatever the parser reports and whichever container
  answers: the connection it belongs to, its own watches, its own descriptor and the list of objects
  to be freed, and of these only what keeps them consistent.  The containers are asked for one thing,
  the contract \<open>response_writer\<close>; the containers of the repository fulfil it.
\<close>

section \<open>The contract of a container\<close>

text \<open>A response stays well formed while the allocator does not fail.\<close>

definition keeps_response :: "HTTPResponse \<Rightarrow> mem \<Rightarrow> HTTPResponse \<Rightarrow> mem \<Rightarrow> bool" where
  "keeps_response r m r' m' \<longleftrightarrow> grows m m' \<and> (answers m = [] \<and> resp_wf r \<longrightarrow> resp_wf r')"

lemma keeps_response_refl [simp]: "grows m m' \<Longrightarrow> keeps_response r m r m'"
  by (simp add: keeps_response_def)

lemma keeps_response_trans:
  "keeps_response r m r' m' \<Longrightarrow> keeps_response r' m' r'' m'' \<Longrightarrow> keeps_response r m r'' m''"
  by (auto simp: keeps_response_def grows_def)

lemma keeps_response_destroy [simp]:
  "keeps_response r m r' (memory_destroy p m') = keeps_response r m r' m'"
  by (simp add: keeps_response_def)

lemma keeps_response_blocks [simp]:
  "keeps_response r m r' (m'\<lparr>blocks := b\<rparr>) = keeps_response r m r' m'"
  by (simp add: keeps_response_def)

locale response_writer =
  fixes serve :: "HTTPRequest \<Rightarrow> 'x served \<Rightarrow> int \<times> 'x served"
  assumes serve_keeps: "serve q (Some (r, x, m)) = (ret, Some (r', x', m')) \<Longrightarrow> keeps_response r m r' m'"
    and serve_undefined: "serve q None = (ret, w) \<Longrightarrow> w = None"
begin

text \<open>Answering several requests one after the other, each from what the one before left.\<close>

lemma serve_all_keeps:
  "fold (\<lambda>q w. snd (serve q w)) qs (Some (r, x, m)) = Some (r', x', m') \<Longrightarrow> keeps_response r m r' m'"
proof (induction qs arbitrary: r x m)
  case (Cons q qs)
  obtain ret w where w: "serve q (Some (r, x, m)) = (ret, w)" by fastforce
  have undefined: "fold (\<lambda>q w. snd (serve q w)) qs None = None" for qs
    by (induction qs) (use serve_undefined in \<open>auto simp: prod_eq_iff\<close>)
  show ?case
  proof (cases w)
    case None
    with Cons.prems w undefined show ?thesis by simp
  next
    case (Some s)
    obtain r1 x1 m1 where s: "s = (r1, x1, m1)" by (cases s)
    from Cons.prems w Some s have "keeps_response r1 m1 r' m'" by (intro Cons.IH) simp
    with serve_keeps w Some s keeps_response_trans show ?thesis by blast
  qed
qed simp

end

section \<open>The containers of the repository\<close>

lemma append_data_keeps: "http_response_append_data d r m = Some (ret, r', m') \<Longrightarrow> keeps_response r m r' m'"
  using grows_resize[of "resp_buffer r" "resp_buffer_length r + length d" m]
  by (auto simp: http_response_append_data_def keeps_response_def resp_wf_def memory_resize_def Let_def
      split: if_splits prod.splits option.splits)

lemma write_header_keeps:
  assumes "http_response_write_header key val r m = Some (ret, r', m')"
  shows "keeps_response r m r' m'"
proof -
  obtain n h m1 where a: "memory_asprintf (key @ '': '' @ val @ HTTP_EOL) m = (n, h, m1)" by (metis surj_pair)
  note g = grows_asprintf[OF a]
  show ?thesis
  proof (cases "n < 0")
    case True
    with assms a g show ?thesis by (simp add: http_response_write_header_def)
  next
    case False
    with assms a obtain t m2 where "http_response_append_data t r m1 = Some (ret, r', m2)" "m' = memory_destroy h m2"
      by (auto simp: http_response_write_header_def split: Option.bind_splits)
    with append_data_keeps keeps_response_trans[OF keeps_response_refl[OF g]] show ?thesis by simp
  qed
qed

lemma write_status_keeps:
  assumes "http_response_write_status_line_by_code c r m = Some (ret, r', m')"
  shows "keeps_response r m r' m'"
proof (cases "status_message_by_code c")
  case None
  with assms show ?thesis by (simp add: http_response_write_status_line_by_code_def)
next
  case (Some t)
  with assms show ?thesis
    by (auto simp: http_response_write_status_line_by_code_def http_response_write_status_line_def Let_def
        intro: append_data_keeps)
qed

text \<open>Writers in sequence.\<close>

definition keeps_result :: "HTTPResponse \<Rightarrow> mem \<Rightarrow> (int \<times> HTTPResponse \<times> mem) option \<Rightarrow> bool" where
  "keeps_result r m res \<longleftrightarrow> (\<forall>ret r' m'. res = Some (ret, r', m') \<longrightarrow> keeps_response r m r' m')"

lemma keeps_done [simp]: "keeps_result r0 m0 (Some (ret, r, m)) = keeps_response r0 m0 r m"
  by (auto simp: keeps_result_def)

lemma keeps_bind:
  assumes "keeps_response r0 m0 r m" "keeps_result r m res"
    and "\<And>ret r1 m1. keeps_response r0 m0 r1 m1 \<Longrightarrow> keeps_result r0 m0 (f ret r1 m1)"
  shows "keeps_result r0 m0 (Option.bind res (\<lambda>(ret, r, m). f ret r m))"
proof (cases res)
  case (Some p)
  obtain ret r1 m1 where p: "p = (ret, r1, m1)" by (cases p)
  with assms(1,2) Some have "keeps_response r0 m0 r1 m1"
    using keeps_response_trans unfolding keeps_result_def by blast
  from assms(3)[OF this] Some p show ?thesis by simp
qed (simp add: keeps_result_def)

lemmas keeps_start = keeps_bind[OF keeps_response_refl[OF grows_refl]]

lemma writers_keep:
  "keeps_result r m (http_response_append_data d r m)"
  "keeps_result r m (http_response_write_header key val r m)"
  "keeps_result r m (http_response_write_status_line_by_code c r m)"
  by (auto simp: keeps_result_def intro: append_data_keeps write_header_keeps write_status_keeps)

lemma end_headers_keeps: "keeps_result r m (http_response_end_headers clock r m)"
  unfolding http_response_end_headers_def
proof (rule keeps_start, rule writers_keep, goal_cases)
  case (1 ret1 r1 m1)
  show ?case
  proof (cases "ret1 < 0 \<or> clock < 0 \<or> strftime DATETIME_LEN (gmtime (nat clock)) = None")
    case True
    with 1 show ?thesis by auto
  next
    case False
    then obtain d where d: "strftime DATETIME_LEN (gmtime (nat clock)) = Some d" "\<not> ret1 < 0" "\<not> clock < 0" by auto
    have "keeps_result r m (Option.bind (http_response_write_header ''Date'' d r1 m1) (\<lambda>(ret2, r2, m2).
        if ret2 < 0 then Some (-1, r2, m2)
        else Option.bind (if resp_is_last r2 \<noteq> 0 then http_response_write_header ''Connection'' ''Close'' r2 m2
                          else Some (0, r2, m2)) (\<lambda>(ret3, r3, m3).
          if ret3 < 0 then Some (-1, r3, m3)
          else Option.bind (http_response_append_data HTTP_EOL r3 m3) (\<lambda>(ret4, r4, m4).
            if ret4 < 0 then Some (-1, r4, m4) else Some (ret1 + ret2 + ret3 + ret4, r4, m4)))))"
      by (rule keeps_bind[OF 1 writers_keep(2)]) (auto simp: writers_keep intro!: keeps_bind)
    with d show ?thesis by simp
  qed
qed

lemma write_hello_keeps:
  assumes "write_hello clock msg r m = Some (r', m')"
  shows "keeps_response r m r' m'"
proof -
  have "keeps_result r m (map_option (Pair 0) (write_hello clock msg r m))"
  proof -
    let ?p = "\<lambda>m. memory_asprintf (dec (length msg)) m"
    have g: "grows m1 (snd (snd (?p m1)))" for m1 by (metis grows_asprintf prod.collapse)
    have header: "keeps_result r1 m1 (Option.bind v (\<lambda>length_text. http_response_write_header ''Content-Length'' length_text r1 m1))" for v r1 m1
      by (cases v) (simp_all add: writers_keep keeps_result_def[of _ _ None])
    have eq: "map_option (Pair 0) (write_hello clock msg r m) =
        Option.bind (http_response_write_status_line_by_code 200 r m) (\<lambda>(ret1, r1, m1).
        Option.bind (http_response_write_header ''Content-Type'' ''text/plain; charset=utf-8'' r1 m1) (\<lambda>(ret2, r2, m2).
        Option.bind (Option.bind (fst (snd (?p m2))) (\<lambda>length_text.
            http_response_write_header ''Content-Length'' length_text r2 (snd (snd (?p m2))))) (\<lambda>(ret3, r3, m3).
        Option.bind (http_response_end_headers clock r3 (memory_destroy (fst (snd (?p m2))) m3)) (\<lambda>(ret4, r4, m4).
        Option.bind (http_response_append_data msg r4 m4) (\<lambda>(ret5, r5, m5). Some (0, r5, m5))))))"
      by (simp add: write_hello_def case_prod_unfold Let_def map_option_bind comp_def bind_assoc cong: option.case_cong)
    have k: "keeps_result r m \<dots>"
      by (rule keeps_start, rule writers_keep, rule keeps_bind, assumption, rule writers_keep,
          rule keeps_bind, erule keeps_response_trans, rule keeps_response_refl, rule g, rule header,
          rule keeps_bind, erule keeps_response_destroy[THEN iffD2], rule end_headers_keeps,
          rule keeps_bind, assumption, rule writers_keep, simp)
    show ?thesis unfolding eq by (rule k)
  qed
  with assms show ?thesis by (simp add: keeps_result_def)
qed

text \<open>The example container and the null container keep the contract.\<close>

interpretation hello: response_writer "rapp_serve clock handle" for clock :: int and handle :: "RappContainer option"
proof (unfold_locales, goal_cases)
  case (1 q r x m ret r' x' m')
  show ?case
  proof (cases handle)
    case None
    with 1 show ?thesis by (simp add: rapp_serve_def)
  next
    case (Some h)
    with 1 obtain msg where "write_hello clock msg r m = Some (r', m')"
      by (auto simp: rapp_serve_def split: Option.bind_splits)
    then show ?thesis by (rule write_hello_keeps)
  qed
qed (auto simp: rapp_serve_def split: option.splits)

interpretation null: response_writer "null_serve h" for h :: 'h
  by unfold_locales (simp_all add: null_serve_def)

section \<open>The router\<close>

definition container_keeps :: "('h, 'x served, 'c) Container \<Rightarrow> bool" where
  "container_keeps c \<longleftrightarrow> response_writer (container_serve c)"

definition router_keeps :: "('h, 'x served, 'c) HTTPRouter \<Rightarrow> bool" where
  "router_keeps rt \<longleftrightarrow> container_keeps (rt_null rt) \<and> (\<forall>c. rt_starter rt = Some c \<longrightarrow> container_keeps c) \<and>
     (\<forall>pack \<in> set (rt_packs rt). \<forall>b \<in> set pack. container_keeps (rb_container b))"

lemma scan_bindings_container:
  "scan_bindings mode raw offset len bs st = Some (found, c) \<Longrightarrow> c = snd st \<or> c \<in> rb_container ` set bs"
  by (induction mode raw offset len bs st rule: scan_bindings.induct) (auto split: if_splits option.splits)

lemma scan_packs_container:
  "scan_packs mode raw offset len packs st = Some (found, c) \<Longrightarrow>
     c = snd st \<or> (\<exists>pack \<in> set packs. c \<in> rb_container ` set pack)"
  by (induction mode raw offset len packs st rule: scan_packs.induct)
    (auto split: if_splits Option.bind_splits dest!: scan_bindings_container)

text \<open>Routing composes containers that keep the contract to one that does.\<close>

lemma routed_keeps:
  assumes "router_keeps rt" "scan_packs mode raw offset len (rt_packs rt) (False, rt_null rt) = Some (found, c)"
  shows "response_writer (container_serve c)"
  using scan_packs_container[OF assms(2)] assms(1) by (auto simp: router_keeps_def container_keeps_def)

lemma router_serve_keeps:
  assumes "router_keeps rt" "http_router_serve rt q (Some (r, x, m)) = Some (ret, Some (r', x', m'))"
  shows "keeps_response r m r' m'"
proof -
  let ?raw = "http_request_get_headers_buffer q" and ?uri = "http_request_get_url_range q"
  define routed where "routed = (\<lambda>w. map_option (\<lambda>(found, container). container_serve container q w)
      (scan_packs (rt_match_mode rt) ?raw (mr_offset ?uri) (mr_length ?uri) (rt_packs rt) (False, rt_null rt)))"
  have keeps: "keeps_response r1 m1 r' m'" if "routed (Some (r1, x1, m1)) = Some (ret, Some (r', x', m'))" for r1 x1 m1
    using that routed_keeps[OF assms(1)] response_writer.serve_keeps by (fastforce simp: routed_def)
  have undefined: "routed None \<noteq> Some (ret, Some (r', x', m'))"
    using routed_keeps[OF assms(1)] response_writer.serve_undefined by (fastforce simp: routed_def)
  show ?thesis
  proof (cases "rt_starter rt")
    case None
    with assms(2) have "routed (Some (r, x, m)) = Some (ret, Some (r', x', m'))"
      by (simp add: http_router_serve_def routed_def Let_def)
    then show ?thesis by (rule keeps)
  next
    case (Some starter)
    obtain ret1 w where w: "container_serve starter q (Some (r, x, m)) = (ret1, w)" by fastforce
    have starter: "response_writer (container_serve starter)"
      using assms(1) Some by (simp add: router_keeps_def container_keeps_def)
    have cases: "if ret1 = 0 then w = Some (r', x', m') else routed w = Some (ret, Some (r', x', m'))"
      using assms(2) Some w by (auto simp: http_router_serve_def routed_def Let_def split: if_splits)
    show ?thesis
    proof (cases w)
      case None
      with cases undefined show ?thesis by (simp split: if_splits)
    next
      case (Some s)
      obtain r1 x1 m1 where s: "s = (r1, x1, m1)" by (cases s)
      have "keeps_response r m r1 m1" using response_writer.serve_keeps[OF starter] w Some s by blast
      with cases keeps keeps_response_trans Some s show ?thesis by (auto split: if_splits)
    qed
  qed
qed

section \<open>The parser\<close>

text \<open>What the request queue relies on of the callback for a new request, and what it then promises.\<close>

locale request_handler =
  fixes call :: "'d \<Rightarrow> ('ps, 'd) HTTPRequestQueue \<Rightarrow> HTTPResponse \<times> 'x \<Rightarrow> mem
      \<Rightarrow> (('ps, 'd) HTTPRequestQueue \<times> (HTTPResponse \<times> 'x) \<times> mem) option"
  assumes call_keeps: "call d q (r, x) m = Some (q', (r', x'), m') \<Longrightarrow> keeps_response r m r' m'"
begin

lemma headers_complete_grows:
  assumes "on_headers_complete meth nread ka cl q m = Some (ret, q', m')"
  shows "grows m m'"
proof -
  obtain ret1 r1 m1 r2 buffer where set: "http_request_set_headers_buffer buffer nread r1 m = Some (ret1, r2, m1)"
    and rest: "(if ret1 < 0 then Some (-1, put_current r2 q, m1)
      else (let (ret, q, m) = shift_buffer nread (put_current r2 q) m1 in
       if ret < 0 then Some (-1, q, m)
       else if 0 < cl then do {
         (ret, request, m) \<leftarrow> http_request_set_body_length (nat cl) r2 m;
         Some (if ret < 0 then -1 else 0, put_current request q, m)
       }
       else Some (0, q, m))) = Some (ret, q', m')"
    using assms by (auto simp: on_headers_complete_def Let_def split: Option.bind_splits)
  obtain ret2 q2 m2 where shift: "shift_buffer nread (put_current r2 q) m1 = (ret2, q2, m2)" by (metis surj_pair)
  have "m' = m1 \<or> m' = m2 \<or> (\<exists>ret r3. http_request_set_body_length (nat cl) r2 m2 = Some (ret, r3, m'))"
    using rest shift by (auto split: if_splits Option.bind_splits)
  moreover have "grows m m1"
    using set grows_create by (auto simp: http_request_set_headers_buffer_def split: if_splits option.splits prod.splits)
  moreover have "grows m1 m2"
    using shift grows_resize by (auto simp: shift_buffer_def Let_def split: if_splits prod.splits)
  moreover have "http_request_set_body_length n r3 m2 = Some (ret, r4, m') \<Longrightarrow> grows m2 m'" for n r3 ret r4
    using grows_create by (auto simp: http_request_set_body_length_def split: if_splits option.splits prod.splits)
  ultimately show ?thesis using grows_trans by blast
qed

lemma message_begin_grows: "on_message_begin q m = Some (ret, q', m') \<Longrightarrow> grows m m'"
  using grows_create by (auto simp: on_message_begin_def http_request_new_def split: if_splits prod.splits)

lemma message_complete_keeps:
  assumes "on_message_complete call q (r, x) m = Some (ret, q', (r', x'), m')"
  shows "keeps_response r m r' m'"
proof -
  have "m' = m \<and> r' = r \<or> (\<exists>d q1 q2. call d q1 (r, x) m = Some (q2, (r', x'), m'))"
    using assms by (auto simp: on_message_complete_def Let_def split: Option.bind_splits if_splits option.splits)
  then show ?thesis using call_keeps by auto
qed

lemma parser_callback_keeps:
  assumes "parser_callback lib call base e q (r, x) m = Some (ret, q', (r', x'), m')"
  shows "keeps_response r m r' m'"
  using assms by (cases e) (auto dest: message_begin_grows headers_complete_grows message_complete_keeps)

lemma parser_callbacks_keep:
  "parser_callbacks lib call base chunk parsed es q (r, x) m = Some (stop, q', (r', x'), m') \<Longrightarrow> keeps_response r m r' m'"
proof (induction es arbitrary: q r x m)
  case (Cons e es)
  then obtain ret q1 r1 x1 m1 where c: "parser_callback lib call base e q (r, x) m = Some (ret, q1, (r1, x1), m1)"
    by (auto split: Option.bind_splits)
  note k = parser_callback_keeps[OF c]
  show ?case
  proof (cases "ret = 0")
    case True
    with Cons.prems c have "parser_callbacks lib call base chunk parsed es q1 (r1, x1) m1 = Some (stop, q', (r', x'), m')"
      by (auto split: if_splits)
    from keeps_response_trans[OF k Cons.IH[OF this]] show ?thesis .
  next
    case False
    with Cons.prems c k show ?thesis by (auto split: if_splits)
  qed
qed simp

lemma queue_keeps:
  assumes "http_request_queue_append_data lib call data q (r, x) m = Some (ret, q', (r', x'), m')"
  shows "keeps_response r m r' m'"
proof -
  obtain b m1 where b: "memory_resize (rq_buffer q) (rq_buffer_length q + length data) m = (b, m1)" by fastforce
  note g = keeps_response_refl[OF grows_resize[OF b]]
  show ?thesis
  proof (cases b)
    case None
    with assms b g show ?thesis by (auto simp: http_request_queue_append_data_def split: if_splits)
  next
    case (Some nb)
    with assms b obtain base chunk parsed events q1 stop q2 where
      "parser_callbacks lib call base chunk parsed events q1 (r, x) m1 = Some (stop, q2, (r', x'), m')"
      by (auto simp: http_request_queue_append_data_def Let_def split: if_splits prod.splits Option.bind_splits option.splits)
    from keeps_response_trans[OF g parser_callbacks_keep[OF this]] show ?thesis .
  qed
qed

end

lemma keeps_response_set_last [simp]:
  "keeps_response (http_response_set_last l r) m r' m' = keeps_response r m r' m'"
  by (simp add: keeps_response_def http_response_set_last_def resp_wf_def cong: option.case_cong)

lemma keeps_response_request_destroy [simp]:
  "keeps_response r m r' (http_request_destroy q m') = keeps_response r m r' m'"
  by (simp add: http_request_destroy_def Let_def)

text \<open>A router of containers that keep the contract is such a callback.\<close>

locale served_router =
  fixes router :: "('h, 'x served, 'c) HTTPRouter"
  assumes router_keeps: "router_keeps router"

sublocale served_router \<subseteq> request_handler "on_new_request router"
proof (unfold_locales, goal_cases)
  case (1 d q r x m q' r' x' m')
  then obtain request ret m1 q1 where
    "http_router_serve router request (Some (http_response_set_last (http_request_is_last request) r, x, m)) =
       Some (ret, Some (r', x', m1))" "m' = http_request_destroy request m1"
    by (auto simp: on_new_request_def Let_def split: Option.bind_splits)
  with router_serve_keeps[OF router_keeps this(1)] show ?case by simp
qed

end
