(* ===== verification/Server_States.thy ===== *)
theory Server_States
  imports Connection_Steps
begin

text \<open>
  The states of a running server.  One step of it is a callback the loop holds, or a collection; what
  the kernel does is left open but for one thing: \<open>accept\<close> returns a descriptor that was not open.
  The invariant says which connection is open, watched or about to be freed, and that nothing else is.
\<close>

section \<open>One connection\<close>

abbreviation conn_fd :: "'ps connection \<Rightarrow> int" where "conn_fd hc \<equiv> tc_fd (hc_tcp_connection hc)"
abbreviation conn_tcp :: "'ps connection \<Rightarrow> addr" where "conn_tcp hc \<equiv> tc_addr (hc_tcp_connection hc)"

text \<open>The callbacks \<open>on_accept\<close> sets, whether the connection is still open or not.\<close>

definition wired :: "'ps connection \<Rightarrow> bool" where
  "wired hc \<longleftrightarrow> tc_read_callback (hc_tcp_connection hc) = Some Http_on_read \<and>
     tc_write_callback (hc_tcp_connection hc) = Some Http_on_write \<and>
     tc_close_callback (hc_tcp_connection hc) = Some Http_on_close \<and>
     tc_data (hc_tcp_connection hc) = Some (hc_addr hc) \<and>
     hc_finish_callback hc = Some on_request_finish \<and> resp_wf (hc_response hc)"

definition scheduled :: "('cb, 'f) ELoop \<Rightarrow> addr list" where
  "scheduled el = (case el_collector el of None \<Rightarrow> [] | Some c \<Rightarrow> collector_pending c)"

text \<open>Loop, kernel and allocator as the handlers need them.\<close>

definition sound :: "free_func loop \<times> kernel \<times> mem \<Rightarrow> bool" where
  "sound = (\<lambda>(el, k, m). loop_inv el k m \<and> answers m = [] \<and> el_collector el \<noteq> None \<and> distinct (scheduled el))"

definition conn_ready :: "'ps connection \<Rightarrow> free_func loop \<times> kernel \<times> mem \<Rightarrow> bool" where
  "conn_ready hc = (\<lambda>(el, k, m). sound (el, k, m) \<and> wired hc \<and> (0 \<le> conn_fd hc \<longrightarrow> k_open k (conn_fd hc)))"

text \<open>What a handler of \<open>hc\<close> may change: the descriptor stays as it is, or it is closed, watched no more, and
  the connection scheduled.\<close>

definition conn_step ::
    "'ps connection \<Rightarrow> free_func loop \<times> kernel \<times> mem \<Rightarrow> 'ps connection \<Rightarrow> free_func loop \<times> kernel \<times> mem \<Rightarrow> bool" where
  "conn_step hc = (\<lambda>(el, k, m) hc' (el', k', m').
     sound (el', k', m') \<and> wired hc' \<and> fresh m \<le> fresh m' \<and> hc_addr hc' = hc_addr hc \<and> conn_tcp hc' = conn_tcp hc \<and>
     set (scheduled el) \<subseteq> set (scheduled el') \<and> set (scheduled el') \<subseteq> insert (hc_addr hc) (set (scheduled el)) \<and>
     (conn_fd hc' = conn_fd hc \<and> k_open k' = k_open k \<and> watches el' = watches el \<or>
      0 \<le> conn_fd hc \<and> conn_fd hc' = -1 \<and> hc_addr hc \<in> set (scheduled el') \<and>
        k_open k' = (k_open k)(conn_fd hc := False) \<and> watches el' = (watches el)(conn_fd hc := \<lambda>_. None)))"

lemma conn_step_ready:
  "conn_ready hc (el, k, m) \<Longrightarrow> conn_step hc (el, k, m) hc' (el', k', m') \<Longrightarrow> conn_ready hc' (el', k', m')"
  by (auto simp: conn_ready_def conn_step_def)

lemma conn_step_trans:
  "conn_step hc (el, k, m) hc' (el', k', m') \<Longrightarrow> conn_step hc' (el', k', m') hc'' (el'', k'', m'') \<Longrightarrow>
     conn_step hc (el, k, m) hc'' (el'', k'', m'')"
  unfolding conn_step_def by auto

text \<open>Queue and response are the connection's own.\<close>

lemma conn_step_contents:
  assumes "conn_ready hc (el, k, m)" "keeps_response (hc_response hc) m r m'"
  shows "conn_step hc (el, k, m) (hc\<lparr>hc_request_queue := q, hc_response := r\<rparr>) (el, k, m')"
  using assms loop_inv_fresh[of el k m m']
  by (auto simp: conn_ready_def conn_step_def sound_def wired_def keeps_response_def grows_def)

lemma finish_step:
  assumes "conn_ready hc (el, k, m)"
  shows "\<exists>el' m'. finish (hc, el, k, x, m) = Some (hc, el', k, x, m') \<and>
     conn_step hc (el, k, m) hc (el', k, m') \<and> hc_addr hc \<in> set (scheduled el')"
proof -
  obtain c where c: "el_collector el = Some c" using assms by (auto simp: conn_ready_def sound_def)
  obtain ret c' m' where s: "collector_schedule_free Free_http_connection (hc_addr hc) c m = (ret, c', m')"
    by (metis surj_pair)
  have mem: "answers m = []" using assms by (simp add: conn_ready_def sound_def)
  note ok = schedule_free_ok[OF mem s] and p = schedule_free_pending[OF s]
  have inv: "collector_inv c" using assms c by (simp add: conn_ready_def sound_def scheduled_def collector_inv_def)
  have g: "fresh m \<le> fresh m'" using s memory_create_fresh_mono[of m]
    by (auto simp: collector_schedule_free_def split: if_splits prod.splits option.splits)
  have loop: "loop_inv (el\<lparr>el_collector := Some c'\<rparr>) k m'"
    using loop_inv_fresh[OF _ g] assms by (auto simp: conn_ready_def sound_def loop_inv_def find_callback_by_fd_def)
  have "watches (el\<lparr>el_collector := Some c'\<rparr>) = watches el"
    by (simp add: watches_def find_callback_by_fd_def fun_eq_iff)
  moreover have "finish (hc, el, k, x, m) = Some (hc, el\<lparr>el_collector := Some c'\<rparr>, k, x, m')"
    using assms c s by (simp add: finish_def conn_ready_def wired_def on_request_finish_def event_loop_schedule_free_def)
  ultimately show ?thesis
    using assms c ok p loop schedule_free_inv[OF inv s] g
    by (auto simp: conn_step_def conn_ready_def sound_def scheduled_def collector_inv_def)
qed

lemma remove_watch_same:
  "event_loop_remove_fd_watch fd t el k m = Some (ret, el', k', m') \<Longrightarrow>
     fresh m' = fresh m \<and> el_collector el' = el_collector el"
  by (auto simp: event_loop_remove_fd_watch_def Let_def split: option.splits prod.splits if_splits)

lemma close_keeps:
  "tcp_connection_close c el k m = Some (c', el', k', m') \<Longrightarrow> fresh m' = fresh m \<and> el_collector el' = el_collector el"
  by (auto simp: tcp_connection_close_def split: if_splits Option.bind_splits
      dest!: remove_watch_same)

lemma close_step:
  assumes "conn_ready hc (el, k, m)"
  shows "\<exists>tcp el' k' m'. tcp_connection_close (hc_tcp_connection hc) el k m = Some (tcp, el', k', m') \<and>
     (\<forall>x::'x. \<exists>hc'' el'' m''. finish (hc\<lparr>hc_tcp_connection := tcp\<rparr>, el', k', x, m') = Some (hc'', el'', k', x, m'') \<and>
        conn_fd hc'' < 0 \<and> conn_step hc (el, k, m) hc'' (el'', k', m''))"
proof (cases "0 \<le> conn_fd hc")
  case False
  have one: "\<exists>hc'' el'' m''. finish (hc, el, k, x, m) = Some (hc'', el'', k, x, m'') \<and>
      conn_fd hc'' < 0 \<and> conn_step hc (el, k, m) hc'' (el'', k, m'')" for x :: 'x
    using finish_step[OF assms, of x] False by force
  then show ?thesis using False by (simp add: tcp_connection_close_def)
next
  case True
  have pre: "loop_inv el k m" "k_open k (conn_fd hc)" "answers m = []"
    using assms True by (simp_all add: conn_ready_def sound_def)
  let ?tcp = "(hc_tcp_connection hc)\<lparr>tc_fd := -1\<rparr>" and ?hc = "hc\<lparr>hc_tcp_connection := (hc_tcp_connection hc)\<lparr>tc_fd := -1\<rparr>\<rparr>"
  from close_connection[OF pre(1) True pre(2)] obtain el' k' m' where
    c: "tcp_connection_close (hc_tcp_connection hc) el k m = Some (?tcp, el', k', m')" "loop_inv el' k' m'"
    "watches el' = (watches el)(conn_fd hc := \<lambda>_. None)" "k_open k' = (k_open k)(conn_fd hc := False)"
    "answers m' = answers m" by blast
  note same = close_keeps[OF c(1)]
  have ready: "conn_ready ?hc (el', k', m')"
    using assms c(2,5) same by (simp add: conn_ready_def sound_def wired_def scheduled_def)
  have one: "\<exists>el'' m''. finish (?hc, el', k', x, m') = Some (?hc, el'', k', x, m'') \<and>
      conn_step hc (el, k, m) ?hc (el'', k', m'')" for x :: 'x
  proof -
    from finish_step[OF ready, of x] obtain el'' m'' where f: "finish (?hc, el', k', x, m') = Some (?hc, el'', k', x, m'')"
      "conn_step ?hc (el', k', m') ?hc (el'', k', m'')" "hc_addr hc \<in> set (scheduled el'')" by auto
    moreover have "scheduled el' = scheduled el" using same by (simp add: scheduled_def)
    ultimately have "conn_step hc (el, k, m) ?hc (el'', k', m'')"
      using True c(3,4) same by (auto simp: conn_step_def)
    with f(1) show ?thesis by blast
  qed
  have "conn_fd ?hc < 0" by simp
  with one have "\<forall>x::'x. \<exists>hc'' el'' m''. finish (?hc, el', k', x, m') = Some (hc'', el'', k', x, m'') \<and>
      conn_fd hc'' < 0 \<and> conn_step hc (el, k, m) hc'' (el'', k', m'')" by blast
  with c(1) show ?thesis by blast
qed

lemma peer_close_step:
  assumes "conn_ready hc (el, k, m)"
  shows "\<exists>hc' el' k' m'. on_peer_close (hc, el, k, x, m) = Some (hc', el', k', x, m') \<and> conn_fd hc' < 0 \<and>
     conn_step hc (el, k, m) hc' (el', k', m')"
  using close_step[OF assms] by (fastforce simp: on_peer_close_def)

lemma write_step:
  assumes "conn_ready hc (el, k, m)"
  shows "\<exists>hc' el' k' x' m'. on_write so (hc, el, k, x, m) = Some (hc', el', k', x', m') \<and>
     conn_step hc (el, k, m) hc' (el', k', m')"
proof -
  let ?r = "hc_response hc"
  have wf: "resp_wf ?r" "answers m = []" using assms by (simp_all add: conn_ready_def wired_def sound_def)
  from read_data_result[OF wf(1) BUFSIZE_pos, of m] wf(2) obtain ret data r m1 where
    rd: "http_response_read_data BUFSIZE ?r m = Some (ret, data, r, m1)" "resp_wf r" "answers m1 = []"
    by blast
  let ?hc = "hc\<lparr>hc_response := r\<rparr>"
  have keeps: "keeps_response ?r m r m1"
    using rd(2,3) read_data_fresh[OF rd(1)] by (simp add: keeps_response_def grows_def)
  have step: "conn_step hc (el, k, m) ?hc (el, k, m1)"
    using conn_step_contents[OF assms keeps, of "hc_request_queue hc"] by simp
  note ready = conn_step_ready[OF assms step]
  show ?thesis
  proof (cases "0 < ret")
    case True
    obtain sent x' where "tcp_connection_write_data so (hc_tcp_connection hc) data x = (sent, x')" by fastforce
    with True rd(1) step show ?thesis by (auto simp: on_write_def)
  next
    case False
    show ?thesis
    proof (cases "http_response_is_last r = 0")
      case True
      with False rd(1) step show ?thesis by (auto simp: on_write_def)
    next
      case no: False
      from peer_close_step[OF ready, of x] obtain hc' el' k' m' where
        p: "on_peer_close (?hc, el, k, x, m1) = Some (hc', el', k', x, m')" "conn_step ?hc (el, k, m1) hc' (el', k', m')"
        by blast
      have "on_write so (hc, el, k, x, m) = on_peer_close (?hc, el, k, x, m1)"
        using False no rd(1) by (simp add: on_write_def on_peer_close_def)
      with p conn_step_trans[OF step p(2)] show ?thesis by auto
    qed
  qed
qed

context served_router
begin

lemma read_step:
  assumes "conn_ready hc (el, k, m)" "on_read router lib so (hc, el, k, x, m) = Some (hc', el', k', x', m')"
  shows "conn_step hc (el, k, m) hc' (el', k', m')"
proof -
  have stay: "conn_step hc (el, k, m) hc (el, k, m)"
    using conn_step_contents[OF assms(1) keeps_response_refl[OF grows_refl], of "hc_request_queue hc"] by simp
  have over: "conn_step hc (el, k, m) hc' (el', k', m')"
    if "conn_step hc (el, k, m) hc1 (el, k, m1)" "finish (hc1, el, k, x1, m1) = Some (hc', el', k', x', m')" for hc1 m1 x1
    using finish_step[OF conn_step_ready[OF assms(1) that(1)], of x1] that conn_step_trans by force
  obtain res x1 where got: "tcp_connection_read_data so (hc_tcp_connection hc) BUFSIZE x = (res, x1)" by fastforce
  show ?thesis
  proof (cases res)
    case (Io_failed errno)
    with assms(2) got stay over show ?thesis by (auto simp: on_read_def split: if_splits)
  next
    case (Io_done buffer)
    show ?thesis
    proof (cases "buffer = []")
      case True
      with assms(2) got Io_done stay show ?thesis by (auto simp: on_read_def)
    next
      case False
      with assms(2) got Io_done obtain ret q r x2 m1 where
        a: "http_request_queue_append_data lib (on_new_request router) buffer (hc_request_queue hc) (hc_response hc, x1) m =
          Some (ret, q, (r, x2), m1)"
        and rest: "(if ret < 0 then finish (hc\<lparr>hc_request_queue := q, hc_response := r\<rparr>, el, k, x2, m1)
          else Some (hc\<lparr>hc_request_queue := q, hc_response := r\<rparr>, el, k, x2, m1)) = Some (hc', el', k', x', m')"
        by (auto simp: on_read_def Let_def split: Option.bind_splits)
      note step = conn_step_contents[OF assms(1) queue_keeps[OF a], of q]
      from rest over[OF step] step show ?thesis by (auto split: if_splits)
    qed
  qed
qed

end

section \<open>All connections\<close>

definition conn_ok :: "addr list \<Rightarrow> free_func loop \<Rightarrow> kernel \<Rightarrow> mem \<Rightarrow> 'ps connection \<Rightarrow> bool" where
  "conn_ok due el k m hc \<longleftrightarrow> wired hc \<and> hc_addr hc < fresh m \<and> conn_tcp hc < fresh m \<and>
     (if 0 \<le> conn_fd hc
      then k_open k (conn_fd hc) \<and> watches el (conn_fd hc) = http_registered (hc_tcp_connection hc)
      else hc_addr hc \<in> set due)"

fun tcp_of :: "loop_callback \<Rightarrow> addr option" where
  "tcp_of (Connection_ready_read a) = Some a"
| "tcp_of (Connection_ready_write a) = Some a"
| "tcp_of (Connection_close a) = Some a"
| "tcp_of (Server_incoming a) = None"
| "tcp_of (Signal_ready a) = None"

text \<open>Every watch is on an open descriptor and leads to an object that is alive.\<close>

definition live_watch :: "('ps, 'x) server_world \<Rightarrow> kernel \<Rightarrow> int \<Rightarrow> loop_callback \<Rightarrow> bool" where
  "live_watch w k fd cb \<longleftrightarrow> k_open k fd \<and>
     (\<forall>a. tcp_of cb = Some a \<longrightarrow> (\<exists>hc \<in> set (sw_conns w). 0 \<le> fd \<and> conn_fd hc = fd \<and> conn_tcp hc = a)) \<and>
     (\<forall>a. cb = Server_incoming a \<longrightarrow> a = ts_addr (hs_tcp_server (sw_server w)))"

text \<open>\<open>due\<close> are the connections to be freed.\<close>

definition world_inv ::
    "addr list \<Rightarrow> free_func loop \<Rightarrow> kernel \<Rightarrow> ('ps, 'x) server_world \<Rightarrow> mem \<Rightarrow> bool" where
  "world_inv due el k w m \<longleftrightarrow>
     distinct (map hc_addr (sw_conns w)) \<and> distinct (map conn_tcp (sw_conns w)) \<and>
     (\<forall>hc \<in> set (sw_conns w). conn_ok due el k m hc) \<and>
     distinct due \<and> set due \<subseteq> hc_addr ` set (sw_conns w) \<and>
     (\<forall>fd t cb. watches el fd t = Some cb \<longrightarrow> live_watch w k fd cb) \<and>
     ts_accept_callback (hs_tcp_server (sw_server w)) = Some Http_on_accept \<and>
     ts_data (hs_tcp_server (sw_server w)) \<noteq> None"

definition server_inv :: "('ps, 'x) server_state \<Rightarrow> bool" where
  "server_inv s \<longleftrightarrow> sound (ls_eloop s, ls_kernel s, ls_mem s) \<and>
     world_inv (scheduled (ls_eloop s)) (ls_eloop s) (ls_kernel s) (ls_world s) (ls_mem s)"

lemma http_registered_tcp: "http_registered tcp t = Some cb \<Longrightarrow> tcp_of cb = Some (tc_addr tcp)"
  by (cases t) (auto simp: http_registered_def registered_def wanted_def)

lemma distinct_map_eq: "distinct (map f xs) \<Longrightarrow> x \<in> set xs \<Longrightarrow> y \<in> set xs \<Longrightarrow> f x = f y \<Longrightarrow> x = y"
  by (metis distinct_map inj_onD)

lemma open_connection_unique:
  assumes "world_inv due el k w m" "hc \<in> set (sw_conns w)" "hc' \<in> set (sw_conns w)"
    and "0 \<le> conn_fd hc" "conn_fd hc' = conn_fd hc"
  shows "hc' = hc"
proof -
  have "http_registered (hc_tcp_connection hc') = http_registered (hc_tcp_connection hc)"
  proof -
    have "conn_ok due el k m hc" "conn_ok due el k m hc'" using assms by (simp_all add: world_inv_def)
    with assms(4,5) show ?thesis unfolding conn_ok_def by metis
  qed
  then have "conn_tcp hc' = conn_tcp hc"
    by (metis http_registered_simps(1) loop_callback.inject(3) option.inject)
  with assms(1-3) show ?thesis using distinct_map_eq by (fastforce simp: world_inv_def)
qed

lemma put_connection_set:
  assumes "distinct (map hc_addr conns)" "hc \<in> set conns" "hc_addr hc' = hc_addr hc"
  shows "set (put_connection hc' conns) = insert hc' (set conns - {hc})"
  using assms distinct_map_eq[OF assms(1)] by (auto simp: put_connection_def image_iff)

lemma put_connection_maps:
  assumes "distinct (map hc_addr conns)" "hc \<in> set conns" "hc_addr hc' = hc_addr hc" "f hc' = f hc"
  shows "map f (put_connection hc' conns) = map f conns"
  using assms distinct_map_eq[OF assms(1,2)] by (fastforce simp: put_connection_def)

text \<open>A handler of one connection keeps the invariant of all.\<close>

lemma conn_step_world:
  assumes inv: "world_inv (scheduled el) el k w m" and hc: "hc \<in> set (sw_conns w)"
    and step: "conn_step hc (el, k, m) hc' (el', k', m')"
  shows "world_inv (scheduled el') el' k' (w\<lparr>sw_conns := put_connection hc' (sw_conns w), sw_rest := x\<rparr>) m'"
proof -
  let ?conns = "sw_conns w"
  have d: "distinct (map hc_addr ?conns)" using inv by (simp add: world_inv_def)
  have same: "hc_addr hc' = hc_addr hc" "conn_tcp hc' = conn_tcp hc" and fresh: "fresh m \<le> fresh m'"
    using step by (simp_all add: conn_step_def)
  note set = put_connection_set[OF d hc same(1)]
  have other: "conn_ok (scheduled el') el' k' m' hc2" if "hc2 \<in> set ?conns" "hc2 \<noteq> hc" for hc2
  proof -
    have ok: "conn_ok (scheduled el) el k m hc2" using inv that(1) by (simp add: world_inv_def)
    have "0 \<le> conn_fd hc2 \<Longrightarrow> conn_fd hc2 \<noteq> conn_fd hc"
      using open_connection_unique[OF inv that(1) hc] that(2) by metis
    with ok step fresh show ?thesis by (auto simp: conn_ok_def conn_step_def)
  qed
  have own: "conn_ok (scheduled el') el' k' m' hc'"
  proof -
    have "conn_ok (scheduled el) el k m hc" using inv hc by (simp add: world_inv_def)
    then show ?thesis using step by (auto simp: conn_ok_def conn_step_def http_registered_def registered_def fun_eq_iff
        split: ELoopWatchFdCallbackType.splits)
  qed
  have watch: "live_watch (w\<lparr>sw_conns := put_connection hc' ?conns, sw_rest := x\<rparr>) k' fd cb"
    if "watches el' fd t = Some cb" for fd t cb
  proof -
    have old: "watches el fd t = Some cb" and kept: "fd = conn_fd hc \<longrightarrow> 0 \<le> fd \<longrightarrow> conn_fd hc' = fd"
      and op: "k_open k fd \<Longrightarrow> k_open k' fd"
      using that step by (auto simp: conn_step_def split: if_splits)
    then have "live_watch w k fd cb" using inv by (auto simp: world_inv_def)
    with op kept same(2) show ?thesis unfolding live_watch_def by (fastforce simp: set)
  qed
  have due: "distinct (scheduled el')" "set (scheduled el') \<subseteq> hc_addr ` set (put_connection hc' ?conns)"
  proof -
    show "distinct (scheduled el')" using step by (simp add: conn_step_def sound_def)
    have "hc_addr ` set (put_connection hc' ?conns) = hc_addr ` set ?conns"
      using put_connection_maps[OF d hc same(1), of hc_addr] same(1) by (metis list.set_map)
    then show "set (scheduled el') \<subseteq> hc_addr ` set (put_connection hc' ?conns)"
      using step inv hc by (auto simp: conn_step_def world_inv_def)
  qed
  have "distinct (map hc_addr (put_connection hc' ?conns))" "distinct (map conn_tcp (put_connection hc' ?conns))"
    using inv put_connection_maps[OF d hc same(1), of hc_addr] put_connection_maps[OF d hc same(1), of conn_tcp] same
    by (simp_all add: world_inv_def)
  moreover have "\<forall>hc \<in> set (put_connection hc' ?conns). conn_ok (scheduled el') el' k' m' hc"
    unfolding set using own other by auto
  ultimately show ?thesis
    using inv due watch unfolding world_inv_def by simp
qed

section \<open>Steps\<close>

text \<open>What the environment answers: the signal handler's callbacks only stop the loop, \<open>accept\<close> returns a
  descriptor that was not open before.\<close>

definition only_stops ::
    "(addr \<Rightarrow> int \<Rightarrow> ('ps, 'x) server_state \<Rightarrow> ('ps, 'x) server_state option) \<Rightarrow> bool" where
  "only_stops on_signal \<longleftrightarrow> (\<forall>a fd s s'. on_signal a fd s = Some s' \<longrightarrow>
     (\<exists>b x. s' = s\<lparr>ls_eloop := (ls_eloop s)\<lparr>el_running := b\<rparr>, ls_world := (ls_world s)\<lparr>sw_rest := x\<rparr>\<rparr>))"

definition accepts_new :: "'x sockets \<Rightarrow> loop_callback \<Rightarrow> int \<Rightarrow> ('ps, 'x) server_state \<Rightarrow> bool" where
  "accepts_new so cb fd s \<longleftrightarrow> (\<forall>a fd' x. cb = Server_incoming a \<longrightarrow>
     so_accept so fd (sw_rest (ls_world s)) = (Io_done fd', x) \<longrightarrow> 0 \<le> fd' \<and> \<not> k_open (ls_kernel s) fd')"

inductive server_step ::
    "('h, 'x served, 'c) HTTPRouter \<Rightarrow> 'ps parser_lib \<Rightarrow> 'x sockets \<Rightarrow> string
      \<Rightarrow> (addr \<Rightarrow> int \<Rightarrow> ('ps, 'x) server_state \<Rightarrow> ('ps, 'x) server_state option)
      \<Rightarrow> ('ps, 'x) server_state \<Rightarrow> ('ps, 'x) server_state \<Rightarrow> bool"
  for router lib so banner on_signal where
  callback: "watches (ls_eloop s) fd t = Some cb \<Longrightarrow> accepts_new so cb fd s \<Longrightarrow>
     fire router lib so banner on_signal cb fd s = Some s' \<Longrightarrow> server_step router lib so banner on_signal s s'"
| collect: "collect_step free_object s = Some s' \<Longrightarrow> server_step router lib so banner on_signal s s'"

lemma find_connection_alive:
  assumes "distinct (map conn_tcp conns)" "hc \<in> set conns"
  shows "find_connection (conn_tcp hc) conns = Some hc"
  unfolding find_connection_def using find_key_unique[OF assms] by simp

lemma conn_ready_inv: "server_inv s \<Longrightarrow> hc \<in> set (sw_conns (ls_world s)) \<Longrightarrow>
    conn_ready hc (ls_eloop s, ls_kernel s, ls_mem s)"
  by (auto simp: server_inv_def world_inv_def conn_ready_def conn_ok_def)

text \<open>The three functions of the TCP layer run the three handlers.\<close>

lemma wired_callbacks:
  assumes "wired hc"
  shows "on_ready_read (http_callback router lib so) (hc_tcp_connection hc) (hc, st) =
      map_option (Pair 0) (on_read router lib so (hc, st))"
    "on_ready_write (http_callback router lib so) (hc_tcp_connection hc) (hc, st) =
      map_option (Pair 0) (on_write so (hc, st))"
    "on_close (http_callback router lib so) (hc_tcp_connection hc) (hc, st) =
      map_option (Pair 0) (on_peer_close (hc, st))"
  using assms by (simp_all add: wired_def on_ready_read_def on_ready_write_def on_close_def http_callback_def)

lemma connection_event_inv:
  assumes inv: "server_inv s" and hc: "hc \<in> set (sw_conns (ls_world s))"
    and run: "connection_event handler (conn_tcp hc) s = Some s'"
    and step: "\<And>ret hc' el' k' x' m'.
      handler hc (hc, ls_eloop s, ls_kernel s, sw_rest (ls_world s), ls_mem s) = Some (ret, hc', el', k', x', m') \<Longrightarrow>
      conn_step hc (ls_eloop s, ls_kernel s, ls_mem s) hc' (el', k', m')"
  shows "server_inv s'"
proof -
  have "distinct (map conn_tcp (sw_conns (ls_world s)))" using inv by (simp add: server_inv_def world_inv_def)
  note found = find_connection_alive[OF this hc]
  from run found obtain ret hc' el' k' x' m' where
    h: "handler hc (hc, ls_eloop s, ls_kernel s, sw_rest (ls_world s), ls_mem s) = Some (ret, hc', el', k', x', m')"
    and s': "s' = s\<lparr>ls_eloop := el', ls_kernel := k', ls_mem := m',
      ls_world := (ls_world s)\<lparr>sw_conns := put_connection hc' (sw_conns (ls_world s)), sw_rest := x'\<rparr>\<rparr>"
    by (auto simp: connection_event_def split: Option.bind_splits)
  note st = step[OF h]
  have "sound (el', k', m')" using st by (simp add: conn_step_def)
  with conn_step_world[OF _ hc st] inv show ?thesis by (simp add: server_inv_def s')
qed

text \<open>The other fields of the loop do not matter to the watches.\<close>

lemma watches_same_list:
  "el_callbacks_list el' = el_callbacks_list el \<Longrightarrow> watches el' = watches el \<and> loop_inv el' k m = loop_inv el k m"
  by (simp add: watches_def loop_inv_def find_callback_by_fd_def fun_eq_iff)

lemma running_watches [simp]:
  "watches (el\<lparr>el_running := b\<rparr>) = watches el" "loop_inv (el\<lparr>el_running := b\<rparr>) k m = loop_inv el k m"
  "scheduled (el\<lparr>el_running := b\<rparr>) = scheduled el"
  "conn_ok due (el\<lparr>el_running := b\<rparr>) k m hc = conn_ok due el k m hc"
  using watches_same_list[of "el\<lparr>el_running := b\<rparr>" el] by (simp_all add: scheduled_def conn_ok_def)

lemma collector_watches [simp]:
  "watches (el\<lparr>el_collector := c\<rparr>) = watches el" "loop_inv (el\<lparr>el_collector := c\<rparr>) k m = loop_inv el k m"
  "conn_ok due (el\<lparr>el_collector := c\<rparr>) k m hc = conn_ok due el k m hc"
  using watches_same_list[of "el\<lparr>el_collector := c\<rparr>" el] by (simp_all add: conn_ok_def)

lemma live_watch_rest [simp]: "live_watch (w\<lparr>sw_rest := x\<rparr>) = live_watch w"
  by (simp add: live_watch_def fun_eq_iff)

lemma running_inv [simp]:
  "server_inv (s\<lparr>ls_eloop := (ls_eloop s)\<lparr>el_running := b\<rparr>, ls_world := (ls_world s)\<lparr>sw_rest := x\<rparr>\<rparr>) = server_inv s"
  by (simp add: server_inv_def world_inv_def sound_def)

section \<open>Accepting\<close>

lemma watch_if_keeps:
  assumes "watch_if h fd t cb el k m = Some (ret, el', k', m')"
  shows "el_collector el' = el_collector el \<and> el_running el' = el_running el \<and> fresh m \<le> fresh m'"
proof (cases "h = None")
  case False
  with assms have add: "event_loop_add_fd_watch fd t cb el k m = Some (ret, el', k', m')" by (simp add: watch_if_def)
  have "el_running el' = el_running el \<and> fresh m \<le> fresh m'"
    using add memory_create_fresh_mono[of m]
    by (auto simp: event_loop_add_fd_watch_def Let_def split: option.splits prod.splits if_splits)
  with add_watch_collector[OF add] show ?thesis by simp
qed (use assms in \<open>auto simp: watch_if_def\<close>)

lemma set_callbacks_keeps:
  "tcp_connection_set_callbacks c r w cl d el k m = Some (ret, c', el', k', m') \<Longrightarrow>
     el_collector el' = el_collector el \<and> el_running el' = el_running el \<and> fresh m \<le> fresh m' \<and> tc_addr c' = tc_addr c"
  by (auto simp: tcp_connection_set_callbacks_def Let_def split: Option.bind_splits if_splits
      dest!: watch_if_keeps)

lemma connection_new_keeps:
  assumes "http_connection_new lib banner tcp el k m = Some (Some hc, el', k', m')" "answers m = []"
  shows "el_collector el' = el_collector el \<and> el_running el' = el_running el \<and> hc_addr hc = fresh m \<and> fresh m < fresh m' \<and> conn_tcp hc = tc_addr tcp"
  using assms
  by (auto simp: http_connection_new_def http_request_queue_new_def http_response_new_def Let_def
      split: Option.bind_splits option.splits dest!: set_callbacks_keeps)

lemma closed_unwatched: "world_inv due el k w m \<Longrightarrow> \<not> k_open k fd \<Longrightarrow> watches el fd = (\<lambda>_. None)"
  unfolding world_inv_def live_watch_def by (metis not_None_eq ext)

lemma accept_world:
  assumes inv: "world_inv due el k w m" and fd: "0 \<le> conn_fd hc" "\<not> k_open k (conn_fd hc)"
    and hc: "wired hc" "fresh m \<le> hc_addr hc" "fresh m \<le> conn_tcp hc" "hc_addr hc < fresh m'" "conn_tcp hc < fresh m'"
    and w: "watches el' = (watches el)(conn_fd hc := http_registered (hc_tcp_connection hc))"
    and k: "k_open k' = (k_open k)(conn_fd hc := True)"
  shows "world_inv due el' k' (w\<lparr>sw_conns := hc # sw_conns w, sw_rest := x\<rparr>) m'"
proof -
  let ?w = "w\<lparr>sw_conns := hc # sw_conns w, sw_rest := x\<rparr>"
  have old: "conn_ok due el k m hc2" "hc_addr hc2 < fresh m" "conn_tcp hc2 < fresh m" if "hc2 \<in> set (sw_conns w)" for hc2
    using inv that by (simp_all add: world_inv_def conn_ok_def)
  have "conn_ok due el' k' m' hc2" if "hc2 \<in> set (sw_conns w)" for hc2
  proof -
    have "conn_fd hc2 = conn_fd hc \<Longrightarrow> False" using old(1)[OF that] fd by (simp add: conn_ok_def)
    with old[OF that] hc(2,4) w k show ?thesis by (auto simp: conn_ok_def)
  qed
  moreover have "conn_ok due el' k' m' hc" using fd(1) hc w k by (simp add: conn_ok_def)
  moreover have "live_watch ?w k' fd cb" if cb: "watches el' fd t = Some cb" for fd t cb
  proof (cases "fd = conn_fd hc")
    case True
    with cb w http_registered_tcp[of "hc_tcp_connection hc" t cb] fd(1) k show ?thesis by (auto simp: live_watch_def)
  next
    case False
    with cb w have "watches el fd t = Some cb" by simp
    with inv have "live_watch w k fd cb" by (simp add: world_inv_def)
    with False k show ?thesis by (auto simp: live_watch_def)
  qed
  moreover have "hc_addr hc \<notin> hc_addr ` set (sw_conns w)" "conn_tcp hc \<notin> conn_tcp ` set (sw_conns w)"
    using old(2,3) hc(2,3) by fastforce+
  ultimately show ?thesis using inv by (auto simp: world_inv_def)
qed

lemma accept_inv:
  assumes inv: "server_inv s" and acc: "so_accept so sfd (sw_rest (ls_world s)) = (Io_done fd, x)"
    and fd: "0 \<le> fd" "\<not> k_open (ls_kernel s) fd"
  shows "\<exists>s'. fire router lib so banner on_signal
      (Server_incoming (ts_addr (hs_tcp_server (sw_server (ls_world s))))) sfd s = Some s' \<and> server_inv s' \<and>
    scheduled (ls_eloop s') = scheduled (ls_eloop s) \<and>
    watches (ls_eloop s') = (watches (ls_eloop s))(fd := watches (ls_eloop s') fd) \<and>
    k_open (ls_kernel s') = (k_open (ls_kernel s))(fd := True) \<and> sw_rest (ls_world s') = x \<and>
    el_running (ls_eloop s') = el_running (ls_eloop s) \<and>
    sw_server (ls_world s') = sw_server (ls_world s) \<and>
    blocks (ls_mem s') - int (length (el_callbacks_list (ls_eloop s'))) =
      blocks (ls_mem s) - int (length (el_callbacks_list (ls_eloop s))) + 4 \<and>
    (\<exists>hc. conn_fd hc = fd \<and> sw_conns (ls_world s') = hc # sw_conns (ls_world s) \<and>
       hc_request_queue hc = new_queue lib (hc_addr hc) \<and> hc_response hc = new_response banner)"
proof -
  let ?el = "ls_eloop s" and ?k = "open_fd fd (ls_kernel s)" and ?m = "ls_mem s"
    and ?srv = "hs_tcp_server (sw_server (ls_world s))"
  let ?tcp = "\<lparr>tc_addr = fresh ?m, tc_fd = fd, tc_read_callback = None, tc_write_callback = None,
      tc_close_callback = None, tc_data = None\<rparr> :: http_handler TcpConnection"
  let ?m1 = "?m\<lparr>fresh := Suc (fresh ?m), blocks := blocks ?m + 1\<rparr>"
  have s: "loop_inv ?el (ls_kernel s) ?m" "answers ?m = []" "el_collector ?el \<noteq> None" "distinct (scheduled ?el)"
    and w: "world_inv (scheduled ?el) ?el (ls_kernel s) (ls_world s) ?m"
    using inv by (simp_all add: server_inv_def sound_def)
  have srv: "ts_accept_callback ?srv = Some Http_on_accept" "ts_data ?srv \<noteq> None" using w by (simp_all add: world_inv_def)
  have tcp: "tcp_connection_with_fd fd ?m = Some (Some ?tcp, ?m1)"
    using s(2) fd(1) by (simp add: tcp_connection_with_fd_def)
  have pre: "loop_inv ?el ?k ?m1" "0 \<le> tc_fd ?tcp" "k_open ?k (tc_fd ?tcp)"
    "watches ?el (tc_fd ?tcp) = (\<lambda>_. None)" "no_callbacks ?tcp" "answers ?m1 = []"
    using loop_inv_opened[OF s(1)] s(2) fd closed_unwatched[OF w] by (simp_all add: open_fd_def no_callbacks_def)
  from http_connection_new_ok[OF pre, of lib banner] obtain hc el' k' m' where new:
    "http_connection_new lib banner ?tcp ?el ?k ?m1 = Some (Some hc, el', k', m')" "loop_inv el' k' m'"
    "watches el' = (watches ?el)(fd := http_registered ?tcp)" "k_open k' = k_open ?k" "answers m' = []"
    "hc_tcp_connection hc = ?tcp\<lparr>tc_read_callback := Some Http_on_read, tc_write_callback := Some Http_on_write,
       tc_close_callback := Some Http_on_close, tc_data := Some (hc_addr hc)\<rparr>"
    "hc_response hc = new_response banner" "hc_request_queue hc = new_queue lib (hc_addr hc)"
    "blocks m' - int (length (el_callbacks_list el')) = blocks ?m1 + 3 - int (length (el_callbacks_list ?el))"
    by auto
  note keeps = connection_new_keeps[OF new(1) pre(6)]
  let ?hc = "http_connection_set_finish_callback on_request_finish hc"
  have same: "hc_addr ?hc = hc_addr hc" "hc_tcp_connection ?hc = hc_tcp_connection hc"
    by (simp_all add: http_connection_set_finish_callback_def)
  have "http_registered ?tcp = http_registered (hc_tcp_connection ?hc)"
    using new(6) same by (simp add: http_registered_def registered_def fun_eq_iff split: ELoopWatchFdCallbackType.split)
  moreover have "wired ?hc" using new(6,7)
    by (simp add: wired_def http_connection_set_finish_callback_def new_response_def resp_wf_def)
  ultimately have world: "world_inv (scheduled ?el) el' k' ((ls_world s)\<lparr>sw_conns := ?hc # sw_conns (ls_world s), sw_rest := x\<rparr>) m'"
    using accept_world[OF w, of ?hc m' el' k' x] fd new(3,4,6) keeps same by (simp add: open_fd_def)
  let ?s = "s\<lparr>ls_eloop := el', ls_kernel := k', ls_mem := m',
      ls_world := (ls_world s)\<lparr>sw_conns := ?hc # sw_conns (ls_world s), sw_rest := x\<rparr>\<rparr>"
  have due: "scheduled el' = scheduled ?el" using keeps by (simp add: scheduled_def)
  then have "server_inv ?s"
    using world new(2,5) s(3,4) keeps by (simp add: server_inv_def sound_def)
  moreover have "fire router lib so banner on_signal (Server_incoming (ts_addr ?srv)) sfd s = Some ?s"
    using acc srv tcp new(1) by (simp add: fire_def on_incoming_connection_def on_accept_def)
  moreover have "conn_fd ?hc = fd" "hc_request_queue ?hc = new_queue lib (hc_addr ?hc)" "hc_response ?hc = new_response banner"
    using new(6-8) same by (simp_all add: http_connection_set_finish_callback_def)
  ultimately show ?thesis using due new(3,4,9) keeps by (intro exI[of _ ?s]) (auto simp: open_fd_def)
qed

section \<open>Collecting\<close>

text \<open>Freeing the first connection that is due: it is alive, and closed when it is still open.\<close>

lemma destroy_connection:
  assumes "loop_inv el k m" "0 \<le> conn_fd hc \<Longrightarrow> k_open k (conn_fd hc)"
  shows "\<exists>el' k' m'. http_connection_destroy hc el k m = Some (el', k', m') \<and> loop_inv el' k' m' \<and>
     answers m' = answers m \<and> fresh m' = fresh m \<and> el_collector el' = el_collector el \<and>
     (if 0 \<le> conn_fd hc then watches el' = (watches el)(conn_fd hc := \<lambda>_. None) \<and> k_open k' = (k_open k)(conn_fd hc := False)
      else watches el' = watches el \<and> k_open k' = k_open k)"
proof -
  have mem: "\<exists>n. http_response_destroy (hc_response hc) (http_request_queue_destroy (hc_request_queue hc) m) = m\<lparr>blocks := n\<rparr>" for m
    by (auto simp: http_response_destroy_def http_request_queue_destroy_def memory_destroy_def split: option.splits)
  show ?thesis
  proof (cases "0 \<le> conn_fd hc")
    case True
    from close_connection[OF assms(1) True assms(2)[OF True]] obtain c' el' k' m' where
      c: "tcp_connection_close (hc_tcp_connection hc) el k m = Some (c', el', k', m')" "loop_inv el' k' m'"
      "watches el' = (watches el)(conn_fd hc := \<lambda>_. None)" "k_open k' = (k_open k)(conn_fd hc := False)"
      "answers m' = answers m" by blast
    obtain n where n: "http_response_destroy (hc_response hc)
        (http_request_queue_destroy (hc_request_queue hc) (memory_destroy (Some c') m')) = (memory_destroy (Some c') m')\<lparr>blocks := n\<rparr>"
      using mem by blast
    show ?thesis
      using True c close_keeps[OF c(1)] n
      by (auto simp: http_connection_destroy_def tcp_connection_destroy_def)
  next
    case False
    obtain n where n: "http_response_destroy (hc_response hc)
        (http_request_queue_destroy (hc_request_queue hc) (memory_destroy (Some (hc_tcp_connection hc)) m)) =
        (memory_destroy (Some (hc_tcp_connection hc)) m)\<lparr>blocks := n\<rparr>"
      using mem by blast
    show ?thesis
      using False assms(1) n
      by (auto simp: http_connection_destroy_def tcp_connection_destroy_def tcp_connection_close_def)
  qed
qed

lemma free_step:
  assumes w: "world_inv (a # due) el k w m" and l: "loop_inv el k m"
  shows "\<exists>el' k' m'. free_object f a (Some (el, k, w)) m =
       (Some (el', k', w\<lparr>sw_conns := filter (\<lambda>hc. hc_addr hc \<noteq> a) (sw_conns w)\<rparr>), m') \<and>
     world_inv due el' k' (w\<lparr>sw_conns := filter (\<lambda>hc. hc_addr hc \<noteq> a) (sw_conns w)\<rparr>) m' \<and> loop_inv el' k' m' \<and>
     answers m' = answers m \<and> fresh m' = fresh m \<and> el_collector el' = el_collector el \<and>
     (\<forall>fd. k_open k' fd \<longrightarrow> k_open k fd)"
proof -
  let ?w = "w\<lparr>sw_conns := filter (\<lambda>hc. hc_addr hc \<noteq> a) (sw_conns w)\<rparr>"
  obtain hc where hc: "hc \<in> set (sw_conns w)" "hc_addr hc = a" using w by (auto simp: world_inv_def)
  have "distinct (map hc_addr (sw_conns w))" using w by (simp add: world_inv_def)
  from find_key_unique[OF this hc(1)] hc(2) have found: "find (\<lambda>hc. hc_addr hc = a) (sw_conns w) = Some hc" by simp
  have ok: "conn_ok (a # due) el k m hc2" if "hc2 \<in> set (sw_conns w)" for hc2
    using w that by (simp add: world_inv_def)
  have "0 \<le> conn_fd hc \<Longrightarrow> k_open k (conn_fd hc)" using ok[OF hc(1)] by (simp add: conn_ok_def)
  from destroy_connection[OF l this] obtain el' k' m' where
    d: "http_connection_destroy hc el k m = Some (el', k', m')" "loop_inv el' k' m'"
    "answers m' = answers m" "fresh m' = fresh m" "el_collector el' = el_collector el"
    "if 0 \<le> conn_fd hc then watches el' = (watches el)(conn_fd hc := \<lambda>_. None) \<and> k_open k' = (k_open k)(conn_fd hc := False)
      else watches el' = watches el \<and> k_open k' = k_open k" by blast
  have others: "conn_ok due el' k' m' hc2" if h: "hc2 \<in> set (sw_conns w)" "hc_addr hc2 \<noteq> a" for hc2
  proof -
    have "0 \<le> conn_fd hc2 \<Longrightarrow> conn_fd hc2 \<noteq> conn_fd hc"
      using open_connection_unique[OF w h(1) hc(1)] h(2) hc(2) by metis
    with ok[OF h(1)] d(4,6) h(2) show ?thesis by (auto simp: conn_ok_def split: if_splits)
  qed
  have watch: "live_watch ?w k' fd cb" if cb: "watches el' fd t = Some cb" for fd t cb
  proof -
    have old: "watches el fd t = Some cb" and op: "k_open k fd \<Longrightarrow> k_open k' fd" and
      ne: "0 \<le> fd \<longrightarrow> fd \<noteq> conn_fd hc"
      using cb d(6) by (auto split: if_splits)
    have "live_watch w k fd cb" using w old by (simp add: world_inv_def)
    with op ne hc(2) distinct_map_eq[of hc_addr "sw_conns w", OF _ _ hc(1)] w show ?thesis
      unfolding live_watch_def world_inv_def by (simp, metis)
  qed
  have "world_inv due el' k' ?w m'"
    unfolding world_inv_def
  proof (intro conjI allI impI ballI)
    have "set due \<subseteq> hc_addr ` set (sw_conns w)" "a \<notin> set due" using w by (simp_all add: world_inv_def)
    then show "set due \<subseteq> hc_addr ` set (sw_conns ?w)" by fastforce
    show "conn_ok due el' k' m' hc2" if "hc2 \<in> set (sw_conns ?w)" for hc2 using that others by simp
    show "live_watch ?w k' fd cb" if "watches el' fd t = Some cb" for fd t cb using that by (rule watch)
  qed (use w in \<open>simp_all add: world_inv_def distinct_map_filter\<close>)
  moreover have "free_object f a (Some (el, k, w)) m = (Some (el', k', ?w), m')"
    using found d(1) by (simp add: free_object_def)
  moreover have "\<forall>fd. k_open k' fd \<longrightarrow> k_open k fd" using d(6) by (auto split: if_splits)
  ultimately show ?thesis using d(2-5) by blast
qed

lemma world_inv_blocks [simp]: "world_inv due el k w (m\<lparr>blocks := b\<rparr>) = world_inv due el k w m"
  by (simp add: world_inv_def conn_ok_def)

lemma collect_loop_frees:
  "world_inv (map ce_data es) el k w m \<Longrightarrow> loop_inv el k m \<Longrightarrow>
     \<exists>el' k' m'. collect_loop free_object es (Some (el, k, w)) m =
       (Some (el', k', w\<lparr>sw_conns := filter (\<lambda>hc. hc_addr hc \<notin> set (map ce_data es)) (sw_conns w)\<rparr>), m') \<and>
     world_inv [] el' k' (w\<lparr>sw_conns := filter (\<lambda>hc. hc_addr hc \<notin> set (map ce_data es)) (sw_conns w)\<rparr>) m' \<and>
     loop_inv el' k' m' \<and> answers m' = answers m \<and> fresh m' = fresh m \<and> el_collector el' = el_collector el \<and>
     (\<forall>fd. k_open k' fd \<longrightarrow> k_open k fd)"
proof (induction es arbitrary: el k w m)
  case (Cons e es)
  let ?w = "w\<lparr>sw_conns := filter (\<lambda>hc. hc_addr hc \<noteq> ce_data e) (sw_conns w)\<rparr>"
  from free_step[of "ce_data e" "map ce_data es" el k w m "ce_free_func e"] Cons.prems obtain el1 k1 m1 where
    f: "free_object (ce_free_func e) (ce_data e) (Some (el, k, w)) m = (Some (el1, k1, ?w), m1)"
    "world_inv (map ce_data es) el1 k1 ?w m1" "loop_inv el1 k1 m1"
    "answers m1 = answers m" "fresh m1 = fresh m" "el_collector el1 = el_collector el" "\<forall>fd. k_open k1 fd \<longrightarrow> k_open k fd" by auto
  have g: "world_inv (map ce_data es) el1 k1 ?w (memory_destroy (Some e) m1)" "loop_inv el1 k1 (memory_destroy (Some e) m1)"
    using f(2,3) by simp_all
  have filt: "filter (\<lambda>hc. hc_addr hc \<notin> set (map ce_data es)) (sw_conns ?w) =
      filter (\<lambda>hc. hc_addr hc \<notin> set (map ce_data (e # es))) (sw_conns w)"
    by (simp add: conj_commute)
  from Cons.IH[OF g] f(1,4-7) show ?case unfolding filt by auto
qed simp

lemma collect_frees:
  assumes "server_inv s"
  shows "\<exists>s'. collect_step free_object s = Some s' \<and> server_inv s' \<and> scheduled (ls_eloop s') = [] \<and>
     sw_conns (ls_world s') = filter (\<lambda>hc. hc_addr hc \<notin> set (scheduled (ls_eloop s))) (sw_conns (ls_world s)) \<and>
     sw_rest (ls_world s') = sw_rest (ls_world s) \<and> (\<forall>fd. k_open (ls_kernel s') fd \<longrightarrow> k_open (ls_kernel s) fd)"
proof -
  obtain c where c: "el_collector (ls_eloop s) = Some c" using assms by (auto simp: server_inv_def sound_def)
  have due: "scheduled (ls_eloop s) = map ce_data (collect_entries_list c)"
    by (simp add: scheduled_def c collector_pending_def)
  let ?w = "(ls_world s)\<lparr>sw_conns := filter (\<lambda>hc. hc_addr hc \<notin> set (map ce_data (collect_entries_list c))) (sw_conns (ls_world s))\<rparr>"
  from collect_loop_frees[of "collect_entries_list c" "ls_eloop s" "ls_kernel s" "ls_world s" "ls_mem s"] assms
  obtain el k m where l: "collect_loop free_object (collect_entries_list c)
      (Some (ls_eloop s, ls_kernel s, ls_world s)) (ls_mem s) = (Some (el, k, ?w), m)"
    "world_inv [] el k ?w m" "loop_inv el k m" "answers m = answers (ls_mem s)"
    "\<forall>fd. k_open k fd \<longrightarrow> k_open (ls_kernel s) fd"
    by (auto simp: server_inv_def sound_def due)
  let ?c = "c\<lparr>collect_entries_list := []\<rparr>"
  let ?s = "\<lparr>ls_eloop = el\<lparr>el_collector := Some ?c\<rparr>, ls_kernel = k, ls_world = ?w, ls_mem = m\<rparr>"
  have "collect_step free_object s = Some ?s"
    using l(1) c by (simp add: collect_step_def collector_collect_def)
  moreover have none: "scheduled (ls_eloop ?s) = []" by (simp add: scheduled_def collector_pending_def)
  moreover have "server_inv ?s"
    using l(2-4) assms none by (simp add: server_inv_def sound_def) (simp add: world_inv_def)
  ultimately show ?thesis using l(5) unfolding due by (intro exI[of _ ?s]) simp
qed

section \<open>Reachable states\<close>

lemma connection_found:
  assumes "server_inv s" "watches (ls_eloop s) fd t = Some cb" "tcp_of cb = Some a"
  shows "\<exists>hc. hc \<in> set (sw_conns (ls_world s)) \<and> conn_tcp hc = a \<and> conn_fd hc = fd \<and> 0 \<le> fd \<and> wired hc"
  using assms by (fastforce simp: server_inv_def world_inv_def live_watch_def conn_ok_def)

text \<open>What the loop calls keeps the invariant; only reading can be undefined, in the parser's
  callbacks or in a container.\<close>

text \<open>A callback of the TCP layer is a handler of the one connection it was registered for.\<close>

lemma fire_handler:
  assumes r: "router_keeps router" and inv: "server_inv s"
    and w: "watches (ls_eloop s) fd t = Some cb" and a: "tcp_of cb = Some a"
    and run: "fire router lib so banner sg cb fd s = Some s'"
  shows "\<exists>hc handler. hc \<in> set (sw_conns (ls_world s)) \<and> conn_tcp hc = a \<and> connection_event handler a s = Some s' \<and>
     (\<forall>ret hc' el' k' x' m'.
        handler hc (hc, ls_eloop s, ls_kernel s, sw_rest (ls_world s), ls_mem s) = Some (ret, hc', el', k', x', m') \<longrightarrow>
        conn_step hc (ls_eloop s, ls_kernel s, ls_mem s) hc' (el', k', m'))"
proof -
  obtain hc where hc: "hc \<in> set (sw_conns (ls_world s))" "conn_tcp hc = a" "wired hc"
    using connection_found[OF inv w a] by blast
  note ready = conn_ready_inv[OF inv hc(1)]
  note writes = write_step[OF ready, of so "sw_rest (ls_world s)"] and closes = peer_close_step[OF ready, of "sw_rest (ls_world s)"]
  show ?thesis
  proof (cases cb)
    case (Connection_ready_read b)
    with a run hc(1,2) show ?thesis
      by (intro exI[of _ hc] exI[of _ "\<lambda>hc. on_ready_read (http_callback router lib so) (hc_tcp_connection hc)"])
        (auto simp: fire_def wired_callbacks[OF hc(3)] intro: served_router.read_step[OF served_router.intro[OF r] ready])
  next
    case (Connection_ready_write b)
    with a run hc(1,2) writes show ?thesis
      by (intro exI[of _ hc] exI[of _ "\<lambda>hc. on_ready_write (http_callback router lib so) (hc_tcp_connection hc)"])
        (auto simp: fire_def wired_callbacks[OF hc(3)])
  next
    case (Connection_close b)
    with a run hc(1,2) closes show ?thesis
      by (intro exI[of _ hc] exI[of _ "\<lambda>hc. on_close (http_callback router lib so) (hc_tcp_connection hc)"])
        (auto simp: fire_def wired_callbacks[OF hc(3)])
  qed (use a in simp_all)
qed

text \<open>Writing and closing are never undefined.\<close>

lemma fire_runs:
  assumes inv: "server_inv s" and w: "watches (ls_eloop s) fd t = Some cb"
    and cb: "cb = Connection_ready_write a \<or> cb = Connection_close a"
  shows "fire router lib so banner on_signal cb fd s \<noteq> None"
proof -
  obtain hc where hc: "hc \<in> set (sw_conns (ls_world s))" "conn_tcp hc = a" "wired hc"
    using connection_found[OF inv w, of a] cb by auto
  have "distinct (map conn_tcp (sw_conns (ls_world s)))" using inv by (simp add: server_inv_def world_inv_def)
  note found = find_connection_alive[OF this hc(1), unfolded hc(2)]
  note ready = conn_ready_inv[OF inv hc(1)]
  from write_step[OF ready, of so "sw_rest (ls_world s)"] peer_close_step[OF ready, of "sw_rest (ls_world s)"] cb found
  show ?thesis by (auto simp: fire_def connection_event_def wired_callbacks[OF hc(3)])
qed

lemma incoming_inv:
  assumes inv: "server_inv s" and w: "watches (ls_eloop s) fd t = Some (Server_incoming a)"
    and new: "accepts_new so (Server_incoming a) fd s"
  shows "\<exists>s'. fire router lib so banner on_signal (Server_incoming a) fd s = Some s' \<and> server_inv s'"
proof -
  have a: "a = ts_addr (hs_tcp_server (sw_server (ls_world s)))"
    using inv w by (auto simp: server_inv_def world_inv_def live_watch_def)
  obtain res x where acc: "so_accept so fd (sw_rest (ls_world s)) = (res, x)" by fastforce
  show ?thesis
  proof (cases res)
    case (Io_failed errno)
    have "server_inv (s\<lparr>ls_world := (ls_world s)\<lparr>sw_rest := x\<rparr>\<rparr>)"
      using inv running_inv[where s = s and b = "el_running (ls_eloop s)" and x = x] by simp
    with Io_failed acc a show ?thesis by (auto simp: fire_def on_incoming_connection_def)
  next
    case (Io_done fd')
    with new acc have "0 \<le> fd'" "\<not> k_open (ls_kernel s) fd'" by (simp_all add: accepts_new_def)
    from accept_inv[OF inv acc[unfolded Io_done] this, of router lib banner on_signal] show ?thesis
      unfolding a by blast
  qed
qed

lemma handler_inv:
  assumes r: "router_keeps router" and inv: "server_inv s"
    and w: "watches (ls_eloop s) fd t = Some cb" and a: "tcp_of cb = Some a"
    and run: "fire router lib so banner sg cb fd s = Some s'"
  shows "server_inv s'"
proof -
  from fire_handler[OF assms] obtain hc handler where h: "hc \<in> set (sw_conns (ls_world s))" "conn_tcp hc = a"
    "connection_event handler a s = Some s'"
    "\<forall>ret hc' el' k' x' m'.
        handler hc (hc, ls_eloop s, ls_kernel s, sw_rest (ls_world s), ls_mem s) = Some (ret, hc', el', k', x', m') \<longrightarrow>
        conn_step hc (ls_eloop s, ls_kernel s, ls_mem s) hc' (el', k', m')"
    by (elim exE conjE) (rule that)
  show ?thesis by (rule connection_event_inv[OF inv h(1) h(3)[folded h(2)]]) (use h(4) in blast)
qed

lemma fire_inv:
  assumes r: "router_keeps router" and sg: "only_stops on_signal" and inv: "server_inv s"
    and w: "watches (ls_eloop s) fd t = Some cb" and new: "accepts_new so cb fd s"
  shows "(fire router lib so banner on_signal cb fd s = Some s' \<longrightarrow> server_inv s') \<and>
     (case cb of Connection_ready_read a \<Rightarrow> True | Signal_ready a \<Rightarrow> True
      | _ \<Rightarrow> fire router lib so banner on_signal cb fd s \<noteq> None)"
proof (cases cb)
  case (Server_incoming a)
  with incoming_inv[OF inv w[unfolded Server_incoming] new[unfolded Server_incoming], of router lib banner on_signal]
  show ?thesis by auto
next
  case (Signal_ready a)
  have "server_inv s'" if "on_signal a fd s = Some s'"
    using sg that inv unfolding only_stops_def by (metis running_inv)
  with Signal_ready show ?thesis by (simp add: fire_def)
qed (use handler_inv[OF r inv w] fire_runs[OF inv w, of _ router lib so banner on_signal] in \<open>simp_all del: not_None_eq\<close>)

lemma server_step_inv:
  assumes "router_keeps router" "only_stops on_signal" "server_step router lib so banner on_signal s s'" "server_inv s"
  shows "server_inv s'"
  using assms(3)
proof (cases rule: server_step.cases)
  case (callback fd t cb)
  with fire_inv[OF assms(1,2,4)] show ?thesis by blast
next
  case collect
  with collect_frees[OF assms(4)] show ?thesis by auto
qed

lemma server_reach_inv:
  assumes "router_keeps router" "only_stops on_signal" "(server_step router lib so banner on_signal)\<^sup>*\<^sup>* s s'" "server_inv s"
  shows "server_inv s'"
  using assms(3,4) by (induction rule: rtranclp_induct) (auto intro: server_step_inv[OF assms(1,2)])

text \<open>What the loop does is such steps, one after the other.\<close>

lemma dispatch_kind_step:
  assumes inv: "server_inv s" and new: "\<And>cb fd. accepts_new so cb fd s"
    and run: "dispatch_kind (fire router lib so banner on_signal) t ev s = Some s'"
  shows "(server_step router lib so banner on_signal)\<^sup>*\<^sup>* s s'"
proof (cases "s' = s")
  case False
  with run obtain e cb where e: "entry_at (fst ev) s = Some e" "ec_callbacks e t = Some cb"
    "fire router lib so banner on_signal cb (ec_fd e) s = Some s'"
    by (auto simp: dispatch_kind_def split: if_splits Option.bind_splits option.splits)
  have "distinct (map ec_fd (el_callbacks_list (ls_eloop s)))" "e \<in> set (el_callbacks_list (ls_eloop s))"
    using inv e(1) find_Some_in by (fastforce simp: server_inv_def sound_def loop_inv_def entry_at_def)+
  from find_key_unique[OF this] have "watches (ls_eloop s) (ec_fd e) t = Some cb"
    using e(2) by (simp add: watches_def find_callback_by_fd_def)
  from server_step.callback[OF this new e(3)] show ?thesis by blast
qed simp

lemma run_steps:
  assumes r: "router_keeps router" "only_stops on_signal" and inv: "server_inv s"
    and new: "\<And>s' cb fd. (server_step router lib so banner on_signal)\<^sup>*\<^sup>* s s' \<Longrightarrow> accepts_new so cb fd s'"
    and one: "\<And>e s1 s2. server_inv s1 \<Longrightarrow> (\<And>s' cb fd. (server_step router lib so banner on_signal)\<^sup>*\<^sup>* s1 s' \<Longrightarrow> accepts_new so cb fd s') \<Longrightarrow>
      step e s1 = Some s2 \<Longrightarrow> (server_step router lib so banner on_signal)\<^sup>*\<^sup>* s1 s2"
    and run: "run_opt step es s = Some s'"
  shows "(server_step router lib so banner on_signal)\<^sup>*\<^sup>* s s'"
  using inv new run
proof (induction es arbitrary: s)
  case (Cons e es)
  then obtain s1 where s1: "step e s = Some s1" "run_opt step es s1 = Some s'" by (auto split: Option.bind_splits)
  from one[OF Cons.prems(1) Cons.prems(2) s1(1)] have to: "(server_step router lib so banner on_signal)\<^sup>*\<^sup>* s s1" by blast
  have "(server_step router lib so banner on_signal)\<^sup>*\<^sup>* s1 s'"
    by (rule Cons.IH[OF server_reach_inv[OF r to Cons.prems(1)] _ s1(2)])
      (use Cons.prems(2) to in \<open>blast intro: rtranclp_trans\<close>)
  with to show ?case by (rule rtranclp_trans)
qed simp

lemma dispatch_steps:
  assumes r: "router_keeps router" "only_stops on_signal" and inv: "server_inv s"
    and new: "\<And>s' cb fd. (server_step router lib so banner on_signal)\<^sup>*\<^sup>* s s' \<Longrightarrow> accepts_new so cb fd s'"
    and run: "dispatch_event (fire router lib so banner on_signal) ev s = Some s'"
  shows "(server_step router lib so banner on_signal)\<^sup>*\<^sup>* s s'"
proof -
  have "run_opt (\<lambda>t. dispatch_kind (fire router lib so banner on_signal) t ev)
      [ELOOP_CALLBACK_CLOSE, ELOOP_CALLBACK_READ, ELOOP_CALLBACK_WRITE] s = Some s'"
    using run by (auto simp: dispatch_event_def split: Option.bind_splits)
  then show ?thesis
    by (rule run_steps[OF r inv new, rotated 2]) (blast intro: dispatch_kind_step)+
qed

lemma batches_steps:
  assumes r: "router_keeps router" "only_stops on_signal" and inv: "server_inv s"
    and new: "\<And>s' cb fd. (server_step router lib so banner on_signal)\<^sup>*\<^sup>* s s' \<Longrightarrow> accepts_new so cb fd s'"
    and run: "loop_batches (fire router lib so banner on_signal) free_object batches s = Some s'"
  shows "(server_step router lib so banner on_signal)\<^sup>*\<^sup>* s s'"
  using inv new run
proof (induction batches arbitrary: s)
  case (Cons evs batches)
  show ?case
  proof (cases "el_running (ls_eloop s)")
    case True
    with Cons.prems(3) obtain s1 s2 where s: "run_opt (dispatch_event (fire router lib so banner on_signal)) evs s = Some s1"
      "collect_step free_object s1 = Some s2"
      "loop_batches (fire router lib so banner on_signal) free_object batches s2 = Some s'"
      by (auto split: Option.bind_splits)
    have one: "(server_step router lib so banner on_signal)\<^sup>*\<^sup>* s s1"
      by (rule run_steps[OF r Cons.prems(1,2) _ s(1)]) (blast intro: dispatch_steps[OF r])+
    have two: "(server_step router lib so banner on_signal)\<^sup>*\<^sup>* s s2"
      using one server_step.collect[OF s(2)] by (rule rtranclp.rtrancl_into_rtrancl)
    have "(server_step router lib so banner on_signal)\<^sup>*\<^sup>* s2 s'"
      by (rule Cons.IH[OF server_reach_inv[OF r two Cons.prems(1)] _ s(3)])
        (use Cons.prems(2) two in \<open>blast intro: rtranclp_trans\<close>)
    with two show ?thesis by (rule rtranclp_trans)
  next
    case False
    with Cons.prems(3) show ?thesis by simp
  qed
qed simp

section \<open>What the invariant says\<close>

lemma server_inv_connections:
  assumes "server_inv s"
  shows "(\<forall>hc \<in> set (sw_conns (ls_world s)).
       if 0 \<le> conn_fd hc
       then k_open (ls_kernel s) (conn_fd hc) \<and> watches (ls_eloop s) (conn_fd hc) = http_registered (hc_tcp_connection hc)
       else hc_addr hc \<in> set (scheduled (ls_eloop s))) \<and> distinct (scheduled (ls_eloop s))"
  using assms by (auto simp: server_inv_def world_inv_def conn_ok_def)

lemma server_inv_watches:
  assumes "server_inv s"
  shows "\<forall>fd t cb. watches (ls_eloop s) fd t = Some cb \<longrightarrow> k_open (ls_kernel s) fd \<and>
       (\<forall>a. tcp_of cb = Some a \<longrightarrow> (\<exists>hc \<in> set (sw_conns (ls_world s)). conn_fd hc = fd \<and> conn_tcp hc = a))"
  using assms unfolding server_inv_def world_inv_def live_watch_def by blast

lemma undue_open:
  "server_inv s \<Longrightarrow> scheduled (ls_eloop s) = [] \<Longrightarrow> hc \<in> set (sw_conns (ls_world s)) \<Longrightarrow> 0 \<le> conn_fd hc"
  by (auto simp: server_inv_def world_inv_def conn_ok_def split: if_splits)

text \<open>Every batch ends with a collection.\<close>

lemma batches_collected:
  assumes r: "router_keeps router" "only_stops on_signal" and inv: "server_inv s"
    and new: "\<And>s' cb fd. (server_step router lib so banner on_signal)\<^sup>*\<^sup>* s s' \<Longrightarrow> accepts_new so cb fd s'"
    and none: "scheduled (ls_eloop s) = []"
    and run: "loop_batches (fire router lib so banner on_signal) free_object batches s = Some s'"
  shows "scheduled (ls_eloop s') = []"
  using inv new none run
proof (induction batches arbitrary: s)
  case (Cons evs batches)
  show ?case
  proof (cases "el_running (ls_eloop s)")
    case True
    with Cons.prems(4) obtain s1 s2 where s: "run_opt (dispatch_event (fire router lib so banner on_signal)) evs s = Some s1"
      "collect_step free_object s1 = Some s2"
      "loop_batches (fire router lib so banner on_signal) free_object batches s2 = Some s'"
      by (auto split: Option.bind_splits)
    have one: "(server_step router lib so banner on_signal)\<^sup>*\<^sup>* s s1"
      by (rule run_steps[OF r Cons.prems(1,2) _ s(1)]) (blast intro: dispatch_steps[OF r])+
    have two: "(server_step router lib so banner on_signal)\<^sup>*\<^sup>* s s2"
      using one server_step.collect[OF s(2)] by (rule rtranclp.rtrancl_into_rtrancl)
    have "scheduled (ls_eloop s2) = []"
      using collect_frees[OF server_reach_inv[OF r one Cons.prems(1)]] s(2) by auto
    from Cons.IH[OF server_reach_inv[OF r two Cons.prems(1)] _ this s(3)] Cons.prems(2) two
    show ?thesis by (blast intro: rtranclp_trans)
  next
    case False
    with Cons.prems(3,4) show ?thesis by simp
  qed
qed simp

end
