(* ===== verification/Program_States.thy ===== *)
theory Program_States
  imports Main_Program Server_States
begin

text \<open>
  The states a started program can be in.  \<open>main\<close> starts in a state that fulfils the invariant of
  \<open>Server_States\<close>, and its loop makes the steps of that theory; so the invariant holds for as
  long as the program runs, whatever its peers send, the kernel answers and the container does.
\<close>

section \<open>The start\<close>

lemma run_signal_only_stops: "only_stops (run_signal (read_signal :: 'x \<Rightarrow> nat option \<times> 'x) sh)"
  unfolding only_stops_def
proof (intro allI impI)
  fix a fd and s s' :: "('p, 'x) server_state"
  assume run: "run_signal read_signal sh a fd s = Some s'"
  obtain got x where got: "read_signal (sw_rest (ls_world s)) = (got, x)" by fastforce
  let ?s = "s\<lparr>ls_world := (ls_world s)\<lparr>sw_rest := x\<rparr>\<rparr>"
  have "s' = ?s \<or> (\<exists>data el. on_signal data (ls_eloop s) = Some el \<and> s' = ?s\<lparr>ls_eloop := el\<rparr>)"
    using run got by (auto simp: run_signal_def on_signal_ready_def Let_def split: if_splits option.splits)
  then obtain b where "s' = ?s\<lparr>ls_eloop := (ls_eloop s)\<lparr>el_running := b\<rparr>\<rparr>"
  proof (elim disjE exE conjE)
    assume "s' = ?s"
    then show ?thesis by (intro that[of "el_running (ls_eloop s)"]) simp
  next
    fix data el
    assume "on_signal data (ls_eloop s) = Some el" "s' = ?s\<lparr>ls_eloop := el\<rparr>"
    then show ?thesis by (intro that[of False]) (simp add: on_signal_def event_loop_stop_def split: if_splits)
  qed
  then show "\<exists>b x. s' = s\<lparr>ls_eloop := (ls_eloop s)\<lparr>el_running := b\<rparr>, ls_world := (ls_world s)\<lparr>sw_rest := x\<rparr>\<rparr>"
    by (intro exI[of _ b] exI[of _ x]) simp
qed

lemma null_container_keeps: "cont_serve c = null_serve \<Longrightarrow> container_keeps c"
  using null.response_writer_axioms[of "cont_handle c"]
  by (metis container_keeps_def container_serve_def ext)

lemma router_keeps_routes:
  assumes "cont_serve (rt_null rt) = null_serve" "rt_starter rt = None" "routes rt = [(r, c)]" "container_keeps c"
  shows "router_keeps rt"
proof -
  have "rb_container b = c" if "pack \<in> set (rt_packs rt)" "b \<in> set pack" for pack b
  proof -
    have "(route_of b, rb_container b) \<in> set (routes rt)" using that by (auto simp: routes_def)
    with assms(3) show ?thesis by simp
  qed
  with assms(2,4) null_container_keeps[OF assms(1)] show ?thesis by (auto simp: router_keeps_def)
qed

lemma program_ready_inv:
  assumes ready: "program_ready opened b pg" and none: "sw_conns (ls_world (pg_state pg)) = []"
    and mem: "answers (ls_mem (pg_state pg)) = []"
    and srv: "ts_accept_callback (hs_tcp_server (sw_server (ls_world (pg_state pg)))) = Some Http_on_accept"
      "ts_data (hs_tcp_server (sw_server (ls_world (pg_state pg)))) \<noteq> None"
  shows "server_inv (pg_state pg) \<and> scheduled (ls_eloop (pg_state pg)) = []"
proof -
  let ?s = "pg_state pg"
  have due: "scheduled (ls_eloop ?s) = []"
    using ready by (simp add: program_ready_def Let_def scheduled_def collector_pending_def)
  have "live_watch (ls_world ?s) (ls_kernel ?s) fd cb" if "watches (ls_eloop ?s) fd t = Some cb" for fd t cb
    using that ready by (auto simp: program_ready_def server_holds_def live_watch_def table_add_def Let_def split: if_splits)
  then show ?thesis
    using ready none mem srv due by (simp add: server_inv_def sound_def world_inv_def program_ready_def Let_def)
qed

text \<open>The steps of the loop in a started program.\<close>

abbreviation program_step ::
    "('h, 'ps, 'x) main_world \<Rightarrow> ('h, 'ps, 'x) program \<Rightarrow> ('ps, 'x) server_state \<Rightarrow> ('ps, 'x) server_state \<Rightarrow> bool" where
  "program_step mw pg \<equiv> server_step (pg_router pg) (mw_parser mw) (mw_sockets mw) (mw_banner mw)
     (run_signal (mw_read_signal mw) (pg_signals pg))"

lemma main_start_inv:
  fixes container :: "('h, 'x served, RappConfig) Container" and mw :: "('h, 'ps, 'x) main_world"
  assumes "signals_work mw" "0 \<le> mw_epollfd mw" "answers m = []" "k_epoll k = (\<lambda>_. None)"
    and "\<not> k_open k (mw_signalfd mw)" "\<not> k_open k (sys_socket (mw_listen mw))"
    and "sys_socket (mw_listen mw) \<noteq> mw_signalfd mw" "container_keeps container"
    and "main_start mw logger container address port sg x k m = Some pg"
  shows "server_inv (pg_state pg) \<and> scheduled (ls_eloop (pg_state pg)) = [] \<and> router_keeps (pg_router pg)"
proof -
  from main_start_ready[OF assms(1-7), of logger container address port sg x] assms(9)
  have "program_ready (k_open k) (blocks m) pg" "sw_conns (ls_world (pg_state pg)) = []"
    "answers (ls_mem (pg_state pg)) = []"
    "ts_accept_callback (hs_tcp_server (sw_server (ls_world (pg_state pg)))) = Some Http_on_accept"
    "ts_data (hs_tcp_server (sw_server (ls_world (pg_state pg)))) \<noteq> None"
    "cont_serve (rt_null (pg_router pg)) = null_serve" "rt_starter (pg_router pg) = None"
    "routes (pg_router pg) = [(Some ''/'', container)]" by auto
  with program_ready_inv router_keeps_routes assms(8) show ?thesis by blast
qed

section \<open>For as long as the program runs\<close>

text \<open>
  C4: Whatever a started program has gone through - any order of accepted connections, requests, partial
  writes, hang-ups, signals and collections - every connection it knows is either open and watched for
  reading, writing and closing, or it is closed and about to be freed; every watch is on an open descriptor and belongs to
  an object that is alive; the objects to be freed are distinct live connections, so that collecting them is defined,
  frees each once and leaves exactly the others, all open; and no callback the loop holds is undefined
  but, in the parser's callbacks or a container, one for reading, or the signal handler's.
\<close>

theorem program_states_consistent:
  fixes container :: "('h, 'x served, RappConfig) Container" and mw :: "('h, 'ps, 'x) main_world"
  assumes "signals_work mw" "0 \<le> mw_epollfd mw" "answers m = []" "k_epoll k = (\<lambda>_. None)"
    and "\<not> k_open k (mw_signalfd mw)" "\<not> k_open k (sys_socket (mw_listen mw))"
    and "sys_socket (mw_listen mw) \<noteq> mw_signalfd mw" "container_keeps container"
    and "main_start mw logger container address port sg x k m = Some pg"
    and "(program_step mw pg)\<^sup>*\<^sup>* (pg_state pg) s"
  shows "(\<forall>hc \<in> set (sw_conns (ls_world s)).
       if 0 \<le> conn_fd hc
       then k_open (ls_kernel s) (conn_fd hc) \<and> watches (ls_eloop s) (conn_fd hc) = http_registered (hc_tcp_connection hc)
       else hc_addr hc \<in> set (scheduled (ls_eloop s))) \<and>
     (\<forall>fd t cb. watches (ls_eloop s) fd t = Some cb \<longrightarrow> k_open (ls_kernel s) fd \<and>
       (\<forall>a. tcp_of cb = Some a \<longrightarrow> (\<exists>hc \<in> set (sw_conns (ls_world s)). conn_fd hc = fd \<and> conn_tcp hc = a))) \<and>
     distinct (scheduled (ls_eloop s)) \<and>
     (\<exists>s'. collect_step free_object s = Some s' \<and> scheduled (ls_eloop s') = [] \<and>
       sw_conns (ls_world s') = filter (\<lambda>hc. hc_addr hc \<notin> set (scheduled (ls_eloop s))) (sw_conns (ls_world s)) \<and>
       (\<forall>hc \<in> set (sw_conns (ls_world s')). 0 \<le> conn_fd hc)) \<and>
     (\<forall>fd t cb. watches (ls_eloop s) fd t = Some cb \<longrightarrow> accepts_new (mw_sockets mw) cb fd s \<longrightarrow>
       main_fire mw pg cb fd s = None \<longrightarrow> (\<exists>a. cb = Connection_ready_read a \<or> cb = Signal_ready a))"
proof -
  have start: "server_inv (pg_state pg)" "router_keeps (pg_router pg)" using main_start_inv[OF assms(1-9)] by simp_all
  have inv: "server_inv s" by (rule server_reach_inv[OF start(2) run_signal_only_stops assms(10) start(1)])
  obtain s' where s': "collect_step free_object s = Some s'" "server_inv s'" "scheduled (ls_eloop s') = []"
    "sw_conns (ls_world s') = filter (\<lambda>hc. hc_addr hc \<notin> set (scheduled (ls_eloop s))) (sw_conns (ls_world s))"
    using collect_frees[OF inv] by blast
  have "\<forall>hc \<in> set (sw_conns (ls_world s')). 0 \<le> conn_fd hc" by (rule ballI, rule undue_open[OF s'(2,3)])
  with s' have collected: "\<exists>s'. collect_step free_object s = Some s' \<and> scheduled (ls_eloop s') = [] \<and>
       sw_conns (ls_world s') = filter (\<lambda>hc. hc_addr hc \<notin> set (scheduled (ls_eloop s))) (sw_conns (ls_world s)) \<and>
       (\<forall>hc \<in> set (sw_conns (ls_world s')). 0 \<le> conn_fd hc)" by blast
  have fired: "\<exists>a. cb = Connection_ready_read a \<or> cb = Signal_ready a"
    if "watches (ls_eloop s) fd t = Some cb" "accepts_new (mw_sockets mw) cb fd s" "main_fire mw pg cb fd s = None" for fd t cb
    using fire_inv[OF start(2) run_signal_only_stops inv that(1,2), of "mw_parser mw" "mw_banner mw"
        "mw_read_signal mw" "pg_signals pg"] that(3)
    unfolding main_fire_def by (cases cb) simp_all
  show ?thesis
    using server_inv_connections[OF inv] server_inv_watches[OF inv] collected fired by blast
qed

text \<open>A client is accepted: the socket is 6, the client's descriptor 9.\<close>

definition open_world :: "(unit, unit, nat) main_world" where
  "open_world = busy_world\<lparr>mw_listen := busy_port\<lparr>sys_bind := 0\<rparr>\<rparr>"

lemma open_world_facts:
  "signals_work open_world" "0 \<le> mw_epollfd open_world" "k_epoll only_std = (\<lambda>_. None)"
  "\<not> k_open only_std (mw_signalfd open_world)" "\<not> k_open only_std (sys_socket (mw_listen open_world))"
  "sys_socket (mw_listen open_world) \<noteq> mw_signalfd open_world" "container_keeps silent_container"
  "can_listen (mw_listen open_world) ''::1'' 8080" "sys_socket (mw_listen open_world) = 6" "mw_signalfd open_world = 4"
  "mw_sockets open_world = one_client"
  by (simp_all add: open_world_def busy_world_def signals_work_def only_std_def busy_port_def can_listen_def
      null_container_keeps silent_container_def dec.simps)

lemma open_world_start:
  "\<exists>pg. main_start open_world () silent_container ''::1'' 8080 \<lparr>sg_blocked = {}, sg_reported = {}\<rparr> 0 only_std mem0 = Some pg \<and>
     sw_conns (ls_world (pg_state pg)) = [] \<and> sw_rest (ls_world (pg_state pg)) = 0 \<and> \<not> k_open (ls_kernel (pg_state pg)) 9 \<and>
     watches (ls_eloop (pg_state pg)) 6 =
       (\<lambda>_. None)(ELOOP_CALLBACK_READ := Some (Server_incoming (ts_addr (hs_tcp_server (sw_server (ls_world (pg_state pg)))))))"
proof -
  from main_start_ready[OF open_world_facts(1,2) answers_mem0 open_world_facts(3-6), of "()" silent_container "''::1''" 8080
      "\<lparr>sg_blocked = {}, sg_reported = {}\<rparr>" 0] obtain pg where
    pg: "main_start open_world () silent_container ''::1'' 8080 \<lparr>sg_blocked = {}, sg_reported = {}\<rparr> 0 only_std mem0 = Some pg"
    "program_ready (k_open only_std) 0 pg" "sh_fd (pg_signals pg) = 4"
    "sw_conns (ls_world (pg_state pg)) = []" "sw_rest (ls_world (pg_state pg)) = 0"
    "watches (ls_eloop (pg_state pg)) 6 ELOOP_CALLBACK_READ \<noteq> None"
    using open_world_facts(8-10) by auto
  let ?tcp = "hs_tcp_server (sw_server (ls_world (pg_state pg)))"
  have holds: "server_holds ?tcp ((k_open only_std)(4 := True))
      (table_add 4 ELOOP_CALLBACK_READ (Signal_ready (sh_addr (pg_signals pg))) (\<lambda>_ _. None))
      (ls_eloop (pg_state pg)) (ls_kernel (pg_state pg))"
    using pg(2,3) by (simp add: program_ready_def Let_def)
  have w: "watches (ls_eloop (pg_state pg)) 6 = (\<lambda>_. None)(ELOOP_CALLBACK_READ := Some (Server_incoming (ts_addr ?tcp)))"
    "ts_listen_fd ?tcp = 6"
    using holds pg(6) by (auto simp: server_holds_def table_add_def split: if_splits)
  have "\<not> k_open (ls_kernel (pg_state pg)) 9" using holds w(2) by (simp add: server_holds_def only_std_def)
  with pg w show ?thesis by blast
qed

theorem program_states_consistent_witness:
  "\<exists>pg s hc. main_start open_world () silent_container ''::1'' 8080 \<lparr>sg_blocked = {}, sg_reported = {}\<rparr> 0 only_std mem0 = Some pg \<and>
     (program_step open_world pg)\<^sup>*\<^sup>* (pg_state pg) s \<and> sw_conns (ls_world s) = [hc] \<and> conn_fd hc = 9 \<and>
     watches (ls_eloop s) 9 = http_registered (hc_tcp_connection hc) \<and> k_open (ls_kernel s) 9 \<and>
     (\<exists>s'. collect_step free_object s = Some s')"
proof -
  obtain pg where pg: "main_start open_world () silent_container ''::1'' 8080 \<lparr>sg_blocked = {}, sg_reported = {}\<rparr> 0 only_std mem0 = Some pg"
    "sw_conns (ls_world (pg_state pg)) = []" "sw_rest (ls_world (pg_state pg)) = 0" "\<not> k_open (ls_kernel (pg_state pg)) 9"
    "watches (ls_eloop (pg_state pg)) 6 =
       (\<lambda>_. None)(ELOOP_CALLBACK_READ := Some (Server_incoming (ts_addr (hs_tcp_server (sw_server (ls_world (pg_state pg)))))))"
    using open_world_start by (elim exE conjE) (rule that, assumption+)
  let ?s = "pg_state pg"
  have inv: "server_inv ?s" using main_start_inv[OF open_world_facts(1,2) answers_mem0 open_world_facts(3-7) pg(1)] by blast
  have acc: "so_accept one_client 6 (sw_rest (ls_world ?s)) = (Io_done 9, 1)" using pg(3) by (simp add: one_client_def)
  have pre: "loop_inv (ls_eloop ?s) (ls_kernel ?s) (ls_mem ?s)" "answers (ls_mem ?s) = []" "watches (ls_eloop ?s) 9 = (\<lambda>_. None)"
    "ts_accept_callback (hs_tcp_server (sw_server (ls_world ?s))) = Some Http_on_accept"
    "ts_data (hs_tcp_server (sw_server (ls_world ?s))) \<noteq> None"
  proof -
    have w: "world_inv (scheduled (ls_eloop ?s)) (ls_eloop ?s) (ls_kernel ?s) (ls_world ?s) (ls_mem ?s)"
      and so: "sound (ls_eloop ?s, ls_kernel ?s, ls_mem ?s)" using inv by (simp_all add: server_inv_def)
    show "watches (ls_eloop ?s) 9 = (\<lambda>_. None)" by (rule closed_unwatched[OF w pg(4)])
    show "loop_inv (ls_eloop ?s) (ls_kernel ?s) (ls_mem ?s)" "answers (ls_mem ?s) = []" using so by (simp_all add: sound_def)
    show "ts_accept_callback (hs_tcp_server (sw_server (ls_world ?s))) = Some Http_on_accept"
      "ts_data (hs_tcp_server (sw_server (ls_world ?s))) \<noteq> None" using w by (simp_all add: world_inv_def)
  qed
  then obtain d where d: "ts_data (hs_tcp_server (sw_server (ls_world ?s))) = Some d" by auto
  from accept_result[OF pre(1,2) acc _ pre(3,4) d, of "pg_router pg" "mw_parser open_world" "mw_banner open_world"
      "run_signal (mw_read_signal open_world) (pg_signals pg)"]
  obtain hc s where s: "fire (pg_router pg) (mw_parser open_world) one_client (mw_banner open_world)
       (run_signal (mw_read_signal open_world) (pg_signals pg))
       (Server_incoming (ts_addr (hs_tcp_server (sw_server (ls_world ?s))))) 6 ?s = Some s"
    "sw_conns (ls_world s) = [hc]" "conn_fd hc = 9"
    using pg(2) by auto
  have "accepts_new one_client cb 6 ?s" for cb using acc pg(4) by (simp add: accepts_new_def)
  from server_step.callback[OF fun_cong[OF pg(5), of ELOOP_CALLBACK_READ, unfolded fun_upd_same] this s(1)] have reach: "(program_step open_world pg)\<^sup>*\<^sup>* ?s s"
    unfolding open_world_facts(11) by (rule r_into_rtranclp)
  note all = program_states_consistent[OF open_world_facts(1,2) answers_mem0 open_world_facts(3-7) pg(1) reach]
  have "watches (ls_eloop s) 9 = http_registered (hc_tcp_connection hc) \<and> k_open (ls_kernel s) 9"
    using conjunct1[OF all] s(2,3) by simp
  moreover have "\<exists>s'. collect_step free_object s = Some s'"
    using conjunct1[OF conjunct2[OF conjunct2[OF conjunct2[OF all]]]] by blast
  ultimately show ?thesis using pg(1) reach s(2,3) by blast
qed

section \<open>When the loop returns\<close>

text \<open>
  C9: When the loop returns, after any batches of events, nothing is left to be freed and every connection the program
  knows is open, watched for reading, writing and closing, and the only one on its descriptor.  (None of
  them is closed or freed by what \<open>main\<close> does next.)
\<close>

theorem loop_leaves_open_connections:
  fixes container :: "('h, 'x served, RappConfig) Container" and mw :: "('h, 'ps, 'x) main_world"
  assumes "signals_work mw" "0 \<le> mw_epollfd mw" "answers m = []" "k_epoll k = (\<lambda>_. None)"
    and "\<not> k_open k (mw_signalfd mw)" "\<not> k_open k (sys_socket (mw_listen mw))"
    and "sys_socket (mw_listen mw) \<noteq> mw_signalfd mw" "container_keeps container"
    and "main_start mw logger container address port sg x k m = Some pg"
    and "\<And>s cb fd. (program_step mw pg)\<^sup>*\<^sup>* ((pg_state pg)\<lparr>ls_eloop := (ls_eloop (pg_state pg))\<lparr>el_running := True\<rparr>\<rparr>) s \<Longrightarrow>
      accepts_new (mw_sockets mw) cb fd s"
    and "main_run mw pg = Some pg'"
  shows "scheduled (ls_eloop (pg_state pg')) = [] \<and>
    (\<forall>hc \<in> set (sw_conns (ls_world (pg_state pg'))). k_open (ls_kernel (pg_state pg')) (conn_fd hc) \<and>
       watches (ls_eloop (pg_state pg')) (conn_fd hc) = http_registered (hc_tcp_connection hc)) \<and>
    inj_on conn_fd (set (sw_conns (ls_world (pg_state pg'))))"
proof -
  let ?s = "(pg_state pg)\<lparr>ls_eloop := (ls_eloop (pg_state pg))\<lparr>el_running := True\<rparr>\<rparr>"
  have start: "server_inv (pg_state pg)" "scheduled (ls_eloop (pg_state pg)) = []" "router_keeps (pg_router pg)"
    using main_start_inv[OF assms(1-9)] by simp_all
  have s: "server_inv ?s" "scheduled (ls_eloop ?s) = []"
    using start running_inv[where s = "pg_state pg" and b = True and x = "sw_rest (ls_world (pg_state pg))"] by simp_all
  obtain s' where run: "loop_batches (fire (pg_router pg) (mw_parser mw) (mw_sockets mw) (mw_banner mw)
      (run_signal (mw_read_signal mw) (pg_signals pg))) free_object (mw_batches mw) ?s = Some s'" "pg' = pg\<lparr>pg_state := s'\<rparr>"
    using assms(11) by (auto simp: main_run_def event_loop_run_def main_fire_def)
  note r = start(3) run_signal_only_stops
  have inv: "server_inv s'" by (rule server_reach_inv[OF r batches_steps[OF r s(1) assms(10) run(1)] s(1)])
  have none: "scheduled (ls_eloop s') = []" by (rule batches_collected[OF r s(1) assms(10) s(2) run(1)])
  have world: "world_inv (scheduled (ls_eloop s')) (ls_eloop s') (ls_kernel s') (ls_world s') (ls_mem s')"
    using inv by (simp add: server_inv_def)
  have "inj_on conn_fd (set (sw_conns (ls_world s')))"
    by (rule inj_onI) (rule open_connection_unique[OF world _ _ undue_open[OF inv none]], assumption+)
  moreover have "k_open (ls_kernel s') (conn_fd hc) \<and> watches (ls_eloop s') (conn_fd hc) = http_registered (hc_tcp_connection hc)"
    if "hc \<in> set (sw_conns (ls_world s'))" for hc
    using bspec[OF conjunct1[OF server_inv_connections[OF inv]] that] undue_open[OF inv none that] by simp
  ultimately show ?thesis using none by (simp add: run(2))
qed

text \<open>The sockets of \<open>open_world\<close> return the descriptor 9 once, when nothing has been counted yet.\<close>

definition nine_is_new :: "(unit, nat) server_state \<Rightarrow> bool" where
  "nine_is_new s \<longleftrightarrow> sw_rest (ls_world s) = 0 \<longrightarrow> \<not> k_open (ls_kernel s) 9"

lemma connection_event_opens:
  assumes run: "connection_event handler a s = Some s'"
    and step: "\<And>hc ret hc' el' k' x' m'.
      handler hc (hc, ls_eloop s, ls_kernel s, sw_rest (ls_world s), ls_mem s) = Some (ret, hc', el', k', x', m') \<Longrightarrow>
      hc \<in> set (sw_conns (ls_world s)) \<Longrightarrow>
      x' = sw_rest (ls_world s) \<and> (k_open k' 9 \<longrightarrow> k_open (ls_kernel s) 9)"
    and old: "nine_is_new s"
  shows "nine_is_new s'"
proof -
  obtain hc where hc: "find_connection a (sw_conns (ls_world s)) = Some hc"
    using run by (auto simp: connection_event_def split: Option.bind_splits)
  then have "hc \<in> set (sw_conns (ls_world s))"
    unfolding find_connection_def using find_Some_in by fastforce
  with run hc step[of hc] old show ?thesis
    by (auto simp: connection_event_def nine_is_new_def split: Option.bind_splits)
qed

text \<open>Writing and closing open no descriptor.\<close>

lemma handler_opens_nothing:
  assumes inv: "server_inv s" and run: "connection_event handler a s = Some s'" and old: "nine_is_new s"
    and step: "\<And>hc ret hc' el' k' x' m'. hc \<in> set (sw_conns (ls_world s)) \<Longrightarrow> wired hc \<Longrightarrow>
      handler hc (hc, ls_eloop s, ls_kernel s, sw_rest (ls_world s), ls_mem s) = Some (ret, hc', el', k', x', m') \<Longrightarrow>
      x' = sw_rest (ls_world s) \<and> conn_step hc (ls_eloop s, ls_kernel s, ls_mem s) hc' (el', k', m')"
  shows "nine_is_new s'"
proof (rule connection_event_opens[OF run _ old])
  fix hc ret hc' el' k' x' m'
  assume h: "handler hc (hc, ls_eloop s, ls_kernel s, sw_rest (ls_world s), ls_mem s) = Some (ret, hc', el', k', x', m')"
    "hc \<in> set (sw_conns (ls_world s))"
  have "wired hc" using inv h(2) by (auto simp: server_inv_def world_inv_def conn_ok_def)
  from step[OF h(2) this h(1)] show "x' = sw_rest (ls_world s) \<and> (k_open k' 9 \<longrightarrow> k_open (ls_kernel s) 9)"
    by (auto simp: conn_step_def split: if_splits)
qed

lemma one_client_write:
  assumes inv: "server_inv s" and hc: "hc \<in> set (sw_conns (ls_world s))"
    and w: "on_write one_client (hc, ls_eloop s, ls_kernel s, sw_rest (ls_world s), ls_mem s) = Some (hc', el', k', x', m')"
  shows "x' = sw_rest (ls_world s) \<and> conn_step hc (ls_eloop s, ls_kernel s, ls_mem s) hc' (el', k', m')"
proof -
  have "x' = sw_rest (ls_world s)"
    using w by (auto simp: on_write_def finish_def tcp_connection_write_data_def one_client_def Let_def
        split: Option.bind_splits if_splits)
  with write_step[OF conn_ready_inv[OF inv hc], of one_client "sw_rest (ls_world s)"] w show ?thesis by auto
qed

lemma peer_close_again:
  assumes inv: "server_inv s" and hc: "hc \<in> set (sw_conns (ls_world s))"
    and w: "on_peer_close (hc, ls_eloop s, ls_kernel s, sw_rest (ls_world s), ls_mem s) = Some (hc', el', k', x', m')"
  shows "x' = sw_rest (ls_world s) \<and> conn_step hc (ls_eloop s, ls_kernel s, ls_mem s) hc' (el', k', m')"
  using peer_close_step[OF conn_ready_inv[OF inv hc], of "sw_rest (ls_world s)"] w by auto

lemma one_client_step:
  assumes st: "program_step open_world pg s s'" and inv: "server_inv s" and old: "nine_is_new s"
  shows "nine_is_new s'"
  using st
proof (cases rule: server_step.cases)
  case collect
  with collect_frees[OF inv] old show ?thesis by (auto simp: nine_is_new_def)
next
  case (callback fd t cb)
  have so: "mw_sockets open_world = one_client" by (rule open_world_facts(11))
  have wired: "hc \<in> set (sw_conns (ls_world s)) \<Longrightarrow> wired hc" for hc
    using inv by (auto simp: server_inv_def world_inv_def conn_ok_def)
  show ?thesis
  proof (cases cb)
    case (Connection_ready_read a)
    with callback(3) have "connection_event (\<lambda>hc. on_ready_read (http_callback (pg_router pg) (mw_parser open_world) one_client)
        (hc_tcp_connection hc)) a s = Some s'" by (simp add: fire_def so)
    then show ?thesis
      by (rule connection_event_opens)
        (use wired old in \<open>auto simp: wired_callbacks on_read_def tcp_connection_read_data_def one_client_def\<close>)
  next
    case (Connection_ready_write a)
    with callback(3) have "connection_event (\<lambda>hc. on_ready_write (http_callback (pg_router pg) (mw_parser open_world) one_client)
        (hc_tcp_connection hc)) a s = Some s'" by (simp add: fire_def so)
    then show ?thesis
      by (rule handler_opens_nothing[OF inv _ old]) (auto simp: wired_callbacks dest: one_client_write[OF inv])
  next
    case (Connection_close a)
    with callback(3) have "connection_event (\<lambda>hc. on_close (http_callback (pg_router pg) (mw_parser open_world) one_client)
        (hc_tcp_connection hc)) a s = Some s'" by (simp add: fire_def so)
    then show ?thesis
      by (rule handler_opens_nothing[OF inv _ old]) (auto simp: wired_callbacks dest: peer_close_again[OF inv])
  next
    case (Server_incoming a)
    with callback(3) old show ?thesis
      by (cases "sw_rest (ls_world s) = 0")
        (auto simp: fire_def so nine_is_new_def on_incoming_connection_def one_client_def on_accept_def
          split: Option.bind_splits option.splits if_splits)
  next
    case (Signal_ready a)
    with callback(3) have "run_signal (mw_read_signal open_world) (pg_signals pg) a fd s = Some s'" by (simp add: fire_def)
    then show ?thesis
      by (auto simp: run_signal_def on_signal_ready_def nine_is_new_def open_world_def busy_world_def Let_def
          split: if_splits option.splits)
  qed
qed

lemma one_client_reach:
  assumes "(program_step open_world pg)\<^sup>*\<^sup>* s s'" "server_inv s" "nine_is_new s" "router_keeps (pg_router pg)"
  shows "nine_is_new s' \<and> accepts_new (mw_sockets open_world) cb fd s'"
proof -
  have "server_inv s' \<and> nine_is_new s'"
    using assms(1-3)
    by (induction rule: rtranclp_induct)
      (auto intro: one_client_step server_step_inv[OF assms(4) run_signal_only_stops])
  then show ?thesis
    by (auto simp: nine_is_new_def accepts_new_def open_world_facts(11) one_client_def split: if_splits)
qed

lemma incoming_dispatched:
  assumes inv: "server_inv s" and w: "watches (ls_eloop s) fd = (\<lambda>_. None)(ELOOP_CALLBACK_READ := Some cb)"
  shows "\<exists>bits a. k_epoll (ls_kernel s) fd = Some (bits, a) \<and>
    dispatch_event f (a, EPOLLIN) s = f cb fd s"
proof -
  have loop: "loop_inv (ls_eloop s) (ls_kernel s) (ls_mem s)" using inv by (simp add: server_inv_def sound_def)
  have "k_epoll (ls_kernel s) fd \<noteq> None"
    using interest_list[OF loop, of fd] w by (auto simp: interest_def bits_of_def)
  then obtain bits a where a: "k_epoll (ls_kernel s) fd = Some (bits, a)" by auto
  from loop_inv_entry_at[OF loop a] w show ?thesis
    by (intro exI[of _ bits] exI[of _ a])
      (auto simp: a dispatch_event_def dispatch_kind_def eloop_callback_type_to_epoll_event_def EPOLLIN_def EPOLLOUT_def
        EPOLLRDHUP_def split: Option.bind_splits)
qed

theorem loop_leaves_open_connections_witness:
  "\<exists>pg a pg' hc. main_start open_world () silent_container ''::1'' 8080 \<lparr>sg_blocked = {}, sg_reported = {}\<rparr> 0 only_std mem0 = Some pg \<and>
     main_run (open_world\<lparr>mw_batches := [[(a, EPOLLIN)]]\<rparr>) pg = Some pg' \<and> sw_conns (ls_world (pg_state pg')) = [hc] \<and>
     k_open (ls_kernel (pg_state pg')) (conn_fd hc) \<and> scheduled (ls_eloop (pg_state pg')) = []"
proof -
  obtain pg where pg: "main_start open_world () silent_container ''::1'' 8080 \<lparr>sg_blocked = {}, sg_reported = {}\<rparr> 0 only_std mem0 = Some pg"
    "sw_conns (ls_world (pg_state pg)) = []" "sw_rest (ls_world (pg_state pg)) = 0" "\<not> k_open (ls_kernel (pg_state pg)) 9"
    "watches (ls_eloop (pg_state pg)) 6 =
       (\<lambda>_. None)(ELOOP_CALLBACK_READ := Some (Server_incoming (ts_addr (hs_tcp_server (sw_server (ls_world (pg_state pg)))))))"
    using open_world_start by (elim exE conjE) (rule that, assumption+)
  have start: "server_inv (pg_state pg)" "scheduled (ls_eloop (pg_state pg)) = []" "router_keeps (pg_router pg)"
    using main_start_inv[OF open_world_facts(1,2) answers_mem0 open_world_facts(3-7) pg(1)] by simp_all
  let ?s = "(pg_state pg)\<lparr>ls_eloop := (ls_eloop (pg_state pg))\<lparr>el_running := True\<rparr>\<rparr>"
  let ?fire = "main_fire open_world pg"
  have s: "server_inv ?s" "scheduled (ls_eloop ?s) = []" "nine_is_new ?s"
    using start pg(4) running_inv[where s = "pg_state pg" and b = True and x = "sw_rest (ls_world (pg_state pg))"]
    by (simp_all add: nine_is_new_def)
  have acc: "so_accept one_client 6 (sw_rest (ls_world ?s)) = (Io_done 9, 1)" using pg(3) by (simp add: one_client_def)
  from accept_inv[OF s(1) acc, of "pg_router pg" "mw_parser open_world" "mw_banner open_world"
      "run_signal (mw_read_signal open_world) (pg_signals pg)"] pg(2,4) s(2)
  obtain s1 hc where s1: "?fire (Server_incoming (ts_addr (hs_tcp_server (sw_server (ls_world ?s))))) 6 ?s = Some s1"
    "server_inv s1" "scheduled (ls_eloop s1) = []" "sw_conns (ls_world s1) = [hc]"
    unfolding main_fire_def open_world_facts(11) by auto
  from collect_frees[OF s1(2)] s1(3,4) obtain s2 where s2: "collect_step free_object s1 = Some s2"
    "sw_conns (ls_world s2) = [hc]" by auto
  have "watches (ls_eloop ?s) 6 = (\<lambda>_. None)(ELOOP_CALLBACK_READ := Some (Server_incoming (ts_addr (hs_tcp_server (sw_server (ls_world ?s))))))"
    using pg(5) by simp
  from incoming_dispatched[OF s(1) this, of ?fire] s1(1) obtain a where a: "dispatch_event ?fire (a, EPOLLIN) ?s = Some s1"
    by auto
  let ?mw = "open_world\<lparr>mw_batches := [[(a, EPOLLIN)]]\<rparr>"
  have run: "main_run ?mw pg = Some (pg\<lparr>pg_state := s2\<rparr>)"
    using a s2(1) by (simp add: main_run_def event_loop_run_def main_fire_def)
  have mw: "signals_work ?mw" "0 \<le> mw_epollfd ?mw" "\<not> k_open only_std (mw_signalfd ?mw)"
    "\<not> k_open only_std (sys_socket (mw_listen ?mw))" "sys_socket (mw_listen ?mw) \<noteq> mw_signalfd ?mw"
    using open_world_facts(1-6) by (simp_all add: signals_work_def)
  have started: "main_start ?mw () silent_container ''::1'' 8080 \<lparr>sg_blocked = {}, sg_reported = {}\<rparr> 0 only_std mem0 = Some pg"
    using pg(1) by (simp add: main_start_def)
  have new: "(program_step ?mw pg)\<^sup>*\<^sup>* ?s s' \<Longrightarrow> accepts_new (mw_sockets ?mw) cb fd s'" for s' cb fd
    using one_client_reach[OF _ s(1,3) start(3)] by simp
  from loop_leaves_open_connections[OF mw(1,2) answers_mem0 open_world_facts(3) mw(3-5) open_world_facts(7) started new run]
  have "scheduled (ls_eloop s2) = []" "k_open (ls_kernel s2) (conn_fd hc)" using s2(2) by simp_all
  with pg(1) run s2(2) show ?thesis by (intro exI[of _ pg] exI[of _ a] exI[of _ "pg\<lparr>pg_state := s2\<rparr>"] exI[of _ hc]) simp
qed

end
