(* ===== verification/Hello_Requests.thy ===== *)
theory Hello_Requests
  imports Http_Server Hello_Plugin
begin

text \<open>
  Requests for the example container: from the bytes of a request, through parser, queue, router and
  container, to the response, and from there through the socket to the peer.
\<close>

section \<open>A request answered by the hello container\<close>

text \<open>A connection between two requests.\<close>

definition connection_ready :: "('ps, 'f) HTTPConnection \<Rightarrow> bool" where
  "connection_ready hc \<longleftrightarrow> resp_wf (hc_response hc) \<and> queue_idle (hc_request_queue hc) \<and>
     rq_outgoing_index (hc_request_queue hc) = rq_incoming_index (hc_request_queue hc) \<and>
     rq_data (hc_request_queue hc) = Some (hc_addr hc)"

text \<open>The container the program was started with, bound so that it gets the URL \<open>u\<close>.\<close>

definition hello_bound ::
    "int \<Rightarrow> string \<Rightarrow> string \<Rightarrow> (RappContainer option, 'x served, 'c) HTTPRouter \<Rightarrow> bool" where
  "hello_bound clock msg u router \<longleftrightarrow> router_wf router \<and> rt_starter router = None \<and>
     cont_serve (pick (rt_match_mode router) (routes router) u (rt_null router)) = rapp_serve clock \<and>
     cont_handle (pick (rt_match_mode router) (routes router) u (rt_null router)) = Some \<lparr>message = Some msg\<rparr>"

lemma hello_serves:
  assumes "hello_bound clock msg u router" "request_uri_ok request u" "resp_wf r" "answers m = []"
    and "0 \<le> clock" "nat clock < 86400 * (365 * 8030)" "msg \<noteq> []"
  shows "\<exists>r' m'. http_router_serve router request (Some (r, x, m)) = Some (0, Some (r', x, m')) \<and>
    emitted 0 (hello_text (nat clock) msg r) r m r' m'"
proof -
  obtain r' m' where w: "write_hello clock msg r m = Some (r', m')"
    "emitted 0 (hello_text (nat clock) msg r) r m r' m'"
    using write_hello_emits[OF assms(3-7)] by blast
  have wf: "router_wf router" using assms(1) by (simp add: hello_bound_def)
  have "container_serve (pick (rt_match_mode router) (routes router) u (rt_null router)) request (Some (r, x, m)) =
      (0, Some (r', x, m'))"
    using assms(1) w(1) by (simp add: hello_bound_def container_serve_def rapp_serve_def)
  then show ?thesis
    using serve_routed[OF wf assms(2), of "Some (r, x, m)"] assms(1) w(2)
    by (simp add: hello_bound_def)
qed

lemma delivered_request:
  assumes "request_delivered data at l url hs meth ka q q1" "rq_outgoing_index q = rq_incoming_index q"
    and "queue_idle q" "at + l \<le> length data" "l < 2 ^ 31" "NUL \<notin> set (take l (drop at data))"
  shows "\<exists>r q2. http_request_queue_get_next_request q1 = Some (Some r, q2) \<and>
    request_uri_ok r (take l (drop at data)) \<and> (req_is_last r = 0 \<longleftrightarrow> ka \<and> Suc (rq_incoming_index q) < MAX_REQUESTS) \<and>
    rq_incoming_index q2 = Suc (rq_incoming_index q) \<and> rq_outgoing_index q2 = rq_incoming_index q2 \<and>
    rq_data q2 = rq_data q1 \<and> rq_current_header q2 = 0 \<and> rq_buffer q2 = None \<and> rq_buffer_length q2 = 0 \<and>
    length (rq_requests q2) = MAX_REQUESTS \<and> request_owned r = 2"
proof -
  obtain r where r: "rq_requests q1 = (rq_requests q)[rq_incoming_index q := Some r]" "req_headers_buffer r = Some data"
    "req_body r = None" "req_url_range r = \<lparr>mr_offset = at, mr_length = l\<rparr>"
    "req_is_last r = 0 \<longleftrightarrow> ka \<and> Suc (rq_incoming_index q) < MAX_REQUESTS"
    and q1: "rq_incoming_index q1 = Suc (rq_incoming_index q)" "rq_outgoing_index q1 = rq_outgoing_index q"
      "rq_buffer q1 = None" "rq_buffer_length q1 = 0" "rq_current_header q1 = 0"
    using assms(1) unfolding request_delivered_def by blast
  have "request_owned r = 2" "request_uri_ok r (take l (drop at data))"
    using r(2-4) assms(4-6) by (simp_all add: request_owned_def request_uri_ok_def)
  then show ?thesis
    using r q1 assms(2,3)
    by (intro exI[of _ r] exI[of _ "q1\<lparr>rq_outgoing_index := Suc (rq_outgoing_index q1)\<rparr>"])
      (simp add: http_request_queue_get_next_request_def queue_idle_def)
qed

text \<open>
  The parser, given the chunk in the state of the queue, reports one request without a body whose
  URL is the \<open>l\<close> bytes at \<open>at\<close>; this is what the program relies on of it.
\<close>

definition reports_request ::
    "'ps parser_lib \<Rightarrow> 'ps \<Rightarrow> bytes \<Rightarrow> nat \<Rightarrow> nat \<Rightarrow> HeaderMemoryRange list \<Rightarrow> bool \<Rightarrow> bool" where
  "reports_request lib st data at l hs ka \<longleftrightarrow> at + l \<le> length data \<and> l < 2 ^ 31 \<and> NUL \<notin> set (take l (drop at data)) \<and>
     length hs \<le> HTTP_REQUEST_MAX_HEADERS \<and>
     (\<exists>meth cl ps. cl \<le> 0 \<and> hp_execute lib st data = (request_events at l hs meth (length data) ka cl, length data, ps)) \<and>
     (\<exists>url. hp_parse_url lib (take l (drop at data)) = Some url \<and> length url = 7)"

lemma hello_answers:
  fixes so :: "'x sockets" and router :: "(RappContainer option, 'x served, 'c) HTTPRouter"
  assumes ready: "connection_ready hc" and mem: "answers m = []"
    and recv: "so_recv so (tc_fd (hc_tcp_connection hc)) BUFSIZE x = (Io_done data, x')" "data \<noteq> []"
    and parse: "reports_request lib (rq_parser (hc_request_queue hc)) data at l hs ka"
    and hello: "hello_bound clock msg (take l (drop at data)) router"
    and clock: "0 \<le> clock" "nat clock < 86400 * (365 * 8030)" and msg: "msg \<noteq> []"
  shows "\<exists>hc' m' is_last. on_read router lib so (hc, el, k, x, m) = Some (hc', el, k, x', m') \<and>
    (is_last = 0 \<longleftrightarrow> ka \<and> Suc (rq_incoming_index (hc_request_queue hc)) < MAX_REQUESTS) \<and>
    resp_is_last (hc_response hc') = is_last \<and>
    resp_contents (hc_response hc') = resp_contents (hc_response hc) @
      hello_text (nat clock) msg ((hc_response hc)\<lparr>resp_is_last := is_last\<rparr>) \<and>
    hc_tcp_connection hc' = hc_tcp_connection hc \<and> hc_addr hc' = hc_addr hc \<and>
    hc_finish_callback hc' = hc_finish_callback hc \<and> resp_wf (hc_response hc') \<and>
    rq_incoming_index (hc_request_queue hc') = Suc (rq_incoming_index (hc_request_queue hc)) \<and>
    (is_last = 0 \<longrightarrow> connection_ready hc') \<and> answers m' = [] \<and> fresh m \<le> fresh m' \<and>
    rq_buffer (hc_request_queue hc') = None \<and>
    blocks m' - resp_owned (hc_response hc') = blocks m - resp_owned (hc_response hc) \<and>
    rq_parser (hc_request_queue hc') = snd (snd (hp_execute lib (rq_parser (hc_request_queue hc)) data)) \<and>
    resp_server_name (hc_response hc') = resp_server_name (hc_response hc)"
proof -
  let ?q = "hc_request_queue hc" and ?u = "take l (drop at data)"
  have q: "queue_idle ?q" "rq_data ?q = Some (hc_addr hc)" "rq_outgoing_index ?q = rq_incoming_index ?q"
    "resp_wf (hc_response hc)" using ready by (simp_all add: connection_ready_def)
  obtain meth cl ps url where p: "cl \<le> 0" "at + l \<le> length data" "length hs \<le> HTTP_REQUEST_MAX_HEADERS"
    "hp_execute lib (rq_parser ?q) data = (request_events at l hs meth (length data) ka cl, length data, ps)"
    "hp_parse_url lib ?u = Some url" "length url = 7" "l < 2 ^ 31" "NUL \<notin> set ?u"
    using parse by (auto simp: reports_request_def)
  obtain q1 m1 where d: "request_delivered data at l url hs meth ka ?q q1" "answers m1 = []"
    "http_request_queue_append_data lib (on_new_request router) data ?q (hc_response hc, x') m =
       map_option (\<lambda>(q, w, m). (0, q\<lparr>rq_parser := ps\<rparr>, w, m))
         (on_new_request router (hc_addr hc) q1 (hc_response hc, x') m1)" "fresh m \<le> fresh m1" "blocks m1 = blocks m + 2"
    using one_chunk_request[OF q(1,2) mem recv(2) p(2,1,4-6), of "on_new_request router" "(hc_response hc, x')"] p(3)
    by auto
  obtain r q2 where r: "http_request_queue_get_next_request q1 = Some (Some r, q2)" "request_uri_ok r ?u"
    "req_is_last r = 0 \<longleftrightarrow> ka \<and> Suc (rq_incoming_index ?q) < MAX_REQUESTS"
    "rq_incoming_index q2 = Suc (rq_incoming_index ?q)" "rq_outgoing_index q2 = rq_incoming_index q2"
    "rq_data q2 = rq_data q1" "rq_current_header q2 = 0" "rq_buffer q2 = None" "rq_buffer_length q2 = 0"
    "length (rq_requests q2) = MAX_REQUESTS" "request_owned r = 2"
    using delivered_request[OF d(1) q(3,1) p(2,7,8)] by blast
  let ?r = "(hc_response hc)\<lparr>resp_is_last := req_is_last r\<rparr>"
  have "resp_wf ?r" using q(4) by (simp add: resp_wf_def split: option.splits)
  from hello_serves[OF hello r(2) this d(2) clock msg, of x'] obtain r' m' where
    s: "http_router_serve router r (Some (?r, x', m1)) = Some (0, Some (r', x', m'))"
    "emitted 0 (hello_text (nat clock) msg ?r) ?r m1 r' m'" by blast
  have new: "on_new_request router (hc_addr hc) q1 (hc_response hc, x') m1 =
      Some (q2, (r', x'), http_request_destroy r m')"
    using r(1) s(1) by (simp add: on_new_request_def http_response_set_last_def http_request_is_last_def)
  let ?hc = "hc\<lparr>hc_request_queue := q2\<lparr>rq_parser := ps\<rparr>, hc_response := r'\<rparr>"
  have read: "on_read router lib so (hc, el, k, x, m) = Some (?hc, el, k, x', http_request_destroy r m')"
    using recv d(3) new by (simp add: on_read_def tcp_connection_read_data_def)
  have wf: "resp_wf r'" "resp_is_last r' = req_is_last r"
    "resp_contents r' = resp_contents (hc_response hc) @ hello_text (nat clock) msg ?r"
    using s(2) by (simp_all add: emitted_def resp_contents_def)
  have data: "rq_data q1 = Some (hc_addr hc)" using d(1) q(2) by (auto simp: request_delivered_def)
  have "req_is_last r = 0 \<longrightarrow> connection_ready ?hc"
    using r data wf(1) by (simp add: connection_ready_def queue_idle_def)
  moreover have "answers (http_request_destroy r m') = []" "fresh m \<le> fresh (http_request_destroy r m')"
    using s(2) d(2,4) by (simp_all add: emitted_def http_request_destroy_def Let_def)
  moreover have "blocks (http_request_destroy r m') - resp_owned r' = blocks m - resp_owned (hc_response hc)"
    using s(2) d(5) r(11) by (simp add: emitted_def request_destroy_owned resp_owned_def)
  moreover have "resp_server_name r' = resp_server_name (hc_response hc)" using s(2) by (simp add: emitted_def)
  ultimately show ?thesis using read wf r(3,4,8) p(4)
    by (intro exI[of _ ?hc] exI[of _ "http_request_destroy r m'"] exI[of _ "req_is_last r"]) simp_all
qed

section \<open>Requests on one connection\<close>

text \<open>
  One request after the other comes in on the descriptor, each in one read, without a body, and with the wish to keep the
  connection alive; the parser goes on in the state the request before left it in.
\<close>

fun requests_arrive ::
    "'x sockets \<Rightarrow> 'ps parser_lib \<Rightarrow> (string \<Rightarrow> bool) \<Rightarrow> int \<Rightarrow> 'ps \<Rightarrow> 'x
      \<Rightarrow> (bytes \<times> nat \<times> nat \<times> HeaderMemoryRange list) list \<Rightarrow> 'x \<Rightarrow> bool" where
  "requests_arrive so lib url_ok fd st x [] x' \<longleftrightarrow> x' = x"
| "requests_arrive so lib url_ok fd st x ((data, at, l, hs) # rs) x' \<longleftrightarrow>
     data \<noteq> [] \<and> fst (so_recv so fd BUFSIZE x) = Io_done data \<and> reports_request lib st data at l hs True \<and>
     url_ok (take l (drop at data)) \<and>
     requests_arrive so lib url_ok fd (snd (snd (hp_execute lib st data))) (snd (so_recv so fd BUFSIZE x)) rs x'"

text \<open>The answers to the requests numbered \<open>is\<close>; the hundredth says that it is the last.\<close>

definition answers_to :: "nat \<Rightarrow> string \<Rightarrow> HTTPResponse \<Rightarrow> nat list \<Rightarrow> bytes" where
  "answers_to now msg r is =
     concat (map (\<lambda>i. hello_text now msg (r\<lparr>resp_is_last := if Suc i = MAX_REQUESTS then 1 else 0\<rparr>)) is)"

lemma hello_text_response:
  "resp_server_name r' = resp_server_name r \<Longrightarrow> (a = 0 \<longleftrightarrow> b = 0) \<Longrightarrow>
     hello_text now msg (r'\<lparr>resp_is_last := a\<rparr>) = hello_text now msg (r\<lparr>resp_is_last := b\<rparr>)"
  by (simp add: hello_text_def end_headers_text_def)

lemma answers_to_response:
  assumes "resp_server_name r' = resp_server_name r"
  shows "answers_to now msg r' is = answers_to now msg r is"
proof -
  have "hello_text now msg (r'\<lparr>resp_is_last := a\<rparr>) = hello_text now msg (r\<lparr>resp_is_last := a\<rparr>)" for a
    by (rule hello_text_response[OF assms refl])
  then show ?thesis by (simp add: answers_to_def)
qed

text \<open>The first of several requests.\<close>

lemma first_answered:
  fixes so :: "'x sockets" and router :: "(RappContainer option, 'x served, 'c) HTTPRouter"
  assumes ready: "connection_ready hc" "answers m = []"
    and arrive: "requests_arrive so lib (\<lambda>u. hello_bound clock msg u router) (tc_fd (hc_tcp_connection hc))
      (rq_parser (hc_request_queue hc)) x (req # rs) x'"
    and room: "rq_incoming_index (hc_request_queue hc) < MAX_REQUESTS"
    and clock: "0 \<le> clock" "nat clock < 86400 * (365 * 8030)" "msg \<noteq> []"
  shows "\<exists>x1 hc1 m1. on_read router lib so (hc, el, k, x, m) = Some (hc1, el, k, x1, m1) \<and>
    (resp_is_last (hc_response hc1) = 0 \<longleftrightarrow> Suc (rq_incoming_index (hc_request_queue hc)) < MAX_REQUESTS) \<and>
    resp_contents (hc_response hc1) = resp_contents (hc_response hc) @
      answers_to (nat clock) msg (hc_response hc) [rq_incoming_index (hc_request_queue hc)] \<and>
    rq_incoming_index (hc_request_queue hc1) = Suc (rq_incoming_index (hc_request_queue hc)) \<and>
    (Suc (rq_incoming_index (hc_request_queue hc)) < MAX_REQUESTS \<longrightarrow> connection_ready hc1) \<and> answers m1 = [] \<and>
    blocks m1 - resp_owned (hc_response hc1) = blocks m - resp_owned (hc_response hc) \<and>
    resp_server_name (hc_response hc1) = resp_server_name (hc_response hc) \<and>
    requests_arrive so lib (\<lambda>u. hello_bound clock msg u router) (tc_fd (hc_tcp_connection hc1))
      (rq_parser (hc_request_queue hc1)) x1 rs x'"
proof -
  let ?i = "rq_incoming_index (hc_request_queue hc)" and ?r = "hc_response hc"
  obtain data at l hs where req: "req = (data, at, l, hs)" by (cases req)
  obtain x1 where recv: "so_recv so (tc_fd (hc_tcp_connection hc)) BUFSIZE x = (Io_done data, x1)" "data \<noteq> []"
    and parse: "reports_request lib (rq_parser (hc_request_queue hc)) data at l hs True"
    and bound: "hello_bound clock msg (take l (drop at data)) router"
    and rest: "requests_arrive so lib (\<lambda>u. hello_bound clock msg u router) (tc_fd (hc_tcp_connection hc))
      (snd (snd (hp_execute lib (rq_parser (hc_request_queue hc)) data))) x1 rs x'"
    using arrive by (cases "so_recv so (tc_fd (hc_tcp_connection hc)) BUFSIZE x") (auto simp: req)
  from hello_answers[OF ready recv parse bound clock, of el k] obtain hc1 m1 is_last where r:
    "on_read router lib so (hc, el, k, x, m) = Some (hc1, el, k, x1, m1)"
    "is_last = 0 \<longleftrightarrow> Suc ?i < MAX_REQUESTS" "resp_is_last (hc_response hc1) = is_last"
    "resp_contents (hc_response hc1) = resp_contents ?r @ hello_text (nat clock) msg (?r\<lparr>resp_is_last := is_last\<rparr>)"
    "hc_tcp_connection hc1 = hc_tcp_connection hc" "rq_incoming_index (hc_request_queue hc1) = Suc ?i"
    "is_last = 0 \<longrightarrow> connection_ready hc1" "answers m1 = []"
    "blocks m1 - resp_owned (hc_response hc1) = blocks m - resp_owned ?r"
    "rq_parser (hc_request_queue hc1) = snd (snd (hp_execute lib (rq_parser (hc_request_queue hc)) data))"
    "resp_server_name (hc_response hc1) = resp_server_name ?r" by auto
  have "hello_text (nat clock) msg (?r\<lparr>resp_is_last := is_last\<rparr>) =
      hello_text (nat clock) msg (?r\<lparr>resp_is_last := if Suc ?i = MAX_REQUESTS then 1 else 0\<rparr>)"
    using r(2) room by (intro hello_text_response) auto
  then have "resp_contents (hc_response hc1) = resp_contents ?r @ answers_to (nat clock) msg ?r [?i]"
    by (simp add: r(4) answers_to_def)
  moreover have "requests_arrive so lib (\<lambda>u. hello_bound clock msg u router) (tc_fd (hc_tcp_connection hc1))
      (rq_parser (hc_request_queue hc1)) x1 rs x'" using rest by (simp only: r(5,10))
  ultimately show ?thesis using r(1-3,6-9,11) by (intro exI[of _ x1] exI[of _ hc1] exI[of _ m1]) simp
qed

lemma hello_answers_all:
  fixes so :: "'x sockets" and router :: "(RappContainer option, 'x served, 'c) HTTPRouter"
  assumes "connection_ready hc" "answers m = []"
    and "requests_arrive so lib (\<lambda>u. hello_bound clock msg u router) (tc_fd (hc_tcp_connection hc))
      (rq_parser (hc_request_queue hc)) x rs x'"
    and "rq_incoming_index (hc_request_queue hc) + length rs \<le> MAX_REQUESTS"
    and "0 \<le> clock" "nat clock < 86400 * (365 * 8030)" "msg \<noteq> []"
  shows "\<exists>hc' m'. run_opt (\<lambda>_. on_read router lib so) rs (hc, el, k, x, m) = Some (hc', el, k, x', m') \<and>
    resp_contents (hc_response hc') = resp_contents (hc_response hc) @ answers_to (nat clock) msg (hc_response hc)
      [rq_incoming_index (hc_request_queue hc) ..< rq_incoming_index (hc_request_queue hc) + length rs] \<and>
    (rs \<noteq> [] \<longrightarrow> (resp_is_last (hc_response hc') = 0 \<longleftrightarrow>
       rq_incoming_index (hc_request_queue hc) + length rs < MAX_REQUESTS)) \<and>
    (rq_incoming_index (hc_request_queue hc) + length rs < MAX_REQUESTS \<longrightarrow> connection_ready hc') \<and>
    blocks m' - resp_owned (hc_response hc') = blocks m - resp_owned (hc_response hc)"
  using assms(1-4)
proof (induction rs arbitrary: hc x m)
  case Nil
  then show ?case by (simp add: answers_to_def)
next
  case (Cons req rs)
  let ?i = "rq_incoming_index (hc_request_queue hc)" and ?r = "hc_response hc"
  obtain x1 hc1 m1 where r: "on_read router lib so (hc, el, k, x, m) = Some (hc1, el, k, x1, m1)"
    "resp_is_last (hc_response hc1) = 0 \<longleftrightarrow> Suc ?i < MAX_REQUESTS"
    "resp_contents (hc_response hc1) = resp_contents ?r @ answers_to (nat clock) msg ?r [?i]"
    "rq_incoming_index (hc_request_queue hc1) = Suc ?i" "Suc ?i < MAX_REQUESTS \<longrightarrow> connection_ready hc1" "answers m1 = []"
    "blocks m1 - resp_owned (hc_response hc1) = blocks m - resp_owned ?r"
    "resp_server_name (hc_response hc1) = resp_server_name ?r"
    "requests_arrive so lib (\<lambda>u. hello_bound clock msg u router) (tc_fd (hc_tcp_connection hc1))
      (rq_parser (hc_request_queue hc1)) x1 rs x'"
    using first_answered[OF Cons.prems(1-3) _ assms(5-7), of el k] Cons.prems(4) by auto
  show ?case
  proof (cases "rs = []")
    case True
    with r show ?thesis by auto
  next
    case False
    then have "Suc ?i < MAX_REQUESTS" using Cons.prems(4) by (cases rs) simp_all
    then have ready: "connection_ready hc1" using r(5) by simp
    have "rq_incoming_index (hc_request_queue hc1) + length rs \<le> MAX_REQUESTS" using Cons.prems(4) r(4) by simp
    from Cons.IH[OF ready r(6,9) this] obtain hc' m' where s:
      "run_opt (\<lambda>_. on_read router lib so) rs (hc1, el, k, x1, m1) = Some (hc', el, k, x', m')"
      "resp_contents (hc_response hc') = resp_contents (hc_response hc1) @
         answers_to (nat clock) msg ?r [Suc ?i ..< Suc ?i + length rs]"
      "resp_is_last (hc_response hc') = 0 \<longleftrightarrow> Suc ?i + length rs < MAX_REQUESTS"
      "Suc ?i + length rs < MAX_REQUESTS \<longrightarrow> connection_ready hc'"
      "blocks m' - resp_owned (hc_response hc') = blocks m1 - resp_owned (hc_response hc1)"
      using False by (auto simp: r(4) answers_to_response[OF r(8)])
    have all: "answers_to (nat clock) msg ?r [?i ..< ?i + length (req # rs)] =
        answers_to (nat clock) msg ?r [?i] @ answers_to (nat clock) msg ?r [Suc ?i ..< Suc ?i + length rs]"
      by (simp add: answers_to_def upt_conv_Cons del: upt_Suc)
    show ?thesis unfolding all using s r(1,3,7) by (intro exI[of _ hc'] exI[of _ m']) simp
  qed
qed

text \<open>
  C5: Requests that come in one after the other on a connection, each in one read and without a body, for URLs bound to the
  hello container, are answered at once and in their order: the response buffer holds what it held before and then, for
  each of them, exactly the status line, the headers and the configured text with its length.  All are answered up to the
  connection's hundredth request; that one's answer is marked as the last, no other is, and until then
  the connection is ready for another request.  No request is left allocated.
\<close>

theorem requests_answered_in_order:
  fixes so :: "'x sockets" and router :: "(RappContainer option, 'x served, 'c) HTTPRouter"
  assumes "connection_ready hc" "answers m = []" "rs \<noteq> []"
    and "requests_arrive so lib (\<lambda>u. hello_bound clock msg u router) (tc_fd (hc_tcp_connection hc))
      (rq_parser (hc_request_queue hc)) x rs x'"
    and "rq_incoming_index (hc_request_queue hc) + length rs \<le> MAX_REQUESTS"
    and "0 \<le> clock" "nat clock < 86400 * (365 * 8030)" "msg \<noteq> []"
  shows "\<exists>hc' m'. run_opt (\<lambda>_. on_read router lib so) rs (hc, el, k, x, m) = Some (hc', el, k, x', m') \<and>
    resp_contents (hc_response hc') = resp_contents (hc_response hc) @ answers_to (nat clock) msg (hc_response hc)
      [rq_incoming_index (hc_request_queue hc) ..< rq_incoming_index (hc_request_queue hc) + length rs] \<and>
    (resp_is_last (hc_response hc') \<noteq> 0 \<longleftrightarrow> rq_incoming_index (hc_request_queue hc) + length rs = MAX_REQUESTS) \<and>
    (rq_incoming_index (hc_request_queue hc) + length rs < MAX_REQUESTS \<longrightarrow> connection_ready hc') \<and>
    blocks m' - resp_owned (hc_response hc') = blocks m - resp_owned (hc_response hc)"
  using hello_answers_all[OF assms(1,2,4-8), of el k] assms(3,5) by auto

definition hello_router :: "(RappContainer option, 'x served, unit) HTTPRouter" where
  "hello_router = \<lparr>rt_packs = [[\<lparr>rb_route = Inline,
       rb_container = \<lparr>cont_plugin = Some ''hello.so'', cont_handle = Some \<lparr>message = Some ''Hello world!''\<rparr>,
         cont_name = ''hello.so'', cont_serve = rapp_serve 2, cont_destroy = null_destroy, cont_init = null_init\<rparr>,
       rb_name = ''/'', rb_route_len = 1\<rparr>]], rt_last = 0,
     rt_null = \<lparr>cont_plugin = None, cont_handle = None, cont_name = ''default'', cont_serve = null_serve,
       cont_destroy = null_destroy, cont_init = null_init\<rparr>,
     rt_starter = None, rt_match_mode = ROUTE_MATCH_FIRST\<rparr>"

lemma hello_router_bound: "prefix ''/'' u \<Longrightarrow> hello_bound 2 ''Hello world!'' u hello_router"
  by (simp add: hello_bound_def hello_router_def router_wf_def binding_wf_def ROUTE_BASE_LEN_def
      ROUTE_GROUP_LEN_def is_cstr_def pick_def routes_def route_of_def route_matches_def NUL_def)

definition get_parser :: "bool \<Rightarrow> unit parser_lib" where
  "get_parser ka = reporting (request_events 4 1 [host_header] HTTP_METHOD_GET (length get_root) ka (-1))"

lemma get_parser_reports: "reports_request (get_parser ka) () get_root 4 1 [host_header] ka"
proof -
  have "hp_execute (get_parser ka) () get_root =
      (request_events 4 1 [host_header] HTTP_METHOD_GET (length get_root) ka (-1), length get_root, ())"
    by (simp add: get_parser_def reporting_def)
  moreover have "hp_parse_url (get_parser ka) (take 1 (drop 4 get_root)) =
      Some [None, None, None, Some (0, 1), None, None, None]"
    by (simp add: get_parser_def reporting_def get_root_def)
  moreover have "4 + 1 \<le> length get_root" "NUL \<notin> set (take 1 (drop 4 get_root))"
    by (simp_all add: get_root_def NUL_def)
  ultimately show ?thesis
    unfolding reports_request_def
    by (intro conjI exI[of _ HTTP_METHOD_GET] exI[of _ "-1"] exI[of _ "()"]
        exI[of _ "[None, None, None, Some (0, 1), None, None, None]"])
      (simp_all add: HTTP_REQUEST_MAX_HEADERS_def)
qed

definition waiting :: "unit connection" where
  "waiting = answering\<lparr>hc_request_queue := queue0, hc_response := new_response ''RApp-dev''\<rparr>"

lemma waiting_simps:
  "connection_ready waiting" "rq_parser (hc_request_queue waiting) = ()" "serving waiting"
  "resp_contents (hc_response waiting) = []" "hc_response waiting = new_response ''RApp-dev''"
  "hc_addr waiting = 7" "tc_fd (hc_tcp_connection waiting) = 9"
  using queue0_idle answering_simps(1)
  by (simp_all add: connection_ready_def waiting_def answering_def resp_wf_def new_response_def queue0_def
      resp_contents_def serving_def)

lemma root_url: "take 1 (drop 4 get_root) = ''/''"
  by (simp add: get_root_def)

text \<open>A hundred requests on a new connection.\<close>

theorem requests_answered_in_order_witness:
  "\<exists>hc' m'. run_opt (\<lambda>_. on_read hello_router (get_parser True) (one_client\<lparr>so_recv := \<lambda>fd n x. (Io_done get_root, x)\<rparr>))
      (replicate 100 (get_root, 4 :: nat, 1 :: nat, [host_header])) (waiting, idle_loop, all_open, 0, mem0) = Some (hc', idle_loop, all_open, 0, m') \<and>
    resp_contents (hc_response hc') = answers_to 2 ''Hello world!'' (new_response ''RApp-dev'') [0 ..< 100] \<and>
    resp_is_last (hc_response hc') \<noteq> 0"
proof -
  let ?so = "one_client\<lparr>so_recv := \<lambda>fd n x. (Io_done get_root, x)\<rparr>" and ?req = "(get_root, 4, 1, [host_header])"
  have bound: "hello_bound 2 ''Hello world!'' (take 1 (drop 4 get_root)) hello_router"
    unfolding root_url by (rule hello_router_bound) simp
  have one: "get_root \<noteq> []" "fst (so_recv ?so 9 BUFSIZE 0) = Io_done get_root" "snd (so_recv ?so 9 BUFSIZE 0) = 0"
    by (simp_all add: get_root_def)
  have many: "requests_arrive ?so (get_parser True) (\<lambda>u. hello_bound 2 ''Hello world!'' u hello_router) 9 () 0 (replicate n ?req) 0" for n
    by (induction n) (use one bound get_parser_reports in simp_all)
  have index: "rq_incoming_index (hc_request_queue waiting) = 0" by (simp add: waiting_def queue0_def)
  have arrive: "requests_arrive ?so (get_parser True) (\<lambda>u. hello_bound 2 ''Hello world!'' u hello_router)
      (tc_fd (hc_tcp_connection waiting)) (rq_parser (hc_request_queue waiting)) 0 (replicate 100 ?req) 0"
    unfolding waiting_simps(2,7) by (rule many)
  have bounds: "replicate 100 ?req \<noteq> []" "rq_incoming_index (hc_request_queue waiting) + length (replicate 100 ?req) \<le> MAX_REQUESTS"
    by (simp_all add: index MAX_REQUESTS_def)
  from requests_answered_in_order[OF waiting_simps(1) answers_mem0 bounds(1) arrive bounds(2), of idle_loop all_open]
  show ?thesis unfolding waiting_simps(5) index using waiting_simps(4,5) by (auto simp: MAX_REQUESTS_def simp del: One_nat_def)
qed

section \<open>From the bytes of a request to the bytes of the answer\<close>

lemma write_data_recv: "tcp_connection_write_data (so\<lparr>so_recv := f\<rparr>) = tcp_connection_write_data so"
  by (simp add: tcp_connection_write_data_def fun_eq_iff)

lemma on_write_recv: "on_write (so\<lparr>so_recv := f\<rparr>) = on_write so"
  unfolding on_write_def write_data_recv ..

lemmas hello_text_last = hello_text_response[OF refl]

text \<open>
  The path of a request through the whole program.  On an open, served connection with nothing left to
  send, a request that does not keep the connection alive arrives in one read for a URL bound to the hello
  container; then the loop reports the socket writable as often as the answer has started buffers, and once
  more.  The peer has received the status line, headers and text of the container - all of them exactly when
  each \<open>send\<close> took what it was offered - the connection is closed and no longer watched, and it is
  scheduled to be freed once.
\<close>

theorem request_to_peer:
  fixes router :: "(RappContainer option, (bytes \<times> nat list) served, 'c) HTTPRouter"
  assumes "serving hc" "connection_ready hc" "resp_contents (hc_response hc) = []"
    and "loop_inv el k m" "answers m = []" "el_collector el = Some c" "k_open k (tc_fd (hc_tcp_connection hc))"
    and "collector_inv c" "hc_addr hc \<notin> set (collector_pending c)" "data \<noteq> []"
    and "reports_request lib (rq_parser (hc_request_queue hc)) data at l hs False"
    and "hello_bound clock msg (take l (drop at data)) router"
    and "0 \<le> clock" "nat clock < 86400 * (365 * 8030)" "msg \<noteq> []"
    and "answer = hello_text (nat clock) msg ((hc_response hc)\<lparr>resp_is_last := 1\<rparr>)"
    and "length answer \<le> length ns * BUFSIZE" "length ns * BUFSIZE < length answer + BUFSIZE"
    and "so = counting_sockets\<lparr>so_recv := \<lambda>fd n x. (Io_done data, ([], ns))\<rparr>"
  shows "\<exists>hc' el' k' m' c'.
     Option.bind (on_read router lib so (hc, el, k, x, m)) (run_opt (\<lambda>_. on_write so) (ns @ [0])) =
       Some (hc', el', k', (reaching ns answer, []), m') \<and>
     (reaching ns answer = answer \<longleftrightarrow>
        (\<forall>i < length ns. length (take BUFSIZE (drop (i * BUFSIZE) answer)) \<le> ns ! i)) \<and>
     tc_fd (hc_tcp_connection hc') = -1 \<and> \<not> k_open k' (tc_fd (hc_tcp_connection hc)) \<and>
     watches el' = (watches el)(tc_fd (hc_tcp_connection hc) := \<lambda>_. None) \<and> el_collector el' = Some c' \<and>
     collector_pending c' = hc_addr hc # collector_pending c"
proof -
  have recv: "so_recv so (tc_fd (hc_tcp_connection hc)) BUFSIZE x = (Io_done data, ([], ns))"
    by (simp add: assms(19))
  have writes: "on_write so = on_write counting_sockets" unfolding assms(19) by (rule on_write_recv)
  from hello_answers[OF assms(2,5) recv assms(10-15), of el k] obtain hc1 m1 is_last where r:
    "on_read router lib so (hc, el, k, x, m) = Some (hc1, el, k, ([], ns), m1)"
    "is_last \<noteq> 0" "resp_is_last (hc_response hc1) = is_last"
    "resp_contents (hc_response hc1) = hello_text (nat clock) msg ((hc_response hc)\<lparr>resp_is_last := is_last\<rparr>)"
    "hc_tcp_connection hc1 = hc_tcp_connection hc" "hc_addr hc1 = hc_addr hc"
    "hc_finish_callback hc1 = hc_finish_callback hc" "resp_wf (hc_response hc1)" "answers m1 = []" "fresh m \<le> fresh m1"
    using assms(3) by auto
  have hc1: "serving hc1" "resp_is_last (hc_response hc1) \<noteq> 0" "k_open k (tc_fd (hc_tcp_connection hc1))"
    "resp_contents (hc_response hc1) = answer"
    using assms(1,7) r(2-7) hello_text_last[of is_last 1 "nat clock" msg "hc_response hc"]
    by (simp_all add: serving_def assms(16))
  have inv: "loop_inv el k m1" by (rule loop_inv_fresh[OF assms(4) r(10)])
  from last_response_written[OF hc1(1) r(8) hc1(2) inv r(9) assms(6) hc1(3,4) assms(17,18)]
  show ?thesis using assms(9) r(1,5,6) unfolding writes by simp
qed

definition hello_page :: bytes where
  "hello_page = hello_text 2 ''Hello world!'' ((new_response ''RApp-dev'')\<lparr>resp_is_last := 1\<rparr>)"

lemma hello_page_length: "0 < length hello_page \<and> length hello_page \<le> BUFSIZE"
  using http_date_length[of 2]
  by (simp add: hello_page_def hello_text_def end_headers_text_def header_line_def HTTP_EOL_def BUFSIZE_def
      new_response_def dec.simps)

theorem request_to_peer_witness:
  "\<exists>hc' el' k' m' c'.
     Option.bind (on_read hello_router (get_parser False)
         (counting_sockets\<lparr>so_recv := \<lambda>fd n x. (Io_done get_root, ([], [BUFSIZE]))\<rparr>)
         (waiting, idle_loop, all_open, ([], []), mem0))
       (run_opt (\<lambda>_. on_write (counting_sockets\<lparr>so_recv := \<lambda>fd n x. (Io_done get_root, ([], [BUFSIZE]))\<rparr>)) [BUFSIZE, 0]) =
       Some (hc', el', k', (hello_page, []), m') \<and>
     tc_fd (hc_tcp_connection hc') = -1 \<and> \<not> k_open k' 9 \<and>
     watches el' = (watches idle_loop)(9 := \<lambda>_. None) \<and> el_collector el' = Some c' \<and> collector_pending c' = [7]"
proof -
  let ?so = "counting_sockets\<lparr>so_recv := \<lambda>fd n x. (Io_done get_root, ([], [BUFSIZE]))\<rparr>"
  have loop: "loop_inv idle_loop all_open mem0"
    by (simp add: loop_inv_def idle_loop_def find_callback_by_fd_def all_open_def)
  have coll: "el_collector idle_loop = Some \<lparr>collect_entries_list = []\<rparr>" by (simp add: idle_loop_def)
  have free: "collector_inv \<lparr>collect_entries_list = []\<rparr>" "hc_addr waiting \<notin> set (collector_pending \<lparr>collect_entries_list = []\<rparr>)"
    by (simp_all add: collector_inv_def collector_pending_def)
  have opened: "k_open all_open (tc_fd (hc_tcp_connection waiting))" by (simp add: waiting_simps all_open_def)
  have parse: "reports_request (get_parser False) (rq_parser (hc_request_queue waiting)) get_root 4 1 [host_header] False"
    using get_parser_reports waiting_simps(2) by simp
  have bound: "hello_bound 2 ''Hello world!'' (take 1 (drop 4 get_root)) hello_router"
    unfolding root_url by (rule hello_router_bound) simp
  have page: "hello_page = hello_text (nat 2) ''Hello world!'' ((hc_response waiting)\<lparr>resp_is_last := 1\<rparr>)"
    by (simp add: hello_page_def waiting_simps)
  have all: "reaching [BUFSIZE] hello_page = hello_page"
    using hello_page_length by (simp add: BUFSIZE_def)
  have len: "length hello_page \<le> length [BUFSIZE] * BUFSIZE" "length [BUFSIZE] * BUFSIZE < length hello_page + BUFSIZE"
    using hello_page_length by simp_all
  have data: "get_root \<noteq> []" by (simp add: get_root_def)
  from request_to_peer[where x = "([], [])", OF waiting_simps(3,1,4) loop answers_mem0 coll opened free data parse bound _ _ _ page len refl]
  show ?thesis unfolding all by (simp add: collector_pending_def waiting_simps del: run_opt.simps)
qed

end
