(* ===== verification/Connection_Life.thy ===== *)
theory Connection_Life
  imports Hello_Requests Program_States
begin

text \<open>
  The life of a connection in the running loop: it is accepted, its request is read and answered, the
  answer is written, it is closed and freed.  Each of these is a batch of events of the loop, and in
  the end the loop, the kernel's tables and the allocator are what they were before it.
\<close>

section \<open>Events\<close>

text \<open>One reported event runs the one callback that is registered for it.\<close>

lemma dispatch_one:
  assumes inv: "server_inv s" and a: "k_epoll (ls_kernel s) fd = Some (bits, a)"
    and t: "t = ELOOP_CALLBACK_READ \<or> t = ELOOP_CALLBACK_WRITE" and cb: "watches (ls_eloop s) fd t = Some cb"
  shows "dispatch_event f (a, eloop_callback_type_to_epoll_event t) s = f cb fd s"
proof -
  have "loop_inv (ls_eloop s) (ls_kernel s) (ls_mem s)" using inv by (simp add: server_inv_def sound_def)
  from loop_inv_entry_at[OF this a] cb t show ?thesis
    by (auto simp: dispatch_event_def dispatch_kind_def eloop_callback_type_to_epoll_event_def EPOLLIN_def EPOLLOUT_def
        EPOLLRDHUP_def split: Option.bind_splits)
qed

lemma collect_nothing:
  assumes "server_inv s" "scheduled (ls_eloop s) = []"
  shows "collect_step free_object s = Some s"
proof -
  obtain c where c: "el_collector (ls_eloop s) = Some c" using assms(1) by (auto simp: server_inv_def sound_def)
  then have "collect_entries_list c = []" using assms(2) by (simp add: scheduled_def collector_pending_def)
  then have e: "c\<lparr>collect_entries_list := []\<rparr> = c" by simp
  have "(ls_eloop s)\<lparr>el_collector := Some c\<rparr> = ls_eloop s" using c by simp
  with c e \<open>collect_entries_list c = []\<close> show ?thesis by (simp add: collect_step_def collector_collect_def)
qed

text \<open>What a handler's result makes of the state.\<close>

definition with_connection ::
    "'ps connection \<times> free_func loop \<times> kernel \<times> 'x \<times> mem \<Rightarrow> ('ps, 'x) server_state \<Rightarrow> ('ps, 'x) server_state" where
  "with_connection r s = (case r of (hc, el, k, x, m) \<Rightarrow>
     s\<lparr>ls_eloop := el, ls_kernel := k, ls_mem := m,
       ls_world := (ls_world s)\<lparr>sw_conns := put_connection hc (sw_conns (ls_world s)), sw_rest := x\<rparr>\<rparr>)"

lemma fire_connection:
  assumes inv: "server_inv s" and hc: "hc \<in> set (sw_conns (ls_world s))"
  shows "fire router lib so banner sg (Connection_ready_read (conn_tcp hc)) fd s =
      map_option (\<lambda>r. with_connection r s)
        (on_read router lib so (hc, ls_eloop s, ls_kernel s, sw_rest (ls_world s), ls_mem s))"
    "fire router lib so banner sg (Connection_ready_write (conn_tcp hc)) fd s =
      map_option (\<lambda>r. with_connection r s)
        (on_write so (hc, ls_eloop s, ls_kernel s, sw_rest (ls_world s), ls_mem s))"
proof -
  have "distinct (map conn_tcp (sw_conns (ls_world s)))" "wired hc"
    using inv hc by (simp_all add: server_inv_def world_inv_def conn_ok_def)
  then show "fire router lib so banner sg (Connection_ready_read (conn_tcp hc)) fd s =
      map_option (\<lambda>r. with_connection r s)
        (on_read router lib so (hc, ls_eloop s, ls_kernel s, sw_rest (ls_world s), ls_mem s))"
    "fire router lib so banner sg (Connection_ready_write (conn_tcp hc)) fd s =
      map_option (\<lambda>r. with_connection r s)
        (on_write so (hc, ls_eloop s, ls_kernel s, sw_rest (ls_world s), ls_mem s))"
    using find_connection_alive[OF _ hc]
    by (auto simp: fire_def connection_event_def wired_callbacks with_connection_def map_option_case
        split: option.split Option.bind_split)
qed

section \<open>A connection alone\<close>

text \<open>
  Beside what the state \<open>s0\<close> had, the state has the connection \<open>hc\<close>, open and watched, and the blocks it owns: those of
  the connection, its TCP connection, its queue and its response.
\<close>

definition beside ::
    "('ps, 'x) server_state \<Rightarrow> 'ps connection \<Rightarrow> ('ps, 'x) server_state \<Rightarrow> bool" where
  "beside s0 hc s \<longleftrightarrow> server_inv s \<and> scheduled (ls_eloop s) = [] \<and> el_running (ls_eloop s) \<and>
     sw_conns (ls_world s) = hc # sw_conns (ls_world s0) \<and> 0 \<le> conn_fd hc \<and>
     sw_server (ls_world s) = sw_server (ls_world s0) \<and>
     watches (ls_eloop s) = (watches (ls_eloop s0))(conn_fd hc := http_registered (hc_tcp_connection hc)) \<and>
     k_open (ls_kernel s) = (k_open (ls_kernel s0))(conn_fd hc := True) \<and>
     rq_buffer (hc_request_queue hc) = None \<and>
     blocks (ls_mem s) - int (length (el_callbacks_list (ls_eloop s))) - resp_owned (hc_response hc) - 3 =
       blocks (ls_mem s0) - int (length (el_callbacks_list (ls_eloop s0)))"

lemma besideD:
  assumes "beside s0 hc s"
  shows "server_inv s" "hc \<in> set (sw_conns (ls_world s))" "0 \<le> conn_fd hc"
    "conn_ready hc (ls_eloop s, ls_kernel s, ls_mem s)" "wired hc" "answers (ls_mem s) = []"
    "watches (ls_eloop s) (conn_fd hc) = http_registered (hc_tcp_connection hc)"
proof -
  show "server_inv s" "hc \<in> set (sw_conns (ls_world s))" "0 \<le> conn_fd hc"
    "watches (ls_eloop s) (conn_fd hc) = http_registered (hc_tcp_connection hc)"
    using assms by (simp_all add: beside_def)
  from conn_ready_inv[OF this(1,2)] show "conn_ready hc (ls_eloop s, ls_kernel s, ls_mem s)" .
  then show "wired hc" "answers (ls_mem s) = []" by (simp_all add: conn_ready_def sound_def)
qed

lemma http_registered_read_write:
  "http_registered tcp ELOOP_CALLBACK_READ = Some (Connection_ready_read (tc_addr tcp))"
  "http_registered tcp ELOOP_CALLBACK_WRITE = Some (Connection_ready_write (tc_addr tcp))"
  by (simp_all add: http_registered_def registered_def wanted_def)

text \<open>Accepting puts a connection beside the others.\<close>

lemma accepted_beside:
  assumes inv: "server_inv s" "scheduled (ls_eloop s) = []" "el_running (ls_eloop s)"
    and acc: "so_accept so sfd (sw_rest (ls_world s)) = (Io_done fd, x)" "0 \<le> fd" "\<not> k_open (ls_kernel s) fd"
  shows "\<exists>hc s'. fire router lib so banner sg
      (Server_incoming (ts_addr (hs_tcp_server (sw_server (ls_world s))))) sfd s = Some s' \<and>
     beside s hc s' \<and> conn_fd hc = fd \<and> hc_request_queue hc = new_queue lib (hc_addr hc) \<and>
     hc_response hc = new_response banner \<and> sw_rest (ls_world s') = x"
proof -
  from accept_inv[OF inv(1) acc, of router lib banner sg] obtain s' hc where s':
    "fire router lib so banner sg (Server_incoming (ts_addr (hs_tcp_server (sw_server (ls_world s))))) sfd s = Some s'"
    "server_inv s'" "scheduled (ls_eloop s') = scheduled (ls_eloop s)"
    "watches (ls_eloop s') = (watches (ls_eloop s))(fd := watches (ls_eloop s') fd)"
    "k_open (ls_kernel s') = (k_open (ls_kernel s))(fd := True)" "sw_rest (ls_world s') = x"
    "el_running (ls_eloop s') = el_running (ls_eloop s)" "sw_server (ls_world s') = sw_server (ls_world s)"
    "blocks (ls_mem s') - int (length (el_callbacks_list (ls_eloop s'))) =
       blocks (ls_mem s) - int (length (el_callbacks_list (ls_eloop s))) + 4"
    "conn_fd hc = fd" "sw_conns (ls_world s') = hc # sw_conns (ls_world s)"
    "hc_request_queue hc = new_queue lib (hc_addr hc)" "hc_response hc = new_response banner"
    by (elim exE conjE) (rule that, assumption+)
  have "watches (ls_eloop s') fd = http_registered (hc_tcp_connection hc)"
    using bspec[OF conjunct1[OF server_inv_connections[OF s'(2)]], of hc] s'(10,11) acc(2) by simp
  then have "beside s hc s'"
    using s' inv acc(2) by (simp add: beside_def new_queue_def new_response_def resp_owned_def)
  with s' show ?thesis by blast
qed

section \<open>Reading and writing\<close>

lemma beside_contents:
  assumes b: "beside s0 hc s" and r: "keeps_response (hc_response hc) (ls_mem s) r m'" "rq_buffer q = None"
    and blocks: "blocks m' - resp_owned r = blocks (ls_mem s) - resp_owned (hc_response hc)"
  shows "beside s0 (hc\<lparr>hc_request_queue := q, hc_response := r\<rparr>)
    (with_connection (hc\<lparr>hc_request_queue := q, hc_response := r\<rparr>, ls_eloop s, ls_kernel s, x, m') s)"
proof -
  let ?hc = "hc\<lparr>hc_request_queue := q, hc_response := r\<rparr>"
  note d = besideD[OF b]
  have step: "conn_step hc (ls_eloop s, ls_kernel s, ls_mem s) ?hc (ls_eloop s, ls_kernel s, m')"
    by (rule conn_step_contents[OF d(4) r(1)])
  have world: "world_inv (scheduled (ls_eloop s)) (ls_eloop s) (ls_kernel s)
      ((ls_world s)\<lparr>sw_conns := put_connection ?hc (sw_conns (ls_world s)), sw_rest := x\<rparr>) m'"
    by (rule conn_step_world[OF _ d(2) step]) (use d(1) in \<open>simp add: server_inv_def\<close>)
  have conns: "sw_conns (ls_world s) = hc # sw_conns (ls_world s0)" using b by (simp add: beside_def)
  have "distinct (map hc_addr (sw_conns (ls_world s)))" using d(1) by (simp add: server_inv_def world_inv_def)
  then have "hc_addr hc \<notin> hc_addr ` set (sw_conns (ls_world s0))" unfolding conns by simp
  then have "put_connection ?hc (sw_conns (ls_world s)) = ?hc # sw_conns (ls_world s0)"
    unfolding conns by (simp add: put_connection_def) (rule map_idI, metis imageI)
  with b world step blocks r(2) show ?thesis
    by (simp add: beside_def with_connection_def server_inv_def conn_step_def)
qed

lemma beside_fields:
  fixes hc hc' :: "'ps connection"
  assumes "hc_tcp_connection hc' = hc_tcp_connection hc" "hc_addr hc' = hc_addr hc" "hc_finish_callback hc' = hc_finish_callback hc"
  shows "hc' = hc\<lparr>hc_request_queue := hc_request_queue hc', hc_response := hc_response hc'\<rparr>"
  using assms by (cases hc, cases hc') simp

text \<open>A request is read and answered.\<close>

lemma read_beside:
  fixes so :: "'x sockets" and router :: "(RappContainer option, 'x served, 'c) HTTPRouter"
  assumes b: "beside s0 hc s" and ready: "connection_ready hc"
    and a: "k_epoll (ls_kernel s) (conn_fd hc) = Some (bits, a)"
    and recv: "so_recv so (conn_fd hc) BUFSIZE (sw_rest (ls_world s)) = (Io_done data, x')" "data \<noteq> []"
    and hello: "reports_request lib (rq_parser (hc_request_queue hc)) data at l hs ka"
      "hello_bound clock msg (take l (drop at data)) router"
      "0 \<le> clock" "nat clock < 86400 * (365 * 8030)" "msg \<noteq> []"
  shows "\<exists>hc' s' is_last. dispatch_event (fire router lib so banner sg) (a, EPOLLIN) s = Some s' \<and> beside s0 hc' s' \<and>
     (is_last = 0 \<longleftrightarrow> ka \<and> Suc (rq_incoming_index (hc_request_queue hc)) < MAX_REQUESTS) \<and>
     resp_is_last (hc_response hc') = is_last \<and>
     resp_contents (hc_response hc') = resp_contents (hc_response hc) @
       hello_text (nat clock) msg ((hc_response hc)\<lparr>resp_is_last := is_last\<rparr>) \<and>
     conn_fd hc' = conn_fd hc \<and> sw_rest (ls_world s') = x' \<and> ls_kernel s' = ls_kernel s \<and>
     rq_incoming_index (hc_request_queue hc') = Suc (rq_incoming_index (hc_request_queue hc)) \<and>
     (is_last = 0 \<longrightarrow> connection_ready hc')"
proof -
  note d = besideD[OF b]
  from hello_answers[OF ready d(6) recv hello, of "ls_eloop s" "ls_kernel s"] obtain hc' m' is_last where r:
    "on_read router lib so (hc, ls_eloop s, ls_kernel s, sw_rest (ls_world s), ls_mem s) =
      Some (hc', ls_eloop s, ls_kernel s, x', m')"
    "is_last = 0 \<longleftrightarrow> ka \<and> Suc (rq_incoming_index (hc_request_queue hc)) < MAX_REQUESTS"
    "resp_is_last (hc_response hc') = is_last"
    "resp_contents (hc_response hc') = resp_contents (hc_response hc) @
       hello_text (nat clock) msg ((hc_response hc)\<lparr>resp_is_last := is_last\<rparr>)"
    "hc_tcp_connection hc' = hc_tcp_connection hc" "hc_addr hc' = hc_addr hc" "hc_finish_callback hc' = hc_finish_callback hc"
    "resp_wf (hc_response hc')" "rq_incoming_index (hc_request_queue hc') = Suc (rq_incoming_index (hc_request_queue hc))"
    "is_last = 0 \<longrightarrow> connection_ready hc'" "answers m' = []" "fresh (ls_mem s) \<le> fresh m'"
    "rq_buffer (hc_request_queue hc') = None"
    "blocks m' - resp_owned (hc_response hc') = blocks (ls_mem s) - resp_owned (hc_response hc)"
    by blast
  let ?s = "with_connection (hc', ls_eloop s, ls_kernel s, x', m') s"
  have keeps: "keeps_response (hc_response hc) (ls_mem s) (hc_response hc') m'"
    using r(8,11,12) by (simp add: keeps_response_def grows_def)
  have beside: "beside s0 hc' ?s"
    using beside_contents[OF b keeps r(13,14), of x'] beside_fields[OF r(5-7)] by simp
  have "dispatch_event (fire router lib so banner sg) (a, EPOLLIN) s =
      fire router lib so banner sg (Connection_ready_read (conn_tcp hc)) (conn_fd hc) s"
    using dispatch_one[OF d(1) a, of ELOOP_CALLBACK_READ] d(7)
    by (simp add: http_registered_read_write eloop_callback_type_to_epoll_event_def)
  then have "dispatch_event (fire router lib so banner sg) (a, EPOLLIN) s = Some ?s"
    unfolding fire_connection(1)[OF d(1,2)] r(1) option.map by simp
  with beside r(2-5,9,10) show ?thesis
    by (intro exI[of _ hc'] exI[of _ ?s] exI[of _ is_last]) (simp add: with_connection_def)
qed

text \<open>A buffer of the answer is sent.\<close>

lemma on_write_any:
  assumes "so_send so = so_send counting_sockets"
  shows "on_write so = on_write counting_sockets"
  unfolding on_write_def tcp_connection_write_data_def assms ..

lemma write_beside:
  assumes b: "beside s0 hc s" and so: "so_send so = so_send counting_sockets"
    and a: "k_epoll (ls_kernel s) (conn_fd hc) = Some (bits, a)"
    and d: "resp_contents (hc_response hc) \<noteq> []" and x: "sw_rest (ls_world s) = (rcv, n # ns)"
  shows "\<exists>hc' s'. dispatch_event (fire router lib so banner sg) (a, EPOLLOUT) s = Some s' \<and> beside s0 hc' s' \<and>
     conn_fd hc' = conn_fd hc \<and> ls_kernel s' = ls_kernel s \<and>
     sw_rest (ls_world s') = (rcv @ take n (take BUFSIZE (resp_contents (hc_response hc))), ns) \<and>
     resp_contents (hc_response hc') = drop BUFSIZE (resp_contents (hc_response hc)) \<and>
     resp_is_last (hc_response hc') = resp_is_last (hc_response hc)"
proof -
  note f = besideD[OF b]
  have "resp_wf (hc_response hc)" using f(5) by (simp add: wired_def)
  from on_write_sends[OF this f(6) d, of "ls_eloop s" "ls_kernel s" rcv n ns] obtain r m' where w:
    "on_write counting_sockets (hc, ls_eloop s, ls_kernel s, (rcv, n # ns), ls_mem s) = Some (hc\<lparr>hc_response := r\<rparr>, ls_eloop s,
       ls_kernel s, (rcv @ take n (take BUFSIZE (resp_contents (hc_response hc))), ns), m')"
    "resp_wf r" "resp_contents r = drop BUFSIZE (resp_contents (hc_response hc))"
    "resp_is_last r = resp_is_last (hc_response hc)" "answers m' = []" "fresh (ls_mem s) \<le> fresh m'"
    "blocks m' - resp_owned r = blocks (ls_mem s) - resp_owned (hc_response hc)" by blast
  let ?s = "with_connection (hc\<lparr>hc_response := r\<rparr>, ls_eloop s, ls_kernel s,
      (rcv @ take n (take BUFSIZE (resp_contents (hc_response hc))), ns), m') s"
  have keeps: "keeps_response (hc_response hc) (ls_mem s) r m'"
    using w(2,5,6) by (simp add: keeps_response_def grows_def)
  have "rq_buffer (hc_request_queue hc) = None" using b by (simp add: beside_def)
  from beside_contents[OF b keeps this w(7)] have beside: "beside s0 (hc\<lparr>hc_response := r\<rparr>) ?s" by simp
  have "dispatch_event (fire router lib so banner sg) (a, EPOLLOUT) s =
      fire router lib so banner sg (Connection_ready_write (conn_tcp hc)) (conn_fd hc) s"
    using dispatch_one[OF f(1) a, of ELOOP_CALLBACK_WRITE] f(7)
    by (simp add: http_registered_read_write eloop_callback_type_to_epoll_event_def)
  then have "dispatch_event (fire router lib so banner sg) (a, EPOLLOUT) s = Some ?s"
    unfolding fire_connection(2)[OF f(1,2)] on_write_any[OF so] x w(1) option.map .
  with beside w(3,4) show ?thesis
    by (intro exI[of _ "hc\<lparr>hc_response := r\<rparr>"] exI[of _ ?s]) (simp add: with_connection_def)
qed

section \<open>Closing\<close>

text \<open>What is left of \<open>s0\<close> when a connection beside it is gone.\<close>

definition restored :: "('ps, 'x) server_state \<Rightarrow> int \<Rightarrow> ('ps, 'x) server_state \<Rightarrow> bool" where
  "restored s0 fd s \<longleftrightarrow> server_inv s \<and> scheduled (ls_eloop s) = [] \<and> el_running (ls_eloop s) \<and>
     sw_conns (ls_world s) = sw_conns (ls_world s0) \<and> sw_server (ls_world s) = sw_server (ls_world s0) \<and>
     watches (ls_eloop s) = (watches (ls_eloop s0))(fd := \<lambda>_. None) \<and>
     k_open (ls_kernel s) = (k_open (ls_kernel s0))(fd := False) \<and>
     blocks (ls_mem s) - int (length (el_callbacks_list (ls_eloop s))) =
       blocks (ls_mem s0) - int (length (el_callbacks_list (ls_eloop s0)))"

lemma remove_watch_running:
  "event_loop_remove_fd_watch fd t el k m = Some (ret, el', k', m') \<Longrightarrow> el_running el' = el_running el"
  by (auto simp: event_loop_remove_fd_watch_def Let_def split: option.splits prod.splits if_splits)

lemma close_running:
  "tcp_connection_close c el k m = Some (c', el', k', m') \<Longrightarrow> el_running el' = el_running el"
  by (auto simp: tcp_connection_close_def split: if_splits Option.bind_splits dest!: remove_watch_running)

lemma peer_close_schedules:
  assumes "wired hc" "tcp_connection_close (hc_tcp_connection hc) el k m = Some (tcp, el', k', m')" "answers m' = []"
    and "el_collector el' = Some c" "collect_entries_list c = []"
  shows "on_peer_close (hc, el, k, x, m) = Some (hc\<lparr>hc_tcp_connection := tcp\<rparr>,
    el'\<lparr>el_collector := Some (c\<lparr>collect_entries_list := [\<lparr>ce_free_func = Free_http_connection, ce_data = hc_addr hc\<rparr>]\<rparr>)\<rparr>,
    k', x, m'\<lparr>fresh := Suc (fresh m'), blocks := blocks m' + 1\<rparr>)"
  using assms by (simp add: on_peer_close_def finish_def wired_def on_request_finish_def event_loop_schedule_free_def
      collector_schedule_free_def)

lemma destroy_closed:
  assumes "conn_fd hc = -1" "rq_buffer (hc_request_queue hc) = None" "resp_buffer (hc_response hc) = None"
  shows "http_connection_destroy hc el k m = Some (el, k, m\<lparr>blocks := blocks m - 4\<rparr>)"
  using assms by (simp add: http_connection_destroy_def tcp_connection_destroy_def http_request_queue_destroy_def
      http_response_destroy_def memory_destroy_def)

text \<open>The write event after the last byte of the last answer closes the connection, and the collection after the
  batch frees it.\<close>

text \<open>The closed connection is collected: the one beside \<open>s0\<close> is gone.\<close>

lemma collect_beside:
  assumes b: "beside s0 hc s" and d: "resp_contents (hc_response hc) = []"
    and closed: "watches el = (watches (ls_eloop s))(conn_fd hc := \<lambda>_. None)"
      "k_open k = (k_open (ls_kernel s))(conn_fd hc := False)"
      "blocks m - int (length (el_callbacks_list el)) = blocks (ls_mem s) - int (length (el_callbacks_list (ls_eloop s)))"
      "el_running el = el_running (ls_eloop s)"
    and c0: "el_collector el = Some c0" "collect_entries_list c0 = []"
    and s1: "s1 = with_connection (hc\<lparr>hc_tcp_connection := (hc_tcp_connection hc)\<lparr>tc_fd := -1\<rparr>\<rparr>,
        el\<lparr>el_collector := Some (c0\<lparr>collect_entries_list := [\<lparr>ce_free_func = Free_http_connection, ce_data = hc_addr hc\<rparr>]\<rparr>)\<rparr>,
        k, sw_rest (ls_world s), m\<lparr>fresh := Suc (fresh m), blocks := blocks m + 1\<rparr>) s" "server_inv s1"
  shows "\<exists>s2. collect_step free_object s1 = Some s2 \<and> restored s0 (conn_fd hc) s2 \<and> sw_rest (ls_world s2) = sw_rest (ls_world s)"
proof -
  note f = besideD[OF b]
  let ?hc = "hc\<lparr>hc_tcp_connection := (hc_tcp_connection hc)\<lparr>tc_fd := -1\<rparr>\<rparr>"
    and ?m = "m\<lparr>fresh := Suc (fresh m), blocks := blocks m + 1\<rparr>"
  let ?el = "el\<lparr>el_collector := Some (c0\<lparr>collect_entries_list := [\<lparr>ce_free_func = Free_http_connection, ce_data = hc_addr hc\<rparr>]\<rparr>)\<rparr>"
  have wf: "resp_wf (hc_response hc)" using f(5) by (simp add: wired_def)
  from collect_frees[OF s1(2)] obtain s2 where s2: "collect_step free_object s1 = Some s2" "server_inv s2"
    "scheduled (ls_eloop s2) = []" by blast
  have conns: "sw_conns (ls_world s) = hc # sw_conns (ls_world s0)" using b by (simp add: beside_def)
  have "distinct (map hc_addr (sw_conns (ls_world s)))" using f(1) by (simp add: server_inv_def world_inv_def)
  then have new: "hc_addr hc \<notin> hc_addr ` set (sw_conns (ls_world s0))" unfolding conns by simp
  then have put: "put_connection ?hc (sw_conns (ls_world s)) = ?hc # sw_conns (ls_world s0)"
    unfolding conns by (simp add: put_connection_def) (rule map_idI, metis imageI)
  have rest: "filter (\<lambda>h. hc_addr h \<noteq> hc_addr hc) (sw_conns (ls_world s0)) = sw_conns (ls_world s0)"
    using new by (intro filter_True) (metis imageI)
  have empty: "rq_buffer (hc_request_queue hc) = None" "resp_buffer (hc_response hc) = None"
    using b resp_contents_empty[OF wf] d by (simp_all add: beside_def)
  have "s2 = \<lparr>ls_eloop = ?el\<lparr>el_collector := Some (c0\<lparr>collect_entries_list := []\<rparr>)\<rparr>, ls_kernel = k,
      ls_world = (ls_world s)\<lparr>sw_conns := sw_conns (ls_world s0), sw_rest := sw_rest (ls_world s)\<rparr>,
      ls_mem = ?m\<lparr>blocks := blocks m - 4\<rparr>\<rparr>"
    using s2(1) destroy_closed[of ?hc ?el k ?m] empty rest
    by (simp add: s1(1) collect_step_def collector_collect_def with_connection_def free_object_def put memory_destroy_def)
  moreover have "resp_owned (hc_response hc) = 1" using empty by (simp add: resp_owned_def)
  ultimately have "restored s0 (conn_fd hc) s2 \<and> sw_rest (ls_world s2) = sw_rest (ls_world s)"
    using b s2(2,3) closed by (simp add: restored_def beside_def)
  with s2(1) show ?thesis by blast
qed

lemma close_beside:
  assumes b: "beside s0 hc s"
    and a: "k_epoll (ls_kernel s) (conn_fd hc) = Some (bits, a)"
    and d: "resp_contents (hc_response hc) = []" and l: "resp_is_last (hc_response hc) \<noteq> 0"
  shows "\<exists>s1 s2. dispatch_event (fire router lib so banner sg) (a, EPOLLOUT) s = Some s1 \<and>
     collect_step free_object s1 = Some s2 \<and> restored s0 (conn_fd hc) s2 \<and> sw_rest (ls_world s2) = sw_rest (ls_world s)"
proof -
  note f = besideD[OF b]
  let ?x = "sw_rest (ls_world s)" and ?tcp = "(hc_tcp_connection hc)\<lparr>tc_fd := -1\<rparr>"
  have wf: "resp_wf (hc_response hc)" using f(5) by (simp add: wired_def)
  have pre: "loop_inv (ls_eloop s) (ls_kernel s) (ls_mem s)" "k_open (ls_kernel s) (conn_fd hc)"
    using f(3,4) by (simp_all add: conn_ready_def sound_def)
  from close_connection[OF pre(1) f(3) pre(2)] obtain el k m where c:
    "tcp_connection_close (hc_tcp_connection hc) (ls_eloop s) (ls_kernel s) (ls_mem s) = Some (?tcp, el, k, m)"
    "loop_inv el k m" "watches el = (watches (ls_eloop s))(conn_fd hc := \<lambda>_. None)"
    "k_open k = (k_open (ls_kernel s))(conn_fd hc := False)" "answers m = []"
    "blocks m - int (length (el_callbacks_list el)) =
       blocks (ls_mem s) - int (length (el_callbacks_list (ls_eloop s)))" using f(6) by auto
  obtain c0 where c0: "el_collector el = Some c0" "collect_entries_list c0 = []"
    using b f(4) close_keeps[OF c(1)] by (auto simp: beside_def conn_ready_def sound_def scheduled_def collector_pending_def)
  let ?el = "el\<lparr>el_collector := Some (c0\<lparr>collect_entries_list :=
      [\<lparr>ce_free_func = Free_http_connection, ce_data = hc_addr hc\<rparr>]\<rparr>)\<rparr>" and ?hc = "hc\<lparr>hc_tcp_connection := ?tcp\<rparr>"
    and ?m = "m\<lparr>fresh := Suc (fresh m), blocks := blocks m + 1\<rparr>"
  note closed = peer_close_schedules[OF f(5) c(1,5) c0, of ?x]
  let ?s1 = "with_connection (?hc, ?el, k, ?x, ?m) s"
  have "dispatch_event (fire router lib so banner sg) (a, EPOLLOUT) s =
      fire router lib so banner sg (Connection_ready_write (conn_tcp hc)) (conn_fd hc) s"
    using dispatch_one[OF f(1) a, of ELOOP_CALLBACK_WRITE] f(7)
    by (simp add: http_registered_read_write eloop_callback_type_to_epoll_event_def)
  then have one: "dispatch_event (fire router lib so banner sg) (a, EPOLLOUT) s = Some ?s1"
    unfolding fire_connection(2)[OF f(1,2)] on_write_last[OF wf f(6) d l] closed option.map .
  have step: "conn_step hc (ls_eloop s, ls_kernel s, ls_mem s) ?hc (?el, k, ?m)"
    using peer_close_step[OF f(4), of ?x] closed by simp
  have "world_inv (scheduled ?el) ?el k ((ls_world s)\<lparr>sw_conns := put_connection ?hc (sw_conns (ls_world s)), sw_rest := ?x\<rparr>) ?m"
    by (rule conn_step_world[OF _ f(2) step]) (use f(1) in \<open>simp add: server_inv_def\<close>)
  with step have inv: "server_inv ?s1" by (simp add: server_inv_def with_connection_def conn_step_def)
  from collect_beside[OF b d c(3,4,6) close_running[OF c(1)] c0 refl inv] one show ?thesis by blast
qed

text \<open>Nothing is left of a connection whose descriptor was new.\<close>

lemma restored_same:
  assumes "server_inv s0" "\<not> k_open (ls_kernel s0) fd" "restored s0 fd s"
  shows "watches (ls_eloop s) = watches (ls_eloop s0) \<and> k_open (ls_kernel s) = k_open (ls_kernel s0) \<and>
    blocks (ls_mem s) = blocks (ls_mem s0)"
proof -
  have "watches (ls_eloop s0) fd = (\<lambda>_. None)"
    using assms(1,2) closed_unwatched by (fastforce simp: server_inv_def)
  then have w: "watches (ls_eloop s) = watches (ls_eloop s0)"
    using assms(3) by (auto simp: restored_def fun_eq_iff)
  have "loop_inv (ls_eloop s0) (ls_kernel s0) (ls_mem s0)" "loop_inv (ls_eloop s) (ls_kernel s) (ls_mem s)"
    using assms(1,3) by (simp_all add: restored_def server_inv_def sound_def)
  from loop_inv_same_count[OF this w] w assms(2,3) show ?thesis by (auto simp: restored_def fun_eq_iff)
qed

section \<open>Batches\<close>

lemma loop_batches_append:
  "loop_batches f run (xs @ ys) s = Option.bind (loop_batches f run xs s) (loop_batches f run ys)"
proof (induction xs arbitrary: s)
  case (Cons evs xs)
  have stopped: "loop_batches f run ys s = Some s" if "\<not> el_running (ls_eloop s)"
    using that by (cases ys) simp_all
  show ?case
  proof (cases "el_running (ls_eloop s)")
    case True
    then show ?thesis by (simp add: Cons.IH cong: bind_option_cong)
  next
    case False
    with stopped show ?thesis by simp
  qed
qed simp

lemma batch_one:
  assumes "el_running (ls_eloop s)" "dispatch_event f e s = Some s'" "server_inv s'" "scheduled (ls_eloop s') = []"
  shows "loop_batches f free_object ([e] # batches) s = loop_batches f free_object batches s'"
  using assms(1,2) collect_nothing[OF assms(3,4)] by simp

lemma besideB:
  assumes "beside s0 hc s"
  shows "el_running (ls_eloop s)" "scheduled (ls_eloop s) = []"
  using assms by (simp_all add: beside_def)

text \<open>Enough write events for the answer to be read out.\<close>

lemma write_batches:
  assumes "beside s0 hc s" "so_send so = so_send counting_sockets"
    and "k_epoll (ls_kernel s) (conn_fd hc) = Some (bits, a)"
    and "sw_rest (ls_world s) = (rcv, ns)" "length ns * BUFSIZE < length (resp_contents (hc_response hc)) + BUFSIZE"
  shows "\<exists>hc' s'. loop_batches (fire router lib so banner sg) free_object (replicate (length ns) [(a, EPOLLOUT)]) s = Some s' \<and>
     beside s0 hc' s' \<and> conn_fd hc' = conn_fd hc \<and> ls_kernel s' = ls_kernel s \<and>
     sw_rest (ls_world s') = (rcv @ reaching ns (resp_contents (hc_response hc)), []) \<and>
     resp_contents (hc_response hc') = drop (length ns * BUFSIZE) (resp_contents (hc_response hc)) \<and>
     resp_is_last (hc_response hc') = resp_is_last (hc_response hc)"
  using assms
proof (induction ns arbitrary: hc s rcv)
  case Nil
  then show ?case by (auto intro!: exI[of _ hc])
next
  case (Cons n ns)
  have d: "resp_contents (hc_response hc) \<noteq> []" using Cons.prems(5) by auto
  from write_beside[OF Cons.prems(1-3) d Cons.prems(4), of router lib banner sg] obtain hc1 s1 where w:
    "dispatch_event (fire router lib so banner sg) (a, EPOLLOUT) s = Some s1" "beside s0 hc1 s1"
    "conn_fd hc1 = conn_fd hc" "ls_kernel s1 = ls_kernel s"
    "sw_rest (ls_world s1) = (rcv @ take n (take BUFSIZE (resp_contents (hc_response hc))), ns)"
    "resp_contents (hc_response hc1) = drop BUFSIZE (resp_contents (hc_response hc))"
    "resp_is_last (hc_response hc1) = resp_is_last (hc_response hc)"
    by (elim exE conjE) (rule that, assumption+)
  have one: "loop_batches (fire router lib so banner sg) free_object (replicate (length (n # ns)) [(a, EPOLLOUT)]) s =
      loop_batches (fire router lib so banner sg) free_object (replicate (length ns) [(a, EPOLLOUT)]) s1"
    using batch_one[OF besideB(1)[OF Cons.prems(1)] w(1) besideD(1)[OF w(2)] besideB(2)[OF w(2)]] by simp
  have "length ns * BUFSIZE < length (resp_contents (hc_response hc1)) + BUFSIZE"
    using Cons.prems(5) d by (auto simp: w(6) BUFSIZE_def)
  from Cons.IH[OF w(2) Cons.prems(2) _ w(5) this] Cons.prems(3) w(3,4) obtain hc' s' where r:
    "loop_batches (fire router lib so banner sg) free_object (replicate (length ns) [(a, EPOLLOUT)]) s1 = Some s'"
    "beside s0 hc' s'" "conn_fd hc' = conn_fd hc" "ls_kernel s' = ls_kernel s"
    "sw_rest (ls_world s') = ((rcv @ take n (take BUFSIZE (resp_contents (hc_response hc)))) @
       reaching ns (resp_contents (hc_response hc1)), [])"
    "resp_contents (hc_response hc') = drop (length ns * BUFSIZE) (resp_contents (hc_response hc1))"
    "resp_is_last (hc_response hc') = resp_is_last (hc_response hc1)"
    unfolding w(3,4) by blast
  then show ?case unfolding one using w(6,7)
    by (intro exI[of _ hc'] exI[of _ s']) (simp add: add.commute)
qed

section \<open>From the connection to its end\<close>

text \<open>The event the kernel reports for a descriptor that is asked for.\<close>

definition reported :: "kernel \<Rightarrow> int \<Rightarrow> 32 word \<Rightarrow> addr \<times> 32 word \<Rightarrow> bool" where
  "reported k fd ev e \<longleftrightarrow> (\<exists>bits a. k_epoll k fd = Some (bits, a) \<and> ev AND bits = ev \<and> e = (a, ev))"

lemma watch_reported:
  assumes "server_inv s" "watches (ls_eloop s) fd t = Some cb" "t = ELOOP_CALLBACK_READ \<or> t = ELOOP_CALLBACK_WRITE"
  shows "\<exists>bits a. k_epoll (ls_kernel s) fd = Some (bits, a) \<and>
    reported (ls_kernel s) fd (eloop_callback_type_to_epoll_event t) (a, eloop_callback_type_to_epoll_event t)"
proof -
  have "loop_inv (ls_eloop s) (ls_kernel s) (ls_mem s)" using assms(1) by (simp add: server_inv_def sound_def)
  from interest_list[OF this, of fd] assms(2,3) obtain bits a where
    "k_epoll (ls_kernel s) fd = Some (bits, a)" "bits = bits_of (watches (ls_eloop s) fd)"
    by (fastforce simp: interest_def bits_of_def EPOLLIN_def EPOLLOUT_def EPOLLRDHUP_def split: if_splits)
  with assms(2,3) show ?thesis
    by (auto simp: reported_def bits_of_def eloop_callback_type_to_epoll_event_def EPOLLIN_def EPOLLOUT_def EPOLLRDHUP_def)
qed

lemma fresh_connection_ready:
  "hc_request_queue hc = new_queue lib (hc_addr hc) \<Longrightarrow> hc_response hc = new_response banner \<Longrightarrow> connection_ready hc"
  by (simp add: connection_ready_def new_queue_def new_response_def resp_wf_def queue_idle_def MAX_REQUESTS_def)

text \<open>
  A connection comes in, its only request is read and answered, and the answer written: as many write events as it
  has started buffers, and one more to close it.  In the end it is as if it had not been there.
\<close>

text \<open>From the request to the end, for a connection that was just accepted.\<close>

lemma answered_beside:
  fixes so :: "(bytes \<times> nat list) sockets" and router :: "(RappContainer option, (bytes \<times> nat list) served, 'c) HTTPRouter"
  assumes b: "beside s hc s1" "hc_request_queue hc = new_queue lib (hc_addr hc)" "hc_response hc = new_response banner"
    and a: "k_epoll (ls_kernel s1) (conn_fd hc) = Some (bits, a)"
    and recv: "so_recv so (conn_fd hc) BUFSIZE (sw_rest (ls_world s1)) = (Io_done data, (rcv, ns))" "data \<noteq> []"
    and send: "so_send so = so_send counting_sockets"
    and parse: "reports_request lib (hp_init lib) data at l hs False"
    and hello: "hello_bound clock msg (take l (drop at data)) router"
      "0 \<le> clock" "nat clock < 86400 * (365 * 8030)" "msg \<noteq> []"
    and answer: "answer = hello_text (nat clock) msg ((new_response banner)\<lparr>resp_is_last := 1\<rparr>)"
    and len: "length answer \<le> length ns * BUFSIZE" "length ns * BUFSIZE < length answer + BUFSIZE"
  shows "\<exists>s2. loop_batches (fire router lib so banner sg) free_object
       ([(a, EPOLLIN)] # replicate (Suc (length ns)) [(a, EPOLLOUT)]) s1 = Some s2 \<and>
     restored s (conn_fd hc) s2 \<and> sw_rest (ls_world s2) = (rcv @ reaching ns answer, [])"
proof -
  let ?F = "fire router lib so banner sg"
  note b1 = besideD[OF b(1)] besideB[OF b(1)]
  have "reports_request lib (rq_parser (hc_request_queue hc)) data at l hs False"
    using parse by (simp add: b(2) new_queue_def)
  then obtain hc2 s2 is_last where s2: "dispatch_event ?F (a, EPOLLIN) s1 = Some s2" "beside s hc2 s2" "is_last \<noteq> 0"
    "resp_is_last (hc_response hc2) = is_last"
    "resp_contents (hc_response hc2) = hello_text (nat clock) msg ((new_response banner)\<lparr>resp_is_last := is_last\<rparr>)"
    "conn_fd hc2 = conn_fd hc" "sw_rest (ls_world s2) = (rcv, ns)" "ls_kernel s2 = ls_kernel s1"
    using read_beside[OF b(1) fresh_connection_ready[OF b(2,3)] a recv _ hello, where lib = lib and hs = hs
        and ka = False and banner = banner and sg = sg]
    unfolding b(3) by (auto simp: resp_contents_def new_response_def)
  have contents: "resp_contents (hc_response hc2) = answer"
    using hello_text_last[of is_last 1 "nat clock" msg "new_response banner"] s2(3,5) by (simp add: answer)
  have k2: "k_epoll (ls_kernel s2) (conn_fd hc2) = Some (bits, a)" using a by (simp add: s2(6,8))
  from write_batches[OF s2(2) send k2 s2(7), of router lib banner sg] len(2) obtain hc3 s3 where s3:
    "loop_batches ?F free_object (replicate (length ns) [(a, EPOLLOUT)]) s2 = Some s3" "beside s hc3 s3"
    "conn_fd hc3 = conn_fd hc" "ls_kernel s3 = ls_kernel s2" "sw_rest (ls_world s3) = (rcv @ reaching ns answer, [])"
    "resp_contents (hc_response hc3) = []" "resp_is_last (hc_response hc3) \<noteq> 0"
    using len(1) s2(3,4,6) unfolding contents by auto
  have "k_epoll (ls_kernel s3) (conn_fd hc3) = Some (bits, a)" using k2 by (simp add: s2(6) s3(3,4))
  from close_beside[OF s3(2) this s3(6,7), of router lib so banner sg] obtain s4 s5 where s5:
    "dispatch_event ?F (a, EPOLLOUT) s3 = Some s4" "collect_step free_object s4 = Some s5" "restored s (conn_fd hc) s5"
    "sw_rest (ls_world s5) = (rcv @ reaching ns answer, [])"
    unfolding s3(3,5) by blast
  have closing: "loop_batches ?F free_object [[(a, EPOLLOUT)]] s3 = Some s5"
    using s5(1,2) besideB(1)[OF s3(2)] by simp
  have all: "[(a, EPOLLIN)] # replicate (Suc (length ns)) [(a, EPOLLOUT)] =
      [(a, EPOLLIN)] # replicate (length ns) [(a, EPOLLOUT)] @ [[(a, EPOLLOUT)]]"
    by (simp add: replicate_append_same)
  have "loop_batches ?F free_object ([(a, EPOLLIN)] # replicate (Suc (length ns)) [(a, EPOLLOUT)]) s1 = Some s5"
    unfolding all batch_one[OF b1(8) s2(1) besideD(1)[OF s2(2)] besideB(2)[OF s2(2)]]
    by (simp add: loop_batches_append s3(1) closing del: loop_batches.simps)
  with s5(3,4) show ?thesis by blast
qed

lemma connection_lives:
  fixes so :: "(bytes \<times> nat list) sockets" and router :: "(RappContainer option, (bytes \<times> nat list) served, 'c) HTTPRouter"
  assumes inv: "server_inv s" "scheduled (ls_eloop s) = []" "el_running (ls_eloop s)"
    and w: "watches (ls_eloop s) sfd ELOOP_CALLBACK_READ =
      Some (Server_incoming (ts_addr (hs_tcp_server (sw_server (ls_world s)))))"
    and acc: "so_accept so sfd (sw_rest (ls_world s)) = (Io_done fd, x)" "0 \<le> fd" "\<not> k_open (ls_kernel s) fd"
    and recv: "so_recv so fd BUFSIZE x = (Io_done data, (rcv, ns))" "data \<noteq> []"
    and send: "so_send so = so_send counting_sockets"
    and parse: "reports_request lib (hp_init lib) data at l hs False"
    and hello: "hello_bound clock msg (take l (drop at data)) router"
      "0 \<le> clock" "nat clock < 86400 * (365 * 8030)" "msg \<noteq> []"
    and answer: "answer = hello_text (nat clock) msg ((new_response banner)\<lparr>resp_is_last := 1\<rparr>)"
    and len: "length answer \<le> length ns * BUFSIZE" "length ns * BUFSIZE < length answer + BUFSIZE"
  shows "\<exists>incoming s1 arrived writable s2. reported (ls_kernel s) sfd EPOLLIN incoming \<and>
     loop_batches (fire router lib so banner sg) free_object [[incoming]] s = Some s1 \<and>
     reported (ls_kernel s1) fd EPOLLIN arrived \<and> reported (ls_kernel s1) fd EPOLLOUT writable \<and>
     loop_batches (fire router lib so banner sg) free_object ([arrived] # replicate (Suc (length ns)) [writable]) s1 = Some s2 \<and>
     restored s fd s2 \<and> sw_rest (ls_world s2) = (rcv @ reaching ns answer, [])"
proof -
  let ?F = "fire router lib so banner sg"
  obtain bits0 a0 where a0: "k_epoll (ls_kernel s) sfd = Some (bits0, a0)" "reported (ls_kernel s) sfd EPOLLIN (a0, EPOLLIN)"
    using watch_reported[OF inv(1) w] by (auto simp: eloop_callback_type_to_epoll_event_def)
  from accepted_beside[OF inv acc, of router lib banner sg] obtain hc s1 where s1:
    "?F (Server_incoming (ts_addr (hs_tcp_server (sw_server (ls_world s))))) sfd s = Some s1" "beside s hc s1"
    "conn_fd hc = fd" "hc_request_queue hc = new_queue lib (hc_addr hc)" "hc_response hc = new_response banner"
    "sw_rest (ls_world s1) = x"
    by (elim exE conjE) (rule that, assumption+)
  note b1 = besideD[OF s1(2)] besideB[OF s1(2)]
  have in_event: "dispatch_event ?F (a0, EPOLLIN) s = Some s1"
    using dispatch_one[OF inv(1) a0(1) _ w, of ?F] s1(1) by (simp add: eloop_callback_type_to_epoll_event_def)
  have first: "loop_batches ?F free_object [[(a0, EPOLLIN)]] s = Some s1"
    using batch_one[OF inv(3) in_event b1(1,9), of "[]"] by simp
  have watched: "watches (ls_eloop s1) fd ELOOP_CALLBACK_READ = Some (Connection_ready_read (conn_tcp hc))"
    "watches (ls_eloop s1) fd ELOOP_CALLBACK_WRITE = Some (Connection_ready_write (conn_tcp hc))"
    using b1(7) by (simp_all add: http_registered_read_write s1(3))
  obtain bits a where a: "k_epoll (ls_kernel s1) (conn_fd hc) = Some (bits, a)"
    "reported (ls_kernel s1) fd EPOLLIN (a, EPOLLIN)" "reported (ls_kernel s1) fd EPOLLOUT (a, EPOLLOUT)"
    using watch_reported[OF b1(1) watched(1)] watch_reported[OF b1(1) watched(2)]
    by (auto simp: s1(3) eloop_callback_type_to_epoll_event_def)
  have "so_recv so (conn_fd hc) BUFSIZE (sw_rest (ls_world s1)) = (Io_done data, (rcv, ns))"
    using recv(1) by (simp add: s1(3,6))
  from answered_beside[OF s1(2,4,5) a(1) this recv(2) send parse hello answer len, of sg] obtain s2 where
    "loop_batches ?F free_object ([(a, EPOLLIN)] # replicate (Suc (length ns)) [(a, EPOLLOUT)]) s1 = Some s2"
    "restored s fd s2" "sw_rest (ls_world s2) = (rcv @ reaching ns answer, [])"
    unfolding s1(3) by blast
  with a0(2) first a(2,3) show ?thesis by blast
qed

end
