(* ===== verification/Program_Life.thy ===== *)
theory Program_Life
  imports Connection_Life
begin

text \<open>
  The life of the program with the example container: it is started, serves clients one after the other, each from
  its connection coming in to the connection being freed, is told to stop, and leaves everything as it was.
\<close>

section \<open>The started program\<close>

text \<open>The contracts of the router's containers, on the containers of the repository.\<close>

lemma hello_container_keeps: "cont_serve c = rapp_serve clock \<Longrightarrow> container_keeps c"
  using hello.response_writer_axioms[of clock "cont_handle c"]
  by (metis container_keeps_def container_serve_def ext)

lemma hello_router_keeps: "router_keeps hello_router"
  by (simp add: hello_router_def router_keeps_def null_container_keeps hello_container_keeps)

interpretation hello_program: served_router hello_router
  by unfold_locales (rule hello_router_keeps)

text \<open>The only container gets every URL that starts with a slash.\<close>

lemma only_route_bound:
  assumes "router_wf router" "rt_starter router = None" "routes router = [(Some ''/'', c)]" "prefix ''/'' u"
    and "cont_serve c = rapp_serve clock" "cont_handle c = Some \<lparr>message = Some msg\<rparr>"
  shows "hello_bound clock msg u router"
  using assms by (simp add: hello_bound_def pick_def route_matches_def)

text \<open>A state that went back to what a started program had is that of a program that can be stopped.\<close>

lemma ready_restored:
  assumes ready: "program_ready opened b pg" and inv: "server_inv (pg_state pg)" and fd: "\<not> k_open (ls_kernel (pg_state pg)) fd"
    and same: "restored ((pg_state pg)\<lparr>ls_eloop := (ls_eloop (pg_state pg))\<lparr>el_running := True\<rparr>\<rparr>) fd s"
  shows "program_ready opened b (pg\<lparr>pg_state := s\<rparr>)"
proof -
  let ?s = "(pg_state pg)\<lparr>ls_eloop := (ls_eloop (pg_state pg))\<lparr>el_running := True\<rparr>\<rparr>"
  have "server_inv ?s"
    using inv running_inv[where s = "pg_state pg" and b = True and x = "sw_rest (ls_world (pg_state pg))"] by simp
  moreover have "\<not> k_open (ls_kernel ?s) fd" using fd by simp
  ultimately have eq: "watches (ls_eloop s) = watches (ls_eloop (pg_state pg))"
    "k_open (ls_kernel s) = k_open (ls_kernel (pg_state pg))" "sw_server (ls_world s) = sw_server (ls_world (pg_state pg))"
    "blocks (ls_mem s) - int (length (el_callbacks_list (ls_eloop s))) =
       blocks (ls_mem (pg_state pg)) - int (length (el_callbacks_list (ls_eloop (pg_state pg))))"
    using restored_same[OF _ _ same] same by (simp_all add: restored_def)
  obtain c where "el_collector (ls_eloop s) = Some c" "loop_inv (ls_eloop s) (ls_kernel s) (ls_mem s)" "scheduled (ls_eloop s) = []"
    using same by (auto simp: restored_def server_inv_def sound_def)
  moreover from this have "c = \<lparr>collect_entries_list = []\<rparr>"
    by (cases c) (simp add: scheduled_def collector_pending_def)
  moreover have "server_holds srv op w (ls_eloop s) (ls_kernel s) =
      server_holds srv op w (ls_eloop (pg_state pg)) (ls_kernel (pg_state pg))" for srv :: "accept_handler TcpServer" and op w
    by (simp add: server_holds_def eq(1,2))
  ultimately show ?thesis
    using ready eq(3,4) by (simp add: program_ready_def Let_def)
qed

text \<open>Blocks that are not the program's are released while it is ready.\<close>

lemma ready_released:
  assumes "program_ready opened b pg" "fresh m = fresh (ls_mem (pg_state pg))"
    and "blocks m = blocks (ls_mem (pg_state pg)) - n"
  shows "program_ready opened (b - n) (pg\<lparr>pg_state := (pg_state pg)\<lparr>ls_mem := m\<rparr>\<rparr>)"
  using assms loop_inv_fresh[of "ls_eloop (pg_state pg)" "ls_kernel (pg_state pg)" "ls_mem (pg_state pg)" m]
  by (simp add: program_ready_def Let_def)

text \<open>What a program with the hello container has when it has started and can listen; \<open>x\<close> is the world outside.\<close>

definition hello_ready ::
    "(int \<Rightarrow> bool) \<Rightarrow> int \<Rightarrow> int \<Rightarrow> string \<Rightarrow> (RappContainer option, 'ps, 'x) main_world \<Rightarrow> 'x
      \<Rightarrow> (RappContainer option, 'ps, 'x) program \<Rightarrow> bool" where
  "hello_ready opened b clock msg mw x pg \<longleftrightarrow>
     (let s = pg_state pg; sock = sys_socket (mw_listen mw) in
      program_ready opened b pg \<and> sh_fd (pg_signals pg) = mw_signalfd mw \<and>
      sw_conns (ls_world s) = [] \<and> sw_rest (ls_world s) = x \<and> server_inv s \<and> scheduled (ls_eloop s) = [] \<and>
      watches (ls_eloop s) sock ELOOP_CALLBACK_READ =
        Some (Server_incoming (ts_addr (hs_tcp_server (sw_server (ls_world s))))) \<and>
      (\<forall>fd. \<not> opened fd \<and> fd \<notin> {mw_signalfd mw, sock} \<longrightarrow> \<not> k_open (ls_kernel s) fd) \<and>
      (\<forall>u. prefix ''/'' u \<longrightarrow> hello_bound clock msg u (pg_router pg)))"

lemma hello_started:
  fixes container :: "(RappContainer option, 'x served, RappConfig) Container" and mw :: "(RappContainer option, 'ps, 'x) main_world"
  assumes "signals_work mw" "0 \<le> mw_epollfd mw" "answers m = []" "k_epoll k = (\<lambda>_. None)"
    and "\<not> k_open k (mw_signalfd mw)" "\<not> k_open k (sys_socket (mw_listen mw))"
    and "sys_socket (mw_listen mw) \<noteq> mw_signalfd mw" "can_listen (mw_listen mw) address port"
    and "cont_serve container = rapp_serve clock" "cont_handle container = Some \<lparr>message = Some msg\<rparr>"
  shows "\<exists>pg. main_start mw logger container address port sg x k m = Some pg \<and>
     hello_ready (k_open k) (blocks m) clock msg mw x pg"
proof -
  obtain pg where pg: "main_start mw logger container address port sg x k m = Some pg"
    "program_ready (k_open k) (blocks m) pg" "sh_fd (pg_signals pg) = mw_signalfd mw"
    "sw_conns (ls_world (pg_state pg)) = []" "sw_rest (ls_world (pg_state pg)) = x"
    "routes (pg_router pg) = [(Some ''/'', container)]" "rt_starter (pg_router pg) = None"
    "watches (ls_eloop (pg_state pg)) (sys_socket (mw_listen mw)) ELOOP_CALLBACK_READ \<noteq> None"
    using main_start_ready[OF assms(1-7), of logger container address port sg x] assms(8) by blast
  have start: "server_inv (pg_state pg)" "scheduled (ls_eloop (pg_state pg)) = []"
    using main_start_inv[OF assms(1-7) hello_container_keeps[OF assms(9)] pg(1)] by simp_all
  have holds: "server_holds (hs_tcp_server (sw_server (ls_world (pg_state pg)))) ((k_open k)(mw_signalfd mw := True))
      (table_add (mw_signalfd mw) ELOOP_CALLBACK_READ (Signal_ready (sh_addr (pg_signals pg))) (\<lambda>_ _. None))
      (ls_eloop (pg_state pg)) (ls_kernel (pg_state pg))"
    and wf: "router_wf (pg_router pg)" using pg(2,3) by (simp_all add: program_ready_def Let_def)
  have listening: "watches (ls_eloop (pg_state pg)) (sys_socket (mw_listen mw)) ELOOP_CALLBACK_READ =
      Some (Server_incoming (ts_addr (hs_tcp_server (sw_server (ls_world (pg_state pg))))))"
    "\<not> k_open k fd \<and> fd \<notin> {mw_signalfd mw, sys_socket (mw_listen mw)} \<longrightarrow> \<not> k_open (ls_kernel (pg_state pg)) fd" for fd
    using holds pg(8) assms(7) by (auto simp: server_holds_def table_add_def split: if_splits)
  have "hello_ready (k_open k) (blocks m) clock msg mw x pg"
    unfolding hello_ready_def Let_def
    using pg(2-5) start listening only_route_bound[OF wf pg(7,6) _ assms(9,10)] by blast
  with pg(1) show ?thesis by blast
qed

text \<open>Blocks that are not the program's can be released meanwhile.\<close>

lemma hello_ready_released:
  assumes ready: "hello_ready opened b clock msg mw x pg" and m: "fresh m = fresh (ls_mem (pg_state pg))"
    "answers m = answers (ls_mem (pg_state pg))" "blocks m = blocks (ls_mem (pg_state pg)) - n"
  shows "hello_ready opened (b - n) clock msg mw x (pg\<lparr>pg_state := (pg_state pg)\<lparr>ls_mem := m\<rparr>\<rparr>)"
proof -
  let ?s = "pg_state pg"
  have r: "program_ready opened b pg" "sw_conns (ls_world ?s) = []" "server_inv ?s"
    using ready by (simp_all add: hello_ready_def Let_def)
  have "server_inv (?s\<lparr>ls_mem := m\<rparr>)"
    using r(2,3) loop_inv_fresh[of "ls_eloop ?s" "ls_kernel ?s" "ls_mem ?s" m] m(1,2)
    by (simp add: server_inv_def sound_def world_inv_def)
  with ready ready_released[OF r(1) m(1,3)] show ?thesis
    by (simp add: hello_ready_def Let_def)
qed

section \<open>The signal\<close>

text \<open>The signal ends a run that went back to what the program had at its start.\<close>

lemma ends_with_signal:
  assumes ready: "program_ready opened b (pg\<lparr>pg_state := s\<rparr>)" and s: "server_inv s" "el_running (ls_eloop s)"
    and run: "loop_batches (main_fire mw pg) free_object batches
      ((pg_state pg)\<lparr>ls_eloop := (ls_eloop (pg_state pg))\<lparr>el_running := True\<rparr>\<rparr>) = Some s"
    and sig: "mw_read_signal mw (sw_rest (ls_world s)) = (Some sig, z)" "sig \<in> {SIGINT, SIGTERM}"
  shows "\<exists>stop. reported (ls_kernel s) (sh_fd (pg_signals pg)) EPOLLIN stop \<and>
     (\<forall>rest. \<exists>pg'. main_run (mw\<lparr>mw_batches := batches @ [stop] # rest\<rparr>) pg = Some pg' \<and>
        program_ready opened b pg' \<and> sw_rest (ls_world (pg_state pg')) = z)"
proof -
  let ?pg = "pg\<lparr>pg_state := s\<rparr>"
  have "watches (ls_eloop s) (sh_fd (pg_signals pg)) ELOOP_CALLBACK_READ = Some (Signal_ready (sh_addr (pg_signals pg)))"
    using program_ready_signal[OF ready] by simp
  from watch_reported[OF s(1) this] obtain bits a where a: "k_epoll (ls_kernel s) (sh_fd (pg_signals pg)) = Some (bits, a)"
    "reported (ls_kernel s) (sh_fd (pg_signals pg)) EPOLLIN (a, EPOLLIN)"
    by (auto simp: eloop_callback_type_to_epoll_event_def)
  have "\<exists>pg'. main_run (mw\<lparr>mw_batches := batches @ [(a, EPOLLIN)] # rest\<rparr>) pg = Some pg' \<and>
        program_ready opened b pg' \<and> sw_rest (ls_world (pg_state pg')) = z" for rest
  proof -
    let ?last = "mw\<lparr>mw_batches := [(a, EPOLLIN)] # rest\<rparr>" and ?all = "mw\<lparr>mw_batches := batches @ [(a, EPOLLIN)] # rest\<rparr>"
    have fires: "main_fire ?all pg = main_fire mw pg" "main_fire ?last ?pg = main_fire mw pg" by (simp_all add: main_fire_def)
    have "k_epoll (ls_kernel (pg_state ?pg)) (sh_fd (pg_signals ?pg)) = Some (bits, a)" using a(1) by simp
    moreover have "mw_read_signal ?last (sw_rest (ls_world (pg_state ?pg))) = (Some sig, z)" using sig(1) by simp
    ultimately obtain pg' where stopped: "main_run ?last ?pg = Some pg'" "program_ready opened b pg'"
      "sw_rest (ls_world (pg_state pg')) = z"
      using signal_run[OF ready _ _ sig(2), of bits a ?last z rest] by auto
    have same: "s\<lparr>ls_eloop := (ls_eloop s)\<lparr>el_running := True\<rparr>\<rparr> = s" using s(2) by simp
    have parts: "mw_batches ?all = batches @ ([(a, EPOLLIN)] # rest)" by simp
    have "loop_batches (main_fire mw pg) free_object (mw_batches ?all)
        ((pg_state pg)\<lparr>ls_eloop := (ls_eloop (pg_state pg))\<lparr>el_running := True\<rparr>\<rparr>) =
        loop_batches (main_fire mw pg) free_object ([(a, EPOLLIN)] # rest) s"
      unfolding parts loop_batches_append run bind.bind_lunit ..
    then have "main_run ?all pg = main_run ?last ?pg"
      unfolding main_run_def event_loop_run_def fires by (simp add: same option.map_comp comp_def)
    with stopped show ?thesis by auto
  qed
  with a(2) show ?thesis by blast
qed

section \<open>Clients\<close>

text \<open>
  A client connects and gets the descriptor \<open>fd\<close>; its request is \<open>data\<close>; \<open>ns\<close> is how many bytes each \<open>send\<close>
  takes.  The world holds all the bytes that clients have been sent, in order; \<open>opened\<close> are the descriptors open before
  the start.
\<close>

definition client_calls ::
    "(int \<Rightarrow> bool) \<Rightarrow> ('h, 'ps, bytes \<times> nat list) main_world \<Rightarrow> bytes \<times> nat list \<Rightarrow> int \<Rightarrow> bytes \<Rightarrow> nat list \<Rightarrow> bool" where
  "client_calls opened mw x fd data ns \<longleftrightarrow>
     (\<exists>y. so_accept (mw_sockets mw) (sys_socket (mw_listen mw)) x = (Io_done fd, y) \<and>
        so_recv (mw_sockets mw) fd BUFSIZE y = (Io_done data, (fst x, ns))) \<and>
     0 \<le> fd \<and> \<not> opened fd \<and> fd \<notin> {mw_signalfd mw, sys_socket (mw_listen mw)} \<and> data \<noteq> [] \<and>
     so_send (mw_sockets mw) = so_send counting_sockets"

text \<open>
  A client with what the parser reports of its request (\<open>cl_at\<close>, \<open>cl_len\<close>: where the URL is): it asks for a URL that
  starts with a slash, does not keep the connection alive, and takes as many buffers as \<open>answer\<close> has started.
\<close>

record http_client =
  cl_fd :: int
  cl_data :: bytes
  cl_at :: nat
  cl_len :: nat
  cl_headers :: "HeaderMemoryRange list"
  cl_sends :: "nat list"

definition client_asks ::
    "(int \<Rightarrow> bool) \<Rightarrow> ('h, 'ps, bytes \<times> nat list) main_world \<Rightarrow> bytes \<Rightarrow> bytes \<times> nat list \<Rightarrow> http_client \<Rightarrow> bool" where
  "client_asks opened mw answer x c \<longleftrightarrow>
     client_calls opened mw x (cl_fd c) (cl_data c) (cl_sends c) \<and>
     reports_request (mw_parser mw) (hp_init (mw_parser mw)) (cl_data c) (cl_at c) (cl_len c) (cl_headers c) False \<and>
     prefix ''/'' (take (cl_len c) (drop (cl_at c) (cl_data c))) \<and>
     length answer \<le> length (cl_sends c) * BUFSIZE \<and> length (cl_sends c) * BUFSIZE < length answer + BUFSIZE"

text \<open>One client after the other, each in the world the one before has left; the world after the last.\<close>

primrec clients_ask ::
    "(int \<Rightarrow> bool) \<Rightarrow> ('h, 'ps, bytes \<times> nat list) main_world \<Rightarrow> bytes \<Rightarrow> bytes \<times> nat list \<Rightarrow> http_client list \<Rightarrow> bool" where
  "clients_ask opened mw answer x [] \<longleftrightarrow> True"
| "clients_ask opened mw answer x (c # cs) \<longleftrightarrow>
     client_asks opened mw answer x c \<and> clients_ask opened mw answer (fst x @ reaching (cl_sends c) answer, []) cs"

primrec world_after :: "bytes \<Rightarrow> bytes \<times> nat list \<Rightarrow> http_client list \<Rightarrow> bytes \<times> nat list" where
  "world_after answer x [] = x"
| "world_after answer x (c # cs) = world_after answer (fst x @ reaching (cl_sends c) answer, []) cs"

text \<open>Behind what was there before, the world holds for each client what it was sent.\<close>

lemma world_after_bytes:
  "fst (world_after answer x cs) = fst x @ concat (map (\<lambda>c. reaching (cl_sends c) answer) cs)"
  by (induction cs arbitrary: x) simp_all

text \<open>
  The events of a visit: the connection, the bytes, and the socket writable as often as the answer has started buffers and
  once more.  \<open>served_in_turn\<close> is the run through the visits from \<open>s\<close> to \<open>s'\<close>: each event is one the
  kernel reports, and after each visit there is no connection and the client has got its answer.
\<close>

type_synonym visit = "http_client \<times> (addr \<times> 32 word) \<times> (addr \<times> 32 word) \<times> (addr \<times> 32 word)"

fun visit_batches :: "visit \<Rightarrow> (addr \<times> 32 word) list list" where
  "visit_batches (c, incoming, arrived, writable) =
     [incoming] # [arrived] # replicate (Suc (length (cl_sends c))) [writable]"

fun served_in_turn ::
    "(loop_callback \<Rightarrow> int \<Rightarrow> ('ps, bytes \<times> nat list) server_state \<Rightarrow> ('ps, bytes \<times> nat list) server_state option) \<Rightarrow> int
      \<Rightarrow> bytes \<Rightarrow> visit list \<Rightarrow> ('ps, bytes \<times> nat list) server_state \<Rightarrow> ('ps, bytes \<times> nat list) server_state \<Rightarrow> bool" where
  "served_in_turn F sock answer [] s s' \<longleftrightarrow> s' = s"
| "served_in_turn F sock answer ((c, incoming, arrived, writable) # visits) s s' \<longleftrightarrow>
     (\<exists>s1 s2. reported (ls_kernel s) sock EPOLLIN incoming \<and>
        loop_batches F free_object [[incoming]] s = Some s1 \<and>
        reported (ls_kernel s1) (cl_fd c) EPOLLIN arrived \<and> reported (ls_kernel s1) (cl_fd c) EPOLLOUT writable \<and>
        loop_batches F free_object ([arrived] # replicate (Suc (length (cl_sends c))) [writable]) s1 = Some s2 \<and>
        sw_conns (ls_world s2) = [] \<and> sw_rest (ls_world s2) = (fst (sw_rest (ls_world s)) @ reaching (cl_sends c) answer, []) \<and>
        served_in_turn F sock answer visits s2 s')"

lemma served_in_turn_Cons:
  assumes "served_in_turn F sock answer [v] s s1" "served_in_turn F sock answer visits s1 s'"
  shows "served_in_turn F sock answer (v # visits) s s'"
proof -
  obtain c incoming arrived writable where v: "v = (c, incoming, arrived, writable)" by (cases v)
  show ?thesis using assms unfolding v served_in_turn.simps by (elim exE conjE) (intro exI conjI, assumption+, simp)
qed

lemma served_in_turn_batches:
  "served_in_turn F sock answer visits s s' \<Longrightarrow> loop_batches F free_object (concat (map visit_batches visits)) s = Some s'"
proof (induction visits arbitrary: s)
  case (Cons v visits)
  obtain c incoming arrived writable where v: "v = (c, incoming, arrived, writable)" by (cases v)
  have parts: "concat (map visit_batches (v # visits)) = [[incoming]] @
      ([arrived] # replicate (Suc (length (cl_sends c))) [writable]) @ concat (map visit_batches visits)" by (simp add: v)
  from Cons.prems obtain s1 s2 where s: "loop_batches F free_object [[incoming]] s = Some s1"
    "loop_batches F free_object ([arrived] # replicate (Suc (length (cl_sends c))) [writable]) s1 = Some s2"
    "served_in_turn F sock answer visits s2 s'" unfolding v served_in_turn.simps by (elim exE conjE) (rule that, assumption+)
  show ?case unfolding parts loop_batches_append s(1,2) bind.bind_lunit by (rule Cons.IH[OF s(3)])
qed simp

text \<open>The running program between two clients.\<close>

definition hello_waits ::
    "(int \<Rightarrow> bool) \<Rightarrow> int \<Rightarrow> (RappContainer option, 'ps, 'x) main_world \<Rightarrow> (RappContainer option, 'ps, 'x) program
      \<Rightarrow> ('ps, 'x) server_state \<Rightarrow> bool" where
  "hello_waits opened b mw pg s \<longleftrightarrow>
     (let sock = sys_socket (mw_listen mw) in
      program_ready opened b (pg\<lparr>pg_state := s\<rparr>) \<and> server_inv s \<and> scheduled (ls_eloop s) = [] \<and> el_running (ls_eloop s) \<and>
      sw_conns (ls_world s) = [] \<and>
      watches (ls_eloop s) sock ELOOP_CALLBACK_READ =
        Some (Server_incoming (ts_addr (hs_tcp_server (sw_server (ls_world s))))) \<and>
      (\<forall>fd. \<not> opened fd \<and> fd \<notin> {mw_signalfd mw, sock} \<longrightarrow> \<not> k_open (ls_kernel s) fd))"

lemma program_ready_running:
  "program_ready opened b (pg\<lparr>pg_state := (pg_state pg)\<lparr>ls_eloop := (ls_eloop (pg_state pg))\<lparr>el_running := r\<rparr>\<rparr>\<rparr>) =
     program_ready opened b pg"
  by (simp add: program_ready_def Let_def)

lemma hello_ready_waits:
  assumes "hello_ready opened b clock msg mw x pg"
  shows "hello_waits opened b mw pg ((pg_state pg)\<lparr>ls_eloop := (ls_eloop (pg_state pg))\<lparr>el_running := True\<rparr>\<rparr>)"
proof -
  have "server_inv (pg_state pg)" using assms by (simp add: hello_ready_def Let_def)
  then have "server_inv ((pg_state pg)\<lparr>ls_eloop := (ls_eloop (pg_state pg))\<lparr>el_running := True\<rparr>\<rparr>)"
    using running_inv[where s = "pg_state pg" and b = True and x = "sw_rest (ls_world (pg_state pg))"] by simp
  with assms program_ready_running[where pg = pg and r = True] show ?thesis by (simp add: hello_ready_def hello_waits_def Let_def)
qed

lemma hello_waits_restored:
  assumes waits: "hello_waits opened b mw pg s" and fd: "\<not> k_open (ls_kernel s) fd" and same: "restored s fd s'"
  shows "hello_waits opened b mw pg s'"
proof -
  have s: "program_ready opened b (pg\<lparr>pg_state := s\<rparr>)" "server_inv s" "el_running (ls_eloop s)" "sw_conns (ls_world s) = []"
    using waits by (simp_all add: hello_waits_def Let_def)
  have run: "s\<lparr>ls_eloop := (ls_eloop s)\<lparr>el_running := True\<rparr>\<rparr> = s" using s(3) by simp
  have "program_ready opened b (pg\<lparr>pg_state := s'\<rparr>)"
    using ready_restored[OF s(1), of fd s'] s(2) fd same run by simp
  with waits restored_same[OF s(2) fd same] same show ?thesis by (simp add: hello_waits_def restored_def Let_def)
qed

lemma clients_reached:
  "clients_ask opened mw answer x clients \<Longrightarrow> \<forall>c \<in> set clients. reaching (cl_sends c) answer = answer \<longleftrightarrow>
     (\<forall>i < length (cl_sends c). length (take BUFSIZE (drop (i * BUFSIZE) answer)) \<le> cl_sends c ! i)"
proof (induction clients arbitrary: x)
  case (Cons c cs)
  then have "length answer \<le> length (cl_sends c) * BUFSIZE" by (simp add: client_asks_def)
  from reaching_all[OF this] Cons.IH[of "(fst x @ reaching (cl_sends c) answer, [])"] Cons.prems show ?case by simp
qed simp

section \<open>Serving\<close>

text \<open>A waiting program serves a client and waits again.\<close>

lemma hello_client:
  fixes mw :: "(RappContainer option, 'ps, bytes \<times> nat list) main_world"
  assumes waits: "hello_waits opened b mw pg s" and client: "client_asks opened mw answer (sw_rest (ls_world s)) c"
    and bound: "\<forall>u. prefix ''/'' u \<longrightarrow> hello_bound clock msg u (pg_router pg)"
    and serve: "0 \<le> clock" "nat clock < 86400 * (365 * 8030)" "msg \<noteq> []"
    and answer: "answer = hello_text (nat clock) msg ((new_response (mw_banner mw))\<lparr>resp_is_last := 1\<rparr>)"
  shows "\<exists>incoming arrived writable s'. hello_waits opened b mw pg s' \<and> sw_rest (ls_world s') = (fst (sw_rest (ls_world s)) @ reaching (cl_sends c) answer, []) \<and>
     served_in_turn (main_fire mw pg) (sys_socket (mw_listen mw)) answer [(c, incoming, arrived, writable)] s s'"
proof -
  let ?sock = "sys_socket (mw_listen mw)"
  have s: "server_inv s" "scheduled (ls_eloop s) = []" "el_running (ls_eloop s)"
    "watches (ls_eloop s) ?sock ELOOP_CALLBACK_READ =
       Some (Server_incoming (ts_addr (hs_tcp_server (sw_server (ls_world s)))))"
    "\<forall>fd. \<not> opened fd \<and> fd \<notin> {mw_signalfd mw, ?sock} \<longrightarrow> \<not> k_open (ls_kernel s) fd"
    using waits by (simp_all add: hello_waits_def Let_def)
  have ask: "client_calls opened mw (sw_rest (ls_world s)) (cl_fd c) (cl_data c) (cl_sends c)"
    "reports_request (mw_parser mw) (hp_init (mw_parser mw)) (cl_data c) (cl_at c) (cl_len c) (cl_headers c) False"
    "prefix ''/'' (take (cl_len c) (drop (cl_at c) (cl_data c)))"
    "length answer \<le> length (cl_sends c) * BUFSIZE" "length (cl_sends c) * BUFSIZE < length answer + BUFSIZE"
    using client by (simp_all add: client_asks_def)
  obtain y where c: "so_accept (mw_sockets mw) ?sock (sw_rest (ls_world s)) = (Io_done (cl_fd c), y)" "0 \<le> cl_fd c"
    "\<not> opened (cl_fd c) \<and> cl_fd c \<notin> {mw_signalfd mw, ?sock}"
    "so_recv (mw_sockets mw) (cl_fd c) BUFSIZE y = (Io_done (cl_data c), (fst (sw_rest (ls_world s)), cl_sends c))" "cl_data c \<noteq> []"
    "so_send (mw_sockets mw) = so_send counting_sockets"
    using ask(1) by (auto simp: client_calls_def)
  have fd: "\<not> k_open (ls_kernel s) (cl_fd c)" using s(5) c(3) by blast
  from connection_lives[OF s(1-4) c(1,2) fd c(4-6) ask(2) bound[rule_format, OF ask(3)] serve answer ask(4,5),
      of "run_signal (mw_read_signal mw) (pg_signals pg)", folded main_fire_def]
  obtain incoming s1 arrived writable s2 where run: "reported (ls_kernel s) ?sock EPOLLIN incoming"
    "loop_batches (main_fire mw pg) free_object [[incoming]] s = Some s1"
    "reported (ls_kernel s1) (cl_fd c) EPOLLIN arrived" "reported (ls_kernel s1) (cl_fd c) EPOLLOUT writable"
    "loop_batches (main_fire mw pg) free_object ([arrived] # replicate (Suc (length (cl_sends c))) [writable]) s1 = Some s2"
    "restored s (cl_fd c) s2" "sw_rest (ls_world s2) = (fst (sw_rest (ls_world s)) @ reaching (cl_sends c) answer, [])"
    by (elim exE conjE) (rule that, assumption+)
  have again: "hello_waits opened b mw pg s2" by (rule hello_waits_restored[OF waits fd run(6)])
  have none: "sw_conns (ls_world s2) = []" using again by (simp add: hello_waits_def Let_def)
  have "served_in_turn (main_fire mw pg) ?sock answer [(c, incoming, arrived, writable)] s s2"
    unfolding served_in_turn.simps by (intro exI conjI) (rule run(1-5) none run(7) refl)+
  with again run(7) show ?thesis by blast
qed

text \<open>And so on: any number of clients, one after the other.\<close>

lemma hello_clients:
  fixes mw :: "(RappContainer option, 'ps, bytes \<times> nat list) main_world"
  assumes bound: "\<forall>u. prefix ''/'' u \<longrightarrow> hello_bound clock msg u (pg_router pg)"
    and serve: "0 \<le> clock" "nat clock < 86400 * (365 * 8030)" "msg \<noteq> []"
    and answer: "answer = hello_text (nat clock) msg ((new_response (mw_banner mw))\<lparr>resp_is_last := 1\<rparr>)"
    and start: "hello_waits opened b mw pg s" "clients_ask opened mw answer (sw_rest (ls_world s)) clients"
  shows "\<exists>visits s'. map fst visits = clients \<and>
     served_in_turn (main_fire mw pg) (sys_socket (mw_listen mw)) answer visits s s' \<and> hello_waits opened b mw pg s' \<and>
     sw_rest (ls_world s') = world_after answer (sw_rest (ls_world s)) clients"
  using start
proof (induction clients arbitrary: s)
  case Nil
  then show ?case by (intro exI[of _ "[]"] exI[of _ s]) simp
next
  case (Cons c cs)
  then have ask: "client_asks opened mw answer (sw_rest (ls_world s)) c"
    "clients_ask opened mw answer (fst (sw_rest (ls_world s)) @ reaching (cl_sends c) answer, []) cs" by simp_all
  from hello_client[OF Cons.prems(1) ask(1) bound serve answer] obtain incoming arrived writable s1 where
    one: "hello_waits opened b mw pg s1" "sw_rest (ls_world s1) = (fst (sw_rest (ls_world s)) @ reaching (cl_sends c) answer, [])"
    "served_in_turn (main_fire mw pg) (sys_socket (mw_listen mw)) answer [(c, incoming, arrived, writable)] s s1"
    by (elim exE conjE) (rule that, assumption+)
  from Cons.IH[OF one(1)] ask(2) obtain visits s' where all: "map fst visits = cs"
    "served_in_turn (main_fire mw pg) (sys_socket (mw_listen mw)) answer visits s1 s'" "hello_waits opened b mw pg s'"
    "sw_rest (ls_world s') = world_after answer (sw_rest (ls_world s1)) cs"
    unfolding one(2) by blast
  have "served_in_turn (main_fire mw pg) (sys_socket (mw_listen mw)) answer ((c, incoming, arrived, writable) # visits) s s'"
    by (rule served_in_turn_Cons[OF one(3) all(2)])
  with all(1,3,4) one(2) show ?case
    by (intro exI[of _ "(c, incoming, arrived, writable) # visits"] exI[of _ s']) (simp del: served_in_turn.simps)
qed

text \<open>A ready program serves its clients and ends on the signal.\<close>

lemma hello_clients_signal:
  fixes mw :: "(RappContainer option, 'ps, bytes \<times> nat list) main_world"
  assumes ready: "hello_ready opened b clock msg mw x pg" and clients: "clients_ask opened mw answer x clients"
    and serve: "0 \<le> clock" "nat clock < 86400 * (365 * 8030)" "msg \<noteq> []"
    and answer: "answer = hello_text (nat clock) msg ((new_response (mw_banner mw))\<lparr>resp_is_last := 1\<rparr>)"
    and sig: "mw_read_signal mw (world_after answer x clients) = (Some sig, z)" "sig \<in> {SIGINT, SIGTERM}"
  shows "\<exists>visits s stop. map fst visits = clients \<and>
     served_in_turn (main_fire mw pg) (sys_socket (mw_listen mw)) answer visits
       ((pg_state pg)\<lparr>ls_eloop := (ls_eloop (pg_state pg))\<lparr>el_running := True\<rparr>\<rparr>) s \<and>
     reported (ls_kernel s) (mw_signalfd mw) EPOLLIN stop \<and>
     (\<forall>rest. \<exists>pg'. main_run (mw\<lparr>mw_batches := concat (map visit_batches visits) @ [stop] # rest\<rparr>) pg = Some pg' \<and>
        program_ready opened b pg' \<and> sw_rest (ls_world (pg_state pg')) = z)"
proof -
  let ?s = "(pg_state pg)\<lparr>ls_eloop := (ls_eloop (pg_state pg))\<lparr>el_running := True\<rparr>\<rparr>"
  have pg: "sh_fd (pg_signals pg) = mw_signalfd mw" "sw_rest (ls_world ?s) = x"
    "\<forall>u. prefix ''/'' u \<longrightarrow> hello_bound clock msg u (pg_router pg)"
    using ready by (simp_all add: hello_ready_def Let_def)
  from hello_clients[OF pg(3) serve answer hello_ready_waits[OF ready]] clients obtain visits s where
    run: "map fst visits = clients" "served_in_turn (main_fire mw pg) (sys_socket (mw_listen mw)) answer visits ?s s"
    "hello_waits opened b mw pg s" "sw_rest (ls_world s) = world_after answer x clients"
    unfolding pg(2) by blast
  have s: "program_ready opened b (pg\<lparr>pg_state := s\<rparr>)" "server_inv s" "el_running (ls_eloop s)"
    using run(3) by (simp_all add: hello_waits_def Let_def)
  have "mw_read_signal mw (sw_rest (ls_world s)) = (Some sig, z)" using sig(1) run(4) by simp
  from ends_with_signal[OF s served_in_turn_batches[OF run(2)] this sig(2), unfolded pg(1)] run(1,2)
  show ?thesis by blast
qed

section \<open>From the start to the end\<close>

text \<open>
  C2: The program with the hello container, started on an address it can listen on, in a world where any number of
  clients come, one after the other: each connects, sends a request it does not keep alive for a URL that starts with a slash,
  and takes what is sent.  For each the kernel reports the connection, the bytes, and the socket writable as often as the
  answer has started buffers and once more.  The loop then has accepted each connection, given the client the container's
  answer behind what the clients before have got - all of it exactly when no \<open>send\<close> took less than it was offered -, closed and freed the connection before the
  next one; it returns on the signal the kernel reports at last, whatever events would follow; and destroying
  everything leaves the open descriptors, the interest list, the allocated blocks and the loaded libraries as they were
  before the start.
\<close>

theorem program_serves_and_stops:
  fixes container :: "(RappContainer option, (bytes \<times> nat list) served, RappConfig) Container"
    and mw :: "(RappContainer option, 'ps, bytes \<times> nat list) main_world"
  assumes "signals_work mw" "0 \<le> mw_epollfd mw" "answers m = []" "k_epoll k = (\<lambda>_. None)"
    and "\<not> k_open k (mw_signalfd mw)" "\<not> k_open k (sys_socket (mw_listen mw))"
    and "sys_socket (mw_listen mw) \<noteq> mw_signalfd mw" "can_listen (mw_listen mw) address port"
    and "cont_serve container = rapp_serve clock" "cont_handle container = Some \<lparr>message = Some msg\<rparr>"
    and "clients_ask (k_open k) mw answer x clients"
    and "0 \<le> clock" "nat clock < 86400 * (365 * 8030)" "msg \<noteq> []"
    and "answer = hello_text (nat clock) msg ((new_response (mw_banner mw))\<lparr>resp_is_last := 1\<rparr>)"
    and "mw_read_signal mw (world_after answer x clients) = (Some sig, z)" "sig \<in> {SIGINT, SIGTERM}"
  shows "(\<exists>pg visits s stop. main_start mw logger container address port sg x k m = Some pg \<and>
     map fst visits = clients \<and>
     served_in_turn (main_fire mw pg) (sys_socket (mw_listen mw)) answer visits
       ((pg_state pg)\<lparr>ls_eloop := (ls_eloop (pg_state pg))\<lparr>el_running := True\<rparr>\<rparr>) s \<and>
     reported (ls_kernel s) (mw_signalfd mw) EPOLLIN stop \<and>
     (\<forall>rest. \<exists>pg' k' l'.
        main_run (mw\<lparr>mw_batches := concat (map visit_batches visits) @ [stop] # rest\<rparr>) pg = Some pg' \<and>
        main_stop pg' w ld = Some (w, k', l') \<and> k_open k' = k_open k \<and> k_epoll k' = (\<lambda>_. None) \<and>
        blocks (ld_mem l') = blocks m \<and> ld_open l' = ld)) \<and>
     (\<forall>c \<in> set clients. reaching (cl_sends c) answer = answer \<longleftrightarrow>
        (\<forall>i < length (cl_sends c). length (take BUFSIZE (drop (i * BUFSIZE) answer)) \<le> cl_sends c ! i))"
proof -
  obtain pg where pg: "main_start mw logger container address port sg x k m = Some pg"
    "hello_ready (k_open k) (blocks m) clock msg mw x pg"
    using hello_started[OF assms(1-10), of logger sg x] by blast
  from hello_clients_signal[OF pg(2) assms(11-17)] obtain visits s stop where run: "map fst visits = clients"
    "served_in_turn (main_fire mw pg) (sys_socket (mw_listen mw)) answer visits
       ((pg_state pg)\<lparr>ls_eloop := (ls_eloop (pg_state pg))\<lparr>el_running := True\<rparr>\<rparr>) s"
    "reported (ls_kernel s) (mw_signalfd mw) EPOLLIN stop"
    "\<forall>rest. \<exists>pg'. main_run (mw\<lparr>mw_batches := concat (map visit_batches visits) @ [stop] # rest\<rparr>) pg = Some pg' \<and>
        program_ready (k_open k) (blocks m) pg' \<and> sw_rest (ls_world (pg_state pg')) = z"
    by (elim exE conjE) (rule that, assumption+)
  have "\<exists>pg' k' l'. main_run (mw\<lparr>mw_batches := concat (map visit_batches visits) @ [stop] # rest\<rparr>) pg = Some pg' \<and>
      main_stop pg' w ld = Some (w, k', l') \<and> k_open k' = k_open k \<and> k_epoll k' = (\<lambda>_. None) \<and>
      blocks (ld_mem l') = blocks m \<and> ld_open l' = ld" for rest
    using run(4) main_stop_ready[of "k_open k" "blocks m" _ w ld] by blast
  with pg(1) run(1-3) clients_reached[OF assms(11)] show ?thesis by blast
qed

definition hello_container :: "(RappContainer option, (bytes \<times> nat list) served, RappConfig) Container" where
  "hello_container = \<lparr>cont_plugin = Some ''hello.so'', cont_handle = Some \<lparr>message = Some ''Hello world!''\<rparr>,
     cont_name = ''hello.so'', cont_serve = rapp_serve 2, cont_destroy = null_destroy, cont_init = null_init\<rparr>"

text \<open>One client, which sends one request and takes a buffer of bytes; then the program is terminated.\<close>

definition client_world :: "(RappContainer option, unit, bytes \<times> nat list) main_world" where
  "client_world = \<lparr>mw_config = port_given, mw_fopen = \<lambda>_. None, mw_dlopen = \<lambda>_. None, mw_parser = get_parser False,
     mw_sockets = counting_sockets\<lparr>so_recv := \<lambda>fd n x. (Io_done get_root, (fst x, [BUFSIZE])), so_accept := \<lambda>fd x. (Io_done 9, x)\<rparr>,
     mw_banner = ''RApp-dev'', mw_epollfd = 3, mw_signalfd = 4, mw_masks = ((0, 4), (0, 4)),
     mw_listen = busy_port\<lparr>sys_bind := 0\<rparr>, mw_read_signal = (\<lambda>x. (Some SIGTERM, x)), mw_batches = []\<rparr>"

lemma client_world_facts:
  "signals_work client_world" "0 \<le> mw_epollfd client_world" "k_epoll only_std = (\<lambda>_. None)"
  "\<not> k_open only_std (mw_signalfd client_world)" "\<not> k_open only_std (sys_socket (mw_listen client_world))"
  "sys_socket (mw_listen client_world) \<noteq> mw_signalfd client_world" "can_listen (mw_listen client_world) ''::1'' 8080"
  "cont_serve hello_container = rapp_serve 2" "cont_handle hello_container = Some \<lparr>message = Some ''Hello world!''\<rparr>"
  "so_accept (mw_sockets client_world) (sys_socket (mw_listen client_world)) ([], []) = (Io_done 9, ([], []))"
  "(9::int) \<notin> {mw_signalfd client_world, sys_socket (mw_listen client_world)}" "\<not> k_open only_std 9"
  "so_recv (mw_sockets client_world) 9 BUFSIZE ([], []) = (Io_done get_root, ([], [BUFSIZE]))"
  "so_send (mw_sockets client_world) = so_send counting_sockets"
  "mw_parser client_world = get_parser False" "mw_banner client_world = ''RApp-dev''"
  "mw_read_signal client_world y = (Some SIGTERM, y)"
  by (simp_all add: client_world_def signals_work_def only_std_def busy_port_def can_listen_def hello_container_def dec.simps)

text \<open>Two clients.\<close>

definition get_client :: http_client where
  "get_client = \<lparr>cl_fd = 9, cl_data = get_root, cl_at = 4, cl_len = 1, cl_headers = [host_header], cl_sends = [BUFSIZE]\<rparr>"

lemma hello_page_reached: "reaching [BUFSIZE] hello_page = hello_page"
  using hello_page_length by (simp add: BUFSIZE_def)

lemma get_client_sends: "reaching (cl_sends get_client) hello_page = hello_page"
  by (simp add: get_client_def hello_page_reached del: reaching.simps)

lemma client_asks_get: "client_asks (k_open only_std) client_world hello_page (got, []) get_client"
proof -
  note w = client_world_facts
  have "client_calls (k_open only_std) client_world (got, []) 9 get_root [BUFSIZE]"
    using w(11,12,14) by (simp add: client_calls_def client_world_def get_root_def)
  moreover have "reports_request (mw_parser client_world) (hp_init (mw_parser client_world)) get_root 4 1 [host_header] False"
    unfolding w(15) using get_parser_reports[of False] by simp
  moreover have "prefix ''/'' (take 1 (drop 4 get_root))" unfolding root_url by simp
  moreover have "length hello_page \<le> length [BUFSIZE] * BUFSIZE" "length [BUFSIZE] * BUFSIZE < length hello_page + BUFSIZE"
    using hello_page_length by simp_all
  ultimately show ?thesis by (simp add: client_asks_def get_client_def)
qed

theorem program_serves_and_stops_witness:
  "\<exists>pg visits s stop pg' k' l'.
     main_start client_world None hello_container ''::1'' 8080 \<lparr>sg_blocked = {}, sg_reported = {}\<rparr> ([], []) only_std mem0 = Some pg \<and>
     map fst visits = [get_client, get_client] \<and>
     served_in_turn (main_fire client_world pg) (sys_socket (mw_listen client_world)) hello_page visits
       ((pg_state pg)\<lparr>ls_eloop := (ls_eloop (pg_state pg))\<lparr>el_running := True\<rparr>\<rparr>) s \<and>
     main_run (client_world\<lparr>mw_batches := concat (map visit_batches visits) @ [[stop]]\<rparr>) pg = Some pg' \<and>
     main_stop pg' None 0 = Some (None, k', l') \<and> k_open k' = k_open only_std \<and> blocks (ld_mem l') = 0"
proof -
  note w = client_world_facts
  have page: "hello_page = hello_text (nat 2) ''Hello world!'' ((new_response (mw_banner client_world))\<lparr>resp_is_last := 1\<rparr>)"
    by (simp add: hello_page_def w(16))
  have clients: "clients_ask (k_open only_std) client_world hello_page ([], []) [get_client, get_client]"
    using client_asks_get by (simp add: get_client_sends)
  have clock: "(0::int) \<le> 2" "nat 2 < 86400 * (365 * 8030)" "''Hello world!'' \<noteq> []" by simp_all
  have sig: "SIGTERM \<in> {SIGINT, SIGTERM}" by simp
  from program_serves_and_stops[OF w(1,2) answers_mem0 w(3-9) clients clock page w(17) sig,
      of None "\<lparr>sg_blocked = {}, sg_reported = {}\<rparr>" None 0, THEN conjunct1]
  obtain pg visits s stop where p:
    "main_start client_world None hello_container ''::1'' 8080 \<lparr>sg_blocked = {}, sg_reported = {}\<rparr> ([], []) only_std mem0 = Some pg"
    "map fst visits = [get_client, get_client]"
    "served_in_turn (main_fire client_world pg) (sys_socket (mw_listen client_world)) hello_page visits
       ((pg_state pg)\<lparr>ls_eloop := (ls_eloop (pg_state pg))\<lparr>el_running := True\<rparr>\<rparr>) s"
    "\<forall>rest. \<exists>pg' k' l'. main_run (client_world\<lparr>mw_batches := concat (map visit_batches visits) @ [stop] # rest\<rparr>) pg = Some pg' \<and>
        main_stop pg' None 0 = Some (None, k', l') \<and> k_open k' = k_open only_std \<and> k_epoll k' = (\<lambda>_. None) \<and>
        blocks (ld_mem l') = blocks mem0 \<and> ld_open l' = 0"
    by (elim exE conjE) (rule that, assumption+)
  from spec[OF p(4), of "[]"] obtain pg' k' l' where q:
    "main_run (client_world\<lparr>mw_batches := concat (map visit_batches visits) @ [[stop]]\<rparr>) pg = Some pg'"
    "main_stop pg' None 0 = Some (None, k', l')" "k_open k' = k_open only_std" "blocks (ld_mem l') = blocks mem0"
    by (elim exE conjE) (rule that, assumption+)
  have none: "blocks (ld_mem l') = 0" using q(4) by (simp add: mem0_def)
  show ?thesis by (intro exI conjI) (rule p(1-3) q(1-3) none)+
qed

end
