(* ===== verification/Server_Isolation.thy ===== *)
theory Server_Isolation
  imports Program_States
begin

text \<open>
  What connections have to do with each other: nothing.  A connection is left exactly as it is by
  everything that is not reported for its own descriptor.
\<close>

section \<open>One step\<close>

lemma handler_leaves_others:
  assumes inv: "server_inv s" and hc: "hc0 \<in> set (sw_conns (ls_world s))" "hc \<in> set (sw_conns (ls_world s))"
    and other: "conn_tcp hc \<noteq> conn_tcp hc0" and run: "connection_event handler (conn_tcp hc0) s = Some s'"
    and step: "\<And>ret hc' el' k' x' m'.
      handler hc0 (hc0, ls_eloop s, ls_kernel s, sw_rest (ls_world s), ls_mem s) = Some (ret, hc', el', k', x', m') \<Longrightarrow>
      conn_step hc0 (ls_eloop s, ls_kernel s, ls_mem s) hc' (el', k', m')"
  shows "hc \<in> set (sw_conns (ls_world s')) \<and>
    (hc_addr hc \<in> set (scheduled (ls_eloop s')) \<longleftrightarrow> hc_addr hc \<in> set (scheduled (ls_eloop s)))"
proof -
  have d: "distinct (map hc_addr (sw_conns (ls_world s)))" "distinct (map conn_tcp (sw_conns (ls_world s)))"
    using inv by (simp_all add: server_inv_def world_inv_def)
  obtain ret hc' el' k' x' m' where
    h: "handler hc0 (hc0, ls_eloop s, ls_kernel s, sw_rest (ls_world s), ls_mem s) = Some (ret, hc', el', k', x', m')"
    and s': "s' = s\<lparr>ls_eloop := el', ls_kernel := k', ls_mem := m',
      ls_world := (ls_world s)\<lparr>sw_conns := put_connection hc' (sw_conns (ls_world s)), sw_rest := x'\<rparr>\<rparr>"
    using run find_connection_alive[OF d(2) hc(1)] by (auto simp: connection_event_def split: Option.bind_splits)
  have st: "hc_addr hc' = hc_addr hc0" "set (scheduled (ls_eloop s)) \<subseteq> set (scheduled el')"
    "set (scheduled el') \<subseteq> insert (hc_addr hc0) (set (scheduled (ls_eloop s)))"
    using step[OF h] by (simp_all add: conn_step_def)
  have "hc \<noteq> hc0" "hc_addr hc \<noteq> hc_addr hc0" using other distinct_map_eq[OF d(1) hc(2,1)] by auto
  with hc(2) st show ?thesis by (auto simp: s' put_connection_set[OF d(1) hc(1) st(1)])
qed

text \<open>The steps of a server but for the callbacks of one connection.\<close>

inductive others_step ::
    "('h, 'x served, 'c) HTTPRouter \<Rightarrow> 'ps parser_lib \<Rightarrow> 'x sockets \<Rightarrow> string
      \<Rightarrow> (addr \<Rightarrow> int \<Rightarrow> ('ps, 'x) server_state \<Rightarrow> ('ps, 'x) server_state option) \<Rightarrow> addr
      \<Rightarrow> ('ps, 'x) server_state \<Rightarrow> ('ps, 'x) server_state \<Rightarrow> bool"
  for router lib so banner sg own where
  callback: "watches (ls_eloop s) fd t = Some cb \<Longrightarrow> accepts_new so cb fd s \<Longrightarrow> tcp_of cb \<noteq> Some own \<Longrightarrow>
     fire router lib so banner sg cb fd s = Some s' \<Longrightarrow> others_step router lib so banner sg own s s'"
| collect: "collect_step free_object s = Some s' \<Longrightarrow> others_step router lib so banner sg own s s'"

lemma others_step_server: "others_step router lib so banner sg own s s' \<Longrightarrow> server_step router lib so banner sg s s'"
  by (erule others_step.cases) (auto intro: server_step.intros)

text \<open>An open connection that is not to be freed is as it was.\<close>

definition undisturbed :: "'ps connection \<Rightarrow> ('ps, 'x) server_state \<Rightarrow> bool" where
  "undisturbed hc s \<longleftrightarrow> hc \<in> set (sw_conns (ls_world s)) \<and> hc_addr hc \<notin> set (scheduled (ls_eloop s))"

lemma others_step_undisturbed:
  assumes r: "router_keeps router" and sg: "only_stops sg" and inv: "server_inv s"
    and st: "others_step router lib so banner sg (conn_tcp hc) s s'" and hc: "undisturbed hc s"
  shows "undisturbed hc s'"
  using st
proof (cases rule: others_step.cases)
  case collect
  with collect_frees[OF inv] hc show ?thesis by (auto simp: undisturbed_def)
next
  case (callback fd t cb)
  note mem = conjunct1[OF hc[unfolded undisturbed_def]]
  show ?thesis
  proof (cases "tcp_of cb")
    case (Some a)
    from fire_handler[OF r inv callback(1) this callback(4)] obtain hc0 handler where h:
      "hc0 \<in> set (sw_conns (ls_world s))" "conn_tcp hc0 = a" "connection_event handler a s = Some s'"
      "\<forall>ret hc' el' k' x' m'.
        handler hc0 (hc0, ls_eloop s, ls_kernel s, sw_rest (ls_world s), ls_mem s) = Some (ret, hc', el', k', x', m') \<longrightarrow>
        conn_step hc0 (ls_eloop s, ls_kernel s, ls_mem s) hc' (el', k', m')" by blast
    have "conn_tcp hc \<noteq> conn_tcp hc0" using callback(3) Some h(2) by auto
    from handler_leaves_others[OF inv h(1) mem this h(3)[folded h(2)]] h(4) hc show ?thesis by (auto simp: undisturbed_def)
  next
    case None
    then consider (incoming) a where "cb = Server_incoming a" | (signal) a where "cb = Signal_ready a" by (cases cb) auto
    then show ?thesis
    proof cases
      case (signal a)
      with callback(4) have "sg a fd s = Some s'" by (simp add: fire_def)
      then obtain b x where "s' = s\<lparr>ls_eloop := (ls_eloop s)\<lparr>el_running := b\<rparr>, ls_world := (ls_world s)\<lparr>sw_rest := x\<rparr>\<rparr>"
        using sg unfolding only_stops_def by blast
      with hc show ?thesis by (simp add: undisturbed_def)
    next
      case (incoming a)
      have a: "a = ts_addr (hs_tcp_server (sw_server (ls_world s)))"
        using inv callback(1) incoming by (auto simp: server_inv_def world_inv_def live_watch_def)
      obtain res x where acc: "so_accept so fd (sw_rest (ls_world s)) = (res, x)" by fastforce
      show ?thesis
      proof (cases res)
        case (Io_failed errno)
        with acc a incoming callback(4) hc show ?thesis
          by (auto simp: fire_def on_incoming_connection_def undisturbed_def)
      next
        case (Io_done fd')
        with callback(2) acc incoming have "0 \<le> fd'" "\<not> k_open (ls_kernel s) fd'" by (simp_all add: accepts_new_def)
        from accept_inv[OF inv acc[unfolded Io_done] this, of router lib banner sg] callback(4) hc
        show ?thesis unfolding incoming a by (auto simp: undisturbed_def)
      qed
    qed
  qed
qed

section \<open>For any time\<close>

text \<open>
  C7: However long the server runs, and whatever the other connections send, fail at or are closed by, the listening
  socket accepts, the signal handler does and the collector frees: as long as none of the events is one of its own, an
  open connection keeps its queue, its response and its TCP connection as they are, stays open and watched
  for its three events, and is not scheduled to be freed.
\<close>

theorem connections_isolated:
  fixes router :: "('h, 'x served, 'c) HTTPRouter"
  assumes "router_keeps router" "only_stops sg" "server_inv s"
    and "hc \<in> set (sw_conns (ls_world s))" "0 \<le> conn_fd hc" "hc_addr hc \<notin> set (scheduled (ls_eloop s))"
    and "(others_step router lib so banner sg (conn_tcp hc))\<^sup>*\<^sup>* s s'"
  shows "hc \<in> set (sw_conns (ls_world s')) \<and> hc_addr hc \<notin> set (scheduled (ls_eloop s')) \<and>
    k_open (ls_kernel s') (conn_fd hc) \<and> watches (ls_eloop s') (conn_fd hc) = watches (ls_eloop s) (conn_fd hc)"
proof -
  have start: "undisturbed hc s" using assms(4,6) by (simp add: undisturbed_def)
  have kept: "server_inv s' \<and> undisturbed hc s'"
    using assms(7,3) start
    by (induction rule: rtranclp_induct)
      (auto intro: server_step_inv[OF assms(1,2) others_step_server] others_step_undisturbed[OF assms(1,2)])
  then have mem: "hc \<in> set (sw_conns (ls_world s'))" "hc_addr hc \<notin> set (scheduled (ls_eloop s'))"
    by (simp_all add: undisturbed_def)
  show ?thesis
    using mem assms(5) bspec[OF conjunct1[OF server_inv_connections[OF assms(3)]] assms(4)]
      bspec[OF conjunct1[OF server_inv_connections[OF conjunct1[OF kept]]] mem(1)]
    by simp
qed

text \<open>Two clients; the second one's socket becomes writable.\<close>

definition two_clients :: "nat sockets" where
  "two_clients = one_client\<lparr>so_accept := \<lambda>fd x. (Io_done (9 + int x), Suc x)\<rparr>"

lemma listening_scheduled: "scheduled (ls_eloop listening) = []" "el_collector (ls_eloop listening) = Some \<lparr>collect_entries_list = []\<rparr>"
  "k_open (ls_kernel listening) = (\<lambda>fd. fd = 4)"
  by (simp_all add: scheduled_def collector_pending_def listening_def)

lemma listening_inv: "server_inv listening"
  by (simp add: server_inv_def sound_def world_inv_def listening_simps listening_scheduled)

theorem connections_isolated_witness:
  "\<exists>s hc1 hc2 s'. sw_conns (ls_world s) = [hc2, hc1] \<and> conn_fd hc1 = 9 \<and> conn_fd hc2 = 10 \<and>
     fire null_router silent_parser two_clients ''RApp'' (\<lambda>a fd s. None) (Connection_ready_write (conn_tcp hc2)) 10 s = Some s' \<and>
     hc1 \<in> set (sw_conns (ls_world s')) \<and> k_open (ls_kernel s') 9"
proof -
  let ?sg = "\<lambda>(a::addr) (fd::int) (s::(unit, nat) server_state). None :: (unit, nat) server_state option"
  have r: "router_keeps null_router"
    by (simp add: null_router_def router_keeps_def null_container_keeps)
  have sg: "only_stops ?sg" by (simp add: only_stops_def)
  have acc1: "so_accept two_clients 4 (sw_rest (ls_world listening)) = (Io_done 9, 1)"
    by (simp add: two_clients_def listening_def)
  have new1: "\<not> k_open (ls_kernel listening) 9" by (simp add: listening_scheduled)
  from accept_inv[OF listening_inv acc1 _ new1, of null_router silent_parser "''RApp''" ?sg] obtain s1 :: "(unit, nat) server_state" and hc1 where s1:
    "server_inv s1" "scheduled (ls_eloop s1) = []" "k_open (ls_kernel s1) = (\<lambda>fd. fd = 4)(9 := True)"
    "sw_rest (ls_world s1) = Suc 0" "sw_conns (ls_world s1) = [hc1]" "conn_fd hc1 = 9"
    by (auto simp: listening_simps listening_scheduled)
  have acc2: "so_accept two_clients 4 (sw_rest (ls_world s1)) = (Io_done 10, 2)" by (simp add: two_clients_def s1(4))
  have new2: "\<not> k_open (ls_kernel s1) 10" by (simp add: s1(3))
  from accept_inv[OF s1(1) acc2 _ new2, of null_router silent_parser "''RApp''" ?sg] obtain s :: "(unit, nat) server_state" and hc2 where s:
    "server_inv s" "scheduled (ls_eloop s) = []" "sw_conns (ls_world s) = [hc2, hc1]" "conn_fd hc2 = 10"
    by (auto simp: s1(2,5))
  have w: "watches (ls_eloop s) 10 ELOOP_CALLBACK_WRITE = Some (Connection_ready_write (conn_tcp hc2))"
    using bspec[OF conjunct1[OF server_inv_connections[OF s(1)]], of hc2] s(3,4)
    by (simp add: http_registered_def registered_def wanted_def)
  have new: "accepts_new two_clients (Connection_ready_write (conn_tcp hc2)) 10 s" by (simp add: accepts_new_def)
  from fire_inv[OF r sg s(1) w new, of silent_parser "''RApp''"] obtain s' where
    f: "fire null_router silent_parser two_clients ''RApp'' ?sg (Connection_ready_write (conn_tcp hc2)) 10 s = Some s'" by auto
  have "conn_tcp hc1 \<noteq> conn_tcp hc2" using s(1,3) by (auto simp: server_inv_def world_inv_def)
  then have other: "tcp_of (Connection_ready_write (conn_tcp hc2)) \<noteq> Some (conn_tcp hc1)" by simp
  have "hc1 \<in> set (sw_conns (ls_world s))" "0 \<le> conn_fd hc1" "hc_addr hc1 \<notin> set (scheduled (ls_eloop s))"
    by (simp_all add: s(2,3) s1(6))
  from connections_isolated[OF r sg s(1) this r_into_rtranclp[of "others_step null_router silent_parser two_clients ''RApp'' ?sg (conn_tcp hc1)",
        OF others_step.callback[OF w new other f]]] f s(3,4) s1(6)
  show ?thesis by auto
qed

end
