(* ===== verification/Delivery.thy ===== *)
theory Delivery
  imports Program_Life Server_Isolation
begin

text \<open>
  Several clients at once.  While the response of one connection is written, the loop goes on with the others:
  it accepts, reads, answers, closes, frees and handles signals between any two of its write events.  What the
  peer of the connection receives is nevertheless what its socket takes of its own response, buffer by buffer and in
  order, with nothing of another's; a socket that takes less than it is offered loses the rest of that buffer.
\<close>

section \<open>Calls that leave the view of a peer\<close>

text \<open>
  The view is what of the rest of the program one looks at: here, what one peer has received.  A container that
  does not write to sockets itself leaves it as it is, and then so do the request queue and the router.
\<close>

locale quiet_call =
  fixes call :: "'d \<Rightarrow> ('ps, 'd) HTTPRequestQueue \<Rightarrow> HTTPResponse \<times> 'x \<Rightarrow> mem
      \<Rightarrow> (('ps, 'd) HTTPRequestQueue \<times> (HTTPResponse \<times> 'x) \<times> mem) option"
    and view :: "'x \<Rightarrow> 'v"
  assumes call_quiet: "call d q (r, x) m = Some (q', (r', x'), m') \<Longrightarrow> view x' = view x"
begin

lemma message_complete_quiet:
  assumes "on_message_complete call q (r, x) m = Some (ret, q', (r', x'), m')"
  shows "view x' = view x"
proof -
  have "x' = x \<or> (\<exists>d q1 q2. call d q1 (r, x) m = Some (q2, (r', x'), m'))"
    using assms by (auto simp: on_message_complete_def Let_def split: Option.bind_splits if_splits option.splits)
  then show ?thesis using call_quiet by auto
qed

lemma parser_callback_quiet:
  "parser_callback lib call base e q (r, x) m = Some (ret, q', (r', x'), m') \<Longrightarrow> view x' = view x"
  by (cases e) (auto dest: message_complete_quiet)

lemma parser_callbacks_quiet:
  "parser_callbacks lib call base chunk parsed es q (r, x) m = Some (stop, q', (r', x'), m') \<Longrightarrow> view x' = view x"
proof (induction es arbitrary: q r x m)
  case (Cons e es)
  then obtain ret q1 r1 x1 m1 where c: "parser_callback lib call base e q (r, x) m = Some (ret, q1, (r1, x1), m1)"
    by (auto split: Option.bind_splits)
  note first = parser_callback_quiet[OF c]
  show ?case
  proof (cases "ret = 0")
    case True
    with Cons.prems c have "parser_callbacks lib call base chunk parsed es q1 (r1, x1) m1 = Some (stop, q', (r', x'), m')"
      by (auto split: if_splits)
    from Cons.IH[OF this] first show ?thesis by simp
  next
    case False
    with Cons.prems c first show ?thesis by (auto split: if_splits)
  qed
qed simp

lemma queue_quiet:
  assumes "http_request_queue_append_data lib call data q (r, x) m = Some (ret, q', (r', x'), m')"
  shows "view x' = view x"
proof -
  obtain b m1 where b: "memory_resize (rq_buffer q) (rq_buffer_length q + length data) m = (b, m1)" by fastforce
  show ?thesis
  proof (cases b)
    case None
    with assms b show ?thesis by (auto simp: http_request_queue_append_data_def split: if_splits)
  next
    case (Some nb)
    with assms b obtain base chunk parsed events q1 stop q2 where
      "parser_callbacks lib call base chunk parsed events q1 (r, x) m1 = Some (stop, q2, (r', x'), m')"
      by (auto simp: http_request_queue_append_data_def Let_def split: if_splits prod.splits Option.bind_splits option.splits)
    then show ?thesis by (rule parser_callbacks_quiet)
  qed
qed

end

definition container_quiet :: "('x \<Rightarrow> 'v) \<Rightarrow> ('h, 'x served, 'c) Container \<Rightarrow> bool" where
  "container_quiet view c \<longleftrightarrow> (\<forall>q r x m ret r' x' m'.
     container_serve c q (Some (r, x, m)) = (ret, Some (r', x', m')) \<longrightarrow> view x' = view x)"

definition router_quiet :: "('x \<Rightarrow> 'v) \<Rightarrow> ('h, 'x served, 'c) HTTPRouter \<Rightarrow> bool" where
  "router_quiet view rt \<longleftrightarrow> container_quiet view (rt_null rt) \<and> (\<forall>c. rt_starter rt = Some c \<longrightarrow> container_quiet view c) \<and>
     (\<forall>pack \<in> set (rt_packs rt). \<forall>b \<in> set pack. container_quiet view (rb_container b))"

lemma container_quietD:
  "container_quiet view c \<Longrightarrow> container_serve c q (Some (r, x, m)) = (ret, Some (r', x', m')) \<Longrightarrow> view x' = view x"
  unfolding container_quiet_def by blast

locale quiet_router = served_router +
  fixes view :: "'b \<Rightarrow> 'v"
  assumes router_quiet: "router_quiet view router"
begin

lemma routed_quiet:
  assumes "scan_packs mode raw offset len (rt_packs router) (False, rt_null router) = Some (found, c)"
    and "container_serve c q (Some (r, x, m)) = (ret, Some (r', x', m'))"
  shows "view x' = view x"
  by (rule container_quietD[OF _ assms(2)])
    (use scan_packs_container[OF assms(1)] router_quiet in \<open>auto simp: router_quiet_def\<close>)

lemma router_serve_quiet:
  assumes "http_router_serve router q (Some (r, x, m)) = Some (ret, Some (r', x', m'))"
  shows "view x' = view x"
proof -
  let ?raw = "http_request_get_headers_buffer q" and ?uri = "http_request_get_url_range q"
  define routed where "routed = (\<lambda>w. map_option (\<lambda>(found, container). container_serve container q w)
      (scan_packs (rt_match_mode router) ?raw (mr_offset ?uri) (mr_length ?uri) (rt_packs router) (False, rt_null router)))"
  have quiet: "view x' = view x1" if "routed (Some (r1, x1, m1)) = Some (ret, Some (r', x', m'))" for r1 x1 m1
    using that routed_quiet by (fastforce simp: routed_def)
  have undefined: "routed None \<noteq> Some (ret, Some (r', x', m'))"
    using routed_keeps[OF router_keeps] response_writer.serve_undefined by (fastforce simp: routed_def)
  show ?thesis
  proof (cases "rt_starter router")
    case None
    with assms have "routed (Some (r, x, m)) = Some (ret, Some (r', x', m'))"
      by (simp add: http_router_serve_def routed_def Let_def)
    then show ?thesis by (rule quiet)
  next
    case (Some starter)
    obtain ret1 w where w: "container_serve starter q (Some (r, x, m)) = (ret1, w)" by fastforce
    have cases: "if ret1 = 0 then w = Some (r', x', m') else routed w = Some (ret, Some (r', x', m'))"
      using assms Some w by (auto simp: http_router_serve_def routed_def Let_def split: if_splits)
    have starter: "w = Some (r1, x1, m1) \<Longrightarrow> view x1 = view x" for r1 x1 m1
      using router_quiet Some w container_quietD by (fastforce simp: router_quiet_def)
    with cases quiet undefined show ?thesis by (cases w) (auto split: if_splits)
  qed
qed

end

sublocale quiet_router \<subseteq> quiet_call "on_new_request router" view
  by unfold_locales (auto simp: on_new_request_def Let_def split: Option.bind_splits dest!: router_serve_quiet)

section \<open>Sockets\<close>

text \<open>
  \<open>received\<close> is what the peer at descriptor \<open>fd\<close> has got: of what is offered to it as much as \<open>send\<close> reports - all,
  a part, or nothing when \<open>send\<close> fails -, and nothing that is received, accepted or sent elsewhere reaches it.
\<close>

fun taken_of :: "nat io_result \<Rightarrow> nat" where
  "taken_of (Io_done n) = n"
| "taken_of (Io_failed e) = 0"

definition peer_receives :: "'x sockets \<Rightarrow> int \<Rightarrow> ('x \<Rightarrow> bytes) \<Rightarrow> bool" where
  "peer_receives so fd received \<longleftrightarrow>
     (\<forall>data x. received (snd (so_send so fd data x)) = received x @ take (taken_of (fst (so_send so fd data x))) data) \<and>
     (\<forall>fd' data x. fd' \<noteq> fd \<longrightarrow> received (snd (so_send so fd' data x)) = received x) \<and>
     (\<forall>fd' n x. received (snd (so_recv so fd' n x)) = received x) \<and>
     (\<forall>fd' x. received (snd (so_accept so fd' x)) = received x)"

definition signals_quiet ::
    "('x \<Rightarrow> 'v) \<Rightarrow> (addr \<Rightarrow> int \<Rightarrow> ('ps, 'x) server_state \<Rightarrow> ('ps, 'x) server_state option) \<Rightarrow> bool" where
  "signals_quiet view sg \<longleftrightarrow> (\<forall>a fd s s'. sg a fd s = Some s' \<longrightarrow> view (sw_rest (ls_world s')) = view (sw_rest (ls_world s)))"

lemma finish_rest: "finish (hc, el, k, x, m) = Some (hc', el', k', x', m') \<Longrightarrow> x' = x"
  by (auto simp: finish_def split: Option.bind_splits)

lemma peer_close_rest: "on_peer_close (hc, el, k, x, m) = Some (hc', el', k', x', m') \<Longrightarrow> x' = x"
  by (auto simp: on_peer_close_def split: Option.bind_splits dest: finish_rest)

lemma write_elsewhere:
  assumes "peer_receives so fd received" "tc_fd (hc_tcp_connection hc) \<noteq> fd"
    and "on_write so (hc, el, k, x, m) = Some (hc', el', k', x', m')"
  shows "received x' = received x"
proof -
  have "x' = x \<or> (\<exists>data sent. so_send so (tc_fd (hc_tcp_connection hc)) data x = (sent, x'))"
    using assms(3) by (auto simp: on_write_def tcp_connection_write_data_def Let_def
        split: Option.bind_splits if_splits prod.splits dest!: finish_rest)
  with assms(1,2) show ?thesis unfolding peer_receives_def by (metis snd_conv)
qed

context quiet_router
begin

lemma read_quiet:
  assumes "\<And>n x. view (snd (so_recv so (tc_fd (hc_tcp_connection hc)) n x)) = view x"
    and "on_read router lib so (hc, el, k, x, m) = Some (hc', el', k', x', m')"
  shows "view x' = view x"
proof -
  obtain res x1 where got: "tcp_connection_read_data so (hc_tcp_connection hc) BUFSIZE x = (res, x1)" by fastforce
  then have x1: "view x1 = view x"
    using assms(1)[of BUFSIZE x] by (simp add: tcp_connection_read_data_def)
  have "x' = x1 \<or> (\<exists>data ret q r m1. http_request_queue_append_data lib (on_new_request router) data
      (hc_request_queue hc) (hc_response hc, x1) m = Some (ret, q, (r, x'), m1))"
    using assms(2) got by (cases res)
      (auto simp: on_read_def Let_def split: if_splits Option.bind_splits dest!: finish_rest)
  with x1 show ?thesis by (auto dest!: queue_quiet)
qed

end

section \<open>Steps of the others\<close>

lemma fire_close:
  assumes inv: "server_inv s" and hc: "hc \<in> set (sw_conns (ls_world s))"
  shows "fire router lib so banner sg (Connection_close (conn_tcp hc)) fd s =
    map_option (\<lambda>r. with_connection r s)
      (on_peer_close (hc, ls_eloop s, ls_kernel s, sw_rest (ls_world s), ls_mem s))"
proof -
  have "distinct (map conn_tcp (sw_conns (ls_world s)))" "wired hc"
    using inv hc by (simp_all add: server_inv_def world_inv_def conn_ok_def)
  then show ?thesis
    using find_connection_alive[OF _ hc]
    by (auto simp: fire_def connection_event_def wired_callbacks with_connection_def map_option_case
        split: option.split Option.bind_split)
qed

lemma accept_received:
  assumes "peer_receives so fd received"
    and "fire router lib so banner sg (Server_incoming a) fd' s = Some s'"
  shows "received (sw_rest (ls_world s')) = received (sw_rest (ls_world s))"
proof -
  obtain res x where acc: "so_accept so fd' (sw_rest (ls_world s)) = (res, x)" by fastforce
  then have "received x = received (sw_rest (ls_world s))" using assms(1) unfolding peer_receives_def by (metis snd_conv)
  moreover have "sw_rest (ls_world s') = x"
    using assms(2) acc by (auto simp: fire_def on_incoming_connection_def on_accept_def Let_def
        split: if_splits Option.bind_splits option.splits prod.splits io_result.splits)
  ultimately show ?thesis by simp
qed

lemma others_step_received:
  fixes router :: "('h, 'x served, 'c) HTTPRouter" and received :: "'x \<Rightarrow> bytes"
  assumes r: "router_keeps router" "router_quiet received router" and p: "peer_receives so (conn_fd hc) received"
    and sg: "signals_quiet received sg" and inv: "server_inv s"
    and st: "others_step router lib so banner sg (conn_tcp hc) s s'" and hc: "undisturbed hc s" "0 \<le> conn_fd hc"
  shows "received (sw_rest (ls_world s')) = received (sw_rest (ls_world s))"
  using st
proof (cases rule: others_step.cases)
  case collect
  with collect_frees[OF inv] show ?thesis by auto
next
  case (callback fd t cb)
  have quiet: "quiet_router router received"
    by (intro quiet_router.intro served_router.intro quiet_router_axioms.intro) (rule r)+
  show ?thesis
  proof (cases "tcp_of cb")
    case (Some a)
    from connection_found[OF inv callback(1) Some] obtain hc0 where
      hc0: "hc0 \<in> set (sw_conns (ls_world s))" "conn_tcp hc0 = a" by blast
    have "world_inv (scheduled (ls_eloop s)) (ls_eloop s) (ls_kernel s) (ls_world s) (ls_mem s)"
      using inv by (simp add: server_inv_def)
    from open_connection_unique[OF this _ hc0(1) hc(2)] hc(1) callback(3) Some hc0(2)
    have other: "tc_fd (hc_tcp_connection hc0) \<noteq> conn_fd hc" by (auto simp: undisturbed_def)
    have recv: "received (snd (so_recv so (tc_fd (hc_tcp_connection hc0)) n x)) = received x" for n x
      using p by (simp add: peer_receives_def)
    note fired = fire_connection[OF inv hc0(1), of router lib so banner sg fd, unfolded hc0(2)]
      fire_close[OF inv hc0(1), of router lib so banner sg fd, unfolded hc0(2)]
    show ?thesis
      using callback(4) Some
      by (cases cb)
        (auto simp: fired with_connection_def
          dest: quiet_router.read_quiet[OF quiet recv] write_elsewhere[OF p other] peer_close_rest)
  next
    case None
    with callback(4) sg accept_received[OF p] show ?thesis
      by (cases cb) (auto simp: fire_def signals_quiet_def)
  qed
qed

section \<open>Write events of the connection\<close>

lemma undisturbedD:
  assumes "undisturbed hc s" "server_inv s"
  shows "hc \<in> set (sw_conns (ls_world s))" "conn_ready hc (ls_eloop s, ls_kernel s, ls_mem s)"
    "resp_wf (hc_response hc)" "answers (ls_mem s) = []"
proof -
  show hc: "hc \<in> set (sw_conns (ls_world s))" using assms(1) by (simp add: undisturbed_def)
  show "conn_ready hc (ls_eloop s, ls_kernel s, ls_mem s)" by (rule conn_ready_inv[OF assms(2) hc])
  then show "resp_wf (hc_response hc)" "answers (ls_mem s) = []" by (simp_all add: conn_ready_def wired_def sound_def)
qed

lemma with_connection_inv:
  assumes "server_inv s" "hc \<in> set (sw_conns (ls_world s))"
    and "conn_step hc (ls_eloop s, ls_kernel s, ls_mem s) hc' (el, k, m)"
  shows "server_inv (with_connection (hc', el, k, x, m) s)"
  using conn_step_world[OF _ assms(2,3), of x] assms(1,3)
  by (simp add: server_inv_def with_connection_def conn_step_def)

text \<open>What the socket of a connection takes of the buffer that its next write event offers.\<close>

definition taken_next :: "'x sockets \<Rightarrow> addr \<Rightarrow> ('ps, 'x) server_state \<Rightarrow> nat" where
  "taken_next so own s = (case find_connection own (sw_conns (ls_world s)) of
     None \<Rightarrow> 0
   | Some hc \<Rightarrow> taken_of (fst (so_send so (conn_fd hc) (take BUFSIZE (resp_contents (hc_response hc))) (sw_rest (ls_world s)))))"

lemma own_write:
  assumes inv: "server_inv s" and hc: "undisturbed hc s" and p: "peer_receives so (conn_fd hc) received"
    and d: "resp_contents (hc_response hc) \<noteq> []"
  shows "\<exists>r s'. fire router lib so banner sg (Connection_ready_write (conn_tcp hc)) fd s = Some s' \<and> server_inv s' \<and>
    undisturbed (hc\<lparr>hc_response := r\<rparr>) s' \<and> resp_contents r = drop BUFSIZE (resp_contents (hc_response hc)) \<and>
    resp_is_last r = resp_is_last (hc_response hc) \<and>
    received (sw_rest (ls_world s')) = received (sw_rest (ls_world s)) @
      take (taken_next so (conn_tcp hc) s) (take BUFSIZE (resp_contents (hc_response hc)))"
proof -
  let ?x = "sw_rest (ls_world s)" and ?r = "hc_response hc"
  note u = undisturbedD[OF hc inv]
  obtain ret data r m where rd: "http_response_read_data BUFSIZE ?r (ls_mem s) = Some (ret, data, r, m)"
    "data = take BUFSIZE (resp_contents ?r)" "ret = int (length data)" "resp_wf r"
    "resp_contents r = drop BUFSIZE (resp_contents ?r)" "answers m = []"
    using read_data_result[OF u(3) BUFSIZE_pos, of "ls_mem s"] u(4) by blast
  obtain sent x where send: "so_send so (conn_fd hc) data ?x = (sent, x)" by fastforce
  let ?hc = "hc\<lparr>hc_response := r\<rparr>"
  let ?s = "with_connection (?hc, ls_eloop s, ls_kernel s, x, m) s"
  have "0 < ret" using rd(2,3) d BUFSIZE_pos by simp
  then have w: "on_write so (hc, ls_eloop s, ls_kernel s, ?x, ls_mem s) = Some (?hc, ls_eloop s, ls_kernel s, x, m)"
    using rd(1) send by (simp add: on_write_def tcp_connection_write_data_def)
  have "keeps_response ?r (ls_mem s) r m"
    using rd(4,6) read_data_fresh[OF rd(1)] by (simp add: keeps_response_def grows_def)
  from conn_step_contents[OF u(2) this, of "hc_request_queue hc"]
  have inv': "server_inv ?s" by (intro with_connection_inv[OF inv u(1)]) simp
  have "distinct (map hc_addr (sw_conns (ls_world s)))" using inv by (simp add: server_inv_def world_inv_def)
  from put_connection_set[OF this u(1), of ?hc] hc
  have kept: "undisturbed ?hc ?s" by (simp add: undisturbed_def with_connection_def)
  have "distinct (map conn_tcp (sw_conns (ls_world s)))" using inv by (simp add: server_inv_def world_inv_def)
  then have "taken_next so (conn_tcp hc) s = taken_of sent"
    using find_connection_alive[OF _ u(1)] send by (simp add: taken_next_def rd(2))
  moreover have "received x = received ?x @ take (taken_of sent) data"
    using p send unfolding peer_receives_def by (metis fst_conv snd_conv)
  ultimately have "received (sw_rest (ls_world ?s)) =
      received ?x @ take (taken_next so (conn_tcp hc) s) (take BUFSIZE (resp_contents ?r))"
    by (simp add: with_connection_def rd(2))
  moreover have "fire router lib so banner sg (Connection_ready_write (conn_tcp hc)) fd s = Some ?s"
    unfolding fire_connection(2)[OF inv u(1)] w option.map ..
  ultimately show ?thesis using inv' kept rd(5) read_data_last[OF rd(1)] by blast
qed

lemma own_close:
  assumes inv: "server_inv s" and hc: "undisturbed hc s" "0 \<le> conn_fd hc"
    and d: "resp_contents (hc_response hc) = []" "resp_is_last (hc_response hc) \<noteq> 0"
  shows "\<exists>s'. fire router lib so banner sg (Connection_ready_write (conn_tcp hc)) fd s = Some s' \<and> server_inv s' \<and>
    hc_addr hc \<in> set (scheduled (ls_eloop s')) \<and> \<not> k_open (ls_kernel s') (conn_fd hc) \<and>
    sw_rest (ls_world s') = sw_rest (ls_world s)"
proof -
  let ?x = "sw_rest (ls_world s)"
  note u = undisturbedD[OF hc(1) inv]
  from peer_close_step[OF u(2), of ?x] obtain hc' el k m where c:
    "on_peer_close (hc, ls_eloop s, ls_kernel s, ?x, ls_mem s) = Some (hc', el, k, ?x, m)" "conn_fd hc' < 0"
    "conn_step hc (ls_eloop s, ls_kernel s, ls_mem s) hc' (el, k, m)" by blast
  let ?s = "with_connection (hc', el, k, ?x, m) s"
  have "fire router lib so banner sg (Connection_ready_write (conn_tcp hc)) fd s = Some ?s"
    unfolding fire_connection(2)[OF inv u(1)] on_write_last[OF u(3,4) d] c(1) option.map ..
  moreover have "server_inv ?s" by (rule with_connection_inv[OF inv u(1) c(3)])
  ultimately show ?thesis using c(2,3) hc(2)
    by (intro exI[of _ ?s]) (auto simp: with_connection_def conn_step_def)
qed

section \<open>Interleaving\<close>

text \<open>
  Write events of the connection \<open>own\<close>, with any steps of the others before, between and after them.  \<open>ns\<close> is for each
  of the write events how much the socket took.
\<close>

inductive written_among ::
    "('h, 'x served, 'c) HTTPRouter \<Rightarrow> 'ps parser_lib \<Rightarrow> 'x sockets \<Rightarrow> string
      \<Rightarrow> (addr \<Rightarrow> int \<Rightarrow> ('ps, 'x) server_state \<Rightarrow> ('ps, 'x) server_state option) \<Rightarrow> addr
      \<Rightarrow> nat list \<Rightarrow> ('ps, 'x) server_state \<Rightarrow> ('ps, 'x) server_state \<Rightarrow> bool"
  for router lib so banner sg own where
  start: "written_among router lib so banner sg own [] s s"
| others: "written_among router lib so banner sg own ns s s1 \<Longrightarrow> others_step router lib so banner sg own s1 s2 \<Longrightarrow>
     written_among router lib so banner sg own ns s s2"
| written: "written_among router lib so banner sg own ns s s1 \<Longrightarrow>
     watches (ls_eloop s1) fd ELOOP_CALLBACK_WRITE = Some (Connection_ready_write own) \<Longrightarrow>
     fire router lib so banner sg (Connection_ready_write own) fd s1 = Some s2 \<Longrightarrow>
     written_among router lib so banner sg own (ns @ [taken_next so own s1]) s s2"

lemma written_among_steps:
  "written_among router lib so banner sg own ns s s' \<Longrightarrow> (server_step router lib so banner sg)\<^sup>*\<^sup>* s s'"
proof (induction rule: written_among.induct)
  case (written ns s s1 fd s2)
  have "accepts_new so (Connection_ready_write own) fd s1" by (simp add: accepts_new_def)
  from written.IH server_step.callback[OF written.hyps(2) this written.hyps(3)] show ?case by simp
qed (auto dest: others_step_server)

text \<open>What such events have made of the response \<open>d\<close>.\<close>

definition delivered ::
    "('x \<Rightarrow> bytes) \<Rightarrow> 'ps connection \<Rightarrow> bytes \<Rightarrow> nat list \<Rightarrow> ('ps, 'x) server_state \<Rightarrow> bytes \<Rightarrow> bool" where
  "delivered received hc d ns s before \<longleftrightarrow> server_inv s \<and>
     received (sw_rest (ls_world s)) = before @ reaching ns d \<and>
     (\<exists>r. undisturbed (hc\<lparr>hc_response := r\<rparr>) s \<and> resp_contents r = drop (length ns * BUFSIZE) d \<and>
        resp_is_last r = resp_is_last (hc_response hc))"

lemma reaching_append:
  "reaching (ns @ [n]) d = reaching ns d @ take n (take BUFSIZE (drop (length ns * BUFSIZE) d))"
  by (induction ns arbitrary: d) (simp_all add: add.commute)

lemma delivered_others:
  fixes router :: "('h, 'x served, 'c) HTTPRouter" and received :: "'x \<Rightarrow> bytes"
  assumes "router_keeps router" "router_quiet received router" "peer_receives so (conn_fd hc) received"
    and "only_stops sg" "signals_quiet received sg" "0 \<le> conn_fd hc"
    and "delivered received hc d ns s before" "others_step router lib so banner sg (conn_tcp hc) s s'"
  shows "delivered received hc d ns s' before"
proof -
  from assms(7) obtain r where r: "server_inv s" "undisturbed (hc\<lparr>hc_response := r\<rparr>) s"
    "resp_contents r = drop (length ns * BUFSIZE) d" "resp_is_last r = resp_is_last (hc_response hc)"
    "received (sw_rest (ls_world s)) = before @ reaching ns d"
    unfolding delivered_def by blast
  let ?hc = "hc\<lparr>hc_response := r\<rparr>"
  have step: "others_step router lib so banner sg (conn_tcp ?hc) s s'" "peer_receives so (conn_fd ?hc) received" "0 \<le> conn_fd ?hc"
    using assms(3,6,8) by simp_all
  have "server_inv s'" by (rule server_step_inv[OF assms(1,4) others_step_server[OF assms(8)] r(1)])
  with others_step_undisturbed[OF assms(1,4) r(1) step(1) r(2)] r(3-5)
    others_step_received[OF assms(1,2) step(2) assms(5) r(1) step(1) r(2) step(3)]
  show ?thesis unfolding delivered_def by auto
qed

lemma delivered_write:
  assumes "peer_receives so (conn_fd hc) received" "delivered received hc d ns s before" "length ns * BUFSIZE < length d"
    and "fire router lib so banner sg (Connection_ready_write (conn_tcp hc)) fd s = Some s'"
  shows "delivered received hc d (ns @ [taken_next so (conn_tcp hc) s]) s' before"
proof -
  from assms(2) obtain r where r: "server_inv s" "undisturbed (hc\<lparr>hc_response := r\<rparr>) s"
    "resp_contents r = drop (length ns * BUFSIZE) d" "resp_is_last r = resp_is_last (hc_response hc)"
    "received (sw_rest (ls_world s)) = before @ reaching ns d"
    unfolding delivered_def by blast
  let ?hc = "hc\<lparr>hc_response := r\<rparr>"
  have "peer_receives so (conn_fd ?hc) received" "resp_contents (hc_response ?hc) \<noteq> []"
    using assms(1,3) r(3) by simp_all
  then show ?thesis
    using own_write[OF r(1,2), of so received router lib banner sg fd] assms(4) r(3-5)
    by (auto simp: delivered_def reaching_append add.commute)
qed

lemma written_delivered:
  fixes router :: "('h, 'x served, 'c) HTTPRouter" and received :: "'x \<Rightarrow> bytes"
  assumes "router_keeps router" "router_quiet received router" "peer_receives so (conn_fd hc) received"
    and "only_stops sg" "signals_quiet received sg" "0 \<le> conn_fd hc"
    and "written_among router lib so banner sg (conn_tcp hc) ns s s'"
    and "server_inv s" "undisturbed hc s" "length ns * BUFSIZE < length (resp_contents (hc_response hc)) + BUFSIZE"
  shows "delivered received hc (resp_contents (hc_response hc)) ns s' (received (sw_rest (ls_world s)))"
  using assms(7-10)
proof (induction rule: written_among.induct)
  case (start s)
  then show ?case unfolding delivered_def by (auto intro!: exI[of _ "hc_response hc"])
next
  case (others ns s s1 s2)
  from delivered_others[OF assms(1-6) others.IH[OF others.prems] others.hyps(2)] show ?case .
next
  case (written ns s s1 fd s2)
  have n: "length ns * BUFSIZE < length (resp_contents (hc_response hc))" using written.prems(3) by simp
  from delivered_write[OF assms(3) written.IH[OF written.prems(1,2)] n written.hyps(3)] n show ?case by simp
qed

text \<open>
  C8: Between the write events of a connection the loop may do anything for the others - accept clients, read their requests, answer
  and close them, free them, handle signals.  Each write event offers the next buffer of the response to the socket, which
  takes all of it, a part, or nothing: \<open>ns\<close> says how much.  After these events the peer has nevertheless received what
  was taken of each buffer, in order, and nothing else; the loop still waits to write, and the next write event is defined.
  When the response has been read out and is the last, that event closes the connection and schedules it to be freed, whether
  or not the peer has the whole response: that it has exactly when the socket took every buffer as a whole.
\<close>

theorem delivered_among_others:
  fixes router :: "('h, 'x served, 'c) HTTPRouter" and received :: "'x \<Rightarrow> bytes"
  assumes "router_keeps router" "router_quiet received router" "peer_receives so (conn_fd hc) received"
    and "only_stops sg" "signals_quiet received sg" "server_inv s"
    and "hc \<in> set (sw_conns (ls_world s))" "0 \<le> conn_fd hc" "hc_addr hc \<notin> set (scheduled (ls_eloop s))"
    and "resp_contents (hc_response hc) = d" "length ns * BUFSIZE < length d + BUFSIZE"
    and "written_among router lib so banner sg (conn_tcp hc) ns s s'"
  shows "received (sw_rest (ls_world s')) = received (sw_rest (ls_world s)) @ reaching ns d \<and>
    watches (ls_eloop s') (conn_fd hc) ELOOP_CALLBACK_WRITE = Some (Connection_ready_write (conn_tcp hc)) \<and>
    (\<exists>s''. fire router lib so banner sg (Connection_ready_write (conn_tcp hc)) (conn_fd hc) s' = Some s'' \<and>
       (length d \<le> length ns * BUFSIZE \<and> resp_is_last (hc_response hc) \<noteq> 0 \<longrightarrow>
          hc_addr hc \<in> set (scheduled (ls_eloop s'')) \<and> \<not> k_open (ls_kernel s'') (conn_fd hc) \<and>
          received (sw_rest (ls_world s'')) = received (sw_rest (ls_world s)) @ reaching ns d)) \<and>
    (length d \<le> length ns * BUFSIZE \<longrightarrow> (reaching ns d = d \<longleftrightarrow>
       (\<forall>i < length ns. length (take BUFSIZE (drop (i * BUFSIZE) d)) \<le> ns ! i)))"
proof -
  have "undisturbed hc s" using assms(7,9) by (simp add: undisturbed_def)
  from written_delivered[OF assms(1-5,8,12,6) this] assms(10,11) obtain r where
    r: "server_inv s'" "received (sw_rest (ls_world s')) = received (sw_rest (ls_world s)) @ reaching ns d"
    "undisturbed (hc\<lparr>hc_response := r\<rparr>) s'" "resp_contents r = drop (length ns * BUFSIZE) d"
    "resp_is_last r = resp_is_last (hc_response hc)"
    unfolding delivered_def by auto
  let ?hc = "hc\<lparr>hc_response := r\<rparr>"
  have watched: "watches (ls_eloop s') (conn_fd hc) ELOOP_CALLBACK_WRITE = Some (Connection_ready_write (conn_tcp hc))"
    using bspec[OF conjunct1[OF server_inv_connections[OF r(1)]] undisturbedD(1)[OF r(3,1)]] assms(8)
    by (simp add: http_registered_read_write)
  from fire_runs[OF r(1) watched, of "conn_tcp hc" router lib so banner sg] obtain s'' where
    s'': "fire router lib so banner sg (Connection_ready_write (conn_tcp hc)) (conn_fd hc) s' = Some s''" by auto
  have "hc_addr hc \<in> set (scheduled (ls_eloop s'')) \<and> \<not> k_open (ls_kernel s'') (conn_fd hc) \<and>
      received (sw_rest (ls_world s'')) = received (sw_rest (ls_world s)) @ reaching ns d"
    if "length d \<le> length ns * BUFSIZE" "resp_is_last (hc_response hc) \<noteq> 0"
    using own_close[OF r(1,3), of router lib so banner sg "conn_fd hc"] that r(2,4,5) s'' assms(8) by auto
  with r(2) watched s'' conjunct2[OF reaching_all[of d ns]] show ?thesis by blast
qed

section \<open>Two clients of the hello container\<close>

text \<open>The containers of the repository write to no socket, and no router of them does.\<close>

lemma null_container_quiet: "cont_serve c = null_serve \<Longrightarrow> container_quiet view c"
  by (auto simp: container_quiet_def container_serve_def null_serve_def)

lemma hello_container_quiet: "cont_serve c = rapp_serve clock \<Longrightarrow> container_quiet view c"
  by (auto simp: container_quiet_def container_serve_def rapp_serve_def split: option.splits Option.bind_splits)

interpretation hello_quiet: quiet_router hello_router view for view :: "'x \<Rightarrow> 'v"
  by unfold_locales (simp add: hello_router_def router_quiet_def null_container_quiet hello_container_quiet)

lemma router_quiet_routes:
  assumes "cont_serve (rt_null rt) = null_serve" "rt_starter rt = None" "routes rt = [(r, c)]" "container_quiet view c"
  shows "router_quiet view rt"
proof -
  have "rb_container b = c" if "pack \<in> set (rt_packs rt)" "b \<in> set pack" for pack b
  proof -
    have "(route_of b, rb_container b) \<in> set (routes rt)" using that by (auto simp: routes_def)
    with assms(3) show ?thesis by simp
  qed
  with assms(2,4) null_container_quiet[OF assms(1)] show ?thesis by (auto simp: router_quiet_def)
qed

lemma run_signal_quiet:
  fixes read_signal :: "'x \<Rightarrow> nat option \<times> 'x"
  assumes "\<And>x. view (snd (read_signal x)) = view x"
  shows "signals_quiet view (run_signal read_signal sh)"
  unfolding signals_quiet_def
proof (intro allI impI)
  fix a fd and s s' :: "('p, 'x) server_state"
  assume run: "run_signal read_signal sh a fd s = Some s'"
  obtain got x where got: "read_signal (sw_rest (ls_world s)) = (got, x)" by fastforce
  have "sw_rest (ls_world s') = x"
    using run got by (auto simp: run_signal_def on_signal_ready_def Let_def split: if_splits option.splits)
  then show "view (sw_rest (ls_world s')) = view (sw_rest (ls_world s))"
    using assms[of "sw_rest (ls_world s)"] got by simp
qed

text \<open>Every client gets the next descriptor and asks for the page; the world is what the one at 9 has received.\<close>

definition two_peers :: "(bytes \<times> nat list) sockets" where
  "two_peers =
     \<lparr>so_recv = (\<lambda>fd n x. (Io_done get_root, x)),
      so_send = (\<lambda>fd data (rcv, ns). (Io_done (length data), (if fd = 9 then rcv @ data else rcv, ns))),
      so_sendfile = (\<lambda>fd file n x. (Io_failed EAGAIN, x)),
      so_accept = (\<lambda>fd (rcv, ns). (Io_done (9 + int (length ns)), (rcv, 0 # ns)))\<rparr>"

lemma two_peers_receive: "peer_receives two_peers 9 fst"
  by (auto simp: peer_receives_def two_peers_def)

lemma page_read:
  fixes router :: "(RappContainer option, 'x served, 'c) HTTPRouter"
  assumes b: "beside s0 hc s" "hc_request_queue hc = new_queue (get_parser False) (hc_addr hc)"
      "hc_response hc = new_response ''RApp-dev''"
    and recv: "so_recv so (conn_fd hc) BUFSIZE (sw_rest (ls_world s)) = (Io_done get_root, x)"
    and bound: "hello_bound 2 ''Hello world!'' ''/'' router"
  shows "\<exists>hc' s'. fire router (get_parser False) so banner sg (Connection_ready_read (conn_tcp hc)) (conn_fd hc) s = Some s' \<and>
    beside s0 hc' s' \<and> resp_contents (hc_response hc') = hello_page \<and> resp_is_last (hc_response hc') \<noteq> 0 \<and>
    conn_fd hc' = conn_fd hc \<and> sw_rest (ls_world s') = x"
proof -
  let ?F = "fire router (get_parser False) so banner sg"
  note d = besideD[OF b(1)]
  have w: "watches (ls_eloop s) (conn_fd hc) ELOOP_CALLBACK_READ = Some (Connection_ready_read (conn_tcp hc))"
    using d(7) by (simp add: http_registered_read_write)
  obtain bits a where a: "k_epoll (ls_kernel s) (conn_fd hc) = Some (bits, a)"
    using watch_reported[OF d(1) w] by auto
  have event: "dispatch_event ?F (a, EPOLLIN) s = ?F (Connection_ready_read (conn_tcp hc)) (conn_fd hc) s"
    using dispatch_one[OF d(1) a _ w, of ?F] by (simp add: eloop_callback_type_to_epoll_event_def)
  have parse: "reports_request (get_parser False) (rq_parser (hc_request_queue hc)) get_root 4 1 [host_header] False"
    using get_parser_reports[of False] by simp
  have hello: "hello_bound 2 ''Hello world!'' (take 1 (drop 4 get_root)) router" unfolding root_url by (rule bound)
  have data: "get_root \<noteq> []" by (simp add: get_root_def)
  from read_beside[OF b(1) fresh_connection_ready[OF b(2,3)] a recv data parse hello, of banner sg] obtain hc' s' is_last where
    r: "dispatch_event ?F (a, EPOLLIN) s = Some s'" "beside s0 hc' s'" "is_last \<noteq> 0"
    "resp_is_last (hc_response hc') = is_last"
    "resp_contents (hc_response hc') = resp_contents (hc_response hc) @
       hello_text (nat 2) ''Hello world!'' ((hc_response hc)\<lparr>resp_is_last := is_last\<rparr>)"
    "conn_fd hc' = conn_fd hc" "sw_rest (ls_world s') = x" by auto
  have "resp_contents (hc_response hc') = hello_page"
    using r(3,5) hello_text_last[of is_last 1 2 "''Hello world!''" "new_response ''RApp-dev''"]
    by (simp add: b(3) hello_page_def new_response_def resp_contents_def)
  with r event show ?thesis by (intro exI[of _ hc'] exI[of _ s']) simp
qed

definition peers_world :: "(RappContainer option, unit, bytes \<times> nat list) main_world" where
  "peers_world = client_world\<lparr>mw_sockets := two_peers\<rparr>"

lemma peers_world_facts:
  "signals_work peers_world" "0 \<le> mw_epollfd peers_world" "k_epoll only_std = (\<lambda>_. None)"
  "\<not> k_open only_std (mw_signalfd peers_world)" "\<not> k_open only_std (sys_socket (mw_listen peers_world))"
  "sys_socket (mw_listen peers_world) \<noteq> mw_signalfd peers_world" "can_listen (mw_listen peers_world) ''::1'' 8080"
  "mw_parser peers_world = get_parser False" "mw_banner peers_world = ''RApp-dev''" "mw_sockets peers_world = two_peers"
  "mw_read_signal peers_world y = (Some SIGTERM, y)"
  "fd \<in> {9, 10} \<Longrightarrow> \<not> k_open only_std fd \<and> fd \<notin> {mw_signalfd peers_world, sys_socket (mw_listen peers_world)}"
  using client_world_facts(1-7,15-17)
  by (auto simp: peers_world_def client_world_def signals_work_def can_listen_def only_std_def busy_port_def)

text \<open>The program has started and its loop runs.\<close>

lemma peers_started:
  "\<exists>pg. main_start peers_world None hello_container ''::1'' 8080 \<lparr>sg_blocked = {}, sg_reported = {}\<rparr> ([], []) only_std mem0 = Some pg \<and>
     hello_waits (k_open only_std) (blocks mem0) peers_world pg
       ((pg_state pg)\<lparr>ls_eloop := (ls_eloop (pg_state pg))\<lparr>el_running := True\<rparr>\<rparr>) \<and>
     sw_rest (ls_world (pg_state pg)) = ([], []) \<and> hello_bound 2 ''Hello world!'' ''/'' (pg_router pg) \<and>
     router_keeps (pg_router pg) \<and> router_quiet fst (pg_router pg)"
proof -
  note w = peers_world_facts and c = client_world_facts(8,9)
  from hello_started[OF w(1,2) answers_mem0 w(3-7) c] obtain pg where
    pg: "main_start peers_world None hello_container ''::1'' 8080 \<lparr>sg_blocked = {}, sg_reported = {}\<rparr> ([], []) only_std mem0 = Some pg"
    "hello_ready (k_open only_std) (blocks mem0) 2 ''Hello world!'' peers_world ([], []) pg" by blast
  have r: "routes (pg_router pg) = [(Some ''/'', hello_container)]" "rt_starter (pg_router pg) = None"
    "cont_serve (rt_null (pg_router pg)) = null_serve"
    using main_start_ready[OF w(1,2) answers_mem0 w(3-6), of None hello_container "''::1''" 8080
        "\<lparr>sg_blocked = {}, sg_reported = {}\<rparr>" "([], [])"] pg(1) by auto
  have "router_keeps (pg_router pg)" by (rule router_keeps_routes[OF r(3,2,1) hello_container_keeps[OF c(1)]])
  moreover have "router_quiet fst (pg_router pg)" by (rule router_quiet_routes[OF r(3,2,1) hello_container_quiet[OF c(1)]])
  moreover have "sw_rest (ls_world (pg_state pg)) = ([], [])" "hello_bound 2 ''Hello world!'' ''/'' (pg_router pg)"
    using pg(2) by (simp_all add: hello_ready_def Let_def)
  ultimately show ?thesis using pg(1) hello_ready_waits[OF pg(2)] by blast
qed

text \<open>A client comes in and its request is read.\<close>

lemma client_arrives:
  fixes router :: "(RappContainer option, (bytes \<times> nat list) served, 'c) HTTPRouter"
  assumes inv: "server_inv s" "scheduled (ls_eloop s) = []" "el_running (ls_eloop s)"
    and w: "watches (ls_eloop s) sfd ELOOP_CALLBACK_READ =
      Some (Server_incoming (ts_addr (hs_tcp_server (sw_server (ls_world s)))))"
    and x: "sw_rest (ls_world s) = (rcv, ns)" "\<not> k_open (ls_kernel s) (9 + int (length ns))"
    and bound: "hello_bound 2 ''Hello world!'' ''/'' router"
  shows "\<exists>hc0 hc s0 s'. fire router (get_parser False) two_peers ''RApp-dev'' sg
       (Server_incoming (ts_addr (hs_tcp_server (sw_server (ls_world s))))) sfd s = Some s0 \<and>
     accepts_new two_peers (Server_incoming (ts_addr (hs_tcp_server (sw_server (ls_world s))))) sfd s \<and>
     beside s hc0 s0 \<and> conn_fd hc0 = 9 + int (length ns) \<and>
     fire router (get_parser False) two_peers ''RApp-dev'' sg (Connection_ready_read (conn_tcp hc0)) (conn_fd hc0) s0 = Some s' \<and>
     beside s hc s' \<and> resp_contents (hc_response hc) = hello_page \<and> resp_is_last (hc_response hc) \<noteq> 0 \<and>
     conn_fd hc = 9 + int (length ns) \<and> sw_rest (ls_world s') = (rcv, 0 # ns)"
proof -
  have acc: "so_accept two_peers sfd (sw_rest (ls_world s)) = (Io_done (9 + int (length ns)), (rcv, 0 # ns))"
    by (simp add: two_peers_def x(1))
  have new: "accepts_new two_peers (Server_incoming (ts_addr (hs_tcp_server (sw_server (ls_world s))))) sfd s"
    using acc x(2) by (simp add: accepts_new_def)
  from accepted_beside[OF inv acc _ x(2), of router "get_parser False" "''RApp-dev''" sg] obtain hc0 s0 where s0:
    "fire router (get_parser False) two_peers ''RApp-dev'' sg
       (Server_incoming (ts_addr (hs_tcp_server (sw_server (ls_world s))))) sfd s = Some s0" "beside s hc0 s0"
    "conn_fd hc0 = 9 + int (length ns)" "hc_request_queue hc0 = new_queue (get_parser False) (hc_addr hc0)"
    "hc_response hc0 = new_response ''RApp-dev''" "sw_rest (ls_world s0) = (rcv, 0 # ns)" by auto
  have recv: "so_recv two_peers (conn_fd hc0) BUFSIZE (sw_rest (ls_world s0)) = (Io_done get_root, (rcv, 0 # ns))"
    by (simp add: two_peers_def s0(6))
  from page_read[OF s0(2,4,5) recv bound, of "''RApp-dev''" sg] s0(1-3) new show ?thesis by force
qed

text \<open>The first client's request has been read when the second comes in.\<close>

lemma second_client_between:
  "\<exists>pg s0 hc hc2 s1.
     main_start peers_world None hello_container ''::1'' 8080 \<lparr>sg_blocked = {}, sg_reported = {}\<rparr> ([], []) only_std mem0 = Some pg \<and>
     router_keeps (pg_router pg) \<and> router_quiet fst (pg_router pg) \<and> server_inv s0 \<and> sw_conns (ls_world s0) = [hc] \<and>
     scheduled (ls_eloop s0) = [] \<and> conn_fd hc = 9 \<and> resp_contents (hc_response hc) = hello_page \<and>
     resp_is_last (hc_response hc) \<noteq> 0 \<and> fst (sw_rest (ls_world s0)) = [] \<and>
     written_among (pg_router pg) (get_parser False) two_peers ''RApp-dev''
       (run_signal (mw_read_signal peers_world) (pg_signals pg)) (conn_tcp hc) [] s0 s1 \<and>
     sw_conns (ls_world s1) = [hc2, hc] \<and> resp_contents (hc_response hc2) = hello_page"
proof -
  obtain pg where pg:
    "main_start peers_world None hello_container ''::1'' 8080 \<lparr>sg_blocked = {}, sg_reported = {}\<rparr> ([], []) only_std mem0 = Some pg"
    "hello_waits (k_open only_std) (blocks mem0) peers_world pg
       ((pg_state pg)\<lparr>ls_eloop := (ls_eloop (pg_state pg))\<lparr>el_running := True\<rparr>\<rparr>)"
    "sw_rest (ls_world (pg_state pg)) = ([], [])" "hello_bound 2 ''Hello world!'' ''/'' (pg_router pg)"
    "router_keeps (pg_router pg)" "router_quiet fst (pg_router pg)"
    using peers_started by blast
  let ?s = "(pg_state pg)\<lparr>ls_eloop := (ls_eloop (pg_state pg))\<lparr>el_running := True\<rparr>\<rparr>" and ?sock = "sys_socket (mw_listen peers_world)"
  let ?sg = "run_signal (mw_read_signal peers_world) (pg_signals pg)"
  have s: "server_inv ?s" "scheduled (ls_eloop ?s) = []" "el_running (ls_eloop ?s)" "sw_conns (ls_world ?s) = []"
    "watches (ls_eloop ?s) ?sock ELOOP_CALLBACK_READ = Some (Server_incoming (ts_addr (hs_tcp_server (sw_server (ls_world ?s)))))"
    "\<not> k_open (ls_kernel ?s) 9" "\<not> k_open (ls_kernel ?s) 10" "?sock \<noteq> 9" "sw_rest (ls_world ?s) = ([], [])"
    using pg(2,3) peers_world_facts(12)[of 9] peers_world_facts(12)[of 10] unfolding hello_waits_def Let_def by simp_all
  have "\<not> k_open (ls_kernel ?s) (9 + int (length ([] :: nat list)))" using s(6) by simp
  from client_arrives[OF s(1-3,5,9) this pg(4), of ?sg] obtain hc s0 where a:
    "beside ?s hc s0" "resp_contents (hc_response hc) = hello_page" "resp_is_last (hc_response hc) \<noteq> 0"
    "conn_fd hc = 9" "sw_rest (ls_world s0) = ([], [0])" by auto
  have s0: "server_inv s0" "scheduled (ls_eloop s0) = []" "el_running (ls_eloop s0)" "sw_conns (ls_world s0) = [hc]"
    "watches (ls_eloop s0) ?sock ELOOP_CALLBACK_READ = Some (Server_incoming (ts_addr (hs_tcp_server (sw_server (ls_world s0)))))"
    "\<not> k_open (ls_kernel s0) (9 + int (length [0 :: nat]))"
    using a(1,4) s(4,5,7,8) by (simp_all add: beside_def)
  let ?step = "others_step (pg_router pg) (get_parser False) two_peers ''RApp-dev'' ?sg (conn_tcp hc)"
  from client_arrives[OF s0(1-3,5) a(5) s0(6) pg(4), of ?sg] obtain hc0 hc2 t s1 where b:
    "fire (pg_router pg) (get_parser False) two_peers ''RApp-dev'' ?sg
       (Server_incoming (ts_addr (hs_tcp_server (sw_server (ls_world s0))))) ?sock s0 = Some t"
    "accepts_new two_peers (Server_incoming (ts_addr (hs_tcp_server (sw_server (ls_world s0))))) ?sock s0"
    "beside s0 hc0 t"
    "fire (pg_router pg) (get_parser False) two_peers ''RApp-dev'' ?sg (Connection_ready_read (conn_tcp hc0)) (conn_fd hc0) t = Some s1"
    "beside s0 hc2 s1" "resp_contents (hc_response hc2) = hello_page"
    by (elim exE conjE) (rule that, assumption+)
  have "tcp_of (Server_incoming (ts_addr (hs_tcp_server (sw_server (ls_world s0))))) \<noteq> Some (conn_tcp hc)" by simp
  from others_step.callback[OF s0(5) b(2) this b(1)] have one: "?step s0 t" .
  have "sw_conns (ls_world t) = [hc0, hc]" "server_inv t" using b(3) s0(4) by (simp_all add: beside_def)
  then have other: "tcp_of (Connection_ready_read (conn_tcp hc0)) \<noteq> Some (conn_tcp hc)"
    by (auto simp: server_inv_def world_inv_def)
  have w: "watches (ls_eloop t) (conn_fd hc0) ELOOP_CALLBACK_READ = Some (Connection_ready_read (conn_tcp hc0))"
    using besideD(7)[OF b(3)] by (simp add: http_registered_read_write)
  have "accepts_new two_peers (Connection_ready_read (conn_tcp hc0)) (conn_fd hc0) t" by (simp add: accepts_new_def)
  from others_step.callback[OF w this other b(4)] have two: "?step t s1" .
  have "sw_conns (ls_world s1) = [hc2, hc]" "fst (sw_rest (ls_world s0)) = []" using b(5) s0(4) a(5) by (simp_all add: beside_def)
  with written_among.others[OF written_among.others[OF written_among.start one] two] pg(1,5,6) s0(1,2,4) a(2-4) b(6)
  show ?thesis by blast
qed

theorem delivered_among_others_witness:
  "\<exists>pg s0 hc hc2 s1 s2 s3.
     main_start peers_world None hello_container ''::1'' 8080 \<lparr>sg_blocked = {}, sg_reported = {}\<rparr> ([], []) only_std mem0 = Some pg \<and>
     written_among (pg_router pg) (get_parser False) two_peers ''RApp-dev''
       (run_signal (mw_read_signal peers_world) (pg_signals pg)) (conn_tcp hc) [] s0 s1 \<and>
     sw_conns (ls_world s0) = [hc] \<and> sw_conns (ls_world s1) = [hc2, hc] \<and> resp_contents (hc_response hc2) = hello_page \<and>
     main_fire peers_world pg (Connection_ready_write (conn_tcp hc)) 9 s1 = Some s2 \<and>
     main_fire peers_world pg (Connection_ready_write (conn_tcp hc)) 9 s2 = Some s3 \<and>
     \<not> k_open (ls_kernel s3) 9 \<and> fst (sw_rest (ls_world s3)) = hello_page"
proof -
  obtain pg s0 hc hc2 s1 where a:
    "main_start peers_world None hello_container ''::1'' 8080 \<lparr>sg_blocked = {}, sg_reported = {}\<rparr> ([], []) only_std mem0 = Some pg"
    "router_keeps (pg_router pg)" "router_quiet fst (pg_router pg)" "server_inv s0" "sw_conns (ls_world s0) = [hc]"
    "scheduled (ls_eloop s0) = []" "conn_fd hc = 9" "resp_contents (hc_response hc) = hello_page"
    "resp_is_last (hc_response hc) \<noteq> 0" "fst (sw_rest (ls_world s0)) = []"
    "written_among (pg_router pg) (get_parser False) two_peers ''RApp-dev''
       (run_signal (mw_read_signal peers_world) (pg_signals pg)) (conn_tcp hc) [] s0 s1"
    "sw_conns (ls_world s1) = [hc2, hc]" "resp_contents (hc_response hc2) = hello_page"
    using second_client_between by (elim exE conjE) (rule that, assumption+)
  let ?sg = "run_signal (mw_read_signal peers_world) (pg_signals pg)"
  have peer: "peer_receives two_peers (conn_fd hc) fst" using two_peers_receive by (simp add: a(7))
  have sg: "signals_quiet fst ?sg" by (rule run_signal_quiet) (simp add: peers_world_facts)
  have own: "hc \<in> set (sw_conns (ls_world s0))" "0 \<le> conn_fd hc" "hc_addr hc \<notin> set (scheduled (ls_eloop s0))"
    by (simp_all add: a(5-7))
  note t = delivered_among_others[OF a(2,3) peer run_signal_only_stops sg a(4) own a(8)]
  have fired: "main_fire peers_world pg = fire (pg_router pg) (get_parser False) two_peers ''RApp-dev'' ?sg"
    by (simp add: main_fire_def peers_world_facts)
  from t[OF _ a(11)] a(7) obtain s2 where s2: "watches (ls_eloop s1) 9 ELOOP_CALLBACK_WRITE = Some (Connection_ready_write (conn_tcp hc))"
    "fire (pg_router pg) (get_parser False) two_peers ''RApp-dev'' ?sg (Connection_ready_write (conn_tcp hc)) 9 s1 = Some s2"
    by (auto simp: BUFSIZE_pos)
  let ?n = "taken_next two_peers (conn_tcp hc) s1"
  have n: "?n = length hello_page" using a(8,12,13) hello_page_length
    by (simp add: taken_next_def find_connection_def two_peers_def case_prod_unfold)
  have len: "length ([] @ [?n]) * BUFSIZE < length hello_page + BUFSIZE" "length hello_page \<le> length ([] @ [?n]) * BUFSIZE"
    using hello_page_length by simp_all
  from t[OF len(1) written_among.written[OF a(11) s2]] len(2) a(7,9,10) n obtain s3 where s3:
    "fire (pg_router pg) (get_parser False) two_peers ''RApp-dev'' ?sg (Connection_ready_write (conn_tcp hc)) 9 s2 = Some s3"
    "\<not> k_open (ls_kernel s3) 9" "fst (sw_rest (ls_world s3)) = hello_page" by auto
  have main: "main_fire peers_world pg (Connection_ready_write (conn_tcp hc)) 9 s1 = Some s2"
    "main_fire peers_world pg (Connection_ready_write (conn_tcp hc)) 9 s2 = Some s3"
    using s2(2) s3(1) by (simp_all add: fired)
  show ?thesis by (intro exI conjI) (rule a(1,5,11-13) main s3(2,3))+
qed

end
