(* ===== verification/Accept_Failures.thy ===== *)
theory Accept_Failures
  imports Http_Server
begin

text \<open>
  Accepting a client when memory runs out (\<open>on_incoming_connection\<close> of \<open>src/tcpserver.c\<close>,
  \<open>on_accept\<close> of \<open>src/httpserver.c\<close>, \<open>http_connection_new\<close> of \<open>src/httpconnection.c\<close>).  Five
  blocks are asked for, in this order: the TCP connection, the HTTP connection, its request queue, its
  response, and the entry of the loop.  The number \<open>n\<close> of requests answered before the one that fails decides
  what is left behind.
\<close>

lemma unwatched_not_found:
  assumes "loop_inv el k m" "watches el fd = (\<lambda>_. None)"
  shows "find_callback_by_fd el fd = None"
proof (rule ccontr)
  assume "find_callback_by_fd el fd \<noteq> None"
  then obtain e where "find_callback_by_fd el fd = Some e" by blast
  from loop_inv_entry[OF assms(1) this] watched_fds[OF assms(1)] assms(2) show False by auto
qed

text \<open>The first block: the connection is refused.\<close>

lemma no_tcp_connection:
  assumes "answers m = False # rest" "so_accept so sfd x = (Io_done fd, x')" "0 \<le> fd"
  shows "on_incoming_connection so call sfd server (w, el, k, x, m) =
    Some (-1, w, el, close_fd fd k, x', m\<lparr>answers := rest\<rparr>)"
  using assms by (simp add: on_incoming_connection_def tcp_connection_with_fd_def memory_create_def take_answer_def)

text \<open>The next three: \<open>http_connection_new\<close> releases what it took.\<close>

lemma no_http_connection:
  assumes "answers m = replicate n True @ False # rest" "n < 3"
  shows "\<exists>m'. http_connection_new lib banner tcp el k m = Some (None, el, k, m') \<and>
    answers m' = rest \<and> blocks m' = blocks m \<and> fresh m \<le> fresh m'"
proof -
  have "n = 0 \<or> n = 1 \<or> n = 2" using assms(2) by auto
  then show ?thesis
    using assms(1)
    by (elim disjE) (simp_all add: http_connection_new_def http_request_queue_new_def http_response_new_def
        memory_create_def take_answer_def memory_destroy_def numeral_2_eq_2)
qed

text \<open>The last: the connection is made, but \<open>tcp_connection_set_callbacks\<close> fails at its first watch.\<close>

lemma no_loop_entry:
  assumes "answers m = replicate 3 True @ False # rest" "find_callback_by_fd el (tc_fd tcp) = None"
    and "0 \<le> tc_fd tcp"
  shows "\<exists>hc m'. http_connection_new lib banner tcp el k m = Some (Some hc, el, k, m') \<and>
    hc_tcp_connection hc = tcp \<and> answers m' = rest \<and> blocks m' = blocks m + 3 \<and> fresh m \<le> fresh m'"
  using assms
  by (simp add: http_connection_new_def http_request_queue_new_def http_response_new_def
      memory_create_def take_answer_def numeral_3_eq_3 tcp_connection_set_callbacks_def watch_if_def
      event_loop_add_fd_watch_def)

text \<open>What \<open>on_incoming_connection\<close> leaves behind: the connections it made, whether the descriptor stays open, and
  the blocks nobody will release.\<close>

definition made_connections :: "nat \<Rightarrow> nat" where
  "made_connections n = (if n = 4 then 1 else 0)"

definition kept_blocks :: "nat \<Rightarrow> int" where
  "kept_blocks n = (if n = 0 then 0 else if n = 4 then 4 else 1)"

lemma incoming_without_memory:
  fixes conns :: "'ps connection list" and el :: "free_func loop"
  assumes inv: "loop_inv el k m"
    and mem: "answers m = replicate n True @ False # rest" "n < 5"
    and acc: "so_accept so sfd x = (Io_done fd, x')" "0 \<le> fd" "watches el fd = (\<lambda>_. None)"
    and cb: "ts_accept_callback server = Some Http_on_accept" "ts_data server = Some d"
  shows "\<exists>ret new k' m'. on_incoming_connection so (on_accept lib banner) sfd server (conns, el, k, x, m) =
      Some (ret, new @ conns, el, k', x', m') \<and>
    length new = made_connections n \<and> (\<forall>hc \<in> set new. tc_fd (hc_tcp_connection hc) = fd \<and>
      tc_close_callback (hc_tcp_connection hc) = None) \<and>
    k_open k' = (k_open k)(fd := n \<noteq> 0) \<and> answers m' = rest \<and>
    blocks m' = blocks m + kept_blocks n \<and> loop_inv el k' m'"
proof (cases n)
  case 0
  have "loop_inv el (close_fd fd k) (m\<lparr>answers := rest\<rparr>)"
    using loop_inv_close[OF loop_inv_fresh[OF inv], of "m\<lparr>answers := rest\<rparr>" fd] acc(3) by simp
  moreover have "on_incoming_connection so (on_accept lib banner) sfd server (conns, el, k, x, m) =
      Some (-1, [] @ conns, el, close_fd fd k, x', m\<lparr>answers := rest\<rparr>)"
    using no_tcp_connection[OF _ acc(1,2)] mem(1) 0 by simp
  ultimately show ?thesis
    using 0 by (intro exI conjI) (assumption | simp add: made_connections_def kept_blocks_def close_fd_def)+
next
  case (Suc i)
  let ?tcp = "\<lparr>tc_addr = fresh m, tc_fd = fd, tc_read_callback = None, tc_write_callback = None,
      tc_close_callback = None, tc_data = None\<rparr> :: http_handler TcpConnection"
  let ?m = "m\<lparr>answers := replicate i True @ False # rest, fresh := Suc (fresh m), blocks := blocks m + 1\<rparr>"
  have tcp: "tcp_connection_with_fd fd m = Some (Some ?tcp, ?m)"
    using mem(1) Suc acc(2) by (simp add: tcp_connection_with_fd_def memory_create_def take_answer_def)
  have a: "answers ?m = replicate i True @ False # rest" by simp
  have kept: "loop_inv el (open_fd fd k) m'" if "fresh ?m \<le> fresh m'" for m'
    using loop_inv_fresh[OF loop_inv_open[OF inv], of m'] that by simp
  show ?thesis
  proof (cases "i < 3")
    case True
    from no_http_connection[OF a True, of lib banner ?tcp el "open_fd fd k"] obtain m' where
      "http_connection_new lib banner ?tcp el (open_fd fd k) ?m =
         Some (None :: 'ps connection option, el, open_fd fd k, m')"
      "answers m' = rest" "blocks m' = blocks m + 1" "fresh ?m \<le> fresh m'" by auto
    with kept acc(1) cb tcp Suc True show ?thesis
      by (intro exI[of _ 0] exI[of _ "[]"])
        (auto simp: on_incoming_connection_def on_accept_def made_connections_def kept_blocks_def open_fd_def)
  next
    case False
    then have i: "i = 3" using mem(2) Suc by simp
    have "find_callback_by_fd el (tc_fd ?tcp) = None" using unwatched_not_found[OF inv acc(3)] by simp
    from no_loop_entry[OF a[unfolded i] this, of lib banner "open_fd fd k"] acc(2) obtain hc m' where
      "http_connection_new lib banner ?tcp el (open_fd fd k) ?m =
         Some (Some (hc :: 'ps connection), el, open_fd fd k, m')"
      "hc_tcp_connection hc = ?tcp" "answers m' = rest" "blocks m' = blocks m + 4" "fresh ?m \<le> fresh m'"
      unfolding i by auto
    with kept acc(1) cb tcp Suc i show ?thesis
      by (intro exI[of _ 0] exI[of _ "[http_connection_set_finish_callback on_request_finish hc]"])
        (auto simp: on_incoming_connection_def on_accept_def made_connections_def kept_blocks_def open_fd_def
          http_connection_set_finish_callback_def)
  qed
qed

text \<open>
  C23: When one of the five allocations of accepting a client fails, the server goes on, and what it has done is
  decided by which one it was.  Without a TCP connection the client is closed and nothing is left.  Without
  an HTTP connection, a request queue or a response the client stays open and the TCP connection stays
  allocated, though nothing in the program refers to them any more.  Without an entry in the loop the connection is
  made, but no callback is registered for it: it is open and is never read, answered or closed.
\<close>

theorem accept_out_of_memory:
  fixes s :: "('ps, 'x) server_state"
  assumes "loop_inv (ls_eloop s) (ls_kernel s) (ls_mem s)"
    and "answers (ls_mem s) = replicate n True @ False # rest" "n < 5"
    and "so_accept so sfd (sw_rest (ls_world s)) = (Io_done fd, x)" "0 \<le> fd"
    and "watches (ls_eloop s) fd = (\<lambda>_. None)"
    and "ts_accept_callback (hs_tcp_server (sw_server (ls_world s))) = Some Http_on_accept"
    and "ts_data (hs_tcp_server (sw_server (ls_world s))) = Some d"
  shows "\<exists>s' new. fire router lib so banner on_signal
        (Server_incoming (ts_addr (hs_tcp_server (sw_server (ls_world s))))) sfd s = Some s' \<and>
     sw_conns (ls_world s') = new @ sw_conns (ls_world s) \<and> length new = made_connections n \<and>
     (\<forall>hc \<in> set new. tc_fd (hc_tcp_connection hc) = fd \<and> tc_close_callback (hc_tcp_connection hc) = None) \<and>
     ls_eloop s' = ls_eloop s \<and> k_open (ls_kernel s') = (k_open (ls_kernel s))(fd := n \<noteq> 0) \<and>
     blocks (ls_mem s') = blocks (ls_mem s) + kept_blocks n \<and> answers (ls_mem s') = rest \<and>
     loop_inv (ls_eloop s') (ls_kernel s') (ls_mem s')"
proof -
  let ?server = "hs_tcp_server (sw_server (ls_world s))"
  from incoming_without_memory[OF assms, of lib banner "sw_conns (ls_world s)"]
  obtain ret new k' m' where r: "on_incoming_connection so (on_accept lib banner) sfd ?server
      (sw_conns (ls_world s), ls_eloop s, ls_kernel s, sw_rest (ls_world s), ls_mem s) =
      Some (ret, new @ sw_conns (ls_world s), ls_eloop s, k', x, m')"
    "length new = made_connections n"
    "\<forall>hc \<in> set new. tc_fd (hc_tcp_connection hc) = fd \<and> tc_close_callback (hc_tcp_connection hc) = None"
    "k_open k' = (k_open (ls_kernel s))(fd := n \<noteq> 0)" "answers m' = rest"
    "blocks m' = blocks (ls_mem s) + kept_blocks n" "loop_inv (ls_eloop s) k' m'"
    by (elim exE conjE) (rule that, assumption+)
  have "fire router lib so banner on_signal (Server_incoming (ts_addr ?server)) sfd s =
      Some (s\<lparr>ls_kernel := k', ls_mem := m',
              ls_world := (ls_world s)\<lparr>sw_conns := new @ sw_conns (ls_world s), sw_rest := x\<rparr>\<rparr>)"
    using r(1) by (simp add: fire_def)
  with r(2-7) show ?thesis by (intro exI conjI) (assumption | simp)+
qed

definition starved :: "nat \<Rightarrow> (unit, nat) server_state" where
  "starved n = listening\<lparr>ls_mem := (ls_mem listening)\<lparr>answers := replicate n True @ [False]\<rparr>\<rparr>"

lemma starved_simps:
  "loop_inv (ls_eloop (starved n)) (ls_kernel (starved n)) (ls_mem (starved n))"
  "answers (ls_mem (starved n)) = replicate n True @ False # []"
  "ls_eloop (starved n) = ls_eloop listening" "ls_world (starved n) = ls_world listening"
  "blocks (ls_mem (starved n)) = 0"
proof -
  show "loop_inv (ls_eloop (starved n)) (ls_kernel (starved n)) (ls_mem (starved n))"
    by (rule loop_inv_fresh[of _ _ "ls_mem listening"])
      (use listening_simps(1) in \<open>simp_all add: starved_def\<close>)
qed (simp_all add: starved_def listening_def)

theorem accept_out_of_memory_witness:
  "\<exists>s. fire null_router silent_parser one_client ''RApp'' (\<lambda>a fd s. None) (Server_incoming 2) 4 (starved 2) = Some s \<and>
     sw_conns (ls_world s) = [] \<and> k_open (ls_kernel s) 9 \<and> watches (ls_eloop s) 9 = (\<lambda>_. None) \<and>
     blocks (ls_mem s) = 1"
proof -
  have "so_accept one_client 4 (sw_rest (ls_world (starved 2))) = (Io_done 9, 1)"
    "watches (ls_eloop (starved 2)) 9 = (\<lambda>_. None)"
    "ts_accept_callback (hs_tcp_server (sw_server (ls_world (starved 2)))) = Some Http_on_accept"
    "ts_data (hs_tcp_server (sw_server (ls_world (starved 2)))) = Some 1"
    by (simp_all add: starved_simps(3,4) listening_simps)
  from accept_out_of_memory[OF starved_simps(1,2) _ this(1) _ this(2-4), of null_router silent_parser
      "''RApp''" "\<lambda>a fd s. None"]
  show ?thesis
    by (auto simp: starved_simps(3-5) listening_simps made_connections_def kept_blocks_def)
qed

end
