(* ===== verification/Config_Balance.thy ===== *)
theory Config_Balance
  imports Config_Sources
begin

text \<open>
  What reading the configuration costs: every source of values (\<open>src/config/commandline.c\<close>,
  \<open>src/config/env.c\<close>, \<open>src/config/yaml.c\<close>) takes blocks only for the values it stores, so that destroying the
  store afterwards releases them all.  The one exception is the copy of a key a file names and its section
  does not have, which is lost; it ends the reading, so it happens once at most.  The objects of the C library are
  counted beside them: the patterns compiled for the texts of boolean options are not released, and neither are the
  entries of a directory when one of its files cannot be read.
\<close>

section \<open>Accounts\<close>

text \<open>The blocks that are not the store's.\<close>

definition outside :: "RappConfig \<Rightarrow> mem \<Rightarrow> int" where
  "outside conf m = blocks m - config_owned conf"

definition same_table :: "RappConfig \<Rightarrow> RappConfig \<Rightarrow> bool" where
  "same_table conf conf' \<longleftrightarrow> argp_of conf' = argp_of conf"

text \<open>
  \<open>ret\<close> is the result: only a failure may cost a block.  Of the C library's objects a success costs some only when
  there are boolean options.
\<close>

definition accounted :: "RappConfig \<Rightarrow> mem \<Rightarrow> int \<Rightarrow> RappConfig \<Rightarrow> mem \<Rightarrow> bool" where
  "accounted conf m ret conf' m' \<longleftrightarrow> config_wf conf' \<and> same_table conf conf' \<and>
     (answers m = [] \<longrightarrow> answers m' = []) \<and>
     (outside conf' m' = outside conf m \<or> ret \<noteq> 0 \<and> outside conf' m' = outside conf m + 1) \<and>
     types_in (cf_sections conf') = types_in (cf_sections conf) \<and> lib_blocks m \<le> lib_blocks m' \<and>
     (ret = 0 \<and> \<not> has_boolean conf \<longrightarrow> lib_blocks m' = lib_blocks m)"

lemma accounted_refl [simp]: "accounted conf m ret conf m \<longleftrightarrow> config_wf conf"
  by (simp add: accounted_def same_table_def)

lemma accounted_trans [trans]:
  "accounted conf m 0 conf1 m1 \<Longrightarrow> accounted conf1 m1 ret conf' m' \<Longrightarrow> accounted conf m ret conf' m'"
  by (auto simp: accounted_def same_table_def has_boolean_def)

lemma accounted_wf: "accounted conf m ret conf' m' \<Longrightarrow> config_wf conf'"
  by (simp add: accounted_def)

lemma accounted_failure: "accounted conf m ret conf' m' \<Longrightarrow> ret' \<noteq> 0 \<or> ret = 0 \<Longrightarrow> accounted conf m ret' conf' m'"
  by (auto simp: accounted_def)

lemma accounted_put:
  assumes "config_wf conf" "valid_ref conf r" "balanced_option (opt_at conf r) m opt m'"
  shows "accounted conf m ret (put_opt r opt conf) m'"
  using assms has_boolean_at[OF assms(2)]
  by (auto simp: accounted_def same_table_def outside_def balanced_option_def lib_change_def put_opt_wf put_opt_owned
      types_in_put)

text \<open>Objects of the library that are there all the time make no difference.\<close>

lemma accounted_shift:
  "accounted conf m ret conf' m' \<Longrightarrow> accounted conf (lib_free k m) ret conf' (lib_free k m')"
  by (simp add: accounted_def outside_def)

lemma accounted_left:
  "accounted conf m ret conf' m' \<Longrightarrow> ret \<noteq> 0 \<Longrightarrow> accounted conf (lib_free k m) ret conf' m'"
  by (simp add: accounted_def outside_def)

section \<open>Sources\<close>

locale accounted_source = value_source source
  for source :: "RappConfig \<Rightarrow> mem \<Rightarrow> (int \<times> RappConfig \<times> mem) option" +
  assumes source_accounted: "config_wf conf \<Longrightarrow> source conf m = Some (ret, conf', m') \<Longrightarrow>
    accounted conf m ret conf' m'"

lemma read_env_accounted:
  assumes "config_wf conf" "config_read_env getenv conf m = (ret, conf', m')"
  shows "accounted conf m ret conf' m'"
  using read_env_keeps[OF assms] assms(2)
  by (auto simp: accounted_def outside_def same_table_def config_read_env_def split: prod.splits)

interpretation environment_account: accounted_source "\<lambda>conf m. Some (config_read_env getenv conf m)" for getenv
  by unfold_locales (simp add: read_env_accounted)

section \<open>Configuration files\<close>

text \<open>The ways one key can end.\<close>

lemma yaml_key_value_cases:
  assumes "yaml_parse_key_value i conf ts m = Some (ret, is_end, conf', m', ts')"
  shows "(answers m = [] \<longrightarrow> answers m' = []) \<and> conf' = conf \<and>
      lib_blocks m' = lib_blocks m \<and> (blocks m' = blocks m \<or> ret = 1 \<and> \<not> is_end \<and> blocks m' = blocks m + 1) \<or>
    (\<exists>nm j us m1 opt m2. lib_blocks m1 = lib_blocks m \<and> GET_OPTION_FROM_SECT (cf_sections conf ! i) nm = Some j \<and> blocks m1 = blocks m + 1 \<and>
       (answers m = [] \<longrightarrow> answers m1 = []) \<and>
       yaml_parse_value (opt_at conf (i, j)) us m1 = Some (ret, opt, m2, ts') \<and> conf' = put_opt (i, j) opt conf \<and>
       m' = memory_destroy (Some nm) m2)"
proof -
  have destroyed: "blocks (memory_destroy (Some x) m) = blocks m - 1" "lib_blocks (memory_destroy (Some x) m) = lib_blocks m"
    "answers (memory_destroy (Some x) m) = answers m" for x :: string and m
    by (simp_all add: memory_destroy_def)
  obtain name m1 where s: "memory_strdup (scalar_value (fst (yaml_parser_scan (if fst (yaml_parser_scan ts) = YAML_FLOW_ENTRY_TOKEN
        then snd (yaml_parser_scan (snd (yaml_parser_scan ts))) else snd (yaml_parser_scan ts))))) m = (name, m1)"
    by fastforce
  have b: "blocks m1 = blocks m + opt_bit name"
    using s by (cases name) (auto simp: opt_bit_def mem_simps)
  have ans: "answers m = [] \<longrightarrow> answers m1 = []" "lib_blocks m1 = lib_blocks m" using s lib_kept(2)[OF s] by auto
  show ?thesis
  proof (cases name)
    case None
    with assms s b ans show ?thesis
      by (auto simp: yaml_parse_key_value_def Let_def opt_bit_def split: prod.splits if_splits)
  next
    case (Some nm)
    with b have b1: "blocks m1 = blocks m + 1" by (simp add: opt_bit_def)
    show ?thesis
      using assms s b1 ans destroyed unfolding Some
      by (auto simp: yaml_parse_key_value_def Let_def split: prod.splits if_splits option.splits Option.bind_splits;
          blast)
  qed
qed

lemma yaml_key_value_accounted:
  assumes wf: "config_wf conf" and i: "i < length (cf_sections conf)"
    and res: "yaml_parse_key_value i conf ts m = Some (ret, is_end, conf', m', ts')"
  shows "accounted conf m (if is_end then 0 else ret) conf' m'"
  using yaml_key_value_cases[OF res]
proof (elim disjE exE conjE, goal_cases)
  case (1)
  with wf show ?case by (simp add: accounted_def same_table_def outside_def)
next
  case (2)
  with wf show ?case by (simp add: accounted_def same_table_def outside_def)
next
  case r: (3 nm j us m1 opt m2)
  have v: "valid_ref conf (i, j)"
    using r(2) i by (auto simp: valid_ref_def GET_OPTION_FROM_SECT_def dest: index_of_Some)
  have "balanced_option (opt_at conf (i, j)) m opt m'"
    using yaml_value_keeps[OF opt_at_wf[OF wf v] r(5)] r(1,3,4,7)
    by (auto simp: balanced_option_def lib_change_def memory_destroy_def)
  with r(6) wf v show ?case by (simp add: accounted_put)
qed

lemma yaml_section_loop_accounted:
  assumes loop: "yaml_section_loop i conf ts m = Some res"
  shows "config_wf conf \<longrightarrow> i < length (cf_sections conf) \<longrightarrow>
    accounted conf m (fst res) (fst (snd res)) (fst (snd (snd res)))"
proof (rule yaml_section_loop.raw_induct
    [where P = "\<lambda>i conf ts m res. config_wf conf \<longrightarrow> i < length (cf_sections conf) \<longrightarrow>
       accounted conf m (fst res) (fst (snd res)) (fst (snd (snd res)))",
     OF _ loop], intro impI, goal_cases)
  case (1 f i conf ts m res)
  obtain ret is_end conf1 m1 ts1 where kv: "yaml_parse_key_value i conf ts m = Some (ret, is_end, conf1, m1, ts1)"
    using 1(2) by (cases "yaml_parse_key_value i conf ts m") auto
  have a: "accounted conf m (if is_end then 0 else ret) conf1 m1" by (rule yaml_key_value_accounted[OF 1(3,4) kv])
  show ?case
  proof (cases "ret = 0")
    case True
    then have rest: "f i conf1 ts1 m1 = Some res" using 1(2) kv by simp
    have "keeps_store conf conf1" by (rule yaml_key_value_keeps[OF 1(3,4) kv])
    then have "config_wf conf1" "i < length (cf_sections conf1)" using 1(4) by (simp_all add: keeps_store_def)
    with 1(1)[OF rest] a True show ?thesis by (auto intro: accounted_trans)
  next
    case False
    with 1(2) kv have "res = (if is_end then 0 else -1, conf1, m1, ts1)" by simp
    with a False show ?thesis by (auto intro: accounted_failure)
  qed
qed

lemma yaml_section_accounted:
  assumes "config_wf conf" "yaml_parse_section s conf ts m = Some (ret, conf', m', ts')"
  shows "accounted conf m ret conf' m'"
proof (cases "conf' = conf \<and> m' = m")
  case False
  obtain i us where "config_section_get conf s = Some i" "yaml_section_loop i conf us m = Some (ret, conf', m', ts')"
    using assms(2) False
    by (auto simp: yaml_parse_section_def Let_def split: prod.splits if_splits option.splits)
  with assms(1) show ?thesis
    using yaml_section_loop_accounted[of i conf us m] by (force simp: config_section_get_def dest: index_of_Some)
qed (simp add: assms(1))

lemma yaml_main_loop_accounted:
  assumes loop: "yaml_main_loop conf ts m = Some res"
  shows "config_wf conf \<longrightarrow> accounted conf m (fst res) (fst (snd res)) (snd (snd res))"
proof (rule yaml_main_loop.raw_induct
    [where P = "\<lambda>conf ts m res. config_wf conf \<longrightarrow> accounted conf m (fst res) (fst (snd res)) (snd (snd res))",
     OF _ loop], intro impI, goal_cases)
  case (1 f conf ts m res)
  obtain t us where t: "yaml_parser_scan ts = (t, us)" by fastforce
  obtain u vs where u: "yaml_parser_scan us = (u, vs)" by fastforce
  show ?case
  proof (cases "snd res = (conf, m)")
    case False
    obtain ret conf1 m1 ts1 where s: "yaml_parse_section (scalar_value u) conf vs m = Some (ret, conf1, m1, ts1)"
      "if ret \<noteq> 0 then res = (-1, conf1, m1) else f conf1 ts1 m1 = Some res"
      using 1(2) t u False by (auto split: if_splits option.splits)
    note a = yaml_section_accounted[OF 1(3) s(1)]
    show ?thesis
    proof (cases "ret = 0")
      case True
      with s(2) 1(1)[of conf1 ts1 m1] a show ?thesis by (auto intro: accounted_trans dest: accounted_wf)
    next
      case False
      with s(2) a show ?thesis by (auto intro: accounted_failure)
    qed
  qed (simp add: 1(3))
qed

lemma config_parse_accounted:
  assumes "config_wf conf" "config_parse yw path conf m = Some (ret, conf', m')"
  shows "accounted conf m ret conf' m'"
proof -
  have "accounted conf m ret conf' m'" if "config_parse_main conf ts m = Some (ret, conf', m')" for ts
    using that assms(1) yaml_main_loop_accounted[of conf _ m "(ret, conf', m')"]
    by (auto simp: config_parse_main_def split: prod.splits if_splits)
  with assms show ?thesis by (auto simp: config_parse_def split: option.splits)
qed

text \<open>Beside the entries that are still there, and are released one by one.\<close>

lemma scan_entries_accounted:
  "scan_entries yw dir ext names conf m = Some (ret, conf', m') \<Longrightarrow> config_wf conf \<Longrightarrow>
     accounted conf (lib_free (length names) m) ret conf' m'"
proof (induction names arbitrary: conf m)
  case (Cons d ds)
  let ?k = "length ds + 1"
  show ?case
  proof (cases "endswith d ext = 0")
    case True
    obtain r conf1 m1 where p: "config_parse yw (snprintf (length dir + length d + 2) (dir @ ''/'' @ d)) conf m = Some (r, conf1, m1)"
      "if r \<noteq> 0 then (ret, conf', m') = (-1, conf1, m1)
       else scan_entries yw dir ext ds conf1 (lib_free 1 m1) = Some (ret, conf', m')"
      using Cons.prems(1) True by (auto simp: Let_def split: if_splits Option.bind_splits)
    note a = config_parse_accounted[OF Cons.prems(2) p(1)]
    show ?thesis
    proof (cases "r = 0")
      case r0: True
      then have rest: "scan_entries yw dir ext ds conf1 (lib_free 1 m1) = Some (ret, conf', m')" using p(2) by simp
      from accounted_shift[OF a, of ?k] Cons.IH[OF rest accounted_wf[OF a]] r0 show ?thesis
        by (auto intro: accounted_trans)
    next
      case False
      with p(2) have "accounted conf m ret conf' m'" using accounted_failure[OF a, of "-1"] by auto
      with False p(2) show ?thesis by (auto intro: accounted_left)
    qed
  next
    case False
    then show ?thesis using Cons.IH[of conf "lib_free 1 m"] Cons.prems by simp
  qed
qed simp

lemma scan_directory_accounted:
  assumes "config_wf conf" "config_scan_directory yw dir ext conf m = Some (ret, conf', m')"
  shows "accounted conf m ret conf' m'"
proof (cases "yw_scandir yw dir")
  case (Some names)
  obtain m1 where scan: "scan_entries yw dir (case ext of None \<Rightarrow> ''.yaml'' | Some e \<Rightarrow> e) names conf
      (lib_alloc (1 + length names) m) = Some (ret, conf', m1)" "m' = lib_free 1 m1"
    using assms(2) Some by (auto simp: config_scan_directory_def)
  have "lib_free 1 (lib_free (length names) (lib_alloc (1 + length names) m)) = m"
    by (simp del: One_nat_def)
  with accounted_shift[OF scan_entries_accounted[OF scan(1) assms(1)], of 1] scan(2) show ?thesis by simp
qed (use assms in \<open>simp add: config_scan_directory_def\<close>)

text \<open>The copy of a path is released whatever the file did.\<close>

lemma get_string_blocks:
  assumes "rapp_config_get_nth_string conf s n i m = Some (ret, v, m')"
  shows "blocks m' = blocks m + opt_bit v" "ret \<noteq> 0 \<Longrightarrow> v = None" "answers m = [] \<Longrightarrow> answers m' = []"
    "lib_blocks m' = lib_blocks m"
  using assms
  by (auto simp: rapp_config_get_nth_string_def Let_def opt_bit_def mem_simps dest: lib_kept
      split: if_splits option.splits config_default.splits config_value.splits prod.splits)

locale accounted_paths = path_source parse
  for parse :: "string \<Rightarrow> RappConfig \<Rightarrow> mem \<Rightarrow> (int \<times> RappConfig \<times> mem) option" +
  assumes each_accounted: "accounted_source (parse path)"
begin

lemma read_paths_accounted:
  "read_paths parse name is conf m = Some (ret, conf', m') \<Longrightarrow> config_wf conf \<Longrightarrow> accounted conf m ret conf' m'"
proof (induction "is" arbitrary: conf m)
  case (Cons i "is")
  obtain r confpath m1 where n: "rapp_config_get_nth_string conf ''core'' name (int i) m = Some (r, confpath, m1)"
    using Cons.prems(1) by (auto split: Option.bind_splits)
  note b = get_string_blocks[OF n]
  show ?case
  proof (cases "r = 0")
    case True
    obtain path res conf1 m2 where p: "confpath = Some path" "parse path conf m1 = Some (res, conf1, m2)"
      "if res \<noteq> 0 then (ret, conf', m') = (1, conf1, memory_destroy confpath m2)
       else read_paths parse name is conf1 (memory_destroy confpath m2) = Some (ret, conf', m')"
      using Cons.prems(1) n True by (auto simp: Let_def split: Option.bind_splits if_splits)
    have "accounted conf m1 res conf1 m2"
      using accounted_source.source_accounted[OF each_accounted Cons.prems(2) p(2)] .
    then have a: "accounted conf m res conf1 (memory_destroy confpath m2)"
      using b(1,3,4) p(1) by (auto simp: accounted_def outside_def opt_bit_def memory_destroy_def)
    show ?thesis
    proof (cases "res = 0")
      case r0: True
      with p(3) Cons.IH[of conf1 "memory_destroy confpath m2"] a show ?thesis
        by (auto intro: accounted_trans dest: accounted_wf)
    next
      case False
      with p(3) a show ?thesis by (auto intro: accounted_failure)
    qed
  next
    case False
    with Cons.prems n b show ?thesis by (simp add: accounted_def same_table_def outside_def opt_bit_def)
  qed
qed simp

end

interpretation file_account: accounted_paths "config_parse yw" for yw
  by unfold_locales (auto intro: config_parse_keeps config_parse_accounted)

interpretation directory_account: accounted_paths "\<lambda>path. config_scan_directory yw path ext" for yw ext
  by unfold_locales (auto intro: scan_directory_keeps scan_directory_accounted)

lemma read_files_accounted:
  assumes "config_wf conf" "read_files yw conf m = Some (ret, conf', m')"
  shows "accounted conf m ret conf' m'"
proof -
  obtain num where num: "snd (rapp_config_get_num_values conf ''core'' ''confd'') = Some num"
    using assms(2) by (auto simp: read_files_def split: Option.bind_splits)
  let ?dirs = "read_paths (\<lambda>path. config_scan_directory yw path (Some ''.yaml'')) ''confd'' [0..<nat num] conf m"
  obtain r conf1 m1 where dirs: "?dirs = Some (r, conf1, m1)"
    using assms(2) num by (cases ?dirs) (auto simp: read_files_def)
  note a = directory_account.read_paths_accounted[OF dirs assms(1)]
  show ?thesis
  proof (cases "r = 0")
    case True
    obtain n where "read_paths (config_parse yw) ''config'' [0..<n] conf1 m1 = Some (ret, conf', m')"
      using assms(2) num dirs True by (auto simp: read_files_def Let_def)
    from file_account.read_paths_accounted[OF this accounted_wf[OF a]] a True show ?thesis
      by (auto intro: accounted_trans)
  next
    case False
    with assms(2) num dirs have "(ret, conf', m') = (r, conf1, m1)" by (simp add: read_files_def)
    with a show ?thesis by simp
  qed
qed

interpretation files_account: accounted_source "read_files yw" for yw
  by unfold_locales (rule read_files_accounted)

section \<open>The command line\<close>

lemma parse_key_accounted:
  assumes inv: "parsing mp num conf" and res: "parse_commandline_opt key arg (conf, m) = Some (ret, conf', m')"
  shows "accounted conf m 0 conf' m'"
proof (cases "conf' = conf \<and> m' = m")
  case True
  then show ?thesis using inv by (simp add: parsing_def)
next
  case False
  let ?n = "nat (key - ARG_INDEX_OFFSET)"
  obtain r v ret1 opt where c: "?n < length mp" "mp ! ?n = Some r"
    "config_add_value_from_string v (opt_at conf r) m = (ret1, opt, m')"
    "conf' = put_opt r opt conf \<or> conf' = put_opt r (opt\<lparr>opt_no_override := True\<rparr>) conf"
    using res False inv
    by (auto simp: parse_commandline_opt_def parsing_def Let_def split: if_splits option.splits prod.splits)
  have "Some r \<in> set mp" using c(1,2) nth_mem by metis
  then have v: "valid_ref conf r" and wf: "config_wf conf" using inv unfolding parsing_def by blast+
  have b: "balanced_option (opt_at conf r) m opt m'" by (rule text_balanced[OF opt_at_wf[OF wf v] c(3)])
  then have "balanced_option (opt_at conf r) m (opt\<lparr>opt_no_override := True\<rparr>) m'" by (simp add: balanced_option_def)
  with b c(4) accounted_put[OF wf v] show ?thesis by blast
qed

lemma parse_keys_accounted:
  "argp_run fl parse_commandline_opt es (conf, m) = Some (res, conf', m') \<Longrightarrow> parsing mp num conf \<Longrightarrow>
     accounted conf m 0 conf' m'"
proof (induction es arbitrary: conf m rule: event_keys.induct)
  case Cons: (2 key arg es)
  obtain r1 conf1 m1 where k: "parse_commandline_opt key arg (conf, m) = Some (r1, conf1, m1)"
    using Cons.prems(1) by (auto split: Option.bind_splits)
  note a = parse_key_accounted[OF Cons.prems(2) k]
  show ?case
  proof (cases "r1 = 0")
    case True
    then have "argp_run fl parse_commandline_opt es (conf1, m1) = Some (res, conf', m')"
      using Cons.prems(1) k by simp
    from Cons.IH[OF this] parse_key_keeps[OF Cons.prems(2) k] a show ?thesis by (blast intro: accounted_trans)
  next
    case False
    then have "conf' = conf1 \<and> m' = m1" using Cons.prems(1) k by simp
    with a show ?thesis by simp
  qed
qed (simp_all add: parsing_def)

text \<open>What the generated table owns: its two arrays, and the texts of its entries.\<close>

definition table_owned :: "RappConfig \<Rightarrow> int" where
  "table_owned conf = 2 + rows_owned (section_rows 0 0 (cf_sections conf))"

definition table_of :: "RappConfig \<Rightarrow> RappConfig \<Rightarrow> bool" where
  "table_of conf conf' \<longleftrightarrow> cf_options conf' = Some (command_table conf) \<and> cf_options_map conf' \<noteq> None \<and>
     cf_num_argp_options conf' = table_size conf"

text \<open>When the process ends in \<open>argp\<close>, what was allocated for the parse is still there.\<close>

definition parse_left :: "ending \<Rightarrow> int" where
  "parse_left res = (case res of Exited _ \<Rightarrow> 1 | Returned _ \<Rightarrow> 0)"

lemma commandline_accounted:
  assumes "config_wf conf" "cf_options conf = None" "answers m = []"
    and "config_parse_commandline argp argv conf m = Some (res, conf', m')"
  shows "config_wf conf' \<and> table_of conf conf' \<and> answers m' = [] \<and>
    outside conf' m' = outside conf m + table_owned conf + parse_left res \<and>
    types_in (cf_sections conf') = types_in (cf_sections conf) \<and> lib_blocks m \<le> lib_blocks m' \<and>
    (\<not> has_boolean conf \<longrightarrow> lib_blocks m' = lib_blocks m)"
proof -
  obtain conf1 mp m1 where cl: "config_parse_commandline argp argv conf m =
      map_option (\<lambda>(res, conf, m). (res, conf, argp_released res m))
        (argp_run 0 parse_commandline_opt (argp 0 (command_table conf) argv) (conf1, m1))"
    "parsing mp (table_size conf) conf1" "cf_sections conf1 = cf_sections conf"
    "cf_options conf1 = Some (command_table conf)" "answers m1 = []"
    "blocks m1 = blocks m + 3 + rows_owned (section_rows 0 0 (cf_sections conf))" "lib_blocks m1 = lib_blocks m"
    using commandline_result[OF assms(1-3), of argp argv] by (elim exE conjE) (rule that, assumption+)
  obtain m2 where run: "argp_run 0 parse_commandline_opt (argp 0 (command_table conf) argv) (conf1, m1) = Some (res, conf', m2)"
    "m' = argp_released res m2"
    using assms(4) cl(1) by auto
  have a: "config_wf conf'" "argp_of conf' = argp_of conf1" "outside conf' m2 = outside conf1 m1" "answers m2 = []"
    "types_in (cf_sections conf') = types_in (cf_sections conf1)" "lib_blocks m1 \<le> lib_blocks m2"
    "\<not> has_boolean conf1 \<longrightarrow> lib_blocks m2 = lib_blocks m1"
    using parse_keys_accounted[OF run(1) cl(2)] cl(5) by (simp_all add: accounted_def same_table_def)
  have "outside conf1 m1 = outside conf m + 3 + rows_owned (section_rows 0 0 (cf_sections conf))"
    by (simp add: outside_def config_owned_def cl(3,6))
  moreover have "outside conf' m' = outside conf' m2 - 1 + parse_left res"
    by (simp add: outside_def run(2) argp_released_def parse_left_def split: ending.split)
  ultimately have "outside conf' m' = outside conf m + table_owned conf + parse_left res"
    using a(3) by (simp add: table_owned_def)
  moreover have "table_of conf conf'"
    using a(2) cl(2,4) by (simp add: argp_of_def table_of_def parsing_def)
  ultimately show ?thesis using a(1,4-7) cl(3,7) run(2) by (simp add: has_boolean_def)
qed

lemma table_destroyed:
  assumes "table_of conf conf'"
  shows "\<exists>m'. config_argp_options_destroy conf' m = Some m' \<and> blocks m' = blocks m - table_owned conf"
proof -
  let ?rows = "section_rows 0 0 (cf_sections conf)"
  have len: "length ?rows = table_size conf" by (simp add: length_section_rows table_size_def)
  have t: "take (table_size conf) (command_table conf) = map fst ?rows" "\<not> length (command_table conf) < table_size conf"
    using len by (simp_all add: command_table_def)
  obtain mp where "cf_options_map conf' = Some mp" using assms by (auto simp: table_of_def)
  with assms t len show ?thesis
    by (cases "table_size conf = 0")
      (simp_all add: table_of_def config_argp_options_destroy_def free_entries table_owned_def rows_owned_def comp_def
        memory_destroy_def)
qed

lemma store_destroyed:
  assumes "config_wf conf'" "table_of conf conf'"
  shows "\<exists>m'. config_destroy conf' m = Some m' \<and> blocks m' = outside conf' m - table_owned conf"
proof -
  obtain m1 where m1: "run_opt config_section_destroy (cf_sections conf') m = Some m1"
    "blocks m1 = blocks m - sum_list (map section_owned (cf_sections conf'))"
    using run_opt_owned[of "cf_sections conf'" config_section_destroy section_owned m]
      section_destroy_owned assms(1) unfolding config_wf_def by blast
  obtain m2 where "config_argp_options_destroy conf' m1 = Some m2" "blocks m2 = blocks m1 - table_owned conf"
    using table_destroyed[OF assms(2)] by blast
  with m1 show ?thesis by (simp add: config_destroy_def outside_def config_owned_def memory_destroy_def)
qed

lemma read_files_failure:
  "read_files yw conf m = Some (ret, conf', m') \<Longrightarrow> ret = 0 \<or> ret = 1"
proof -
  have one: "read_paths parse name is conf m = Some (ret, conf', m') \<Longrightarrow> ret = 0 \<or> ret = 1"
    for parse name "is" conf and m :: mem and ret conf' m'
    by (induction "is" arbitrary: conf m) (auto simp: Let_def split: Option.bind_splits if_splits)
  show "read_files yw conf m = Some (ret, conf', m') \<Longrightarrow> ret = 0 \<or> ret = 1"
    by (auto simp: read_files_def Let_def dest!: one split: Option.bind_splits if_splits)
qed

lemma sources_accounted:
  assumes "config_wf conf" "cf_options conf = None" "answers m = []"
    and "read_sources cw argv conf m = Some (res, conf', m')"
  shows "config_wf conf' \<and> table_of conf conf' \<and> answers m' = [] \<and>
    (outside conf' m' = outside conf m + table_owned conf \<or>
     res \<noteq> Returned 0 \<and> outside conf' m' = outside conf m + table_owned conf + 1) \<and>
    types_in (cf_sections conf') = types_in (cf_sections conf) \<and> lib_blocks m \<le> lib_blocks m' \<and>
    (res = Returned 0 \<and> \<not> has_boolean conf \<longrightarrow> lib_blocks m' = lib_blocks m)"
proof -
  obtain e conf1 m1 where cl: "config_parse_commandline (cw_argp cw) argv conf m = Some (e, conf1, m1)"
    using assms(4) by (auto simp: read_sources_def split: Option.bind_splits)
  note a1 = commandline_accounted[OF assms(1-3) cl]
  show ?thesis
  proof (cases "e = Returned 0")
    case True
    have wf1: "config_wf conf1" using a1 by blast
    obtain r2 conf2 m2 where env: "config_read_env (cw_getenv cw) conf1 m1 = (r2, conf2, m2)"
      by (cases "config_read_env (cw_getenv cw) conf1 m1")
    have r2: "r2 = 0" using read_env_keeps[OF wf1 env] by blast
    note a2 = read_env_accounted[OF wf1 env]
    obtain ret where files: "read_files (cw_yaml cw) conf2 m2 = Some (ret, conf', m')"
      "res = (if ret \<noteq> 0 then Exited ret else Returned 0)"
      using assms(4) cl True env r2 by (auto simp: read_sources_def split: Option.bind_splits if_splits)
    have "accounted conf1 m1 ret conf' m'"
      using read_files_accounted[OF accounted_wf[OF a2] files(1)] a2 r2 by (auto intro: accounted_trans)
    with a1 True files(2) show ?thesis
      by (auto simp: accounted_def same_table_def table_of_def argp_of_def parse_left_def has_boolean_def split: if_splits)
  next
    case False
    then have "conf' = conf1 \<and> m' = m1 \<and> (\<exists>st. res = Exited st)"
      using assms(4) cl by (auto simp: read_sources_def split: ending.splits if_splits)
    with a1 show ?thesis by (auto simp: parse_left_def split: ending.splits)
  qed
qed

section \<open>From the creation of the store to its end\<close>

text \<open>The one block that can be lost.\<close>

lemma unknown_key_lost:
  assumes "GET_OPTION_FROM_SECT (cf_sections conf ! i) k = None" "answers m = []"
  shows "\<exists>m'. yaml_parse_key_value i conf (YAML_KEY_TOKEN # YAML_SCALAR_TOKEN k # ts) m = Some (1, False, conf, m', ts) \<and>
    outside conf m' = outside conf m + 1"
  using assms by (simp add: yaml_parse_key_value_def is_scalar_def scalar_value_def outside_def)


text \<open>
  What \<open>argp\<close> does when nothing is given but the container to load - no other argument, no variable, no file: the keys
  that mark the parse, and the one option.
\<close>

definition load_events :: "string \<Rightarrow> argp_event list" where
  "load_events name = [Argp_key ARGP_KEY_INIT None, Argp_key ARG_LOAD (Some name), Argp_key ARGP_KEY_NO_ARGS None,
     Argp_key ARGP_KEY_END None, Argp_key ARGP_KEY_SUCCESS None, Argp_key ARGP_KEY_FINI None]"

definition nothing_given :: config_world where
  "nothing_given = \<lparr>cw_argp = \<lambda>flags opts argv. load_events ''hello.so'', cw_getenv = \<lambda>_. None,
     cw_yaml = \<lparr>yw_realpath = \<lambda>_. None, yw_file = \<lambda>_. None, yw_string = \<lambda>_. None, yw_scandir = \<lambda>_. None\<rparr>\<rparr>"

lemma no_variable_option: "\<exists>r m'. get_env_for_opt (\<lambda>_. None) sect opt m = (r, opt, m')"
  by (simp add: get_env_for_opt_def split: prod.split)

lemma no_variables:
  "\<exists>m'. read_env_sections (\<lambda>_. None) ss m = (ss, m')"
proof (induction ss arbitrary: m)
  case (Cons s ss)
  have "\<exists>m'. read_env_options (\<lambda>_. None) (sect_name s) opts m = (opts, m')" for opts m
  proof (induction opts arbitrary: m)
    case (Cons opt opts)
    obtain r m1 where "get_env_for_opt (\<lambda>_. None) (sect_name s) opt m = (r, opt, m1)"
      using no_variable_option by blast
    with Cons.IH[of m1] show ?case by auto
  qed simp
  then obtain m1 where "read_env_options (\<lambda>_. None) (sect_name s) (sect_options s) m = (sect_options s, m1)" by blast
  with Cons.IH[of m1] show ?case by auto
qed simp

lemma num_values_map:
  "snd (rapp_config_get_num_values conf s n) = map_option opt_num_values (options_of conf (s, n))"
  by (simp add: rapp_config_get_num_values_def options_of_def split: option.split)

lemma nothing_read:
  assumes "config_wf conf" "cf_options conf = None" "answers m = []"
    and "options_of conf (''core'', ''confd'') = Some d" "opt_num_values d = 0"
    and "options_of conf (''core'', ''config'') = Some c" "opt_num_values c = 0"
  shows "\<exists>conf' m'. read_sources nothing_given argv conf m = Some (Returned 0, conf', m') \<and> options_of conf' = options_of conf"
proof -
  obtain conf1 mp m1 where cl: "config_parse_commandline (cw_argp nothing_given) argv conf m =
      map_option (\<lambda>(res, conf, m). (res, conf, argp_released res m))
        (argp_run 0 parse_commandline_opt (cw_argp nothing_given 0 (command_table conf) argv) (conf1, m1))"
    "cf_sections conf1 = cf_sections conf"
    using commandline_result[OF assms(1-3), of "cw_argp nothing_given" argv] by (elim exE conjE) (rule that, assumption+)
  obtain m2 where "read_env_sections (\<lambda>_. None) (cf_sections conf1) (m1\<lparr>blocks := blocks m1 - 1\<rparr>) = (cf_sections conf1, m2)"
    using no_variables by blast
  then have env: "config_read_env (cw_getenv nothing_given) conf1 (m1\<lparr>blocks := blocks m1 - 1\<rparr>) = (0, conf1, m2)"
    by (simp add: config_read_env_def nothing_given_def)
  have "opt_at conf1 = opt_at conf" by (rule ext) (simp add: opt_at_def cl(2))
  then have same: "options_of conf1 = options_of conf"
    unfolding options_of_def GET_OPTION_def config_section_find_def cl(2) by simp
  have "snd (rapp_config_get_num_values conf1 ''core'' ''confd'') = Some 0"
    "snd (rapp_config_get_num_values conf1 ''core'' ''config'') = Some 0"
    using assms(4-7) by (simp_all add: num_values_map same)
  then have "read_files yw conf1 m2 = Some (0, conf1, m2)" for yw by (simp add: read_files_def)
  moreover have "parse_commandline_opt ARG_LOAD arg (conf1, m1) = Some (0, conf1, m1)" for arg
    by (simp add: parse_commandline_opt_def key_defs)
  ultimately show ?thesis using cl env same
    by (simp add: read_sources_def) (simp add: nothing_given_def load_events_def parse_marker)
qed

text \<open>The container of the repository: one option for a text, with its default.\<close>

definition hello_calls :: "config_call list" where
  "hello_calls = [Opt_add ''hello'' ''message'' PARAM_STRING None None,
     Set_default_string ''hello'' ''message'' (Some ''Hello world!'')]"

lemma hello_called:
  "\<exists>conf0 m0 conf1 m1. config_new mem0 = (Some conf0, m0) \<and> calls_fit hello_calls (conf0, m0) \<and>
     fold config_call_step hello_calls (conf0, m0) = (conf1, m1) \<and> answers m1 = [] \<and> config_wf conf1 \<and>
     argp_of conf1 = (0, None, None) \<and> dom (options_of conf1) = {(''hello'', ''message'')}"
proof -
  let ?opt = "declared PARAM_STRING None ''message'' None"
  obtain conf0 m0 where n: "config_new mem0 = (Some conf0, m0)" "answers m0 = []" "options_of conf0 = Map.empty"
    "config_wf conf0" "argp_of conf0 = (0, None, None)"
    by (simp add: config_new_def options_of_def GET_OPTION_def config_section_find_def fun_eq_iff config_wf_def
        argp_of_def)
  have names: "validate_name ''hello'' = 0" "validate_name ''message'' = 0" by code_simp+
  obtain conf1 m1 where c: "rapp_config_opt_add ''hello'' ''message'' PARAM_STRING None None conf0 m0 = (0, conf1, m1)"
    "declares conf0 m0 [(''hello'', ''message'') \<mapsto> ?opt] conf1 m1"
    using add_declares[of m0 conf0 Map.empty, OF _ names, of PARAM_STRING None None] n(2,3) by auto
  obtain conf2 m2 where d: "rapp_config_opt_set_default_string ''hello'' ''message'' (Some ''Hello world!'') conf1 m1 = (0, conf2, m2)"
    "declares conf1 m1 ([(''hello'', ''message'') \<mapsto> ?opt]((''hello'', ''message'') \<mapsto>
       ?opt\<lparr>opt_default_value := DefStr (Some ''Hello world!''), opt_default_set := True\<rparr>)) conf2 m2"
    using default_string_declares[OF declaresD[OF c(2)], of "''hello''" "''message''" ?opt "''Hello world!''"] declared_type
    by auto
  have "options_of conf1 (''hello'', ''message'') = Some ?opt" using declaresD[OF c(2)] by simp
  from options_of_Some[OF this] obtain r where r: "GET_OPTION conf1 ''hello'' ''message'' = Some r" "opt_at conf1 r = ?opt"
    by blast
  then have "takes_default_text (opt_at conf1 r)" by (simp add: takes_default_text_def declared_type)
  then have "calls_fit hello_calls (conf0, m0)" "fold config_call_step hello_calls (conf0, m0) = (conf2, m2)"
    by (simp_all add: hello_calls_def c(1) d(1) r(1))
  with n declares_trans[OF c(2) d(2)] show ?thesis by (simp add: declares_def)
qed


text \<open>Two patterns are lost with every value of a boolean option.\<close>

lemma boolean_value_lost:
  assumes "opt_type opt = PARAM_BOOL" "bool_regex v" "config_add_value_from_string v opt m = (ret, opt', m')"
  shows "lib_blocks m' = lib_blocks m + 2"
  using assms opt_add_lib(1) by (fastforce simp: config_add_value_from_string_def Let_def split: prod.splits)

end
