(* ===== verification/Whole_Program.thy ===== *)
theory Whole_Program
  imports Program_Life Config_Balance
begin

text \<open>
  The function \<open>main\<close> (\<open>src/main.c\<close>) as a whole: what its exit status tells, and the run of a program that is
  given a container to load - command line, log, store, plugin, sources of values, start, loop, end - which
  leaves nothing behind.
\<close>

section \<open>The first look at the command line\<close>

text \<open>
  Of all that \<open>argp\<close> hands to the first parser, the options of the program are what counts, up to where the parse ends
  early; keys that mark the parse and options of the store may come in between.
\<close>

fun early_option :: "argp_event \<Rightarrow> bool" where
  "early_option (Argp_key key arg) \<longleftrightarrow> key \<in> {ARG_LOGLEVEL, ARG_LOGOUTPUT, ARG_LOGNOCOLOR, ARG_LOAD}"
| "early_option (Argp_exit status) \<longleftrightarrow> False"

fun argp_goes_on :: "argp_event \<Rightarrow> bool" where
  "argp_goes_on (Argp_key key arg) \<longleftrightarrow> True"
| "argp_goes_on (Argp_exit status) \<longleftrightarrow> False"

definition early_options :: "argp_event list \<Rightarrow> argp_event list" where
  "early_options es = filter early_option (takeWhile argp_goes_on es)"

definition load_only :: "string \<Rightarrow> RappArguments" where
  "load_only name = \<lparr>ra_loglevel = LOG_INFO, ra_logoutput_is_console = True, ra_logoutput = Some Stderr,
     ra_lognocolor = False, ra_container = Some name\<rparr>"

lemma early_nothing:
  "early_options es = [] \<Longrightarrow> \<exists>res. argp_run ARGP_SILENT (parse_early_opt fopen) es (a, k, m) = Some (res, a, k, m)"
  by (induction es rule: event_keys.induct) (auto simp: early_options_def parse_early_opt_def split: if_splits)

lemma early_one:
  assumes "early_options es = [Argp_key ARG_LOAD (Some name)]" "answers m = []"
  shows "\<exists>res. argp_run ARGP_SILENT (parse_early_opt fopen) es (a, k, m) =
    Some (res, a\<lparr>ra_container := Some name\<rparr>, k, m\<lparr>fresh := Suc (fresh m), blocks := blocks m + 1\<rparr>)"
  using assms(1)
proof (induction es rule: event_keys.induct)
  case (2 key arg es)
  show ?case
  proof (cases "early_option (Argp_key key arg)")
    case True
    with 2(2) have "key = ARG_LOAD" "arg = Some name" "early_options es = []" by (simp_all add: early_options_def)
    moreover have "parse_early_opt fopen ARG_LOAD (Some name) (a, k, m) =
        Some (0, a\<lparr>ra_container := Some name\<rparr>, k, m\<lparr>fresh := Suc (fresh m), blocks := blocks m + 1\<rparr>)"
      using assms(2) by (simp add: parse_early_opt_def key_defs)
    ultimately show ?thesis using early_nothing[of es fopen] by simp
  next
    case False
    with 2 show ?thesis by (simp add: early_options_def parse_early_opt_def)
  qed
qed (simp_all add: early_options_def)

text \<open>The first parse opens nothing but files to log to.\<close>

definition opened_files :: "(string \<Rightarrow> int option) \<Rightarrow> kernel \<Rightarrow> kernel \<Rightarrow> bool" where
  "opened_files fopen k k1 \<longleftrightarrow> k_epoll k1 = k_epoll k \<and>
     (\<forall>fd. k_open k1 fd \<noteq> k_open k fd \<longrightarrow> k_open k1 fd \<and> (\<exists>path. fopen path = Some fd))"

lemma opened_files_refl [simp]: "opened_files fopen k k"
  by (simp add: opened_files_def)

lemma opened_files_trans: "opened_files fopen k k1 \<Longrightarrow> opened_files fopen k1 k2 \<Longrightarrow> opened_files fopen k k2"
  unfolding opened_files_def by metis

lemma early_opt_opens:
  "parse_early_opt fopen key arg (a, k, m) = Some (ret, a1, k1, m1) \<Longrightarrow> opened_files fopen k k1"
  by (auto simp: parse_early_opt_def opened_files_def open_fd_def Let_def split: if_splits option.splits prod.splits)

lemma early_run_opens:
  "argp_run flags (parse_early_opt fopen) es (a, k, m) = Some (res, a1, k1, m1) \<Longrightarrow> opened_files fopen k k1"
proof (induction es arbitrary: a k m rule: event_keys.induct)
  case (2 key arg es)
  then obtain ret a2 k2 m2 where p: "parse_early_opt fopen key arg (a, k, m) = Some (ret, a2, k2, m2)"
    by (auto split: Option.bind_splits)
  note opens = early_opt_opens[OF p]
  show ?case
  proof (cases "ret = 0")
    case True
    with 2 p have "opened_files fopen k2 k1" by simp
    with opens show ?thesis by (rule opened_files_trans)
  next
    case False
    with 2 p opens show ?thesis by simp
  qed
qed simp_all

lemma early_opens:
  "config_parse_early_commandline argp fopen argv uninit k m = Some (r, arguments, k1, m1) \<Longrightarrow> opened_files fopen k k1"
  by (auto simp: config_parse_early_commandline_def split: if_splits dest: early_run_opens)

section \<open>The exit status\<close>

lemma main_container_named:
  assumes "main_container mw arguments config w l = (True, Some c, config', w', l')"
  shows "\<exists>name lib. ra_container arguments = Some name \<and> mw_dlopen mw name = Some lib \<and>
    sym_abi_version lib = Some ABI_VERSION"
proof -
  obtain name where n: "ra_container arguments = Some name" "container_new (mw_dlopen mw) name config w l = (Some c, config', w', l')"
    using assms by (auto simp: main_container_def split: option.splits prod.splits)
  from loaded_container[OF n(2)] n(1) show ?thesis by blast
qed

text \<open>The files read give no status but 0 and 1, and otherwise a status of the second parse is one that \<open>argp\<close> gave.\<close>

lemma argp_run_exited:
  "argp_run flags parser es s = Some (Exited status, s') \<Longrightarrow> Argp_exit status \<in> set es"
  by (induction flags parser es s rule: argp_run.induct) (auto split: Option.bind_splits if_splits)

lemma read_paths_status: "read_paths parse name is conf m = Some (ret, conf', m') \<Longrightarrow> ret \<in> {0, 1}"
  by (induction parse name "is" conf m rule: read_paths.induct) (auto simp: Let_def split: Option.bind_splits if_splits)

lemma commandline_exited:
  assumes "config_parse_commandline argp argv conf m = Some (Exited status, conf', m')"
  shows "\<exists>opts. Argp_exit status \<in> set (argp 0 opts argv)"
proof -
  obtain opts conf1 m1 where "argp_run 0 parse_commandline_opt (argp 0 opts argv) (conf1, m1) = Some (Exited status, conf', m')"
    using assms by (auto simp: config_parse_commandline_def Let_def split: option.splits prod.splits Option.bind_splits if_splits ending.splits)
  from argp_run_exited[OF this] show ?thesis by blast
qed

lemma read_sources_exited:
  assumes "read_sources cw argv conf m = Some (Exited status, conf', m')"
  shows "status = 1 \<or> (\<exists>opts. Argp_exit status \<in> set (cw_argp cw 0 opts argv))"
proof -
  obtain res conf1 m1 where p: "config_parse_commandline (cw_argp cw) argv conf m = Some (res, conf1, m1)"
    using assms by (auto simp: read_sources_def split: Option.bind_splits)
  show ?thesis
  proof (cases res)
    case (Exited st)
    with assms p commandline_exited[of "cw_argp cw" argv conf m st conf1 m1] show ?thesis by (auto simp: read_sources_def)
  next
    case (Returned n)
    with assms p show ?thesis
      by (auto simp: read_sources_def read_files_def Let_def split: if_splits prod.splits Option.bind_splits
          dest!: read_paths_status)
  qed
qed


section \<open>The parts of a run\<close>

lemma early_load:
  assumes "early_options (argp ARGP_SILENT rappoptions argv) = [Argp_key ARG_LOAD (Some name)]" "argv \<noteq> []" "answers m = []"
  shows "\<exists>res. config_parse_early_commandline argp fopen argv uninit k m =
    Some (res, load_only name, k, m\<lparr>fresh := Suc (fresh m), blocks := blocks m + 1\<rparr>)"
  using early_one[OF assms(1,3), of fopen "\<lparr>ra_loglevel = LOG_INFO, ra_logoutput_is_console = True,
      ra_logoutput = Some Stderr, ra_lognocolor = False, ra_container = None\<rparr>" k] assms(2)
  by (simp add: config_parse_early_commandline_def load_only_def)

lemma console_logger:
  assumes "answers (io_mem io) = []"
  shows "\<exists>lg. main_logger (load_only name) io =
    (Some lg, io\<lparr>io_mem := (io_mem io)\<lparr>fresh := Suc (fresh (io_mem io)), blocks := blocks (io_mem io) + 1\<rparr>\<rparr>)"
  using assms by (simp add: main_logger_def load_only_def logger_new_console_def logger_new_fp_def)

definition empty_store :: RappConfig where
  "empty_store = \<lparr>cf_num_sections = 0, cf_options_map = None, cf_options = None, cf_num_argp_options = 0, cf_sections = []\<rparr>"

lemma store_made:
  "answers m = [] \<Longrightarrow> config_new m = (Some empty_store, m\<lparr>fresh := Suc (fresh m), blocks := blocks m + 1\<rparr>)"
  by (simp add: config_new_def empty_store_def)

text \<open>A library with all symbols, whose \<open>create\<close> makes the handle \<open>h\<close>.\<close>

definition plugin_works ::
    "('h, 'w, 'c) plugin_lib \<Rightarrow> 'c \<Rightarrow> 'w \<Rightarrow> 'h \<Rightarrow> 'c \<Rightarrow> 'w \<Rightarrow> bool" where
  "plugin_works lib config w h config' w' \<longleftrightarrow> sym_abi_version lib = Some ABI_VERSION \<and>
     (\<exists>create. sym_create lib = Some create \<and> create config w = (Some h, config', w')) \<and>
     sym_serve lib \<noteq> None \<and> sym_init lib \<noteq> None \<and>
     (\<exists>destroy. sym_destroy lib = Some destroy \<and> (\<forall>h w. fst (destroy h w) = 0))"

lemma plugin_loaded:
  assumes "dlopen name = Some lib" "plugin_works lib config w h config' w'" "answers (ld_mem l) = []"
  shows "\<exists>c. container_new dlopen name config w l = (Some c, config', w',
      \<lparr>ld_mem = (ld_mem l)\<lparr>fresh := fresh (ld_mem l) + 2, blocks := blocks (ld_mem l) + 2\<rparr>, ld_open = ld_open l + 1\<rparr>) \<and>
    cont_plugin c \<noteq> None \<and> (\<forall>h w. fst (cont_destroy c h w) = 0) \<and> cont_handle c = h \<and>
    sym_serve lib = Some (cont_serve c) \<and> sym_destroy lib = Some (cont_destroy c) \<and> sym_init lib = Some (cont_init c)"
  using assms
  by (auto simp: plugin_works_def container_new_def container_make_def is_ABI_compatible_def Let_def)

lemma listen_address_blocks:
  assumes "listen_address conf m = Some (address, port, m')"
  shows "blocks m' = blocks m + 1" "answers m = [] \<Longrightarrow> answers m' = []"
proof -
  obtain ret where g: "rapp_config_get_nth_string conf ''core'' ''address'' 0 m = Some (ret, Some address, m')"
    using assms by (auto simp: listen_address_def split: Option.bind_splits)
  from get_string_blocks[OF g] show "blocks m' = blocks m + 1" "answers m = [] \<Longrightarrow> answers m' = []"
    by (simp_all add: opt_bit_def)
qed

lemma main_start_batches [simp]: "main_start (mw\<lparr>mw_batches := bs\<rparr>) = main_start mw"
  by (intro ext) (simp add: main_start_def)

section \<open>From the start to the end\<close>

text \<open>
  A program that was started and whose loop has returned: the rest of \<open>main\<close>.  The container is given as \<open>init\<close>
  leaves it.
\<close>

lemma serve_ended:
  fixes container :: "('h, 'x served, RappConfig) Container" and mw :: "('h, 'ps, 'x) main_world"
  assumes init: "container_init container config w = (r, cont, w1)"
    and addr: "listen_address config (ld_mem l) = Some (address, port, m)"
    and start: "main_start mw logger cont address port sg x k m = Some pg"
    and run: "main_run mw (pg\<lparr>pg_state := (pg_state pg)\<lparr>ls_mem :=
        memory_destroy (ra_container arguments) (memory_destroy (Some address) (ls_mem (pg_state pg)))\<rparr>\<rparr>) = Some pg'"
    and ready: "program_ready (k_open k) b pg'" and rest: "sw_rest (ls_world (pg_state pg')) = x'"
    and cont: "cont_plugin cont \<noteq> None" "cont_destroy cont (cont_handle cont) w1 = (0, w2)"
    and store: "config_wf config" "table_of conf config"
  shows "\<exists>k' l'. main_serve mw logger container arguments config sg x w k l = Some (x', w2, k', l') \<and>
     k_open k' = k_open k \<and> k_epoll k' = (\<lambda>_. None) \<and> ld_open l' = ld_open l - 1 \<and>
     blocks (ld_mem l') = b - 2 - config_owned config - table_owned conf"
proof -
  obtain k1 l1 where stop: "main_stop pg' w1 (ld_open l) = Some (w1, k1, l1)" "k_open k1 = k_open k"
    "k_epoll k1 = (\<lambda>_. None)" "blocks (ld_mem l1) = b" "ld_open l1 = ld_open l"
    using main_stop_ready[OF ready] by blast
  obtain l2 where gone: "container_destroy cont w1 l1 = (w2, l2)" by (simp add: container_destroy_def cont(2) Let_def)
  from destroy_owned[OF gone] cont stop(4,5) have l2: "blocks (ld_mem l2) = b - 2" "ld_open l2 = ld_open l - 1"
    by (auto simp: container_owned_def)
  obtain m3 where m3: "config_destroy config (ld_mem l2) = Some m3" "blocks m3 = outside config (ld_mem l2) - table_owned conf"
    using store_destroyed[OF store] by blast
  have "main_serve mw logger container arguments config sg x w k l = Some (x', w2, k1, l2\<lparr>ld_mem := m3\<rparr>)"
    using addr start run stop(1) gone m3(1) rest by (simp add: main_serve_def init)
  with stop(2,3) l2 m3(2) show ?thesis by (simp add: outside_def)
qed

text \<open>The name and the address are released before the loop runs.\<close>

lemma names_released:
  "fresh (memory_destroy (Some n) (memory_destroy (Some address) m)) = fresh m"
  "answers (memory_destroy (Some n) (memory_destroy (Some address) m)) = answers m"
  "blocks (memory_destroy (Some n) (memory_destroy (Some address) m)) = blocks m - 2"
  by (simp_all add: memory_destroy_def)

lemma init_keeps:
  "container_init c config w = (r, c', w') \<Longrightarrow> cont_plugin c' = cont_plugin c \<and> cont_serve c' = cont_serve c \<and>
     cont_destroy c' = cont_destroy c"
  by (auto simp: container_init_def split: prod.splits)

lemma main_serves:
  fixes container :: "('h, 'x served, RappConfig) Container" and mw :: "('h, 'ps, 'x) main_world"
  assumes work: "signals_work mw" "0 \<le> mw_epollfd mw" "k_epoll k = (\<lambda>_. None)"
    and fds: "\<not> k_open k (mw_signalfd mw)" "\<not> k_open k (sys_socket (mw_listen mw))"
      "sys_socket (mw_listen mw) \<noteq> mw_signalfd mw"
    and addr: "listen_address config (ld_mem l) = Some (address, port, m)" "answers m = []"
    and name: "ra_container arguments = Some name"
    and sig: "mw_read_signal mw x = (Some sig, x')" "sig \<in> {SIGINT, SIGTERM}"
    and cont: "cont_plugin container \<noteq> None" "\<forall>h w. fst (cont_destroy container h w) = 0"
    and store: "config_wf config" "table_of conf config"
  shows "\<exists>a. \<forall>rest. \<exists>w' k' l'. main_serve (mw\<lparr>mw_batches := [(a, EPOLLIN)] # rest\<rparr>) logger container arguments config
        sg x w k l = Some (x', w', k', l') \<and>
     k_open k' = k_open k \<and> k_epoll k' = (\<lambda>_. None) \<and> ld_open l' = ld_open l - 1 \<and>
     blocks (ld_mem l') = outside config m - table_owned conf - 4"
proof -
  obtain r c w1 where init: "container_init container config w = (r, c, w1)" by (metis surj_pair)
  obtain w2 where destroyed: "cont_destroy c (cont_handle c) w1 = (0, w2)"
    using cont(2) init_keeps[OF init] by (metis prod.collapse)
  obtain pg where pg: "main_start mw logger c address port sg x k m = Some pg"
    "program_ready (k_open k) (blocks m) pg" "sh_fd (pg_signals pg) = mw_signalfd mw"
    "sw_rest (ls_world (pg_state pg)) = x"
    using main_start_ready[OF work(1,2) addr(2) work(3) fds] by blast
  let ?m = "memory_destroy (ra_container arguments) (memory_destroy (Some address) (ls_mem (pg_state pg)))"
  let ?pg = "pg\<lparr>pg_state := (pg_state pg)\<lparr>ls_mem := ?m\<rparr>\<rparr>"
  have ready: "program_ready (k_open k) (blocks m - 2) ?pg"
    unfolding name by (rule ready_released[OF pg(2)]) (simp_all only: names_released)
  have "k_epoll (ls_kernel (pg_state ?pg)) (sh_fd (pg_signals ?pg)) \<noteq> None"
    using interest_list[of "ls_eloop (pg_state ?pg)" "ls_kernel (pg_state ?pg)" "ls_mem (pg_state ?pg)" "sh_fd (pg_signals ?pg)"]
      program_ready_signal[OF ready] ready
    by (auto simp: program_ready_def Let_def interest_def bits_of_def)
  then obtain bits a where a: "k_epoll (ls_kernel (pg_state ?pg)) (sh_fd (pg_signals ?pg)) = Some (bits, a)" by auto
  have "\<exists>w' k' l'. main_serve (mw\<lparr>mw_batches := [(a, EPOLLIN)] # rest\<rparr>) logger container arguments config
        sg x w k l = Some (x', w', k', l') \<and>
     k_open k' = k_open k \<and> k_epoll k' = (\<lambda>_. None) \<and> ld_open l' = ld_open l - 1 \<and>
     blocks (ld_mem l') = outside config m - table_owned conf - 4" for rest
  proof -
    let ?mw = "mw\<lparr>mw_batches := [(a, EPOLLIN)] # rest\<rparr>"
    have read: "mw_read_signal ?mw (sw_rest (ls_world (pg_state ?pg))) = (Some sig, x')" using sig(1) pg(4) by simp
    obtain pg' where run: "main_run ?mw ?pg = Some pg'" "program_ready (k_open k) (blocks m - 2) pg'"
      "sw_rest (ls_world (pg_state pg')) = x'"
      using signal_run[OF ready a read sig(2), of rest] by auto
    have start: "main_start ?mw logger c address port sg x k m = Some pg" using pg(1) by simp
    have "cont_plugin c \<noteq> None" using cont(1) init_keeps[OF init] by simp
    from serve_ended[OF init addr(1) start run this destroyed store] show ?thesis by (auto simp: outside_def)
  qed
  then show ?thesis by blast
qed

text \<open>Up to the start: \<open>main\<close> is what it does from there on.\<close>

lemma main_reaches_serve:
  fixes mw :: "('h, 'ps, 'x) main_world"
  assumes mem: "answers (io_mem io) = []" and argv: "argv \<noteq> []"
    and load: "early_options (cw_argp (mw_config mw) ARGP_SILENT rappoptions argv) = [Argp_key ARG_LOAD (Some name)]"
    and plugin: "mw_dlopen mw name = Some lib" "plugin_works lib empty_store w h config1 w1"
    and core: "declare_core_options config1 ((io_mem io)\<lparr>fresh := fresh (io_mem io) + 5, blocks := blocks (io_mem io) + 5\<rparr>) =
      (config2, m2)"
    and read: "read_sources (mw_config mw) argv config2 m2 = Some (Returned 0, config3, m3)"
  shows "\<exists>c lg io1. cont_plugin c \<noteq> None \<and> (\<forall>h w. fst (cont_destroy c h w) = 0) \<and> cont_handle c = h \<and>
    sym_serve lib = Some (cont_serve c) \<and> sym_destroy lib = Some (cont_destroy c) \<and> sym_init lib = Some (cont_init c) \<and>
    (\<forall>bs. rapp_main (mw\<lparr>mw_batches := bs\<rparr>) handle uninit argv sg x w k ld io =
       map_option (\<lambda>(x, w, k, l). (0, x, w, k, ld_open l, logger_destroy lg (io1\<lparr>io_mem := ld_mem l\<rparr>)))
         (main_serve (mw\<lparr>mw_batches := bs\<rparr>) handle c (load_only name) config3 sg x w1 k \<lparr>ld_mem = m3, ld_open = ld + 1\<rparr>))"
proof -
  let ?m = "io_mem io" and ?B = "blocks (io_mem io)"
  let ?m1 = "?m\<lparr>fresh := fresh ?m + 5, blocks := ?B + 5\<rparr>"
  obtain lg io1 where lg: "main_logger (load_only name) (io\<lparr>io_mem := ?m\<lparr>fresh := Suc (fresh ?m), blocks := ?B + 1\<rparr>\<rparr>) = (Some lg, io1)"
    "io_mem io1 = ?m\<lparr>fresh := fresh ?m + 2, blocks := ?B + 2\<rparr>"
    using console_logger[of "io\<lparr>io_mem := ?m\<lparr>fresh := Suc (fresh ?m), blocks := ?B + 1\<rparr>\<rparr>" name] mem by auto
  let ?l = "\<lparr>ld_mem = ?m\<lparr>fresh := fresh ?m + 3, blocks := ?B + 3\<rparr>, ld_open = ld\<rparr>"
  obtain c where c: "container_new (mw_dlopen mw) name empty_store w ?l = (Some c, config1, w1, \<lparr>ld_mem = ?m1, ld_open = ld + 1\<rparr>)"
    "cont_plugin c \<noteq> None" "\<forall>h w. fst (cont_destroy c h w) = 0" "cont_handle c = h"
    "sym_serve lib = Some (cont_serve c)" "sym_destroy lib = Some (cont_destroy c)" "sym_init lib = Some (cont_init c)"
    using plugin_loaded[of "mw_dlopen mw" name lib empty_store w h config1 w1 ?l, OF plugin] mem by (auto simp: add.commute)
  have new: "config_new (io_mem io1) = (Some empty_store, ld_mem ?l)"
    using store_made[of "io_mem io1"] mem by (simp add: lg(2) add.commute)
  have name: "ra_container (load_only name) = Some name" by (simp add: load_only_def)
  have "rapp_main (mw\<lparr>mw_batches := bs\<rparr>) handle uninit argv sg x w k ld io =
       map_option (\<lambda>(x, w, k, l). (0, x, w, k, ld_open l, logger_destroy lg (io1\<lparr>io_mem := ld_mem l\<rparr>)))
         (main_serve (mw\<lparr>mw_batches := bs\<rparr>) handle c (load_only name) config3 sg x w1 k \<lparr>ld_mem = m3, ld_open = ld + 1\<rparr>)" for bs
    using early_load[of "cw_argp (mw_config mw)", OF load argv mem, of "mw_fopen mw" uninit k] lg(1) new c(1) core read
    by (cases "main_serve (mw\<lparr>mw_batches := bs\<rparr>) handle c (load_only name) config3 sg x w1 k \<lparr>ld_mem = m3, ld_open = ld + 1\<rparr>")
      (auto simp: rapp_main_def main_container_def name)
  with c(2-7) show ?thesis by blast
qed

text \<open>The store that was read, its table, and the blocks that are neither's.\<close>

lemma store_read:
  assumes "config_wf config1" "argp_of config1 = argp_of empty_store" "answers m1 = []"
    and "dom (options_of config1) \<inter> dom core_options = {}"
    and "declare_core_options config1 m1 = (config2, m2)" "read_sources cw argv config2 m2 = Some (Returned 0, config3, m3)"
    and "listen_address config3 m3 = Some (address, port, m4)"
  shows "config_wf config3 \<and> table_of config2 config3 \<and> answers m4 = [] \<and>
    outside config3 m4 = outside config1 m1 + table_owned config2 + 1"
proof -
  have "declares config1 m1 (options_of config1 ++ core_options) config2 m2"
    using core_declared[OF assms(3,4)] assms(5) by fastforce
  with assms(1,2) have core: "config_wf config2" "cf_options config2 = None" "answers m2 = []"
    "outside config2 m2 = outside config1 m1"
    by (simp_all add: declares_def outside_def argp_of_def empty_store_def)
  from sources_accounted[OF core(1-3) assms(6)] listen_address_blocks[OF assms(7)] core(4)
  show ?thesis by (simp add: outside_def)
qed

lemma empty_store_facts:
  "config_wf empty_store" "dom (options_of empty_store) \<inter> dom core_options = {}"
  by (simp_all add: empty_store_def config_wf_def options_of_def GET_OPTION_def config_section_find_def dom_def)

text \<open>\<open>--help\<close>: the first parse does not know it and goes on without a result, the second one ends the process.\<close>

definition help_world :: "(unit, unit, nat) main_world" where
  "help_world = busy_world\<lparr>mw_config := nothing_given\<lparr>cw_argp := \<lambda>flags opts argv. [Argp_key ARGP_KEY_INIT None,
     Argp_exit (if flags AND ARGP_NO_EXIT \<noteq> 0 then 64 else 0)]\<rparr>\<rparr>"

lemma help_exits:
  assumes "config_wf conf" "cf_options conf = None" "answers m = []"
  shows "\<exists>conf' m'. read_sources (mw_config help_world) argv conf m = Some (Exited 0, conf', m')"
proof -
  obtain conf1 m1 where "config_parse_commandline (cw_argp (mw_config help_world)) argv conf m =
      map_option (\<lambda>(res, conf, m). (res, conf, argp_released res m))
        (argp_run 0 parse_commandline_opt (cw_argp (mw_config help_world) 0 (command_table conf) argv) (conf1, m1))"
    using commandline_result[OF assms] by blast
  then show ?thesis by (simp add: read_sources_def) (simp add: help_world_def parse_marker)
qed



text \<open>A plugin that needs no options, a port that is in use, and the signal.\<close>

definition quiet_lib :: "(unit, nat served, RappConfig) plugin_lib" where
  "quiet_lib = \<lparr>sym_abi_version = Some ABI_VERSION, sym_create = Some (\<lambda>c w. (Some (), c, w)), sym_serve = Some null_serve,
     sym_destroy = Some null_destroy, sym_init = Some null_init\<rparr>"

definition quiet_world :: "(unit, unit, nat) main_world" where
  "quiet_world = busy_world\<lparr>mw_config := nothing_given, mw_dlopen := \<lambda>_. Some quiet_lib\<rparr>"

lemma quiet_world_facts:
  "signals_work quiet_world" "0 \<le> mw_epollfd quiet_world" "k_epoll only_std = (\<lambda>_. None)"
  "\<not> k_open only_std (mw_signalfd quiet_world)" "\<not> k_open only_std (sys_socket (mw_listen quiet_world))"
  "sys_socket (mw_listen quiet_world) \<noteq> mw_signalfd quiet_world"
  "early_options (cw_argp (mw_config quiet_world) ARGP_SILENT rappoptions argv) = [Argp_key ARG_LOAD (Some ''hello.so'')]"
  "mw_dlopen quiet_world ''hello.so'' = Some quiet_lib" "mw_config quiet_world = nothing_given"
  "mw_read_signal quiet_world 0 = (Some SIGTERM, 1)"
  "plugin_works quiet_lib empty_store w () empty_store w"
  by (simp_all add: quiet_world_def busy_world_def signals_work_def only_std_def busy_port_def nothing_given_def
      load_events_def early_options_def key_defs plugin_works_def quiet_lib_def null_destroy_def)

text \<open>Nothing is given but the container: the store has what was declared, and the defaults are what is listened on.\<close>

lemma defaults_read:
  assumes "answers m = []" "config_wf config1" "argp_of config1 = argp_of empty_store"
    and "dom (options_of config1) \<inter> dom core_options = {}"
  shows "\<exists>config2 m2 config3 m3 m4. declare_core_options config1 m = (config2, m2) \<and>
     read_sources nothing_given argv config2 m2 = Some (Returned 0, config3, m3) \<and>
     options_of config3 = options_of config1 ++ core_options \<and>
     listen_address config3 m3 = Some (''127.0.0.1'', 8080, m4)"
proof -
  obtain config2 m2 where d: "declare_core_options config1 m = (config2, m2)"
    "declares config1 m (options_of config1 ++ core_options) config2 m2"
    using core_declared[OF assms(1,4)] by blast
  have opts: "options_of config2 = options_of config1 ++ core_options" "answers m2 = []" "config_wf config2"
    "cf_options config2 = None"
    using d(2) assms(2,3) by (simp_all add: declares_def argp_of_def empty_store_def)
  have core: "options_of config2 (''core'', n) = core_options (''core'', n)" if "n \<in> {''confd'', ''config'', ''port'', ''address''}" for n
    using that by (auto simp: opts(1) core_options_def)
  have "\<exists>d. options_of config2 (''core'', ''confd'') = Some d \<and> opt_num_values d = 0"
    "\<exists>c. options_of config2 (''core'', ''config'') = Some c \<and> opt_num_values c = 0"
    by (simp_all add: core) (simp_all add: core_options_def declared_def opt_setup_values_def)
  then obtain config3 m3 where r: "read_sources nothing_given argv config2 m2 = Some (Returned 0, config3, m3)"
    "options_of config3 = options_of config2"
    using nothing_read[OF opts(3,4,2)] by blast
  have "answers m3 = []" using sources_accounted[OF opts(3,4,2) r(1)] by blast
  then obtain m4 where "listen_address config3 m3 = Some (''127.0.0.1'', 8080, m4)"
    using listen_default[of config3 m3] core r(2) by auto
  with d(1) r opts(1) show ?thesis by simp
qed


end
