(* ===== verification/Program_Run.thy ===== *)
theory Program_Run
  imports Whole_Program
begin

text \<open>
  \<open>main\<close> (\<open>src/main.c\<close>) called with the container of the repository (\<open>containers/hello/rapp_plugin.c\<close>): the
  library is loaded and declares its option, the sources of values are read, the container is given its message,
  clients are served, and the signal ends the program.
\<close>

section \<open>The library\<close>

text \<open>The option that \<open>rapp_create\<close> declares.\<close>

definition hello_option :: ConfigOption where
  "hello_option = (declared PARAM_STRING (Some ''Hello world message'') ''message'' (Some ''MESSAGE''))
     \<lparr>opt_default_value := DefStr (Some ''Hello world!''), opt_default_set := True\<rparr>"

lemma hello_names: "validate_name ''hello'' = 0" "validate_name ''message'' = 0"
  by code_simp+

lemma rapp_create_declares:
  assumes "answers m = []" "config_wf config" "(''hello'', ''message'') \<notin> dom (options_of config)"
  shows "\<exists>config' m'. rapp_create config m = (Some \<lparr>message = None\<rparr>, 0, config', m') \<and> answers m' = [] \<and>
     config_wf config' \<and> argp_of config' = argp_of config \<and>
     options_of config' = (options_of config)((''hello'', ''message'') \<mapsto> hello_option) \<and>
     blocks m' - config_owned config' = blocks m + 1 - config_owned config"
proof -
  let ?d = "declared PARAM_STRING (Some ''Hello world message'') ''message'' (Some ''MESSAGE'')"
  obtain p m0 where m0: "memory_create m = (Some p, m0)" "answers m0 = []" "blocks m0 = blocks m + 1"
    using assms(1) by (simp add: mem_simps)
  obtain c1 m1 where 1: "rapp_config_opt_add ''hello'' ''message'' PARAM_STRING (Some ''Hello world message'') (Some ''MESSAGE'') config m0 =
      (0, c1, m1)" "declares config m0 ((options_of config)((''hello'', ''message'') \<mapsto> ?d)) c1 m1"
    using add_declares[of m0 config "options_of config", OF _ hello_names assms(3),
        where hlp = "Some ''Hello world message''" and mv = "Some ''MESSAGE''"] m0(2) by blast
  obtain c2 m2 where 2: "rapp_config_opt_set_default_string ''hello'' ''message'' (Some ''Hello world!'') c1 m1 = (0, c2, m2)"
    "declares c1 m1 ((options_of config)((''hello'', ''message'') \<mapsto> hello_option)) c2 m2"
    using default_string_declares[OF declaresD[OF 1(2)], of "''hello''" "''message''" ?d "''Hello world!''"] declared_type
    by (auto simp: hello_option_def)
  have "rapp_create config m = (Some \<lparr>message = None\<rparr>, 0, c2, m2)" by (simp add: rapp_create_def m0(1) 1(1) 2(1))
  with declares_trans[OF 1(2) 2(2)] assms(2) m0(3) show ?thesis by (auto simp: declares_def)
qed

lemma empty_store_options: "options_of empty_store = Map.empty"
  by (simp add: empty_store_def options_of_def GET_OPTION_def config_section_find_def fun_eq_iff)

text \<open>\<open>init\<close> gives the container its message; \<open>destroy\<close> releases it and the handle.\<close>

lemma plugin_initialised:
  assumes "cont_init c = plugin_init" "cont_handle c = Some h"
    and "rapp_config_get_nth_string config ''hello'' ''message'' 0 m = Some (ret, Some msg, m')"
  shows "container_init c config (Some (r, x, m)) = (ret, c\<lparr>cont_handle := Some \<lparr>message = Some msg\<rparr>\<rparr>, Some (r, x, m'))"
  using assms by (cases h) (simp add: container_init_def plugin_init_def rapp_init_def)

lemma plugin_destroyed:
  "plugin_destroy (Some \<lparr>message = Some msg\<rparr>) (Some (r, x, m)) = (0, Some (r, x, m\<lparr>blocks := blocks m - 2\<rparr>))"
  by (simp add: plugin_destroy_def rapp_destroy_def memory_destroy_def)

lemma hello_plugin_works:
  assumes "rapp_create config m = (Some h, ret, config', m')"
  shows "plugin_works (rapp_plugin clock) config (Some (r, x, m)) (Some h) config' (Some (r, x, m'))"
  using assms by (simp add: plugin_works_def rapp_plugin_def rapp_get_abi_version_def plugin_create_def plugin_destroy_def)

section \<open>Serving\<close>

lemma hello_main_serves:
  fixes mw :: "(RappContainer option, 'ps, bytes \<times> nat list) main_world"
  assumes work: "signals_work mw" "0 \<le> mw_epollfd mw" "k_epoll k = (\<lambda>_. None)"
    and fds: "\<not> k_open k (mw_signalfd mw)" "\<not> k_open k (sys_socket (mw_listen mw))"
      "sys_socket (mw_listen mw) \<noteq> mw_signalfd mw"
    and addr: "listen_address config (ld_mem l) = Some (address, port, m)" "answers m = []" "can_listen (mw_listen mw) address port"
    and name: "ra_container arguments = Some name"
    and c: "cont_plugin c \<noteq> None" "cont_handle c = Some h" "cont_serve c = rapp_serve clock" "cont_init c = plugin_init"
      "cont_destroy c = plugin_destroy"
    and msg: "rapp_config_get_nth_string config ''hello'' ''message'' 0 mp = Some (ret, Some msg, mp')"
    and store: "config_wf config" "table_of conf config"
    and clients: "clients_ask (k_open k) mw answer x clients"
    and serve: "0 \<le> clock" "nat clock < 86400 * (365 * 8030)" "msg \<noteq> []"
    and answer: "answer = hello_text (nat clock) msg ((new_response (mw_banner mw))\<lparr>resp_is_last := 1\<rparr>)"
    and sig: "mw_read_signal mw (world_after answer x clients) = (Some sig, z)" "sig \<in> {SIGINT, SIGTERM}"
  shows "\<exists>visits stop. map fst visits = clients \<and> (\<forall>rest. \<exists>k' l'.
     main_serve (mw\<lparr>mw_batches := concat (map visit_batches visits) @ [stop] # rest\<rparr>)
       logger c arguments config sg x (Some (r, y, mp)) k l =
       Some (z, Some (r, y, mp'\<lparr>blocks := blocks mp' - 2\<rparr>), k', l') \<and>
     k_open k' = k_open k \<and> k_epoll k' = (\<lambda>_. None) \<and> ld_open l' = ld_open l - 1 \<and>
     blocks (ld_mem l') = outside config m - table_owned conf - 4)"
proof -
  let ?c = "c\<lparr>cont_handle := Some \<lparr>message = Some msg\<rparr>\<rparr>"
  have init: "container_init c config (Some (r, y, mp)) = (ret, ?c, Some (r, y, mp'))"
    by (rule plugin_initialised[OF c(4,2) msg])
  have cont: "cont_plugin ?c \<noteq> None"
    "cont_destroy ?c (cont_handle ?c) (Some (r, y, mp')) = (0, Some (r, y, mp'\<lparr>blocks := blocks mp' - 2\<rparr>))"
    using c(1,5) plugin_destroyed by simp_all
  obtain pg where pg: "main_start mw logger ?c address port sg x k m = Some pg"
    "hello_ready (k_open k) (blocks m) clock msg mw x pg"
    using hello_started[OF work(1,2) addr(2) work(3) fds addr(3), of ?c clock msg logger sg x] c(3) by auto
  let ?m = "memory_destroy (ra_container arguments) (memory_destroy (Some address) (ls_mem (pg_state pg)))"
  let ?pg = "pg\<lparr>pg_state := (pg_state pg)\<lparr>ls_mem := ?m\<rparr>\<rparr>"
  have "hello_ready (k_open k) (blocks m - 2) clock msg mw x ?pg"
    unfolding name by (rule hello_ready_released[OF pg(2)]) (simp_all only: names_released)
  from hello_clients_signal[OF this clients serve answer sig] obtain visits stop where visits: "map fst visits = clients" and
    run: "\<forall>rest. \<exists>pg'. main_run (mw\<lparr>mw_batches := concat (map visit_batches visits) @ [stop] # rest\<rparr>) ?pg =
        Some pg' \<and> program_ready (k_open k) (blocks m - 2) pg' \<and> sw_rest (ls_world (pg_state pg')) = z"
    by (elim exE conjE) (rule that, assumption+)
  have "\<exists>k' l'. main_serve (mw\<lparr>mw_batches := concat (map visit_batches visits) @ [stop] # rest\<rparr>)
       logger c arguments config sg x (Some (r, y, mp)) k l =
       Some (z, Some (r, y, mp'\<lparr>blocks := blocks mp' - 2\<rparr>), k', l') \<and>
     k_open k' = k_open k \<and> k_epoll k' = (\<lambda>_. None) \<and> ld_open l' = ld_open l - 1 \<and>
     blocks (ld_mem l') = outside config m - table_owned conf - 4" for rest
  proof -
    let ?mw = "mw\<lparr>mw_batches := concat (map visit_batches visits) @ [stop] # rest\<rparr>"
    obtain pg' where pg': "main_run ?mw ?pg = Some pg'" "program_ready (k_open k) (blocks m - 2) pg'"
      "sw_rest (ls_world (pg_state pg')) = z"
      using run by blast
    have start: "main_start ?mw logger ?c address port sg x k m = Some pg" using pg(1) by simp
    from serve_ended[OF init addr(1) start pg' cont store] show ?thesis by (auto simp: outside_def)
  qed
  with visits show ?thesis by blast
qed

text \<open>What the store is when its values are read, and what program and plugin have to account for together.\<close>

lemma hello_accounted:
  assumes "answers m1 = []" "answers mp = []" "rapp_create empty_store mp = (Some h, err, config1, mp1)"
    and "declare_core_options config1 m1 = (config2, m2)" "read_sources cw argv config2 m2 = Some (Returned 0, config3, m3)"
    and "rapp_config_get_nth_string config3 ''hello'' ''message'' 0 mp1 = Some (ret, Some msg, mp2)"
    and "listen_address config3 m3 = Some (address, port, m4)"
  shows "config_wf config3 \<and> table_of config2 config3 \<and> answers m4 = [] \<and>
    outside config3 m4 - table_owned config2 + blocks mp2 = blocks m1 + blocks mp + 3 - config_owned empty_store"
proof -
  have none: "(''hello'', ''message'') \<notin> dom (options_of empty_store)" by (simp add: empty_store_options)
  have made: "config_wf config1" "argp_of config1 = argp_of empty_store" "dom (options_of config1) \<inter> dom core_options = {}"
    "blocks mp1 - config_owned config1 = blocks mp + 1 - config_owned empty_store"
    using rapp_create_declares[OF assms(2) empty_store_facts(1) none] assms(3) empty_store_options by (auto simp: core_options_def)
  from store_read[OF made(1,2) assms(1) made(3) assms(4,5,7)] made(4) get_string_blocks(1)[OF assms(6)]
  show ?thesis by (simp add: outside_def opt_bit_def)
qed

section \<open>From the command line to the exit\<close>

text \<open>
  C1: \<open>main\<close> called with \<open>--load\<close> and the hello library - the only option of its own among all that \<open>argp\<close> hands
  to the first parser.  The library declares \<open>hello.message\<close>, the program its own options, the sources of values are
  read, and the store then has a message that is not empty and an address the program can listen on.  Any number of clients
  come, one after the other: each connects, sends a request it does not keep alive for a URL that starts with a slash, and
  takes of what is sent as much as its socket has room for.  The kernel reports for each its connection, its bytes, and its
  socket writable as often as the answer has started buffers and once more, and at last \<open>SIGINT\<close> or \<open>SIGTERM\<close>.
  Then \<open>main\<close> returns 0, whatever events would have come later.  The world outside has then, client by client and
  behind what was there before, what of the answer with the message of the store the sockets have taken, which is all of
  it for a client exactly when none of its \<open>send\<close> took less than it was offered.  The open descriptors, the interest
  list, the open libraries and the allocated blocks of program and plugin together are what they were when \<open>main\<close> was
  called.
\<close>

theorem hello_program_runs:
  fixes mw :: "(RappContainer option, 'ps, bytes \<times> nat list) main_world"
  assumes "signals_work mw" "0 \<le> mw_epollfd mw" "k_epoll k = (\<lambda>_. None)"
    and "\<not> k_open k (mw_signalfd mw)" "\<not> k_open k (sys_socket (mw_listen mw))"
    and "sys_socket (mw_listen mw) \<noteq> mw_signalfd mw"
    and "answers (io_mem io) = []" "answers mp = []" "argv \<noteq> []"
    and "early_options (cw_argp (mw_config mw) ARGP_SILENT rappoptions argv) = [Argp_key ARG_LOAD (Some name)]" "mw_dlopen mw name = Some (rapp_plugin clock)"
    and "rapp_create empty_store mp = (Some h, err, config1, mp1)"
    and "declare_core_options config1 ((io_mem io)\<lparr>fresh := fresh (io_mem io) + 5, blocks := blocks (io_mem io) + 5\<rparr>) =
      (config2, m2)"
    and "read_sources (mw_config mw) argv config2 m2 = Some (Returned 0, config3, m3)"
    and "rapp_config_get_nth_string config3 ''hello'' ''message'' 0 mp1 = Some (ret, Some msg, mp2)" "msg \<noteq> []"
    and "listen_address config3 m3 = Some (address, port, m4)" "can_listen (mw_listen mw) address port"
    and "clients_ask (k_open k) mw answer x clients"
    and "0 \<le> clock" "nat clock < 86400 * (365 * 8030)"
    and "answer = hello_text (nat clock) msg ((new_response (mw_banner mw))\<lparr>resp_is_last := 1\<rparr>)"
    and "mw_read_signal mw (world_after answer x clients) = (Some sig, world_after answer x clients)" "sig \<in> {SIGINT, SIGTERM}"
  shows "\<exists>visits stop. map fst visits = clients \<and> (\<forall>rest. \<exists>mp' k' io'.
     rapp_main (mw\<lparr>mw_batches := concat (map visit_batches visits) @ [stop] # rest\<rparr>)
       handle uninit argv sg x (Some (r, y, mp)) k ld io =
       Some (0, world_after answer x clients, Some (r, y, mp'), k', ld, io') \<and>
     k_open k' = k_open k \<and> k_epoll k' = (\<lambda>_. None) \<and>
     blocks (io_mem io') + blocks mp' = blocks (io_mem io) + blocks mp) \<and>
     fst (world_after answer x clients) = fst x @ concat (map (\<lambda>c. reaching (cl_sends c) answer) clients) \<and>
     (\<forall>c \<in> set clients. reaching (cl_sends c) answer = answer \<longleftrightarrow>
        (\<forall>i < length (cl_sends c). length (take BUFSIZE (drop (i * BUFSIZE) answer)) \<le> cl_sends c ! i))"
proof -
  let ?m1 = "(io_mem io)\<lparr>fresh := fresh (io_mem io) + 5, blocks := blocks (io_mem io) + 5\<rparr>"
  let ?w = "Some (r, y, mp)" and ?w1 = "Some (r, y, mp1)" and ?l = "\<lparr>ld_mem = m3, ld_open = ld + 1\<rparr>"
  have mem: "answers ?m1 = []" using assms(7) by simp
  have s: "config_wf config3" "table_of config2 config3" "answers m4 = []"
    "outside config3 m4 - table_owned config2 + blocks mp2 = blocks ?m1 + blocks mp + 3 - config_owned empty_store"
    using hello_accounted[OF mem assms(8,12-15,17)] by simp_all
  note works = hello_plugin_works[OF assms(12), of clock r y]
  obtain c lg io1 where c: "cont_plugin c \<noteq> None" "cont_handle c = Some h"
    "sym_serve (rapp_plugin clock) = Some (cont_serve c)" "sym_destroy (rapp_plugin clock) = Some (cont_destroy c)"
    "sym_init (rapp_plugin clock) = Some (cont_init c)"
    "\<forall>bs. rapp_main (mw\<lparr>mw_batches := bs\<rparr>) handle uninit argv sg x ?w k ld io =
       map_option (\<lambda>(x, w, k, l). (0, x, w, k, ld_open l, logger_destroy lg (io1\<lparr>io_mem := ld_mem l\<rparr>)))
         (main_serve (mw\<lparr>mw_batches := bs\<rparr>) handle c (load_only name) config3 sg x ?w1 k ?l)"
    using main_reaches_serve[OF assms(7,9-11) works assms(13,14), of handle uninit sg x k ld]
    by (elim exE conjE) (rule that, assumption+)
  have lib: "cont_serve c = rapp_serve clock" "cont_init c = plugin_init" "cont_destroy c = plugin_destroy"
    using c(3-5) by (simp_all add: rapp_plugin_def)
  have name: "ra_container (load_only name) = Some name" by (simp add: load_only_def)
  have addr: "listen_address config3 (ld_mem ?l) = Some (address, port, m4)" using assms(17) by simp
  obtain visits stop where visits: "map fst visits = clients" and run: "\<forall>rest. \<exists>k' l'.
     main_serve (mw\<lparr>mw_batches := concat (map visit_batches visits) @ [stop] # rest\<rparr>)
       handle c (load_only name) config3 sg x ?w1 k ?l =
       Some (world_after answer x clients, Some (r, y, mp2\<lparr>blocks := blocks mp2 - 2\<rparr>), k', l') \<and>
     k_open k' = k_open k \<and> k_epoll k' = (\<lambda>_. None) \<and> ld_open l' = ld_open ?l - 1 \<and>
     blocks (ld_mem l') = outside config3 m4 - table_owned config2 - 4"
    using hello_main_serves[OF assms(1-6) addr s(3) assms(18) name c(1,2) lib assms(15) s(1,2) assms(19-21,16,22-24)] by blast
  have total: "outside config3 m4 - table_owned config2 - 4 - 1 + (blocks mp2 - 2) = blocks (io_mem io) + blocks mp"
    using s(4) by (simp add: empty_store_def config_owned_def)
  have "\<exists>mp' k' io'.
     rapp_main (mw\<lparr>mw_batches := concat (map visit_batches visits) @ [stop] # rest\<rparr>)
       handle uninit argv sg x ?w k ld io = Some (0, world_after answer x clients, Some (r, y, mp'), k', ld, io') \<and>
     k_open k' = k_open k \<and> k_epoll k' = (\<lambda>_. None) \<and>
     blocks (io_mem io') + blocks mp' = blocks (io_mem io) + blocks mp" for rest
    using run[rule_format, of rest] c(6) total by (fastforce simp: logger_destroy_owned)
  with visits world_after_bytes clients_reached[OF assms(19)] show ?thesis by blast
qed

text \<open>Nothing is configured: the store has the text that \<open>rapp_create\<close> gives as the default.\<close>

lemma hello_configured:
  assumes "answers m = []" "answers mp = []"
  shows "\<exists>config1 mp1 config2 m2 config3 m3 m4 mp2.
     rapp_create empty_store mp = (Some \<lparr>message = None\<rparr>, 0, config1, mp1) \<and>
     declare_core_options config1 m = (config2, m2) \<and>
     read_sources nothing_given argv config2 m2 = Some (Returned 0, config3, m3) \<and>
     rapp_config_get_nth_string config3 ''hello'' ''message'' 0 mp1 = Some (0, Some ''Hello world!'', mp2) \<and>
     listen_address config3 m3 = Some (''127.0.0.1'', 8080, m4)"
proof -
  have none: "(''hello'', ''message'') \<notin> dom (options_of empty_store)" by (simp add: empty_store_options)
  obtain config1 mp1 where c: "rapp_create empty_store mp = (Some \<lparr>message = None\<rparr>, 0, config1, mp1)" "answers mp1 = []"
    "config_wf config1" "argp_of config1 = argp_of empty_store" "options_of config1 = [(''hello'', ''message'') \<mapsto> hello_option]"
    using rapp_create_declares[OF assms(2) empty_store_facts(1) none] by (auto simp: empty_store_options)
  have new: "dom (options_of config1) \<inter> dom core_options = {}" by (simp add: c(5) core_options_def)
  obtain config2 m2 config3 m3 m4 where d: "declare_core_options config1 m = (config2, m2)"
    "read_sources nothing_given argv config2 m2 = Some (Returned 0, config3, m3)"
    "options_of config3 = options_of config1 ++ core_options" "listen_address config3 m3 = Some (''127.0.0.1'', 8080, m4)"
    using defaults_read[OF assms(1) c(3,4) new] by blast
  have "options_of config3 (''hello'', ''message'') = Some hello_option"
    by (simp add: d(3) c(5) map_add_def core_options_def)
  from default_string_read[OF this, of "''Hello world!''" mp1] c(2)
  obtain mp2 where "rapp_config_get_nth_string config3 ''hello'' ''message'' 0 mp1 = Some (0, Some ''Hello world!'', mp2)"
    by (auto simp: hello_option_def declared_def opt_setup_values_def)
  with c(1) d(1,2,4) show ?thesis by blast
qed

text \<open>A client of the program, as it is without any configuration.\<close>

definition hello_world :: "(RappContainer option, unit, bytes \<times> nat list) main_world" where
  "hello_world = client_world\<lparr>mw_config := nothing_given, mw_dlopen := \<lambda>_. Some (rapp_plugin 2)\<rparr>"

lemma hello_world_facts:
  "signals_work hello_world" "0 \<le> mw_epollfd hello_world" "k_epoll only_std = (\<lambda>_. None)"
  "\<not> k_open only_std (mw_signalfd hello_world)" "\<not> k_open only_std (sys_socket (mw_listen hello_world))"
  "sys_socket (mw_listen hello_world) \<noteq> mw_signalfd hello_world"
  "early_options (cw_argp (mw_config hello_world) ARGP_SILENT rappoptions argv) = [Argp_key ARG_LOAD (Some ''hello.so'')]"
  "mw_dlopen hello_world ''hello.so'' = Some (rapp_plugin 2)" "mw_config hello_world = nothing_given"
  "can_listen (mw_listen hello_world) ''127.0.0.1'' 8080"
  "client_asks (k_open only_std) hello_world hello_page (got, []) get_client"
  "mw_parser hello_world = get_parser False" "mw_banner hello_world = ''RApp-dev''"
  "mw_read_signal hello_world y = (Some SIGTERM, y)"
proof -
  show "client_asks (k_open only_std) hello_world hello_page (got, []) get_client"
    using client_asks_get[of got] by (simp add: client_asks_def client_calls_def hello_world_def)
qed (simp_all add: hello_world_def client_world_def signals_work_def only_std_def busy_port_def can_listen_def nothing_given_def
    load_events_def early_options_def key_defs dec.simps)

theorem hello_program_runs_witness:
  "\<exists>visits stop mp' k' io' :: (log_stream, unit) log_io. map fst visits = [get_client, get_client] \<and>
     rapp_main (hello_world\<lparr>mw_batches := concat (map visit_batches visits) @ [[stop]]\<rparr>) None (load_only ''hello.so'')
       [''rapp'', ''--load'', ''hello.so''] \<lparr>sg_blocked = {}, sg_reported = {}\<rparr> ([], []) (Some (new_response ''RApp'', ([], []), mem0))
       only_std 0 \<lparr>io_files = \<lambda>_. [], io_stderr = [], io_mem = mem0\<rparr> =
       Some (0, (hello_page @ hello_page, []), Some (new_response ''RApp'', ([], []), mp'), k', 0, io') \<and>
     k_open k' = k_open only_std \<and> blocks (io_mem io') + blocks mp' = 0"
proof -
  let ?io = "\<lparr>io_files = \<lambda>_. [], io_stderr = [], io_mem = mem0\<rparr> :: (log_stream, unit) log_io"
  let ?m = "(io_mem ?io)\<lparr>fresh := fresh (io_mem ?io) + 5, blocks := blocks (io_mem ?io) + 5\<rparr>"
  have mem: "answers ?m = []" "answers (io_mem ?io) = []" by simp_all
  have args: "[''rapp'', ''--load'', ''hello.so''] \<noteq> []" by simp
  obtain config1 mp1 config2 m2 config3 m3 m4 mp2 where d:
    "rapp_create empty_store mem0 = (Some \<lparr>message = None\<rparr>, 0, config1, mp1)"
    "declare_core_options config1 ?m = (config2, m2)"
    "read_sources nothing_given [''rapp'', ''--load'', ''hello.so''] config2 m2 = Some (Returned 0, config3, m3)"
    "rapp_config_get_nth_string config3 ''hello'' ''message'' 0 mp1 = Some (0, Some ''Hello world!'', mp2)"
    "listen_address config3 m3 = Some (''127.0.0.1'', 8080, m4)"
    using hello_configured[OF mem(1) answers_mem0] by blast
  note q = hello_world_facts
  have page: "hello_page = hello_text (nat 2) ''Hello world!'' ((new_response (mw_banner hello_world))\<lparr>resp_is_last := 1\<rparr>)"
    by (simp add: hello_page_def q(13))
  have clients: "clients_ask (k_open only_std) hello_world hello_page ([], []) [get_client, get_client]"
    using q(11) by (simp add: get_client_sends)
  have after: "world_after hello_page ([], []) [get_client, get_client] = (hello_page @ hello_page, [])" by (simp add: get_client_sends)
  have sig: "SIGTERM \<in> {SIGINT, SIGTERM}" by simp
  have side: "(0::int) \<le> 2" "nat 2 < 86400 * (365 * 8030)" "''Hello world!'' \<noteq> []" by simp_all
  from hello_program_runs[OF q(1-6) mem(2) answers_mem0 args q(7,8) d(1,2) d(3)[folded q(9)] d(4) side(3) d(5) q(10)
      clients side(1,2) page q(14) sig, of None "load_only ''hello.so''" "\<lparr>sg_blocked = {}, sg_reported = {}\<rparr>"
      "new_response ''RApp''" "([], [])" 0]
  obtain visits stop where visits: "map fst visits = [get_client, get_client]" and r: "\<forall>rest. \<exists>mp' k' io'.
     rapp_main (hello_world\<lparr>mw_batches := concat (map visit_batches visits) @ [stop] # rest\<rparr>)
       None (load_only ''hello.so'') [''rapp'', ''--load'', ''hello.so''] \<lparr>sg_blocked = {}, sg_reported = {}\<rparr> ([], [])
       (Some (new_response ''RApp'', ([], []), mem0)) only_std 0 ?io =
       Some (0, (hello_page @ hello_page, []), Some (new_response ''RApp'', ([], []), mp'), k', 0, io') \<and>
     k_open k' = k_open only_std \<and> k_epoll k' = (\<lambda>_. None) \<and>
     blocks (io_mem io') + blocks mp' = blocks (io_mem ?io) + blocks mem0"
    unfolding after by (elim exE conjE) (rule that, assumption+)
  from spec[OF r, of "[]"] obtain mp' k' and io' :: "(log_stream, unit) log_io" where e:
    "rapp_main (hello_world\<lparr>mw_batches := concat (map visit_batches visits) @ [[stop]]\<rparr>)
       None (load_only ''hello.so'') [''rapp'', ''--load'', ''hello.so''] \<lparr>sg_blocked = {}, sg_reported = {}\<rparr> ([], [])
       (Some (new_response ''RApp'', ([], []), mem0)) only_std 0 ?io =
       Some (0, (hello_page @ hello_page, []), Some (new_response ''RApp'', ([], []), mp'), k', 0, io')"
    "k_open k' = k_open only_std" "blocks (io_mem io') + blocks mp' = blocks (io_mem ?io) + blocks mem0"
    by (elim exE conjE) (rule that, assumption+)
  have none: "blocks (io_mem io') + blocks mp' = 0" using e(3) by (simp add: mem0_def)
  show ?thesis by (intro exI conjI) (rule visits e(1,2) none)+
qed

end
