(* ===== verification/Spec2Isabelle.thy ===== *)
theory Spec2Isabelle
  imports Collector Http_Response Http_Request Container Http_Router Logger Http_Request_Queue Config_Common
    Config_Api Config_Env Config_Yaml Config_Commandline ELoop Tcp_Connection Tcp_Server Http_Connection Http_Server
    Signal_Handler Hello_Plugin Config_Map Config_Sources Main_Program Connection_Steps Server_States
    Program_States Hello_Requests Connection_Life Program_Life Server_Isolation Delivery
    Accept_Failures Config_Balance Whole_Program Program_Run
begin

text \<open>
  RApp, an application container for HTTP written in C: an event loop over epoll accepts connections,
  feeds what it reads to a parser, hands every complete request to the container the URL is routed to,
  and writes the container's response back.  This library models the program under \<open>src/\<close>, its
  example container and its configuration, and proves what each part promises and how the parts
  work together.

  \<^bold>\<open>Conventions.\<close>  A struct is a record, an enum a datatype, a pointer that may be \<open>NULL\<close> an option.
  The allocator is the record \<open>mem\<close> of \<open>Memory\<close>: a list of answers (an allocation succeeds unless the
  next answer says otherwise), a counter of fresh addresses and the number of live blocks, so that
  every allocation failure is a branch and leaks are numbers; what the C library allocates for the program and the
  program has to give back - compiled patterns, the entries of a directory, an open log file - is counted apart
  (\<open>lib_blocks\<close>).  A result \<open>None\<close> of a whole operation
  stands for undefined behaviour or a failed \<open>assert\<close>: a read outside a buffer, a use of a freed object, a
  call through a null pointer.  Return values and error branches are those of the code; where the
  source does not look at a result, neither does the model.  16 and 32 bit fields are words; sizes
  are naturals.  Log lines are left out, except in \<open>Logger\<close>, which is about them.

  \<^bold>\<open>Theories, bottom up.\<close>
    \<^item> \<open>Rapp_Prelude\<close>: lists, options, runs of partial steps, and the interfaces several components share
      (\<open>run_opt\<close> and its simulation locale).  \<open>Memory\<close> (\<open>src/memory.c\<close>): the allocator.  \<open>C_Strings\<close>:
      decimal text, \<open>snprintf\<close>, case, search.  \<open>C_Time\<close>: \<open>gmtime\<close> and the date format of the
      responses.  \<open>Byte_Queue\<close>: the abstract queue a response refines.
    \<^item> \<open>Collector\<close> (\<open>src/collector.c\<close>): delayed frees; each scheduled object is freed exactly once.
    \<^item> \<open>Http_Response\<close> (\<open>src/httpresponse.c\<close>): the buffer as a byte queue, status lines, headers, error
      pages.  \<open>Http_Request\<close> (\<open>src/httprequest.c\<close>): ranges into the header text, look-up, body.
    \<^item> \<open>Container\<close> (\<open>src/container.c\<close>): loading of plugins and their calls; \<open>Hello_Plugin\<close>
      (\<open>containers/hello/rapp_plugin.c\<close>).  \<open>Http_Router\<close> (\<open>src/httprouter.c\<close>): chains of route packs against
      \<open>pick\<close>, the reference definition on the list of routes.
    \<^item> \<open>Logger\<close> (\<open>src/logger.c\<close>): levels, templates and streams.
    \<^item> \<open>Http_Request_Queue\<close> (\<open>src/httprequestqueue.c\<close>): the parser callbacks, from bytes to stored requests,
      and the inputs on which they leave the array or the buffer: the parser reads its chunk through the pointer
      it was given, so a callback that moves or cuts the buffer makes reading on undefined (\<open>reads_past\<close>).
    \<^item> \<open>Config_Common\<close>, \<open>Config_Api\<close>, \<open>Config_Env\<close>, \<open>Config_Yaml\<close>, \<open>Config_Commandline\<close>
      (\<open>src/config/*.c\<close>): the option store, its typed values, and the three sources of values.
      \<open>Config_Map\<close> is its abstraction, a map from section and name to option; \<open>Config_Sources\<close> composes
      the sources in the order the program reads them and proves which one wins (a parse of the command line
      returns or ends the process, \<open>ending\<close>); \<open>Config_Balance\<close> accounts
      for every block they take, up to the end of the store.
    \<^item> \<open>ELoop\<close> (\<open>src/eloop.c\<close>): the watch table against the kernel's interest list, dispatch and the loop.
      \<open>Signal_Handler\<close> (\<open>src/signalhandler.c\<close>), \<open>Tcp_Connection\<close> and \<open>Tcp_Server\<close> (\<open>src/tcpconnection.c\<close>,
      \<open>src/tcpserver.c\<close>), \<open>Http_Connection\<close> and \<open>Http_Server\<close> (\<open>src/httpconnection.c\<close>, \<open>src/httpserver.c\<close>):
      the clients of the loop, each restoring what it took.
    \<^item> \<open>Main_Program\<close> (\<open>src/main.c\<close>): start, run, stop, and the choice of logger and container.
    \<^item> \<open>Hello_Requests\<close>: requests for the example container through parser, queue, router, container and
      response; up to a hundred of them on a connection are answered in their order.
    \<^item> \<open>Connection_Steps\<close>: what a container may do to a response, and what a handler of a connection may
      change (\<open>keeps_response\<close>).  \<open>Server_States\<close>: the steps of a running server as a relation
      (\<open>server_step\<close>: a callback the loop holds, or a collection), and the invariant \<open>server_inv\<close> of its
      states.  \<open>Program_States\<close>: a started program is in such a state, and its loop makes such steps.
      \<open>Server_Isolation\<close>: the steps of the others leave a connection as it is.  \<open>Delivery\<close>: the write events of
      a connection among any steps of the others (\<open>written_among\<close>, which records how much of each buffer \<open>send\<close> took); its peer receives what was taken of
      its response and nothing else.
    \<^item> \<open>Accept_Failures\<close>: what is left of a client when one of the allocations of accepting it fails.
    \<^item> \<open>Connection_Life\<close>: one connection through the batches of the loop, from \<open>accept\<close> to its being freed.
      \<open>Program_Life\<close>: the program from its start, through clients that come one after the other, to its end.  \<open>Whole_Program\<close>: the function
      \<open>main\<close>, its exit status and what it leaves behind.  \<open>Program_Run\<close>: \<open>main\<close> with the example plugin, from the
      command line over the values it reads and the clients it serves to its exit.

  \<^bold>\<open>Interfaces.\<close>  Locales state what one component relies on in another: the byte queue a response
  implements, the steps a partial run simulates (watch table, signal table, configuration), the
  setters that keep the store well formed, the sources of values that respect options already set
  and account for their blocks,
  the free functions the collector runs, the containers a router serves (\<open>response_writer\<close>, which makes a
  router a \<open>request_handler\<close> for the queue: \<open>served_router\<close>), the containers that write to no socket
  themselves (\<open>quiet_router\<close>, a \<open>quiet_call\<close> for the queue).  Each is interpreted on
  the model's own operations in the theory that provides them.

  \<^bold>\<open>States and runs.\<close>  A server state is the loop, the kernel's tables, the allocator and the world: the
  server, its connections and \<open>'x\<close>, the state of the sockets, whatever it is.  The invariant says that a
  connection is open, registered for its three events and owner of its descriptor, or closed and about to
  be freed; that every watch is on an open descriptor and leads to a live object; and that the objects to be freed
  are distinct and alive.  Every callback and every collection keeps it, by rule induction for as long as
  the program runs, under one assumption on the kernel: \<open>accept\<close> returns a descriptor that was not open
  (\<open>accepts_new\<close>).  Allocations succeed in these theories; their failures are branches of the theories of
  the components, and \<open>Accept_Failures\<close> follows those of accepting a client through the layers.

  \<^bold>\<open>Parameters.\<close>  Code that is not part of the program is an argument: \<open>parser_lib\<close> (http_parser: the
  callbacks it reports for a chunk, how much of it it consumes, and its URL splitter), the token stream of libyaml, what \<open>argp\<close> does
  for its flags, a table of options and the arguments (the keys it hands to the parser, those that mark the parse
  included, or the status it ends the process with), \<open>fopen\<close>, \<open>getenv\<close>, the symbols \<open>dlopen\<close> finds, the answers of the socket calls and of
  \<open>epoll_wait\<close>, the clock.  What is assumed of them is stated in the theorems, with a witness.

  \<^bold>\<open>Loops.\<close>  Loops over data are structural.  The loops that need not end (skipping a YAML section,
  reading a file's tokens) are \<open>partial_function\<close>s, with theorems that say when they return.  The event
  loop runs over the finite list of batches \<open>epoll_wait\<close> returns, and ends when it is stopped or the
  list is used up, as it does when the call fails.  An answer of \<open>n\<close> started buffers takes \<open>n\<close> write events and
  one more to close its connection.

  \<^bold>\<open>Plugins.\<close>  A library is a table of five functions.  What its handle points to is a value that \<open>init\<close> returns
  changed; whatever else its functions change is in the world they are given.  \<open>rapp_plugin\<close> is the table of the example
  container; its world is its own account of blocks beside that of the program, and \<open>Program_Run\<close> adds up both.

  \<^bold>\<open>Not modelled.\<close>  The generated \<open>version.c\<close>, the test programs and their stubs, the build files and
  \<open>contrib/\<close>; the texts of log messages; the numeric contents of the argument parser's help output;
  \<open>close\<close> of the epoll descriptor when the loop is destroyed.  Of the functions under \<open>src/\<close> only \<open>logger_get\<close>
  and \<open>get_symbol\<close> (\<open>src/container.c\<close>) have no definition: the first returns a logger, the second is the look-up
  in a library's table of symbols.  The other lines without one are includes, prototypes, macros of the preprocessor
  and comments.
\<close>

end
